(* ===== verification/Go_Prelude.thy ===== *)
theory Go_Prelude
  imports Main "HOL-Library.Word" "HOL-Library.Sublist"
begin

text \<open>
  Shared vocabulary of the development: the Go values the components are written with
  (identifiers, instants, 64-bit durations, byte strings with \<^verbatim>\<open>strings.TrimSpace\<close>),
  the SQL idioms of the PostgreSQL adapters (\<^verbatim>\<open>SELECT ... WHERE\<close>, \<^verbatim>\<open>UPDATE ... WHERE\<close>,
  \<^verbatim>\<open>count(*)\<close> over a table held as a list of rows), results with errors as values, and the
  interface of an invariant of a transition system.
\<close>

named_theorems sql_simps \<open>rewriting of the SQL idioms\<close>
named_theorems trim_simps \<open>rewriting of strings.TrimSpace\<close>

subsection \<open>Identifiers, instants, durations\<close>

text \<open>
  \<^verbatim>\<open>uuid.UUID\<close> is sixteen bytes, compared bytewise; \<^verbatim>\<open>uuid.Nil\<close> is all zero.
  An instant is a count of nanoseconds; \<^verbatim>\<open>time.Duration\<close> is a signed 64-bit count, so the
  operations that can overflow are written with \<open>wrap64\<close>.
\<close>

type_synonym uuid = "128 word"
type_synonym instant = int
type_synonym duration = int

abbreviation uuid_Nil :: uuid where
  "uuid_Nil \<equiv> 0"

definition wrap64 :: "int \<Rightarrow> int" where
  "wrap64 x = (x + 2 ^ 63) mod 2 ^ 64 - 2 ^ 63"

definition int64 :: "int \<Rightarrow> bool" where
  "int64 x \<longleftrightarrow> - (2 ^ 63) \<le> x \<and> x < 2 ^ 63"

lemma wrap64_id [simp]: "int64 x \<Longrightarrow> wrap64 x = x"
  by (simp add: wrap64_def int64_def)

lemma int64_wrap64 [simp]: "int64 (wrap64 x)"
  by (simp add: wrap64_def int64_def)

definition second :: duration where
  "second = 1000000000"

definition minute :: duration where
  "minute = 60 * second"

text \<open>Go's integer division truncates towards zero.\<close>

definition quot :: "int \<Rightarrow> int \<Rightarrow> int" where
  "quot a b = (if (a < 0) = (b < 0) then \<bar>a\<bar> div \<bar>b\<bar> else - (\<bar>a\<bar> div \<bar>b\<bar>))"

lemma quot_pos [simp]: "0 \<le> a \<Longrightarrow> 0 < b \<Longrightarrow> quot a b = a div b"
  by (simp add: quot_def)

subsection \<open>Results with an error\<close>

type_synonym ('e, 'a) result = "'e + 'a"

abbreviation is_ok :: "'e + 'a \<Rightarrow> bool" where
  "is_ok r \<equiv> \<exists>a. r = Inr a"

subsection \<open>Byte strings: strings.TrimSpace\<close>

text \<open>
  \<^verbatim>\<open>strings.TrimSpace\<close> removes the leading and trailing code points with the Unicode
  \<^verbatim>\<open>White_Space\<close> property. A Go string is a sequence of bytes, so each of those code points
  is the byte sequence of its UTF-8 encoding. Decoding from either end meets a rune
  boundary exactly where one of these sequences begins or ends, so removing a code point is
  removing a prefix or a suffix.
\<close>

definition go_spaces :: "string list" where
  "go_spaces =
     [[CHR 0x09], [CHR 0x0A], [CHR 0x0B], [CHR 0x0C], [CHR 0x0D], [CHR 0x20], [CHR 0xC2, CHR 0x85], [CHR 0xC2, CHR 0xA0],
      [CHR 0xE1, CHR 0x9A, CHR 0x80], [CHR 0xE2, CHR 0x80, CHR 0x80], [CHR 0xE2, CHR 0x80, CHR 0x81],
      [CHR 0xE2, CHR 0x80, CHR 0x82], [CHR 0xE2, CHR 0x80, CHR 0x83], [CHR 0xE2, CHR 0x80, CHR 0x84],
      [CHR 0xE2, CHR 0x80, CHR 0x85], [CHR 0xE2, CHR 0x80, CHR 0x86], [CHR 0xE2, CHR 0x80, CHR 0x87],
      [CHR 0xE2, CHR 0x80, CHR 0x88], [CHR 0xE2, CHR 0x80, CHR 0x89], [CHR 0xE2, CHR 0x80, CHR 0x8A],
      [CHR 0xE2, CHR 0x80, CHR 0xA8], [CHR 0xE2, CHR 0x80, CHR 0xA9], [CHR 0xE2, CHR 0x80, CHR 0xAF],
      [CHR 0xE2, CHR 0x81, CHR 0x9F], [CHR 0xE3, CHR 0x80, CHR 0x80]]"

fun strip_one :: "string list \<Rightarrow> string \<Rightarrow> string option" where
  "strip_one [] s = None"
| "strip_one (p # ps) s =
     (if p \<noteq> [] \<and> take (length p) s = p then Some (drop (length p) s) else strip_one ps s)"

lemma strip_one_shorter: "strip_one ps s = Some t \<Longrightarrow> length t < length s"
proof (induction ps)
  case (Cons p ps)
  have "length s - length p < length s" if "p \<noteq> []" "take (length p) s = p"
    using that by (metis diff_less length_greater_0_conv take_eq_Nil)
  with Cons show ?case by (auto split: if_splits)
qed simp

function strip_all :: "string list \<Rightarrow> string \<Rightarrow> string" where
  "strip_all ps s = (case strip_one ps s of None \<Rightarrow> s | Some t \<Rightarrow> strip_all ps t)"
  by pat_completeness auto
termination
  by (relation "measure (\<lambda>(ps, s). length s)") (auto dest: strip_one_shorter)

declare strip_all.simps [simp del]

text \<open>Equations for the kernel's evaluator, which would unfold the recursion under the \<open>case\<close>.\<close>

definition strip_rest :: "string list \<Rightarrow> string \<Rightarrow> string option \<Rightarrow> string" where
  "strip_rest ps s r = (case r of None \<Rightarrow> s | Some t \<Rightarrow> strip_all ps t)"

lemma strip_rest_code [code]: "strip_rest ps s None = s" "strip_rest ps s (Some t) = strip_all ps t"
  by (simp_all add: strip_rest_def)

lemma strip_all_code [code]: "strip_all ps s = strip_rest ps s (strip_one ps s)"
  by (subst strip_all.simps) (simp add: strip_rest_def)

definition TrimLeft :: "string \<Rightarrow> string" where
  "TrimLeft s = strip_all go_spaces s"

definition TrimRight :: "string \<Rightarrow> string" where
  "TrimRight s = rev (strip_all (map rev go_spaces) (rev s))"

definition TrimSpace :: "string \<Rightarrow> string" where
  "TrimSpace s = TrimRight (TrimLeft s)"

lemma strip_one_NoneI: "strip_one ps s = None \<Longrightarrow> prefix t s \<Longrightarrow> strip_one ps t = None"
proof (induction ps)
  case (Cons p ps)
  have "take (length p) t = p \<Longrightarrow> take (length p) s = p"
    using \<open>prefix t s\<close> by (metis append_eq_conv_conj append_take_drop_id prefix_def prefix_order.trans take_is_prefix)
  with Cons show ?case by (auto split: if_splits)
qed simp

lemma strip_all_stops: "strip_one ps (strip_all ps s) = None"
proof (induction ps s rule: strip_all.induct)
  case (1 ps s)
  then show ?case by (subst strip_all.simps) (auto split: option.split)
qed

lemma strip_all_fixed: "strip_one ps s = None \<Longrightarrow> strip_all ps s = s"
  by (subst strip_all.simps) simp

lemma strip_one_suffix: "strip_one ps s = Some t \<Longrightarrow> suffix t s"
  by (induction ps) (auto split: if_splits simp: suffix_drop)

lemma strip_all_suffix: "suffix (strip_all ps s) s"
proof (induction ps s rule: strip_all.induct)
  case (1 ps s)
  show ?case
  proof (cases "strip_one ps s")
    case None
    then show ?thesis by (simp add: strip_all_fixed)
  next
    case (Some t)
    with 1 have "suffix (strip_all ps t) t" by simp
    also have "suffix t s" using Some by (rule strip_one_suffix)
    finally show ?thesis using Some by (simp add: strip_all.simps [of ps s])
  qed
qed

lemma TrimRight_prefix: "prefix (TrimRight s) s"
  using strip_all_suffix [of "map rev go_spaces" "rev s"]
  by (simp add: TrimRight_def suffix_to_prefix)

lemma TrimLeft_suffix: "suffix (TrimLeft s) s"
  by (simp add: TrimLeft_def strip_all_suffix)

lemma TrimSpace_idem [simp]: "TrimSpace (TrimSpace s) = TrimSpace s"
proof -
  let ?u = "TrimSpace s"
  have "strip_one go_spaces (TrimLeft s) = None"
    by (simp add: TrimLeft_def strip_all_stops)
  then have "strip_one go_spaces ?u = None"
    unfolding TrimSpace_def by (rule strip_one_NoneI) (rule TrimRight_prefix)
  then have l: "TrimLeft ?u = ?u"
    by (simp add: TrimLeft_def strip_all_fixed)
  have "strip_one (map rev go_spaces) (rev ?u) = None"
    by (simp add: TrimSpace_def TrimRight_def strip_all_stops)
  then have r: "TrimRight ?u = ?u"
    by (simp add: TrimRight_def strip_all_fixed)
  show ?thesis
    by (simp add: TrimSpace_def [of ?u] l r)
qed

lemma length_TrimSpace: "length (TrimSpace s) \<le> length s"
proof -
  have "length (TrimRight (TrimLeft s)) \<le> length (TrimLeft s)"
    by (rule prefix_length_le) (rule TrimRight_prefix)
  also have "length (TrimLeft s) \<le> length s"
    by (rule suffix_length_le) (rule TrimLeft_suffix)
  finally show ?thesis by (simp add: TrimSpace_def)
qed

lemma TrimSpace_Nil [simp]: "TrimSpace [] = []"
  using length_TrimSpace [of "[]"] by simp

text \<open>A string whose first and last byte begin and end no space sequence is left alone.\<close>

lemma strip_one_heads:
  "s \<noteq> [] \<Longrightarrow> hd s \<notin> hd ` (set ps - {[]}) \<Longrightarrow> strip_one ps s = None"
proof (induction ps)
  case (Cons p ps)
  have "\<not> (p \<noteq> [] \<and> take (length p) s = p)"
  proof
    assume p: "p \<noteq> [] \<and> take (length p) s = p"
    then have "hd s = hd p"
      by (metis hd_take length_greater_0_conv)
    with Cons.prems p show False by auto
  qed
  with Cons show ?case by auto
qed simp

lemma TrimSpace_plain:
  assumes "s \<noteq> []" "hd s \<notin> hd ` (set go_spaces - {[]})" "last s \<notin> hd ` (set (map rev go_spaces) - {[]})"
  shows "TrimSpace s = s"
proof -
  have "TrimLeft s = s"
    unfolding TrimLeft_def by (rule strip_all_fixed [OF strip_one_heads [OF assms(1,2)]])
  moreover have "TrimRight s = s"
    unfolding TrimRight_def
    using strip_all_fixed [OF strip_one_heads [of "rev s" "map rev go_spaces"]] assms(1,3) by (simp add: hd_rev)
  ultimately show ?thesis by (simp add: TrimSpace_def)
qed

subsection \<open>SQL idioms over a table\<close>

text \<open>
  A table is the list of its rows in insertion order.
  \<open>upd_where\<close> is \<^verbatim>\<open>UPDATE ... SET ... WHERE\<close>, \<open>count_where\<close> both \<^verbatim>\<open>count(*)\<close> and
  the \<^verbatim>\<open>RowsAffected\<close> of an update with that \<^verbatim>\<open>WHERE\<close> clause, and \<open>find\<close> a query
  for the row of a key.
\<close>

definition upd_where :: "('r \<Rightarrow> bool) \<Rightarrow> ('r \<Rightarrow> 'r) \<Rightarrow> 'r list \<Rightarrow> 'r list" where
  "upd_where P f rows = map (\<lambda>r. if P r then f r else r) rows"

definition count_where :: "('r \<Rightarrow> bool) \<Rightarrow> 'r list \<Rightarrow> nat" where
  "count_where P rows = length (filter P rows)"

lemma upd_where_Nil [simp, sql_simps]: "upd_where P f [] = []"
  by (simp add: upd_where_def)

lemma upd_where_Cons [simp, sql_simps]:
  "upd_where P f (r # rows) = (if P r then f r else r) # upd_where P f rows"
  by (simp add: upd_where_def)

lemma upd_where_append [simp, sql_simps]: "upd_where P f (xs @ ys) = upd_where P f xs @ upd_where P f ys"
  by (simp add: upd_where_def)

lemma count_where_Nil [simp, sql_simps]: "count_where P [] = 0"
  by (simp add: count_where_def)

lemma count_where_Cons [simp, sql_simps]:
  "count_where P (r # rows) = (if P r then 1 else 0) + count_where P rows"
  by (simp add: count_where_def)

lemma count_where_append [simp, sql_simps]:
  "count_where P (xs @ ys) = count_where P xs + count_where P ys"
  by (simp add: count_where_def)

lemma length_upd_where [simp]: "length (upd_where P f rows) = length rows"
  by (simp add: upd_where_def)

lemma set_upd_where: "set (upd_where P f rows) = (\<lambda>r. if P r then f r else r) ` set rows"
  by (simp add: upd_where_def)

lemma upd_where_none: "(\<And>r. r \<in> set rows \<Longrightarrow> \<not> P r) \<Longrightarrow> upd_where P f rows = rows"
  by (induction rows) auto

lemma upd_where_cong [fundef_cong]:
  "rows = rows' \<Longrightarrow> (\<And>r. r \<in> set rows' \<Longrightarrow> P r = P' r) \<Longrightarrow>
   (\<And>r. r \<in> set rows' \<Longrightarrow> P' r \<Longrightarrow> f r = f' r) \<Longrightarrow> upd_where P f rows = upd_where P' f' rows'"
  by (auto simp: upd_where_def)

lemma count_where_cong:
  "(\<And>r. r \<in> set rows \<Longrightarrow> P r = Q r) \<Longrightarrow> count_where P rows = count_where Q rows"
  by (induction rows) auto

lemma count_where_mono:
  "(\<And>r. r \<in> set rows \<Longrightarrow> P r \<Longrightarrow> Q r) \<Longrightarrow> count_where P rows \<le> count_where Q rows"
  by (induction rows) auto

lemma count_where_0_iff: "count_where P rows = 0 \<longleftrightarrow> (\<forall>r \<in> set rows. \<not> P r)"
  by (induction rows) auto

lemma count_where_pos_iff: "0 < count_where P rows \<longleftrightarrow> (\<exists>r \<in> set rows. P r)"
  using count_where_0_iff [of P rows] by auto

lemma count_where_upd:
  "count_where Q (upd_where P f rows) = count_where (\<lambda>r. if P r then Q (f r) else Q r) rows"
  by (induction rows) auto

lemma map_upd_where_key:
  "(\<And>r. k (f r) = k r) \<Longrightarrow> map k (upd_where P f rows) = map k rows"
  by (induction rows) auto

text \<open>Rows with a key: a table whose key column is distinct.\<close>

lemma count_where_key:
  "distinct (map k rows) \<Longrightarrow> count_where (\<lambda>r. k r = a \<and> P r) rows \<le> 1"
  by (induction rows) (auto simp: count_where_0_iff image_iff)

lemma count_where_key_one:
  assumes "distinct (map k rows)" and "r \<in> set rows" and "P r"
  shows "count_where (\<lambda>x. k x = k r \<and> P x) rows = 1"
proof -
  have "0 < count_where (\<lambda>x. k x = k r \<and> P x) rows"
    using assms(2,3) by (auto simp: count_where_pos_iff)
  moreover have "count_where (\<lambda>x. k x = k r \<and> P x) rows \<le> 1"
    using assms(1) by (rule count_where_key)
  ultimately show ?thesis by simp
qed

text \<open>
  An update whose condition names the key of one row is the update of the rows with that key.
\<close>

lemma upd_where_key:
  assumes "distinct (map k rows)" and "r \<in> set rows" and "P r" and "\<And>x. P x \<Longrightarrow> k x = k r"
  shows "upd_where P f rows = upd_where (\<lambda>x. k x = k r) f rows"
proof (rule upd_where_cong [OF refl])
  fix x assume "x \<in> set rows"
  then show "P x = (k x = k r)"
    using assms by (metis distinct_map inj_onD)
qed simp

lemma filter_upd_where:
  "(\<And>r. K (f r) = K r) \<Longrightarrow> filter K (upd_where P f rows) = upd_where P f (filter K rows)"
  by (induction rows) auto

lemma find_key:
  "distinct (map k rows) \<Longrightarrow> r \<in> set rows \<Longrightarrow> find (\<lambda>x. k x = k r) rows = Some r"
  by (induction rows) (auto simp: image_iff)

lemma find_SomeD: "find P xs = Some x \<Longrightarrow> x \<in> set xs \<and> P x"
  by (auto simp: find_Some_iff)

lemma find_NoneD: "find P xs = None \<Longrightarrow> x \<in> set xs \<Longrightarrow> \<not> P x"
  by (auto simp: find_None_iff)

lemma find_exists: "x \<in> set xs \<Longrightarrow> P x \<Longrightarrow> \<exists>y. find P xs = Some y"
  by (metis find_None_iff not_None_eq)

lemma find_append: "find P (xs @ ys) = (case find P xs of None \<Rightarrow> find P ys | Some x \<Rightarrow> Some x)"
  by (induction xs) auto

lemma find_map: "map_option k (find (\<lambda>x. P (k x)) xs) = find P (map k xs)"
  by (induction xs) auto

lemma distinct_map_keyD:
  "distinct (map k rows) \<Longrightarrow> x \<in> set rows \<Longrightarrow> y \<in> set rows \<Longrightarrow> k x = k y \<Longrightarrow> x = y"
  by (auto simp: distinct_map dest: inj_onD)

subsection \<open>Invariants of a transition system\<close>

text \<open>
  The contract under which a component's step relation keeps a property: it holds of the
  initial states and every step keeps it. Every component that is a state machine
  interprets it.
\<close>

inductive runs :: "('s \<Rightarrow> 's \<Rightarrow> bool) \<Rightarrow> 's \<Rightarrow> 's \<Rightarrow> bool" for step where
  runs_refl: "runs step s s"
| runs_step: "runs step s t \<Longrightarrow> step t u \<Longrightarrow> runs step s u"

lemma runs_single: "step s t \<Longrightarrow> runs step s t"
  by (rule runs_step [OF runs_refl])

lemma runs_trans: "runs step t u \<Longrightarrow> runs step s t \<Longrightarrow> runs step s u"
  by (induction rule: runs.induct) (auto intro: runs_step)

locale invariant =
  fixes start :: "'s \<Rightarrow> bool"
    and step :: "'s \<Rightarrow> 's \<Rightarrow> bool"
    and inv :: "'s \<Rightarrow> bool"
  assumes inv_start: "start s \<Longrightarrow> inv s"
    and inv_step: "step s t \<Longrightarrow> inv s \<Longrightarrow> inv t"
begin

lemma inv_runs: "runs step s t \<Longrightarrow> inv s \<Longrightarrow> inv t"
  by (induction rule: runs.induct) (auto intro: inv_step)

lemma inv_reachable: "start s \<Longrightarrow> runs step s t \<Longrightarrow> inv t"
  using inv_runs inv_start by blast

end

text \<open>
  A relation between a state and its successor that is reflexive and transitive and holds
  of every step from an invariant state holds along every run from one.
\<close>

locale guarantee = invariant +
  fixes rel :: "'s \<Rightarrow> 's \<Rightarrow> bool"
  assumes rel_refl: "rel s s"
    and rel_trans: "rel s t \<Longrightarrow> rel t u \<Longrightarrow> rel s u"
    and rel_step: "step s t \<Longrightarrow> inv s \<Longrightarrow> rel s t"
begin

lemma rel_runs: "runs step s t \<Longrightarrow> inv s \<Longrightarrow> rel s t"
proof (induction rule: runs.induct)
  case (runs_step s t u)
  then have "inv t" using inv_runs by blast
  with runs_step show ?case using rel_step rel_trans by blast
qed (rule rel_refl)

end

end
