(* ===== verification/Rate_Limits.thy ===== *)
theory Rate_Limits
  imports Go_Prelude "HOL-Library.AList" "HOL-Library.Multiset"
begin

text \<open>
  The rate limiters: the per-key fixed-window throttler of the domain services
  (\<^verbatim>\<open>internal/security/throttle.go\<close>), the deny-by-default guards
  (\<^verbatim>\<open>internal/security/guard.go\<close>) and the limiter of the HTTP routes
  (\<^verbatim>\<open>internal/api/ratelimit.go\<close>). Each method runs under its mutex, so it is one function
  of the state; \<^verbatim>\<open>time.Now()\<close> is an argument. A Go map is an association list with
  distinct keys; where the code ranges over it, the order is an argument.
\<close>

subsection \<open>Throttler\<close>

record bucket =
  bk_count :: int
  bk_opened :: instant

record throttler =
  th_window :: duration
  th_limit :: int
  th_buckets :: "(string \<times> bucket) list"
  th_lastPrune :: instant

definition pruneThreshold :: nat where
  "pruneThreshold = 4096"

text \<open>The zero \<^verbatim>\<open>time.Time\<close> of a new throttler is \<open>zero_time\<close>, long before any clock reading.\<close>

definition NewThrottler :: "duration \<Rightarrow> int \<Rightarrow> instant \<Rightarrow> throttler" where
  "NewThrottler window limit zero_time =
     (let window = (if window \<le> 0 then minute else window);
          limit = (if limit \<le> 0 then 1 else limit)
      in \<lparr>th_window = window, th_limit = limit, th_buckets = [], th_lastPrune = zero_time\<rparr>)"

definition pruneLocked :: "instant \<Rightarrow> throttler \<Rightarrow> throttler" where
  "pruneLocked now t =
     t\<lparr>th_buckets := filter (\<lambda>(k, b). \<not> now - bk_opened b \<ge> th_window t) (th_buckets t), th_lastPrune := now\<rparr>"

definition Throttler_Allow :: "instant \<Rightarrow> string \<Rightarrow> throttler \<Rightarrow> bool \<times> throttler" where
  "Throttler_Allow now key t =
     (let b = (case map_of (th_buckets t) key of
                 None \<Rightarrow> \<lparr>bk_count = 0, bk_opened = now\<rparr>
               | Some b \<Rightarrow> if now - bk_opened b \<ge> th_window t then \<lparr>bk_count = 0, bk_opened = now\<rparr> else b)
      in if bk_count b \<ge> th_limit t
         then (False, t\<lparr>th_buckets := AList.update key b (th_buckets t)\<rparr>)
         else let t1 = t\<lparr>th_buckets := AList.update key (b\<lparr>bk_count := bk_count b + 1\<rparr>) (th_buckets t)\<rparr>
              in (True, if length (th_buckets t1) \<ge> pruneThreshold \<and> now - th_lastPrune t1 > minute
                        then pruneLocked now t1 else t1))"

definition Throttler_Reset :: "string \<Rightarrow> throttler \<Rightarrow> throttler" where
  "Throttler_Reset key t = t\<lparr>th_buckets := AList.delete key (th_buckets t)\<rparr>"

subsection \<open>Guards\<close>

datatype guard_error = ErrMissingWorkspace | ErrMissingActor

definition RequireWorkspace :: "uuid \<Rightarrow> guard_error option" where
  "RequireWorkspace ws = (if ws = uuid_Nil then Some ErrMissingWorkspace else None)"

definition RequireHuman :: "string \<Rightarrow> guard_error option" where
  "RequireHuman actor = (if TrimSpace actor = [] then Some ErrMissingActor else None)"

subsection \<open>The contract of a fixed-window limiter\<close>

text \<open>
  What a client may rely on, in terms of the open window of a key (its opening time and the
  hits it has granted): an absent or elapsed window is opened anew and grants the hit, a
  live one grants while its budget lasts, and other keys lose at most an elapsed window.
\<close>

locale window_limiter =
  fixes allow :: "instant \<Rightarrow> 'k \<Rightarrow> 's \<Rightarrow> bool \<times> 's"
    and opened :: "'s \<Rightarrow> 'k \<Rightarrow> (instant \<times> int) option"
    and valid :: "'s \<Rightarrow> bool"
    and window :: duration
    and limit :: int
  assumes window_pos: "0 < window" and limit_pos: "1 \<le> limit"
    and opened_nonneg: "valid s \<Longrightarrow> opened s k = Some (t, c) \<Longrightarrow> 0 \<le> c"
    and valid_allow: "valid s \<Longrightarrow> valid (snd (allow now k s))"
    and allow_new: "valid s \<Longrightarrow> (case opened s k of None \<Rightarrow> True | Some (t, c) \<Rightarrow> now - t \<ge> window) \<Longrightarrow>
        fst (allow now k s) \<and> opened (snd (allow now k s)) k = Some (now, 1)"
    and allow_live: "valid s \<Longrightarrow> opened s k = Some (t, c) \<Longrightarrow> now - t < window \<Longrightarrow> c < limit \<Longrightarrow>
        fst (allow now k s) \<and> opened (snd (allow now k s)) k = Some (t, c + 1)"
    and allow_full: "valid s \<Longrightarrow> opened s k = Some (t, c) \<Longrightarrow> now - t < window \<Longrightarrow> c \<ge> limit \<Longrightarrow>
        \<not> fst (allow now k s) \<and> opened (snd (allow now k s)) k = Some (t, c)"
    and allow_other: "valid s \<Longrightarrow> j \<noteq> k \<Longrightarrow> opened (snd (allow now k s)) j = opened s j
        \<or> (opened (snd (allow now k s)) j = None \<and> (\<exists>t c. opened s j = Some (t, c) \<and> now - t \<ge> window))"
begin

text \<open>The number of hits granted to \<open>k\<close> at times in \<open>[a, a + window)\<close> along a list of calls.\<close>

fun granted :: "'k \<Rightarrow> instant \<Rightarrow> (instant \<times> 'k) list \<Rightarrow> 's \<Rightarrow> int" where
  "granted k a [] s = 0"
| "granted k a ((now, j) # calls) s =
     (if j = k \<and> fst (allow now j s) \<and> a \<le> now \<and> now < a + window then 1 else 0)
     + granted k a calls (snd (allow now j s))"

text \<open>
  The hits \<open>k\<close> can still be granted in the interval when the calls to come are at \<open>now\<close> or
  later: nothing after the interval, what a window opened inside it has left, and otherwise
  at most the rest of the window that reaches into it and one more.
\<close>

definition potential :: "instant \<Rightarrow> (instant \<times> int) option \<Rightarrow> instant \<Rightarrow> int" where
  "potential a v now =
     (if a + window \<le> now then 0
      else case v of
        None \<Rightarrow> if a \<le> now then limit else 2 * limit
      | Some (t, c) \<Rightarrow>
          if t + window \<le> now then (if a \<le> now then limit else 2 * limit)
          else if a \<le> t then max 0 (limit - c)
          else if a \<le> now then limit + max 0 (limit - c)
          else 2 * limit)"

lemma potential_bounds:
  "(case v of None \<Rightarrow> True | Some (t, c) \<Rightarrow> 0 \<le> c) \<Longrightarrow> 0 \<le> potential a v now \<and> potential a v now \<le> 2 * limit"
  using limit_pos by (auto simp: potential_def split: option.splits)

lemma potential_later:
  "now \<le> n \<Longrightarrow> (case v of None \<Rightarrow> True | Some (t, c) \<Rightarrow> 0 \<le> c) \<Longrightarrow> potential a v n \<le> potential a v now"
  using limit_pos by (auto simp: potential_def split: option.splits)

lemma potential_step:
  assumes "valid s" "now \<le> n"
  shows "(if fst (allow n k s) \<and> a \<le> n \<and> n < a + window then 1 else 0)
    + potential a (opened (snd (allow n k s)) k) n \<le> potential a (opened s k) now"
proof (cases "opened s k")
  case None
  with allow_new [OF assms(1), where k = k and now = n] show ?thesis
    using assms(2) limit_pos window_pos by (auto simp: potential_def)
next
  case (Some v)
  obtain t c where v: "v = (t, c)" by fastforce
  have c: "0 \<le> c" using opened_nonneg assms(1) Some v by blast
  consider "n - t \<ge> window" | "n - t < window" "c < limit" | "n - t < window" "c \<ge> limit" by linarith
  then show ?thesis
  proof cases
    case 1
    with allow_new [OF assms(1), where k = k and now = n] Some v show ?thesis
      using assms(2) limit_pos window_pos c by (auto simp: potential_def)
  next
    case 2
    with allow_live [OF assms(1), where k = k and t = t and c = c and now = n] Some v show ?thesis
      using assms(2) limit_pos window_pos c by (auto simp: potential_def)
  next
    case 3
    with allow_full [OF assms(1), where k = k and t = t and c = c and now = n] Some v show ?thesis
      using assms(2) limit_pos window_pos c by (auto simp: potential_def)
  qed
qed

lemma potential_other:
  assumes "valid s" "now \<le> n" "j \<noteq> k"
  shows "potential a (opened (snd (allow n j s)) k) n \<le> potential a (opened s k) now"
proof -
  have c: "case opened s k of None \<Rightarrow> True | Some (t, c) \<Rightarrow> 0 \<le> c"
    using opened_nonneg [OF assms(1)] by (auto split: option.splits)
  from allow_other [OF assms(1), where j = k and k = j and now = n] assms(3)
  consider "opened (snd (allow n j s)) k = opened s k"
    | t c where "opened (snd (allow n j s)) k = None" "opened s k = Some (t, c)" "n - t \<ge> window"
    by blast
  then show ?thesis
  proof cases
    case 1
    then show ?thesis using potential_later [OF assms(2) c] by simp
  next
    case 2
    then have "potential a None n = potential a (opened s k) n"
      by (auto simp: potential_def)
    then show ?thesis using 2 potential_later [OF assms(2) c] by simp
  qed
qed

lemma granted_potential:
  "valid s \<Longrightarrow> sorted (now # map fst calls) \<Longrightarrow> granted k a calls s \<le> potential a (opened s k) now"
proof (induction calls arbitrary: s now)
  case Nil
  have "case opened s k of None \<Rightarrow> True | Some (t, c) \<Rightarrow> 0 \<le> c"
    using opened_nonneg [OF Nil(1)] by (auto split: option.splits)
  with potential_bounds show ?case by simp
next
  case (Cons call calls)
  obtain n j where call: "call = (n, j)" by fastforce
  have "granted k a calls (snd (allow n j s)) \<le> potential a (opened (snd (allow n j s)) k) n"
    using Cons.prems call by (intro Cons.IH valid_allow) auto
  moreover have "now \<le> n" using Cons.prems(2) call by simp
  ultimately show ?case
    using potential_step [OF Cons.prems(1), of now n k a] potential_other [OF Cons.prems(1), of now n j k a]
    by (cases "j = k") (auto simp: call)
qed

text \<open>
  Any interval as long as the window grants a key at most twice the limit, and at most the
  limit when no window of the key is open as it begins.
\<close>

lemma granted_le:
  assumes "valid s" "sorted (map fst calls)"
  shows "granted k a calls s \<le> 2 * limit"
proof (cases calls)
  case Nil
  then show ?thesis using limit_pos by simp
next
  case (Cons call rest)
  have "sorted (fst call # map fst calls)"
    using assms(2) Cons by simp
  from granted_potential [OF assms(1) this, of k a] show ?thesis
    using potential_bounds [of "opened s k" a "fst call"] opened_nonneg [OF assms(1)]
    by (fastforce split: option.splits)
qed

lemma granted_fresh_le:
  assumes "valid s" "sorted (a # map fst calls)" "opened s k = None"
  shows "granted k a calls s \<le> limit"
  using granted_potential [OF assms(1,2), of k a] assms(3) window_pos by (simp add: potential_def)

end

subsection \<open>The throttler keeps the contract\<close>

lemma map_of_filter_distinct:
  "distinct (map fst xs) \<Longrightarrow>
   map_of (filter P xs) k = (case map_of xs k of None \<Rightarrow> None | Some v \<Rightarrow> if P (k, v) then Some v else None)"
proof (induction xs)
  case (Cons x xs)
  obtain j w where x: "x = (j, w)" by fastforce
  have "j \<notin> fst ` set (filter P xs)"
    using Cons.prems x by auto
  then have "map_of (filter P xs) j = None" "map_of xs j = None"
    using Cons.prems x by (auto simp: map_of_eq_None_iff)
  with Cons x show ?case by auto
qed simp

lemma distinct_keys_filter: "distinct (map fst xs) \<Longrightarrow> distinct (map fst (filter P xs))"
  by (induction xs) auto

definition th_opened :: "throttler \<Rightarrow> string \<Rightarrow> (instant \<times> int) option" where
  "th_opened t k = map_option (\<lambda>b. (bk_opened b, bk_count b)) (map_of (th_buckets t) k)"

definition th_valid :: "duration \<Rightarrow> int \<Rightarrow> throttler \<Rightarrow> bool" where
  "th_valid window limit t \<longleftrightarrow>
     th_window t = window \<and> th_limit t = limit \<and> distinct (map fst (th_buckets t))
     \<and> (\<forall>k b. map_of (th_buckets t) k = Some b \<longrightarrow> 0 \<le> bk_count b)"

locale throttle_config =
  fixes window :: duration and limit :: int
  assumes config_window: "0 < window" and config_limit: "1 \<le> limit"
begin

text \<open>The bucket a call works on, and the state before pruning.\<close>

definition current :: "instant \<Rightarrow> string \<Rightarrow> throttler \<Rightarrow> bucket" where
  "current now key t =
     (case map_of (th_buckets t) key of
        None \<Rightarrow> \<lparr>bk_count = 0, bk_opened = now\<rparr>
      | Some b \<Rightarrow> if now - bk_opened b \<ge> th_window t then \<lparr>bk_count = 0, bk_opened = now\<rparr> else b)"

definition put :: "string \<Rightarrow> bucket \<Rightarrow> throttler \<Rightarrow> throttler" where
  "put key b t = t\<lparr>th_buckets := AList.update key b (th_buckets t)\<rparr>"

lemma Allow_cases:
  "Throttler_Allow now key t =
     (if bk_count (current now key t) \<ge> th_limit t then (False, put key (current now key t) t)
      else let t1 = put key ((current now key t)\<lparr>bk_count := bk_count (current now key t) + 1\<rparr>) t
           in (True, if length (th_buckets t1) \<ge> pruneThreshold \<and> now - th_lastPrune t1 > minute
                     then pruneLocked now t1 else t1))"
  by (simp add: Throttler_Allow_def current_def put_def Let_def)

lemma valid_put: "th_valid window limit t \<Longrightarrow> 0 \<le> bk_count b \<Longrightarrow> th_valid window limit (put key b t)"
  by (auto simp: th_valid_def put_def distinct_update update_conv' split: if_splits)

lemma valid_prune: "th_valid window limit t \<Longrightarrow> th_valid window limit (pruneLocked now t)"
  by (auto simp: th_valid_def pruneLocked_def distinct_keys_filter map_of_filter_distinct split: option.splits if_splits)

lemma current_nonneg: "th_valid window limit t \<Longrightarrow> 0 \<le> bk_count (current now key t)"
  by (auto simp: th_valid_def current_def split: option.splits)

lemma opened_put: "th_opened (put key b t) k = (if k = key then Some (bk_opened b, bk_count b) else th_opened t k)"
  by (simp add: th_opened_def put_def update_conv')

lemma opened_prune:
  assumes "th_valid window limit t"
  shows "th_opened (pruneLocked now t) k =
     (case th_opened t k of None \<Rightarrow> None | Some (t0, c) \<Rightarrow> if now - t0 \<ge> window then None else Some (t0, c))"
  using assms
  by (auto simp: th_opened_def pruneLocked_def map_of_filter_distinct th_valid_def split: option.splits)

text \<open>The next state up to pruning, seen through the open windows.\<close>

lemma opened_Allow:
  fixes now :: instant and key k :: string
  assumes "th_valid window limit t"
  defines "b \<equiv> current now key t"
  defines "b' \<equiv> if bk_count b \<ge> limit then b else b\<lparr>bk_count := bk_count b + 1\<rparr>"
  shows "fst (Throttler_Allow now key t) \<longleftrightarrow> bk_count b < limit"
    and "th_opened (snd (Throttler_Allow now key t)) key = Some (bk_opened b', bk_count b')"
    and "k \<noteq> key \<Longrightarrow> th_opened (snd (Throttler_Allow now key t)) k = th_opened t k
      \<or> (th_opened (snd (Throttler_Allow now key t)) k = None \<and> (\<exists>t0 c. th_opened t k = Some (t0, c) \<and> now - t0 \<ge> window))"
proof -
  have lim: "th_limit t = limit" "th_window t = window"
    using assms(1) by (simp_all add: th_valid_def)
  have live: "now - bk_opened b < window"
    using config_window lim by (auto simp: b_def current_def split: option.splits)
  have v: "th_valid window limit (put key b' t)"
    using valid_put [OF assms(1)] current_nonneg [OF assms(1)] by (simp add: b'_def b_def)
  note P = opened_prune [OF v, of now]
  show "fst (Throttler_Allow now key t) \<longleftrightarrow> bk_count b < limit"
    by (simp add: Allow_cases Let_def b_def lim)
  have "snd (Throttler_Allow now key t) \<in> {put key b' t, pruneLocked now (put key b' t)}"
    by (auto simp: Allow_cases Let_def b'_def b_def lim)
  then consider (plain) "snd (Throttler_Allow now key t) = put key b' t"
    | (pruned) "snd (Throttler_Allow now key t) = pruneLocked now (put key b' t)"
    by blast
  note step = this
  have b': "now - bk_opened b' < window" using live by (simp add: b'_def)
  show "th_opened (snd (Throttler_Allow now key t)) key = Some (bk_opened b', bk_count b')"
    using step by cases (use b' in \<open>simp_all add: opened_put P\<close>)
  show "th_opened (snd (Throttler_Allow now key t)) k = th_opened t k
      \<or> (th_opened (snd (Throttler_Allow now key t)) k = None \<and> (\<exists>t0 c. th_opened t k = Some (t0, c) \<and> now - t0 \<ge> window))"
    if "k \<noteq> key"
    using step
  proof cases
    case plain
    with that show ?thesis by (simp add: opened_put)
  next
    case pruned
    with that show ?thesis
      by (cases "th_opened t k") (auto simp: opened_put P split: if_splits)
  qed
qed

lemma valid_Allow:
  assumes "th_valid window limit t"
  shows "th_valid window limit (snd (Throttler_Allow now key t))"
proof -
  have b: "0 \<le> bk_count (current now key t)" "0 \<le> bk_count (current now key t) + 1"
    using current_nonneg [OF assms, of now key] by simp_all
  show ?thesis
    using valid_put [OF assms] valid_prune b by (simp add: Allow_cases Let_def)
qed

end

sublocale throttle_config \<subseteq> window_limiter Throttler_Allow th_opened "th_valid window limit" window limit
proof
  fix s :: throttler and k j :: string and now t c
  assume v: "th_valid window limit s"
  have w: "th_window s = window" using v by (simp add: th_valid_def)
  show "th_valid window limit (snd (Throttler_Allow now k s))"
    using v by (rule valid_Allow)
  show "th_opened s k = Some (t, c) \<Longrightarrow> 0 \<le> c"
    using v by (auto simp: th_opened_def th_valid_def)
  show "fst (Throttler_Allow now k s) \<and> th_opened (snd (Throttler_Allow now k s)) k = Some (now, 1)"
    if "case th_opened s k of None \<Rightarrow> True | Some (t, c) \<Rightarrow> now - t \<ge> window"
  proof -
    have "current now k s = \<lparr>bk_count = 0, bk_opened = now\<rparr>"
      using that by (auto simp: current_def th_opened_def w split: option.splits)
    then show ?thesis using opened_Allow(1,2) [OF v, of now k] config_limit by simp
  qed
  have live: "bk_opened (current now k s) = t \<and> bk_count (current now k s) = c"
    if "th_opened s k = Some (t, c)" "now - t < window"
    using that by (auto simp: current_def th_opened_def w split: option.splits)
  show "fst (Throttler_Allow now k s) \<and> th_opened (snd (Throttler_Allow now k s)) k = Some (t, c + 1)"
    if "th_opened s k = Some (t, c)" "now - t < window" "c < limit"
    using live [OF that(1,2)] that(3) opened_Allow(1,2) [OF v, of now k] by simp
  show "\<not> fst (Throttler_Allow now k s) \<and> th_opened (snd (Throttler_Allow now k s)) k = Some (t, c)"
    if "th_opened s k = Some (t, c)" "now - t < window" "c \<ge> limit"
    using live [OF that(1,2)] that(3) opened_Allow(1,2) [OF v, of now k] by simp
  show "th_opened (snd (Throttler_Allow now k s)) j = th_opened s j
      \<or> (th_opened (snd (Throttler_Allow now k s)) j = None \<and> (\<exists>t c. th_opened s j = Some (t, c) \<and> now - t \<ge> window))"
    if "j \<noteq> k"
    using opened_Allow(3) [OF v that] by blast
qed (fact config_window config_limit)+

text \<open>The throttle of the publishing service: ten deliveries per workspace and minute.\<close>

interpretation publish_throttle: throttle_config minute 10
  by unfold_locales (simp_all add: minute_def second_def)

subsection \<open>RateLimiter\<close>

record rateRule =
  rr_window :: duration
  rr_max :: int

definition loginRateRule :: rateRule where "loginRateRule = \<lparr>rr_window = minute, rr_max = 10\<rparr>"
definition refreshRateRule :: rateRule where "refreshRateRule = \<lparr>rr_window = minute, rr_max = 20\<rparr>"
definition logoutRateRule :: rateRule where "logoutRateRule = \<lparr>rr_window = minute, rr_max = 30\<rparr>"
definition bootstrapRateRule :: rateRule where "bootstrapRateRule = \<lparr>rr_window = minute, rr_max = 5\<rparr>"

definition maxRateLimitKeys :: nat where "maxRateLimitKeys = 2 ^ 16"
definition rateLimitSweepBatch :: nat where "rateLimitSweepBatch = 2 ^ 12"
definition rateLimitSweepThreshold :: nat where "rateLimitSweepThreshold = maxRateLimitKeys - rateLimitSweepBatch"

record windowEntry =
  we_start :: instant
  we_count :: int
  we_window :: duration

record rateLimiter =
  rl_windows :: "(string \<times> windowEntry) list"
  rl_lastSweep :: instant
  rl_sweepInterval :: duration

definition NewRateLimiter :: "instant \<Rightarrow> rateLimiter" where
  "NewRateLimiter now = \<lparr>rl_windows = [], rl_lastSweep = now, rl_sweepInterval = minute\<rparr>"

text \<open>
  The scan for the index of the newest candidate, and the scan that keeps the \<open>n\<close> oldest
  entries seen so far.
\<close>

function newest_index :: "(string \<times> instant) list \<Rightarrow> nat \<Rightarrow> nat \<Rightarrow> nat" where
  "newest_index oldest newest i =
     (if i < length oldest
      then newest_index oldest (if snd (oldest ! i) > snd (oldest ! newest) then i else newest) (i + 1)
      else newest)"
  by pat_completeness auto
termination by (relation "measure (\<lambda>(xs, _, i). length xs - i)") auto

declare newest_index.simps [simp del]

fun oldest_scan :: "nat \<Rightarrow> (string \<times> instant) list \<Rightarrow> (string \<times> windowEntry) list \<Rightarrow> (string \<times> instant) list" where
  "oldest_scan n oldest [] = oldest"
| "oldest_scan n oldest ((k, w) # entries) =
     (if length oldest < n then oldest_scan n (oldest @ [(k, we_start w)]) entries
      else let newest = newest_index oldest 0 1
           in if we_start w < snd (oldest ! newest)
              then oldest_scan n (oldest[newest := (k, we_start w)]) entries
              else oldest_scan n oldest entries)"

text \<open>\<open>ranged\<close> is the order in which the second \<^verbatim>\<open>range\<close> over the map visits it.\<close>

definition sweepLocked ::
  "((string \<times> windowEntry) list \<Rightarrow> (string \<times> windowEntry) list) \<Rightarrow> instant \<Rightarrow> (string \<times> windowEntry) list \<Rightarrow> (string \<times> windowEntry) list" where
  "sweepLocked ranged now windows =
     (let live = filter (\<lambda>(k, w). \<not> now - we_start w \<ge> we_window w) windows in
      if length live < rateLimitSweepThreshold then live
      else let oldest = oldest_scan rateLimitSweepBatch [] (ranged live)
           in filter (\<lambda>(k, w). k \<notin> fst ` set oldest) live)"

definition RateLimiter_Allow ::
  "((string \<times> windowEntry) list \<Rightarrow> (string \<times> windowEntry) list) \<Rightarrow> instant \<Rightarrow> string \<Rightarrow> rateRule \<Rightarrow> rateLimiter \<Rightarrow> bool \<times> rateLimiter" where
  "RateLimiter_Allow ranged now key rule l =
     (case map_of (rl_windows l) key of
        None \<Rightarrow>
          let l1 = (if now - rl_lastSweep l \<ge> rl_sweepInterval l \<or> length (rl_windows l) \<ge> rateLimitSweepThreshold
                    then l\<lparr>rl_lastSweep := now, rl_windows := sweepLocked ranged now (rl_windows l)\<rparr> else l)
          in (True, l1\<lparr>rl_windows := AList.update key \<lparr>we_start = now, we_count = 1, we_window = rr_window rule\<rparr> (rl_windows l1)\<rparr>)
      | Some w \<Rightarrow>
          if now - we_start w \<ge> we_window w
          then (True, l\<lparr>rl_windows := AList.update key \<lparr>we_start = now, we_count = 1, we_window = rr_window rule\<rparr> (rl_windows l)\<rparr>)
          else if we_count w \<ge> rr_max rule then (False, l)
          else (True, l\<lparr>rl_windows := AList.update key (w\<lparr>we_count := we_count w + 1\<rparr>) (rl_windows l)\<rparr>))"

subsection \<open>The sweep keeps the newest\<close>

lemma newest_index_max:
  assumes "newest < length xs" "\<forall>j < i. j < length xs \<longrightarrow> snd (xs ! j) \<le> snd (xs ! newest)"
  shows "newest_index xs newest i < length xs \<and> (\<forall>j < length xs. snd (xs ! j) \<le> snd (xs ! newest_index xs newest i))"
  using assms
proof (induction xs newest i rule: newest_index.induct)
  case (1 oldest newest i)
  show ?case
  proof (cases "i < length oldest")
    case True
    let ?n = "if snd (oldest ! i) > snd (oldest ! newest) then i else newest"
    have "?n < length oldest" "\<forall>j < i + 1. j < length oldest \<longrightarrow> snd (oldest ! j) \<le> snd (oldest ! ?n)"
      using 1(2,3) True by (auto simp: less_Suc_eq)
    from 1(1) [OF True this] show ?thesis
      by (subst (1 2) newest_index.simps) (use True in simp)
  next
    case False
    with 1(2,3) show ?thesis
      by (subst (1 2) newest_index.simps) simp
  qed
qed

abbreviation starts :: "(string \<times> windowEntry) list \<Rightarrow> (string \<times> instant) list" where
  "starts ws \<equiv> map (\<lambda>(k, w). (k, we_start w)) ws"

lemma oldest_scan_spec:
  assumes "0 < n" "length oldest \<le> n" "distinct (map fst (oldest @ starts ws))"
    and "E \<noteq> {} \<longrightarrow> length oldest = n" "\<forall>x \<in> E. \<forall>y \<in> set oldest. snd y \<le> snd x"
  shows "length (oldest_scan n oldest ws) = min n (length oldest + length ws)
    \<and> set (oldest_scan n oldest ws) \<subseteq> set oldest \<union> set (starts ws)
    \<and> distinct (map fst (oldest_scan n oldest ws))
    \<and> (\<forall>x \<in> E \<union> (set oldest \<union> set (starts ws) - set (oldest_scan n oldest ws)).
         \<forall>y \<in> set (oldest_scan n oldest ws). snd y \<le> snd x)"
  using assms
proof (induction n oldest ws arbitrary: E rule: oldest_scan.induct)
  case (1 n oldest)
  then show ?case by auto
next
  case (2 n oldest k w ws)
  show ?case
  proof (cases "length oldest < n")
    case True
    with 2(7) have E: "E = {}" by auto
    from 2(1) [OF True 2(4), of "{}"] True 2(5,6) show ?thesis
      by (auto simp: E)
  next
    case False
    define m where "m = newest_index oldest 0 1"
    have ne: "0 < length oldest" using False 2(4) by linarith
    have m: "m < length oldest" "\<forall>y \<in> set oldest. snd y \<le> snd (oldest ! m)"
      using newest_index_max [of 0 oldest 1] ne by (simp_all add: m_def all_set_conv_all_nth)
    show ?thesis
    proof (cases "we_start w < snd (oldest ! m)")
      case True
      define o' where "o' = oldest[m := (k, we_start w)]"
      let ?E = "insert (oldest ! m) E"
      have full: "length o' = n" using False 2(5) by (simp add: o'_def)
      have cover: "set oldest \<union> {(k, we_start w)} \<subseteq> set o' \<union> {oldest ! m}"
      proof -
        have "z \<in> set o' \<union> {oldest ! m}" if "z \<in> set oldest" for z
          using that m(1) by (metis UnCI in_set_conv_nth insertCI length_list_update nth_list_update_neq o'_def)
        moreover have "(k, we_start w) \<in> set o'"
          using m(1) by (simp add: o'_def set_update_memI)
        ultimately show ?thesis by blast
      qed
      have sub: "set o' \<subseteq> insert (k, we_start w) (set oldest)"
        by (simp add: o'_def set_update_subset_insert)
      have "map fst o' = (map fst oldest)[m := k]"
        by (simp add: o'_def map_update)
      then have "distinct (map fst o')"
        using 2(6) by (simp add: distinct_list_update)
      moreover have "fst ` set o' \<subseteq> insert k (fst ` set oldest)"
        using sub by auto
      moreover have "k \<notin> set (map fst (starts ws))" "set (map fst oldest) \<inter> set (map fst (starts ws)) = {}"
        "distinct (map fst (starts ws))"
        using 2(6) by auto
      ultimately have dist: "distinct (map fst (o' @ starts ws))"
        unfolding map_append distinct_append set_map by blast
      have "\<forall>x \<in> ?E. \<forall>y \<in> set o'. snd y \<le> snd x"
      proof (intro ballI)
        fix x y assume x: "x \<in> ?E" and y: "y \<in> set o'"
        from y sub consider "y = (k, we_start w)" | "y \<in> set oldest" by blast
        then have "snd y \<le> snd (oldest ! m)"
          by cases (use True m(2) in auto)
        moreover have "snd (oldest ! m) \<le> snd x"
          using x 2(8) nth_mem [OF m(1)] by blast
        ultimately show "snd y \<le> snd x" by linarith
      qed
      with 2(2) [OF False m_def True 2(4), of ?E] full dist
      have r: "length (oldest_scan n o' ws) = min n (length o' + length ws)"
        "set (oldest_scan n o' ws) \<subseteq> set o' \<union> set (starts ws)" "distinct (map fst (oldest_scan n o' ws))"
        "\<forall>x \<in> ?E \<union> (set o' \<union> set (starts ws) - set (oldest_scan n o' ws)). \<forall>y \<in> set (oldest_scan n o' ws). snd y \<le> snd x"
        by (simp_all add: o'_def)
      have eq: "oldest_scan n oldest ((k, w) # ws) = oldest_scan n o' ws"
        using False True by (simp add: o'_def m_def Let_def)
      have S: "set (starts ((k, w) # ws)) = insert (k, we_start w) (set (starts ws))"
        by simp
      show ?thesis
        unfolding eq S
      proof (intro conjI)
        show "length (oldest_scan n o' ws) = min n (length oldest + length ((k, w) # ws))"
          using r(1) full by (simp add: o'_def)
        show "set (oldest_scan n o' ws) \<subseteq> set oldest \<union> insert (k, we_start w) (set (starts ws))"
          using r(2) sub by blast
        have "E \<union> (set oldest \<union> insert (k, we_start w) (set (starts ws)) - set (oldest_scan n o' ws))
            \<subseteq> ?E \<union> (set o' \<union> set (starts ws) - set (oldest_scan n o' ws))"
          using cover by blast
        then show "\<forall>x \<in> E \<union> (set oldest \<union> insert (k, we_start w) (set (starts ws)) - set (oldest_scan n o' ws)).
            \<forall>y \<in> set (oldest_scan n o' ws). snd y \<le> snd x"
          using r(4) by (meson subsetD)
      qed (fact r(3))
    next
      case keep: False
      let ?E = "insert (k, we_start w) E"
      have full: "length oldest = n" using False 2(5) by simp
      have "\<forall>x \<in> ?E. \<forall>y \<in> set oldest. snd y \<le> snd x"
      proof (intro ballI)
        fix x y assume x: "x \<in> ?E" and y: "y \<in> set oldest"
        from x consider "x = (k, we_start w)" | "x \<in> E" by blast
        then show "snd y \<le> snd x"
        proof cases
          case 1
          then show ?thesis using m(2) y keep by force
        next
          case 2
          then show ?thesis using \<open>\<forall>x \<in> E. \<forall>y \<in> set oldest. snd y \<le> snd x\<close> y by blast
        qed
      qed
      with 2(3) [OF False m_def keep 2(4,5), of ?E] 2(6) full
      have r: "length (oldest_scan n oldest ws) = min n (length oldest + length ws)"
        "set (oldest_scan n oldest ws) \<subseteq> set oldest \<union> set (starts ws)" "distinct (map fst (oldest_scan n oldest ws))"
        "\<forall>x \<in> ?E \<union> (set oldest \<union> set (starts ws) - set (oldest_scan n oldest ws)). \<forall>y \<in> set (oldest_scan n oldest ws). snd y \<le> snd x"
        by simp_all
      have eq: "oldest_scan n oldest ((k, w) # ws) = oldest_scan n oldest ws"
        using False keep by (simp add: m_def Let_def)
      have S: "set (starts ((k, w) # ws)) = insert (k, we_start w) (set (starts ws))"
        by simp
      show ?thesis
        unfolding eq S
      proof (intro conjI)
        show "length (oldest_scan n oldest ws) = min n (length oldest + length ((k, w) # ws))"
          using r(1) full by simp
        show "set (oldest_scan n oldest ws) \<subseteq> set oldest \<union> insert (k, we_start w) (set (starts ws))"
          using r(2) by blast
        show "\<forall>x \<in> E \<union> (set oldest \<union> insert (k, we_start w) (set (starts ws)) - set (oldest_scan n oldest ws)).
            \<forall>y \<in> set (oldest_scan n oldest ws). snd y \<le> snd x"
          using r(4) by blast
      qed (fact r(3))
    qed
  qed
qed

lemma length_filter_keys:
  assumes "distinct (map fst xs)" "K \<subseteq> fst ` set xs" "finite K"
  shows "length (filter (\<lambda>(k, w). k \<notin> K) xs) + card K = length xs"
  using assms
proof (induction xs arbitrary: K)
  case (Cons x xs)
  obtain k w where x: "x = (k, w)" by fastforce
  have K: "K - {k} \<subseteq> fst ` set xs" "distinct (map fst xs)" "k \<notin> fst ` set xs"
    using Cons.prems x by auto
  have same: "filter (\<lambda>(j, w). j \<notin> K) xs = filter (\<lambda>(j, w). j \<notin> K - {k}) xs"
    by (rule filter_cong [OF refl]) (use K(3) in force)
  have IH: "length (filter (\<lambda>(j, w). j \<notin> K) xs) + card (K - {k}) = length xs"
    unfolding same using Cons.prems(3) by (intro Cons.IH [OF K(2,1)]) simp
  show ?case
  proof (cases "k \<in> K")
    case True
    have "card K = Suc (card (K - {k}))"
      using Cons.prems(3) True by (rule card.remove)
    moreover have "filter (\<lambda>(j, w). j \<notin> K) (x # xs) = filter (\<lambda>(j, w). j \<notin> K) xs"
      using True by (simp add: x)
    ultimately show ?thesis
      using IH by (metis add_Suc_right length_Cons)
  next
    case False
    with IH show ?thesis by (simp add: x)
  qed
qed simp

definition rl_valid :: "rateLimiter \<Rightarrow> bool" where
  "rl_valid l \<longleftrightarrow> distinct (map fst (rl_windows l)) \<and> length (rl_windows l) \<le> rateLimitSweepThreshold"

lemma sweepLocked_spec:
  assumes "distinct (map fst ws)" "length ws \<le> rateLimitSweepThreshold" "\<And>xs. mset (ranged xs) = mset xs"
  shows "distinct (map fst (sweepLocked ranged now ws)) \<and> length (sweepLocked ranged now ws) < rateLimitSweepThreshold
    \<and> set (sweepLocked ranged now ws) \<subseteq> set ws"
proof -
  define live where "live = filter (\<lambda>(k, w). \<not> now - we_start w \<ge> we_window w) ws"
  define old where "old = oldest_scan rateLimitSweepBatch [] (ranged live)"
  have d: "distinct (map fst live)" "set live \<subseteq> set ws" "length live \<le> length ws"
    using assms(1) by (auto simp: live_def distinct_keys_filter)
  have perm: "set (ranged live) = set live" "length (ranged live) = length live"
    using assms(3) by (metis set_mset_mset, metis size_mset)
  have "mset (map fst (ranged live)) = mset (map fst live)"
    using assms(3) by (metis mset_map)
  then have dr: "distinct (map fst (ranged live))"
    using d(1) by (metis mset_eq_imp_distinct_iff)
  have "map fst ([] @ starts (ranged live)) = map fst (ranged live)"
    by auto
  with dr have dr': "distinct (map fst ([] @ starts (ranged live)))"
    by metis
  have spec: "length old = min rateLimitSweepBatch (length live)" "set old \<subseteq> set (starts (ranged live))" "distinct (map fst old)"
    using oldest_scan_spec [OF _ _ dr', of rateLimitSweepBatch "{}"] perm(2)
    by (auto simp: old_def rateLimitSweepBatch_def)
  then have keys: "fst ` set old \<subseteq> fst ` set live" "card (fst ` set old) = length old"
    using perm(1) by (force, metis distinct_card length_map set_map)
  show ?thesis
  proof (cases "length live < rateLimitSweepThreshold")
    case True
    then show ?thesis
      using d by (simp add: sweepLocked_def live_def [symmetric] Let_def)
  next
    case False
    have "length (filter (\<lambda>(k, w). k \<notin> fst ` set old) live) + length old = length live"
      using length_filter_keys [OF d(1) keys(1)] keys(2) by simp
    moreover have "0 < length old"
      using spec(1) False by (simp add: rateLimitSweepBatch_def rateLimitSweepThreshold_def maxRateLimitKeys_def)
    ultimately have "length (filter (\<lambda>(k, w). k \<notin> fst ` set old) live) < rateLimitSweepThreshold"
      using assms(2) d(3) by linarith
    then show ?thesis
      using False d by (auto simp: sweepLocked_def live_def [symmetric] old_def [symmetric] Let_def distinct_keys_filter)
  qed
qed

lemma length_update_le: "length (AList.update k v xs) \<le> Suc (length xs)"
  by (induction xs) auto

lemma length_update_known: "map_of xs k \<noteq> None \<Longrightarrow> length (AList.update k v xs) = length xs"
  by (induction xs) (auto split: if_splits)

lemma RateLimiter_Allow_valid:
  assumes "rl_valid l" "\<And>xs. mset (ranged xs) = mset xs"
  shows "rl_valid (snd (RateLimiter_Allow ranged now key rule l))"
proof (cases "map_of (rl_windows l) key")
  case None
  define l1 where "l1 = (if now - rl_lastSweep l \<ge> rl_sweepInterval l \<or> length (rl_windows l) \<ge> rateLimitSweepThreshold
      then l\<lparr>rl_lastSweep := now, rl_windows := sweepLocked ranged now (rl_windows l)\<rparr> else l)"
  have "distinct (map fst (rl_windows l1))" "length (rl_windows l1) < rateLimitSweepThreshold"
    using assms sweepLocked_spec [of "rl_windows l" ranged now] by (auto simp: l1_def rl_valid_def)
  moreover have "rl_windows (snd (RateLimiter_Allow ranged now key rule l)) =
      AList.update key \<lparr>we_start = now, we_count = 1, we_window = rr_window rule\<rparr> (rl_windows l1)"
    using None by (simp add: RateLimiter_Allow_def l1_def Let_def)
  ultimately show ?thesis
    using length_update_le [of key _ "rl_windows l1"] by (simp add: rl_valid_def distinct_update) (meson Suc_leI order_trans)
next
  case (Some w)
  then show ?thesis
    using assms(1) by (auto simp: RateLimiter_Allow_def rl_valid_def distinct_update length_update_known)
qed

subsection \<open>Properties\<close>

fun rl_calls :: "((string \<times> windowEntry) list \<Rightarrow> (string \<times> windowEntry) list) \<Rightarrow> (instant \<times> string \<times> rateRule) list \<Rightarrow> rateLimiter \<Rightarrow> rateLimiter" where
  "rl_calls ranged [] l = l"
| "rl_calls ranged ((now, key, rule) # calls) l = rl_calls ranged calls (snd (RateLimiter_Allow ranged now key rule l))"

text \<open>
  C10. The limiter of the HTTP routes stays bounded. Whatever sequence of requests arrives,
  with as many distinct keys as there may be and in whatever order the map is visited, the
  table never holds more than the sweep threshold, one batch below its documented bound;
  and a request is refused only when the window of its key is live and its budget is spent.
\<close>

theorem rate_limiter_bounded:
  assumes "\<And>xs. mset (ranged xs) = mset xs"
  shows "length (rl_windows (rl_calls ranged calls (NewRateLimiter t0))) \<le> maxRateLimitKeys - rateLimitSweepBatch
    \<and> (fst (RateLimiter_Allow ranged now key rule l) \<longleftrightarrow>
         \<not> (\<exists>w. map_of (rl_windows l) key = Some w \<and> now - we_start w < we_window w \<and> rr_max rule \<le> we_count w))"
proof
  have "rl_valid (rl_calls ranged calls l)" if "rl_valid l" for l
    using that
  proof (induction calls arbitrary: l)
    case (Cons c calls)
    obtain n k r where "c = (n, k, r)" using prod_cases3 by blast
    with Cons RateLimiter_Allow_valid [OF Cons.prems assms] show ?case by simp
  qed simp
  moreover have "rl_valid (NewRateLimiter t0)"
    by (simp add: rl_valid_def NewRateLimiter_def)
  ultimately show "length (rl_windows (rl_calls ranged calls (NewRateLimiter t0))) \<le> maxRateLimitKeys - rateLimitSweepBatch"
    by (simp add: rl_valid_def rateLimitSweepThreshold_def)
  show "fst (RateLimiter_Allow ranged now key rule l) \<longleftrightarrow>
      \<not> (\<exists>w. map_of (rl_windows l) key = Some w \<and> now - we_start w < we_window w \<and> rr_max rule \<le> we_count w)"
    by (auto simp: RateLimiter_Allow_def Let_def split: option.splits)
qed

theorem rate_limiter_bounded_witness:
  "length (rl_windows (rl_calls rev [(0, ''login|a'', loginRateRule), (1, ''login|b'', loginRateRule)] (NewRateLimiter 0)))
     \<le> maxRateLimitKeys - rateLimitSweepBatch"
  using rate_limiter_bounded [of rev "[(0, ''login|a'', loginRateRule), (1, ''login|b'', loginRateRule)]" 0] by simp

text \<open>The hits a throttler grants to a key in the interval of one window from \<open>a\<close>.\<close>

fun th_granted :: "string \<Rightarrow> instant \<Rightarrow> (instant \<times> string) list \<Rightarrow> throttler \<Rightarrow> int" where
  "th_granted k a [] t = 0"
| "th_granted k a ((now, j) # calls) t =
     (if j = k \<and> fst (Throttler_Allow now j t) \<and> a \<le> now \<and> now < a + th_window t then 1 else 0)
     + th_granted k a calls (snd (Throttler_Allow now j t))"

lemma th_granted_eq:
  "th_valid minute 10 t \<Longrightarrow> th_granted k a calls t = publish_throttle.granted k a calls t"
proof (induction k a calls t rule: th_granted.induct)
  case (2 k a now j calls t)
  have "th_window t = minute" using 2(2) by (simp add: th_valid_def)
  with 2(1) [OF publish_throttle.valid_Allow [OF 2(2)]] show ?case by simp
qed simp

lemma NewThrottler_valid: "th_valid minute 10 (NewThrottler minute 10 z)"
  by (simp add: th_valid_def NewThrottler_def Let_def minute_def second_def)

text \<open>
  The delivery throttle of the publishing service. In any history of requests with a
  clock that does not go back, whatever other workspaces do and whenever the table is
  pruned, a workspace is granted at most twenty deliveries in any minute, and at most ten
  in the minute that begins when the service starts.
\<close>

theorem publish_throttle_bounds:
  assumes "sorted (map fst calls)"
  shows "th_granted ws a calls (NewThrottler minute 10 z) \<le> 20
    \<and> (\<forall>t0. sorted (t0 # map fst calls) \<longrightarrow> th_granted ws t0 calls (NewThrottler minute 10 z) \<le> 10)"
proof (intro conjI allI impI)
  note eq = th_granted_eq [OF NewThrottler_valid]
  show "th_granted ws a calls (NewThrottler minute 10 z) \<le> 20"
    using publish_throttle.granted_le [OF NewThrottler_valid assms] by (simp add: eq)
  fix t0 assume s: "sorted (t0 # map fst calls)"
  have "th_opened (NewThrottler minute 10 z) ws = None"
    by (simp add: th_opened_def NewThrottler_def Let_def)
  from publish_throttle.granted_fresh_le [OF NewThrottler_valid s this]
  show "th_granted ws t0 calls (NewThrottler minute 10 z) \<le> 10"
    by (simp add: eq)
qed

theorem publish_throttle_bounds_witness:
  "th_granted ''w'' 0 [(0, ''w''), (second, ''v''), (second, ''w'')] (NewThrottler minute 10 (- minute)) \<le> 10"
  using publish_throttle_bounds [of "[(0, ''w''), (second, ''v''), (second, ''w'')]" "''w''" 0 "- minute"]
  by (simp add: second_def)

end
