(* ===== verification/Pipeline.thy ===== *)
theory Pipeline
  imports Rate_Limits
begin

text \<open>
  The creator pipeline research, script, review, publish: the aggregate
  (\<^verbatim>\<open>internal/orchestration/pipeline.go\<close>), the service and the worker's handler
  (\<^verbatim>\<open>service.go\<close>, \<^verbatim>\<open>handler.go\<close>), the stub capabilities (\<^verbatim>\<open>stage_stubs.go\<close>) and the
  PostgreSQL adapter with its version check (\<^verbatim>\<open>infrastructure/postgres/pipelines.go\<close>).

  The capability ports, the event sink and the foreign keys are the fields of an environment,
  which may be another one at every step; the publication port works on a state of type
  \<open>'b\<close> of its own. As in the publishing domain a method reads from one table and
  writes another; its clock readings are one instant, and a NULL text is the empty string.
\<close>

subsection \<open>Domain\<close>

datatype pl_error =
    ErrInvalidInput | ErrNotFound | ErrWorkspaceMismatch | ErrInvalidTransition | ErrTerminalState
  | ErrInvalidStage | ErrInvalidStatus | ErrApprovalRequired | ErrUnauthorizedActor | ErrConsecutiveAdvance
  | ErrRateLimited | ErrConcurrentUpdate
  | ErrDatabase \<comment> \<open>an error of PostgreSQL without a sentinel\<close>
  | ErrPort string \<comment> \<open>an error of a port, by its text\<close>
  | ErrJoin pl_error pl_error

datatype stage = StageResearch | StageScript | StageReview | StagePublish | StageComplete | StageOther string

datatype pipeline_status =
  StatusCreated | StatusActive | StatusAwaitingApproval | StatusApproved | StatusDone | StatusFailed | StatusOther string

record pipeline =
  pl_ID :: uuid
  pl_WorkspaceID :: uuid
  pl_GoalID :: "uuid option"
  pl_Stage :: stage
  pl_Status :: pipeline_status
  pl_TaskID :: "uuid option"
  pl_PublicationID :: "uuid option"
  pl_ResearchReference :: string
  pl_ScriptReference :: string
  pl_ReviewReference :: string
  pl_PublishedReference :: string
  pl_FailureReason :: string
  pl_RetryCount :: int
  pl_IdempotencyKey :: string
  pl_ApprovedBy :: string
  pl_ApprovedAt :: "instant option"
  pl_TraceID :: string
  pl_CreatedAt :: instant
  pl_UpdatedAt :: instant
  pl_Version :: int

definition NewWithIdempotency ::
  "instant \<Rightarrow> uuid \<Rightarrow> uuid \<Rightarrow> uuid option \<Rightarrow> string \<Rightarrow> string \<Rightarrow> (pl_error, pipeline) result" where
  "NewWithIdempotency now pid ws goal traceID key0 =
     (if ws = uuid_Nil then Inl ErrWorkspaceMismatch
      else let key = TrimSpace key0 in
           if length key > 128 then Inl ErrInvalidInput
           else Inr \<lparr>pl_ID = pid, pl_WorkspaceID = ws, pl_GoalID = goal, pl_Stage = StageResearch, pl_Status = StatusCreated,
                     pl_TaskID = None, pl_PublicationID = None, pl_ResearchReference = [], pl_ScriptReference = [],
                     pl_ReviewReference = [], pl_PublishedReference = [], pl_FailureReason = [], pl_RetryCount = 0,
                     pl_IdempotencyKey = key, pl_ApprovedBy = [], pl_ApprovedAt = None, pl_TraceID = TrimSpace traceID,
                     pl_CreatedAt = now, pl_UpdatedAt = now, pl_Version = 1\<rparr>)"

definition ValidStage :: "stage \<Rightarrow> bool" where
  "ValidStage s = (case s of StageOther _ \<Rightarrow> False | _ \<Rightarrow> True)"

definition pl_ValidStatus :: "pipeline_status \<Rightarrow> bool" where
  "pl_ValidStatus s = (case s of StatusOther _ \<Rightarrow> False | _ \<Rightarrow> True)"

definition terminalStatus :: "pipeline_status \<Rightarrow> bool" where
  "terminalStatus s \<longleftrightarrow> s = StatusDone"

definition CanAdvance :: "stage \<Rightarrow> stage \<Rightarrow> pipeline_status \<Rightarrow> pl_error option" where
  "CanAdvance to from status =
     (if \<not> ValidStage to \<or> \<not> ValidStage from then Some ErrInvalidStage
      else if \<not> pl_ValidStatus status then Some ErrInvalidStatus
      else if terminalStatus status \<or> from = StageComplete then Some ErrTerminalState
      else if status = StatusFailed then Some ErrTerminalState
      else case from of
             StageResearch \<Rightarrow> if to \<noteq> StageScript then Some ErrInvalidTransition else None
           | StageScript \<Rightarrow> if to \<noteq> StageReview then Some ErrInvalidTransition else None
           | StageReview \<Rightarrow>
               if to \<noteq> StagePublish then Some ErrInvalidTransition
               else if status \<noteq> StatusApproved then Some ErrApprovalRequired else None
           | StagePublish \<Rightarrow> if to \<noteq> StageComplete then Some ErrInvalidTransition else None
           | _ \<Rightarrow> Some ErrInvalidStage)"

definition stage_order :: "stage \<Rightarrow> nat" where
  "stage_order s = (case s of StageResearch \<Rightarrow> 0 | StageScript \<Rightarrow> 1 | StageReview \<Rightarrow> 2 | StagePublish \<Rightarrow> 3
     | StageComplete \<Rightarrow> 4 | StageOther _ \<Rightarrow> 0)"

definition IsAfter :: "stage \<Rightarrow> stage \<Rightarrow> bool" where
  "IsAfter a b \<longleftrightarrow> stage_order a > stage_order b"

definition Approved :: "pipeline \<Rightarrow> bool" where
  "Approved p \<longleftrightarrow> pl_Status p = StatusApproved \<and> pl_ApprovedBy p \<noteq> [] \<and> pl_ApprovedAt p \<noteq> None"

fun NextStage :: "stage \<Rightarrow> (pl_error, stage) result" where
  "NextStage StageResearch = Inr StageScript"
| "NextStage StageScript = Inr StageReview"
| "NextStage StageReview = Inr StagePublish"
| "NextStage StagePublish = Inr StageComplete"
| "NextStage StageComplete = Inl ErrTerminalState"
| "NextStage (StageOther _) = Inl ErrInvalidStage"

definition EventKind :: "string \<Rightarrow> stage option" where
  "EventKind typeName =
     (let t = TrimSpace typeName in
      if t = ''pipeline.research'' then Some StageResearch
      else if t = ''pipeline.script'' then Some StageScript
      else if t = ''pipeline.review'' \<or> t = ''pipeline.review_ready'' \<or> t = ''pipeline.review_approved'' then Some StageReview
      else if t = ''pipeline.publish'' then Some StagePublish
      else if t = ''pipeline.complete'' then Some StageComplete
      else None)"

definition stage_text :: "stage \<Rightarrow> string" where
  "stage_text s = (case s of StageResearch \<Rightarrow> ''research'' | StageScript \<Rightarrow> ''script'' | StageReview \<Rightarrow> ''review''
     | StagePublish \<Rightarrow> ''publish'' | StageComplete \<Rightarrow> ''complete'' | StageOther t \<Rightarrow> t)"

subsection \<open>Store\<close>

text \<open>The CHECK constraints of the table: the pairs of stage and status, and the retry counter, a 32-bit column.\<close>

definition stage_status_valid :: "stage \<Rightarrow> pipeline_status \<Rightarrow> bool" where
  "stage_status_valid st status \<longleftrightarrow>
     ValidStage st \<and> pl_ValidStatus status \<and>
     (status = StatusFailed \<or> (st = StageResearch \<and> status = StatusCreated)
      \<or> ((st = StageScript \<or> st = StagePublish) \<and> status = StatusActive)
      \<or> (st = StageReview \<and> (status = StatusAwaitingApproval \<or> status = StatusApproved))
      \<or> (st = StageComplete \<and> status = StatusDone))"

definition pl_check :: "pipeline \<Rightarrow> bool" where
  "pl_check p \<longleftrightarrow> stage_status_valid (pl_Stage p) (pl_Status p) \<and> 0 \<le> pl_RetryCount p \<and> pl_RetryCount p < 2 ^ 31"

definition PipeStore_Create ::
  "(pipeline \<Rightarrow> bool) \<Rightarrow> uuid \<Rightarrow> pipeline \<Rightarrow> pipeline list \<Rightarrow> (pl_error, pipeline list \<times> pipeline) result" where
  "PipeStore_Create fk gen p rows =
     (if \<not> pl_check p \<or> \<not> fk p
          \<or> (\<exists>r \<in> set rows. pl_ID r = gen \<or> (pl_IdempotencyKey p \<noteq> [] \<and> pl_WorkspaceID r = pl_WorkspaceID p
                             \<and> pl_IdempotencyKey r = pl_IdempotencyKey p))
      then Inl ErrDatabase
      else let p' = p\<lparr>pl_ID := gen\<rparr> in Inr (rows @ [p'], p'))"

definition PipeStore_GetByIdempotency :: "uuid \<Rightarrow> string \<Rightarrow> pipeline list \<Rightarrow> (pl_error, pipeline) result" where
  "PipeStore_GetByIdempotency ws key rows =
     (case find (\<lambda>r. pl_WorkspaceID r = ws \<and> pl_IdempotencyKey r = key \<and> key \<noteq> []) rows of
        None \<Rightarrow> Inl ErrNotFound | Some p \<Rightarrow> Inr p)"

definition PipeStore_Get :: "uuid \<Rightarrow> uuid \<Rightarrow> pipeline list \<Rightarrow> (pl_error, pipeline) result" where
  "PipeStore_Get ws pid rows =
     (case find (\<lambda>r. pl_ID r = pid \<and> pl_WorkspaceID r = ws) rows of None \<Rightarrow> Inl ErrNotFound | Some p \<Rightarrow> Inr p)"

definition PipeStore_List :: "uuid \<Rightarrow> pipeline list \<Rightarrow> pipeline list" where
  "PipeStore_List ws rows =
     take 100 (rev (sort_key (\<lambda>r. pl_CreatedAt r) (sort_key (\<lambda>r. unat (pl_ID r)) (filter (\<lambda>r. pl_WorkspaceID r = ws) rows))))"

text \<open>
  \<^verbatim>\<open>Update\<close> writes the mutable columns of the row whose version is the one that was read,
  and counts the version up. \<^verbatim>\<open>version + 1\<close> fails beyond a 64-bit column.
\<close>

definition pl_write :: "pipeline \<Rightarrow> pipeline \<Rightarrow> pipeline" where
  "pl_write p r =
     r\<lparr>pl_Stage := pl_Stage p, pl_Status := pl_Status p, pl_TaskID := pl_TaskID p, pl_PublicationID := pl_PublicationID p,
       pl_ResearchReference := pl_ResearchReference p, pl_ScriptReference := pl_ScriptReference p,
       pl_ReviewReference := pl_ReviewReference p, pl_PublishedReference := pl_PublishedReference p,
       pl_FailureReason := pl_FailureReason p, pl_RetryCount := pl_RetryCount p, pl_IdempotencyKey := pl_IdempotencyKey p,
       pl_ApprovedBy := pl_ApprovedBy p, pl_ApprovedAt := pl_ApprovedAt p, pl_TraceID := pl_TraceID p,
       pl_UpdatedAt := pl_UpdatedAt p, pl_Version := pl_Version r + 1\<rparr>"

definition PipeStore_Update ::
  "(pipeline \<Rightarrow> bool) \<Rightarrow> instant \<Rightarrow> uuid \<Rightarrow> pipeline \<Rightarrow> pipeline list \<Rightarrow> (pl_error, pipeline list \<times> pipeline) result" where
  "PipeStore_Update fk now ws p0 rows =
     (let previousVersion = (if pl_Version p0 < 1 then 1 else pl_Version p0);
          p = p0\<lparr>pl_UpdatedAt := now\<rparr>;
          hit = (\<lambda>r. pl_ID r = pl_ID p \<and> pl_WorkspaceID r = ws \<and> pl_Version r = previousVersion)
      in if (\<exists>r \<in> set rows. hit r) \<and>
            (\<not> pl_check p \<or> \<not> fk p \<or> \<not> int64 (previousVersion + 1)
             \<or> (pl_IdempotencyKey p \<noteq> [] \<and> (\<exists>q \<in> set rows. pl_ID q \<noteq> pl_ID p \<and> pl_WorkspaceID q = ws
                                              \<and> pl_IdempotencyKey q = pl_IdempotencyKey p)))
         then Inl ErrDatabase
         else if count_where hit rows \<noteq> 1 then Inl ErrConcurrentUpdate
         else Inr (upd_where hit (pl_write p) rows, p\<lparr>pl_Version := previousVersion + 1\<rparr>))"

subsection \<open>Ports\<close>

text \<open>The bridge to the publishing service; its state is \<open>'b\<close> and an error is its text.\<close>

record 'b publication_port =
  port_Prepare :: "uuid \<Rightarrow> pipeline \<Rightarrow> 'b \<Rightarrow> (string, uuid) result \<times> 'b"
  port_Approve :: "uuid \<Rightarrow> uuid \<Rightarrow> string \<Rightarrow> 'b \<Rightarrow> string option \<times> 'b"
  port_Publish :: "uuid \<Rightarrow> uuid \<Rightarrow> string \<Rightarrow> 'b \<Rightarrow> (string, string) result \<times> 'b"

type_synonym pl_event = "string \<times> uuid \<times> uuid \<times> string"

record 'b pl_env =
  pe_uuid_String :: "uuid \<Rightarrow> string"
  pe_research :: "uuid \<Rightarrow> pipeline \<Rightarrow> (string, string) result"
  pe_script :: "uuid \<Rightarrow> pipeline \<Rightarrow> string \<Rightarrow> (string, string) result"
  pe_review :: "uuid \<Rightarrow> pipeline \<Rightarrow> (string, bool) result"
  pe_publish :: "uuid \<Rightarrow> pipeline \<Rightarrow> string \<Rightarrow> (string, string) result"
  pe_publication :: "'b publication_port option"
  pe_event :: "pl_event \<Rightarrow> string option"
  pe_fk :: "'b \<Rightarrow> pipeline \<Rightarrow> bool"

definition StubResearcher_Research :: "(uuid \<Rightarrow> string) \<Rightarrow> uuid \<Rightarrow> pipeline \<Rightarrow> (string, string) result" where
  "StubResearcher_Research us ws p = Inr (''research://'' @ us ws @ ''/'' @ us (pl_ID p))"

definition StubScriptWriter_WriteScript :: "(uuid \<Rightarrow> string) \<Rightarrow> uuid \<Rightarrow> pipeline \<Rightarrow> string \<Rightarrow> (string, string) result" where
  "StubScriptWriter_WriteScript us ws p ref = Inr (''script://'' @ us ws @ ''/'' @ us (pl_ID p) @ ''/'' @ ref)"

definition StubReviewer_Review :: "uuid \<Rightarrow> pipeline \<Rightarrow> (string, bool) result" where
  "StubReviewer_Review ws p = Inr True"

definition StubPublisher_Publish :: "(uuid \<Rightarrow> string) \<Rightarrow> uuid \<Rightarrow> pipeline \<Rightarrow> string \<Rightarrow> (string, string) result" where
  "StubPublisher_Publish us ws p ref = Inr (''stub-publish://'' @ us ws @ ''/'' @ us (pl_ID p) @ ''/'' @ ref)"

subsection \<open>Service\<close>

record pl_audit =
  pla_EventType :: string
  pla_Principle :: string
  pla_Outcome :: string
  pla_WorkspaceID :: uuid
  pla_PipelineID :: uuid
  pla_ActorType :: string
  pla_ActorID :: string
  pla_Stage :: string

record 'b pl_state =
  pls_rows :: "pipeline list"
  pls_throttle :: throttler
  pls_audit :: "pl_audit list"
  pls_events :: "pl_event list"
  pls_released :: "pipeline list" \<comment> \<open>what was handed on for publication\<close>
  pls_port :: 'b

type_synonym pl_answer = "pipeline option \<times> pl_error option"

definition pl_record :: "string \<Rightarrow> string \<Rightarrow> string \<Rightarrow> uuid \<Rightarrow> uuid \<Rightarrow> string \<Rightarrow> string \<Rightarrow> stage \<Rightarrow> 'b pl_state \<Rightarrow> 'b pl_state" where
  "pl_record ev principle outcome ws pid atype aid st s =
     s\<lparr>pls_audit := pls_audit s @ [\<lparr>pla_EventType = ev, pla_Principle = principle, pla_Outcome = outcome,
         pla_WorkspaceID = ws, pla_PipelineID = pid, pla_ActorType = atype, pla_ActorID = aid, pla_Stage = stage_text st\<rparr>]\<rparr>"

text \<open>An event is handed to the sink; with an error the caller gets the error and the pipeline.\<close>

definition pl_emit :: "'b pl_env \<Rightarrow> string \<Rightarrow> uuid \<Rightarrow> uuid \<Rightarrow> stage \<Rightarrow> pipeline \<Rightarrow> 'b pl_state \<Rightarrow> pl_answer \<times> 'b pl_state" where
  "pl_emit env ev pid ws st p s =
     (let e = (ev, pid, ws, stage_text st) in
      case pe_event env e of
        Some err \<Rightarrow> ((Some p, Some (ErrPort err)), s)
      | None \<Rightarrow> ((Some p, None), s\<lparr>pls_events := pls_events s @ [e]\<rparr>))"

definition boundReference :: "string \<Rightarrow> string" where
  "boundReference ref0 = (let ref = TrimSpace ref0 in if length ref > 512 then take 512 ref else ref)"

text \<open>The text of an error of stage work or of a port; no other error becomes a failure reason.\<close>

fun pl_Error :: "pl_error \<Rightarrow> string" where
  "pl_Error ErrInvalidStage = ''orchestration: invalid stage''"
| "pl_Error (ErrPort t) = t"
| "pl_Error _ = []"

definition pl_failureReason :: "pl_error \<Rightarrow> string" where
  "pl_failureReason err =
     (let msg = TrimSpace (pl_Error err) in
      if length msg > 512 then take 512 msg else if msg = [] then ''stage_failed'' else msg)"

definition pl_actorType :: "string \<Rightarrow> string \<Rightarrow> string" where
  "pl_actorType actorID fallback = (if actorID \<noteq> [] then ''human'' else fallback)"

definition pl_getOwned :: "pipeline list \<Rightarrow> uuid \<Rightarrow> uuid \<Rightarrow> (pl_error, pipeline) result" where
  "pl_getOwned snap ws pid =
     (if ws = uuid_Nil \<or> pid = uuid_Nil then Inl ErrInvalidInput
      else case PipeStore_Get ws pid snap of
             Inl e \<Rightarrow> Inl e
           | Inr p \<Rightarrow> if pl_WorkspaceID p \<noteq> ws then Inl ErrWorkspaceMismatch else Inr p)"

text \<open>The event of a pipeline found by its key: the research event is sent again while nothing has run.\<close>

definition pl_existing :: "'b pl_env \<Rightarrow> uuid \<Rightarrow> pipeline \<Rightarrow> 'b pl_state \<Rightarrow> pl_answer \<times> 'b pl_state" where
  "pl_existing env ws existing s =
     (if pl_Stage existing = StageResearch \<and> pl_Status existing = StatusCreated
      then pl_emit env ''pipeline.research'' (pl_ID existing) ws (pl_Stage existing) existing s
      else ((Some existing, None), s))"

definition pl_CreateWithIdempotency ::
  "'b pl_env \<Rightarrow> pipeline list \<Rightarrow> instant \<Rightarrow> uuid \<Rightarrow> uuid \<Rightarrow> string \<Rightarrow> uuid \<Rightarrow> uuid option \<Rightarrow> string \<Rightarrow> string \<Rightarrow>
   'b pl_state \<Rightarrow> pl_answer \<times> 'b pl_state" where
  "pl_CreateWithIdempotency env snap now pid gen actor ws goal traceID key0 s =
     (if ws = uuid_Nil then ((None, Some ErrWorkspaceMismatch), s)
      else let key = TrimSpace key0 in
           if length key > 128 then ((None, Some ErrInvalidInput), s)
           else case (if key \<noteq> [] then PipeStore_GetByIdempotency ws key snap else Inl ErrNotFound) of
             Inr existing \<Rightarrow> pl_existing env ws existing s
           | Inl lookupErr \<Rightarrow>
               if lookupErr \<noteq> ErrNotFound then ((None, Some lookupErr), s)
               else (case NewWithIdempotency now pid ws goal traceID key of
                  Inl e \<Rightarrow> ((None, Some e), s)
                | Inr p \<Rightarrow>
                    (case PipeStore_Create (pe_fk env (pls_port s)) gen p (pls_rows s) of
                       Inl e \<Rightarrow>
                         (case (if key \<noteq> [] then PipeStore_GetByIdempotency ws key (pls_rows s) else Inl e) of
                            Inr existing \<Rightarrow> pl_existing env ws existing s
                          | Inl _ \<Rightarrow> ((None, Some e), s))
                     | Inr (rows, stored) \<Rightarrow>
                         pl_emit env ''pipeline.research'' (pl_ID stored) ws (pl_Stage stored) stored
                           (pl_record ''pipeline.create'' ''Obedience'' ''success'' ws (pl_ID stored)
                              (pl_actorType actor ''system'') actor (pl_Stage stored) (s\<lparr>pls_rows := rows\<rparr>)))))"

text \<open>
  \<^verbatim>\<open>stageWork\<close> fills in the references of the pipeline it works on, also when a later part
  of the same stage fails.
\<close>

definition stageWork :: "'b pl_env \<Rightarrow> pipeline \<Rightarrow> stage \<Rightarrow> 'b pl_state \<Rightarrow> (pl_error, string) result \<times> pipeline \<times> 'b pl_state" where
  "stageWork env p to s =
     (case to of
        StageScript \<Rightarrow>
          (case pe_research env (pl_WorkspaceID p) p of
             Inl e \<Rightarrow> (Inl (ErrPort e), p, s)
           | Inr rr \<Rightarrow>
               let p1 = p\<lparr>pl_ResearchReference := boundReference rr\<rparr>
               in case pe_script env (pl_WorkspaceID p) p1 (pl_ResearchReference p1) of
                    Inl e \<Rightarrow> (Inl (ErrPort e), p1, s)
                  | Inr sr \<Rightarrow> (Inr (boundReference sr), p1\<lparr>pl_ScriptReference := boundReference sr\<rparr>, s))
      | StageReview \<Rightarrow>
          (case pe_review env (pl_WorkspaceID p) p of
             Inl e \<Rightarrow> (Inl (ErrPort e), p, s)
           | Inr False \<Rightarrow> (Inl (ErrPort ''orchestration: review rejected artefact''), p, s)
           | Inr True \<Rightarrow> (Inr ''review-ok'', p\<lparr>pl_ReviewReference := ''review-ok''\<rparr>, s))
      | StagePublish \<Rightarrow>
          (case pe_publication env of
             None \<Rightarrow>
               (case pe_publish env (pl_WorkspaceID p) p (pl_ReviewReference p) of
                  Inl e \<Rightarrow> (Inl (ErrPort e), p, s\<lparr>pls_released := pls_released s @ [p]\<rparr>)
                | Inr r \<Rightarrow> (Inr r, p, s\<lparr>pls_released := pls_released s @ [p]\<rparr>))
           | Some _ \<Rightarrow> (Inr [], p, s))
      | StageComplete \<Rightarrow> (Inr [], p, s)
      | _ \<Rightarrow> (Inl ErrInvalidStage, p, s))"

text \<open>A failure is written to the row; whether that worked is the second component.\<close>

definition pl_persist_failure :: "'b pl_env \<Rightarrow> instant \<Rightarrow> pipeline \<Rightarrow> pl_error \<Rightarrow> 'b pl_state \<Rightarrow> 'b pl_state \<times> pl_error option" where
  "pl_persist_failure env now p err s =
     (case PipeStore_Update (pe_fk env (pls_port s)) now (pl_WorkspaceID p)
             (p\<lparr>pl_Status := StatusFailed, pl_FailureReason := pl_failureReason err, pl_UpdatedAt := now\<rparr>) (pls_rows s) of
        Inl e \<Rightarrow> (s, Some e)
      | Inr (rows, _) \<Rightarrow> (s\<lparr>pls_rows := rows\<rparr>, None))"

definition pl_prepare :: "'b pl_env \<Rightarrow> pipeline \<Rightarrow> stage \<Rightarrow> 'b pl_state \<Rightarrow> (pl_error, pipeline) result \<times> 'b pl_state" where
  "pl_prepare env p to s =
     (case pe_publication env of
        None \<Rightarrow> (Inr p, s)
      | Some port \<Rightarrow>
          if to \<noteq> StageReview then (Inr p, s)
          else let (r, b) = port_Prepare port (pl_WorkspaceID p) p (pls_port s); s1 = s\<lparr>pls_port := b\<rparr>
               in case r of Inl e \<Rightarrow> (Inl (ErrPort e), s1) | Inr pubid \<Rightarrow> (Inr (p\<lparr>pl_PublicationID := Some pubid\<rparr>), s1))"

text \<open>\<open>None\<close> is the early return without approval.\<close>

definition pl_release ::
  "'b pl_env \<Rightarrow> pipeline \<Rightarrow> stage \<Rightarrow> 'b pl_state \<Rightarrow> (pl_error, pipeline) result option \<times> 'b pl_state" where
  "pl_release env p to s =
     (case pe_publication env of
        None \<Rightarrow> (Some (Inr p), s)
      | Some port \<Rightarrow>
          if to \<noteq> StagePublish then (Some (Inr p), s)
          else (case pl_PublicationID p of
                  None \<Rightarrow> (None, s)
                | Some pubid \<Rightarrow>
                    if \<not> Approved p then (None, s)
                    else let (r, b) = port_Publish port (pl_WorkspaceID p) pubid (pl_ApprovedBy p) (pls_port s);
                             s1 = s\<lparr>pls_port := b, pls_released := pls_released s @ [p]\<rparr>
                         in case r of
                              Inl e \<Rightarrow> (Some (Inl (ErrPort e)), s1)
                            | Inr ref \<Rightarrow> (Some (Inr (p\<lparr>pl_PublishedReference := ref\<rparr>)), s1)))"

definition stage_status :: "stage \<Rightarrow> pipeline_status \<Rightarrow> pipeline_status" where
  "stage_status to old =
     (case to of StageScript \<Rightarrow> StatusActive | StagePublish \<Rightarrow> StatusActive | StageReview \<Rightarrow> StatusAwaitingApproval
      | StageComplete \<Rightarrow> StatusDone | _ \<Rightarrow> old)"

definition pl_finish ::
  "'b pl_env \<Rightarrow> instant \<Rightarrow> pipeline \<Rightarrow> stage \<Rightarrow> string \<Rightarrow> string \<Rightarrow> 'b pl_state \<Rightarrow> pl_answer \<times> 'b pl_state" where
  "pl_finish env now p to atype aid s =
     (case PipeStore_Update (pe_fk env (pls_port s)) now (pl_WorkspaceID p)
             (p\<lparr>pl_Stage := to, pl_Status := stage_status to (pl_Status p), pl_FailureReason := [], pl_UpdatedAt := now\<rparr>) (pls_rows s) of
        Inl e \<Rightarrow> ((None, Some e), s)
      | Inr (rows, updated) \<Rightarrow>
          pl_emit env (if to = StageReview then ''pipeline.review_ready'' else ''pipeline.'' @ stage_text to)
            (pl_ID p) (pl_WorkspaceID p) to updated
            (pl_record ''pipeline.advance'' ''Human Oversight'' ''success'' (pl_WorkspaceID p) (pl_ID p) atype aid to
               (s\<lparr>pls_rows := rows\<rparr>)))"

definition doAdvance ::
  "'b pl_env \<Rightarrow> instant \<Rightarrow> pipeline \<Rightarrow> stage \<Rightarrow> string \<Rightarrow> string \<Rightarrow> 'b pl_state \<Rightarrow> pl_answer \<times> 'b pl_state" where
  "doAdvance env now p to atype aid s =
     (case stageWork env p to s of
        (Inl err, p1, s1) \<Rightarrow>
          let (s2, persistErr) = pl_persist_failure env now p1 err s1;
              s3 = pl_record ''pipeline.advance'' ''Security by Design'' ''failed'' (pl_WorkspaceID p1) (pl_ID p1) atype aid to s2
          in ((None, Some (case persistErr of None \<Rightarrow> err | Some pe \<Rightarrow> ErrJoin err pe)), s3)
      | (Inr _, p1, s1) \<Rightarrow>
          (case pl_prepare env p1 to s1 of
             (Inl err, s2) \<Rightarrow> ((None, Some err), fst (pl_persist_failure env now p1 err s2))
           | (Inr p2, s2) \<Rightarrow>
               (case pl_release env p2 to s2 of
                  (None, s3) \<Rightarrow> ((None, Some ErrApprovalRequired), s3)
                | (Some (Inl err), s3) \<Rightarrow> ((None, Some err), fst (pl_persist_failure env now p2 err s3))
                | (Some (Inr p3), s3) \<Rightarrow> pl_finish env now p3 to atype aid s3)))"

definition pl_Advance ::
  "'b pl_env \<Rightarrow> pipeline list \<Rightarrow> instant \<Rightarrow> uuid \<Rightarrow> uuid \<Rightarrow> stage \<Rightarrow> stage \<Rightarrow> 'b pl_state \<Rightarrow> pl_answer \<times> 'b pl_state" where
  "pl_Advance env snap now ws pid startStage to s0 =
     (if ws = uuid_Nil then ((None, Some ErrWorkspaceMismatch), s0)
      else let (ok, th) = Throttler_Allow now (pe_uuid_String env ws) (pls_throttle s0); s = s0\<lparr>pls_throttle := th\<rparr>
           in if \<not> ok then ((None, Some ErrRateLimited), s)
              else case pl_getOwned snap ws pid of
                     Inl e \<Rightarrow> ((None, Some e), s)
                   | Inr p \<Rightarrow>
                       if pl_Stage p \<noteq> startStage then ((None, Some ErrConsecutiveAdvance), s)
                       else (case CanAdvance to (pl_Stage p) (pl_Status p) of
                               Some e \<Rightarrow> ((None, Some e), s)
                             | None \<Rightarrow> doAdvance env now p to ''system'' [] s))"

definition publishCurrentEvent :: "'b pl_env \<Rightarrow> pipeline \<Rightarrow> 'b pl_state \<Rightarrow> pl_answer \<times> 'b pl_state" where
  "publishCurrentEvent env p s =
     pl_emit env
       (if pl_Stage p = StageReview
        then if pl_Status p = StatusApproved then ''pipeline.review_approved'' else ''pipeline.review_ready''
        else ''pipeline.'' @ stage_text (pl_Stage p))
       (pl_ID p) (pl_WorkspaceID p) (pl_Stage p) p s"

definition pl_Approve ::
  "'b pl_env \<Rightarrow> pipeline list \<Rightarrow> instant \<Rightarrow> uuid \<Rightarrow> uuid \<Rightarrow> string \<Rightarrow> 'b pl_state \<Rightarrow> pl_answer \<times> 'b pl_state" where
  "pl_Approve env snap now ws pid actor0 s =
     (let actor = TrimSpace actor0 in
      if actor = [] then ((None, Some ErrUnauthorizedActor), s)
      else case pl_getOwned snap ws pid of
        Inl e \<Rightarrow> ((None, Some e), s)
      | Inr p \<Rightarrow>
          if pl_Stage p \<noteq> StageReview then ((None, Some ErrApprovalRequired), s)
          else if pl_Status p = StatusApproved \<and> Approved p then publishCurrentEvent env p s
          else if pl_Status p \<noteq> StatusAwaitingApproval then ((None, Some ErrApprovalRequired), s)
          else
            let (err, s1) =
              (case pe_publication env of
                 None \<Rightarrow> (None, s)
               | Some port \<Rightarrow>
                   (case pl_PublicationID p of
                      None \<Rightarrow> (Some ErrApprovalRequired, s)
                    | Some pubid \<Rightarrow>
                        let (e, b) = port_Approve port ws pubid actor (pls_port s)
                        in (map_option ErrPort e, s\<lparr>pls_port := b\<rparr>)))
            in case err of
                 Some e \<Rightarrow> ((None, Some e), s1)
               | None \<Rightarrow>
                   (case PipeStore_Update (pe_fk env (pls_port s1)) now ws
                           (p\<lparr>pl_Status := StatusApproved, pl_ApprovedBy := actor, pl_ApprovedAt := Some now, pl_FailureReason := [],
                              pl_UpdatedAt := now\<rparr>) (pls_rows s1) of
                      Inl e \<Rightarrow> ((None, Some e), s1)
                    | Inr (rows, updated) \<Rightarrow>
                        pl_emit env ''pipeline.review_approved'' pid ws StageReview updated
                          (pl_record ''pipeline.approve'' ''Human Oversight'' ''success'' ws pid ''human'' actor StageReview
                             (s1\<lparr>pls_rows := rows\<rparr>))))"

text \<open>
  \<^verbatim>\<open>Retry\<close> writes twice: it takes the failed pipeline back to the state before the failure,
  then does the work of the next stage. The first part hands the pipeline to the second.
\<close>

definition retry_status :: "pipeline \<Rightarrow> pipeline_status" where
  "retry_status p =
     (case pl_Stage p of
        StageReview \<Rightarrow> if pl_ApprovedBy p \<noteq> [] \<and> pl_ApprovedAt p \<noteq> None then StatusApproved else StatusAwaitingApproval
      | StageResearch \<Rightarrow> StatusCreated
      | _ \<Rightarrow> StatusActive)"

definition Retry_begin ::
  "'b pl_env \<Rightarrow> pipeline list \<Rightarrow> instant \<Rightarrow> uuid \<Rightarrow> uuid \<Rightarrow> string \<Rightarrow> 'b pl_state \<Rightarrow> (pl_error, pipeline \<times> stage) result \<times> 'b pl_state" where
  "Retry_begin env snap now ws pid actor0 s0 =
     (if TrimSpace actor0 = [] then (Inl ErrUnauthorizedActor, s0)
      else let (ok, th) = Throttler_Allow now (pe_uuid_String env ws) (pls_throttle s0); s = s0\<lparr>pls_throttle := th\<rparr>
           in if \<not> ok then (Inl ErrRateLimited, s)
              else case pl_getOwned snap ws pid of
                     Inl e \<Rightarrow> (Inl e, s)
                   | Inr p \<Rightarrow>
                       if pl_Status p \<noteq> StatusFailed then (Inl ErrInvalidTransition, s)
                       else if pl_Stage p = StageComplete then (Inl ErrTerminalState, s)
                       else (case PipeStore_Update (pe_fk env (pls_port s)) now ws
                                    (p\<lparr>pl_Status := retry_status p, pl_RetryCount := pl_RetryCount p + 1, pl_FailureReason := [],
                                       pl_UpdatedAt := now\<rparr>) (pls_rows s) of
                               Inl e \<Rightarrow> (Inl e, s)
                             | Inr (rows, p') \<Rightarrow>
                                 (case NextStage (pl_Stage p') of
                                    Inl e \<Rightarrow> (Inl e, s\<lparr>pls_rows := rows\<rparr>)
                                  | Inr nxt \<Rightarrow> (Inr (p', nxt), s\<lparr>pls_rows := rows\<rparr>))))"

definition pl_Retry ::
  "'b pl_env \<Rightarrow> pipeline list \<Rightarrow> instant \<Rightarrow> uuid \<Rightarrow> uuid \<Rightarrow> string \<Rightarrow> 'b pl_state \<Rightarrow> pl_answer \<times> 'b pl_state" where
  "pl_Retry env snap now ws pid actor s =
     (case Retry_begin env snap now ws pid actor s of
        (Inl e, s1) \<Rightarrow> ((None, Some e), s1)
      | (Inr (p, nxt), s1) \<Rightarrow> doAdvance env now p nxt ''human'' (TrimSpace actor) s1)"

definition pl_Get :: "pipeline list \<Rightarrow> uuid \<Rightarrow> uuid \<Rightarrow> (pl_error, pipeline) result" where
  "pl_Get snap ws pid = pl_getOwned snap ws pid"

definition pl_List :: "pipeline list \<Rightarrow> uuid \<Rightarrow> pipeline list" where
  "pl_List snap ws = PipeStore_List ws snap"

text \<open>The worker's handler: \<open>snap2\<close> is the table of its second look.\<close>

definition AdvanceFromEvent ::
  "'b pl_env \<Rightarrow> pipeline list \<Rightarrow> pipeline list \<Rightarrow> instant \<Rightarrow> uuid \<Rightarrow> uuid \<Rightarrow> stage \<Rightarrow> 'b pl_state \<Rightarrow> pl_answer \<times> 'b pl_state" where
  "AdvanceFromEvent env snap snap2 now ws pid currentStage s =
     (case NextStage currentStage of
        Inl e \<Rightarrow> ((None, Some e), s)
      | Inr nxt \<Rightarrow>
          (case pl_Advance env snap now ws pid currentStage nxt s of
             ((updated, err), s1) \<Rightarrow>
               if err \<noteq> Some ErrConsecutiveAdvance then ((updated, err), s1)
               else (case pl_Get snap2 ws pid of
                       Inl _ \<Rightarrow> ((None, err), s1)
                     | Inr current \<Rightarrow>
                         if pl_Status current \<noteq> StatusFailed \<and> IsAfter (pl_Stage current) currentStage
                         then publishCurrentEvent env current s1
                         else ((updated, err), s1))))"

subsection \<open>Interleaved requests\<close>

text \<open>
  A request works on the table as it is or as it once was. A retry is two steps with any
  others in between; \<open>plw_retries\<close> holds the ones that are half way.
\<close>

record 'b pl_world =
  plw_now :: "'b pl_state"
  plw_past :: "pipeline list set"
  plw_retries :: "(pipeline \<times> stage \<times> string) set"

datatype pl_request =
    PlCreate uuid uuid string uuid "uuid option" string string
  | PlAdvance uuid uuid stage stage
  | PlEvent uuid uuid stage
  | PlApprove uuid uuid string

fun pl_serve ::
  "'b pl_env \<Rightarrow> pipeline list \<Rightarrow> pipeline list \<Rightarrow> instant \<Rightarrow> pl_request \<Rightarrow> 'b pl_state \<Rightarrow> pl_answer \<times> 'b pl_state" where
  "pl_serve env snap snap2 now (PlCreate pid gen actor ws goal trace key) s =
     pl_CreateWithIdempotency env snap now pid gen actor ws goal trace key s"
| "pl_serve env snap snap2 now (PlAdvance ws pid from to) s = pl_Advance env snap now ws pid from to s"
| "pl_serve env snap snap2 now (PlEvent ws pid st) s = AdvanceFromEvent env snap snap2 now ws pid st s"
| "pl_serve env snap snap2 now (PlApprove ws pid actor) s = pl_Approve env snap now ws pid actor s"

definition tables :: "'b pl_world \<Rightarrow> pipeline list set" where
  "tables w = insert (pls_rows (plw_now w)) (plw_past w)"

inductive pl_step :: "'b pl_env set \<Rightarrow> 'b pl_world \<Rightarrow> 'b pl_world \<Rightarrow> bool" for E where
  pl_serve_step:
    "env \<in> E \<Longrightarrow> snap \<in> tables w \<Longrightarrow> snap2 \<in> tables w \<Longrightarrow> pl_serve env snap snap2 now req (plw_now w) = (answer, s) \<Longrightarrow>
     pl_step E w \<lparr>plw_now = s, plw_past = tables w, plw_retries = plw_retries w\<rparr>"
| pl_retry_begin:
    "env \<in> E \<Longrightarrow> snap \<in> tables w \<Longrightarrow> Retry_begin env snap now ws pid actor (plw_now w) = (r, s) \<Longrightarrow>
     pl_step E w \<lparr>plw_now = s, plw_past = tables w,
       plw_retries = (case r of Inl _ \<Rightarrow> plw_retries w | Inr (p, nxt) \<Rightarrow> insert (p, nxt, TrimSpace actor) (plw_retries w))\<rparr>"
| pl_retry_finish:
    "env \<in> E \<Longrightarrow> (p, nxt, actor) \<in> plw_retries w \<Longrightarrow> doAdvance env now p nxt ''human'' actor (plw_now w) = (answer, s) \<Longrightarrow>
     pl_step E w \<lparr>plw_now = s, plw_past = tables w, plw_retries = plw_retries w - {(p, nxt, actor)}\<rparr>"

definition pl_initial :: "'b pl_world \<Rightarrow> bool" where
  "pl_initial w \<longleftrightarrow> pls_rows (plw_now w) = [] \<and> pls_released (plw_now w) = [] \<and> plw_past w = {} \<and> plw_retries w = {}"

subsection \<open>What a row promises, and what a write does\<close>

definition needs_approval :: "pipeline \<Rightarrow> bool" where
  "needs_approval p \<longleftrightarrow>
     (pl_Stage p = StageReview \<and> pl_Status p \<noteq> StatusAwaitingApproval) \<or> pl_Stage p = StagePublish \<or> pl_Stage p = StageComplete"

definition has_approval :: "pipeline \<Rightarrow> bool" where
  "has_approval p \<longleftrightarrow> TrimSpace (pl_ApprovedBy p) \<noteq> [] \<and> pl_ApprovedAt p \<noteq> None"

definition pl_ok :: "pipeline \<Rightarrow> bool" where
  "pl_ok p \<longleftrightarrow> stage_status_valid (pl_Stage p) (pl_Status p) \<and> 1 \<le> pl_Version p \<and> (needs_approval p \<longrightarrow> has_approval p)"

text \<open>The columns an update does not change, with the version it was read at.\<close>

definition frame :: "pipeline \<Rightarrow> pipeline \<Rightarrow> bool" where
  "frame p q \<longleftrightarrow> pl_ID q = pl_ID p \<and> pl_WorkspaceID q = pl_WorkspaceID p \<and> pl_GoalID q = pl_GoalID p
     \<and> pl_CreatedAt q = pl_CreatedAt p \<and> pl_Version q = pl_Version p"

definition same_core :: "pipeline \<Rightarrow> pipeline \<Rightarrow> bool" where
  "same_core p q \<longleftrightarrow> frame p q \<and> pl_Stage q = pl_Stage p \<and> pl_Status q = pl_Status p
     \<and> pl_ApprovedBy q = pl_ApprovedBy p \<and> pl_ApprovedAt q = pl_ApprovedAt p"

definition evolves :: "pipeline \<Rightarrow> pipeline \<Rightarrow> bool" where
  "evolves r r' \<longleftrightarrow> pl_ID r' = pl_ID r \<and> pl_Version r' = pl_Version r + 1 \<and> pl_Status r \<noteq> StatusDone
     \<and> (pl_Stage r' = pl_Stage r \<or> NextStage (pl_Stage r) = Inr (pl_Stage r')) \<and> pl_ok r'"

definition one_write :: "pipeline list \<Rightarrow> pipeline list \<Rightarrow> bool" where
  "one_write rows rows' \<longleftrightarrow> rows' = rows
     \<or> (\<exists>r \<in> set rows. \<exists>r'. evolves r r' \<and> rows' = upd_where (\<lambda>x. pl_ID x = pl_ID r) (\<lambda>_. r') rows)
     \<or> (\<exists>r'. pl_ok r' \<and> pl_ID r' \<notin> pl_ID ` set rows \<and> rows' = rows @ [r'])"

definition pl_safe :: "'b pl_state \<Rightarrow> 'b pl_state \<Rightarrow> bool" where
  "pl_safe s t \<longleftrightarrow> one_write (pls_rows s) (pls_rows t) \<and> (\<forall>p \<in> set (pls_released t). p \<in> set (pls_released s) \<or> Approved p)"

text \<open>The row \<open>r\<close>, read at some time, is still the one with its version if there is one.\<close>

definition current_at :: "pipeline \<Rightarrow> pipeline list \<Rightarrow> bool" where
  "current_at r rows \<longleftrightarrow> distinct (map pl_ID rows) \<and> (\<forall>c \<in> set rows. pl_ID c = pl_ID r \<and> pl_Version c = pl_Version r \<longrightarrow> c = r)"

text \<open>What the work on a stage starts from.\<close>

definition ready :: "pipeline \<Rightarrow> stage \<Rightarrow> bool" where
  "ready p to \<longleftrightarrow> pl_ok p \<and> NextStage (pl_Stage p) = Inr to \<and> pl_Status p \<noteq> StatusDone \<and> pl_Status p \<noteq> StatusFailed
     \<and> pl_Status p \<noteq> StatusAwaitingApproval"

lemma frame_refl [simp]: "frame p p"
  by (simp add: frame_def)

lemma same_core_refl [simp]: "same_core p p"
  by (simp add: same_core_def)

lemma same_core_trans: "same_core p q \<Longrightarrow> same_core q r \<Longrightarrow> same_core p r"
  by (simp add: same_core_def frame_def)

lemma one_write_refl [simp]: "one_write rows rows"
  by (simp add: one_write_def)

lemma TrimSpace_nonempty: "TrimSpace s \<noteq> [] \<Longrightarrow> s \<noteq> []"
  by auto

lemma pl_write_frame:
  assumes "frame r p"
  shows "pl_write p r = p\<lparr>pl_Version := pl_Version r + 1\<rparr>"
  using assms by (intro pipeline.equality) (simp_all add: pl_write_def frame_def)

text \<open>Compare and swap: a successful update replaces the very row that was read.\<close>

lemma PipeStore_Update_swaps:
  assumes "PipeStore_Update fk now (pl_WorkspaceID r) p rows = Inr (rows', p')" and "current_at r rows"
    and "frame r p" and "1 \<le> pl_Version r"
  shows "r \<in> set rows \<and> p' = p\<lparr>pl_UpdatedAt := now, pl_Version := pl_Version r + 1\<rparr>
    \<and> rows' = upd_where (\<lambda>x. pl_ID x = pl_ID r) (\<lambda>_. p') rows"
proof -
  let ?hit = "\<lambda>x. pl_ID x = pl_ID p \<and> pl_WorkspaceID x = pl_WorkspaceID r \<and> pl_Version x = pl_Version r"
  let ?p = "p\<lparr>pl_UpdatedAt := now\<rparr>"
  have v: "pl_Version p = pl_Version r" "pl_ID p = pl_ID r" using assms(3) by (simp_all add: frame_def)
  have u: "count_where ?hit rows = 1" "rows' = upd_where ?hit (pl_write ?p) rows" "p' = ?p\<lparr>pl_Version := pl_Version r + 1\<rparr>"
    using assms(1,4) v by (auto simp: PipeStore_Update_def Let_def split: if_splits)
  have "0 < count_where ?hit rows" using u(1) by simp
  then obtain x where "x \<in> set rows" "?hit x" by (auto simp: count_where_pos_iff)
  then have r: "r \<in> set rows" using assms(2) v by (auto simp: current_at_def)
  have "upd_where ?hit (pl_write ?p) rows = upd_where (\<lambda>x. pl_ID x = pl_ID r) (pl_write ?p) rows"
    using assms(2) v by (intro upd_where_key [OF _ r]) (auto simp: current_at_def)
  also have "\<dots> = upd_where (\<lambda>x. pl_ID x = pl_ID r) (\<lambda>_. p') rows"
  proof (rule upd_where_cong [OF refl refl])
    fix x assume "x \<in> set rows" "pl_ID x = pl_ID r"
    then have "x = r" using r assms(2) by (auto simp: current_at_def dest: distinct_map_keyD)
    moreover have "frame r ?p" using assms(3) by (simp add: frame_def)
    ultimately show "pl_write ?p x = p'" using u(3) pl_write_frame by simp
  qed
  finally show ?thesis using r u by simp
qed

lemma update_one_write:
  assumes "PipeStore_Update fk now (pl_WorkspaceID r) p rows = Inr (rows', p')" and "current_at r rows"
    and "frame r p" and "evolves r (p\<lparr>pl_UpdatedAt := now, pl_Version := pl_Version r + 1\<rparr>)" and "pl_ok r"
  shows "one_write rows rows'"
proof -
  from assms(5) have "1 \<le> pl_Version r" by (simp add: pl_ok_def)
  from PipeStore_Update_swaps [OF assms(1-3) this] assms(4) show ?thesis
    unfolding one_write_def by auto
qed

subsection \<open>Every operation is safe\<close>

lemma evolves_failed:
  assumes "ready p to" "same_core p q"
  shows "evolves p (q\<lparr>pl_Status := StatusFailed, pl_FailureReason := fr, pl_UpdatedAt := now, pl_Version := pl_Version p + 1\<rparr>)"
proof -
  have "has_approval p" if "pl_Stage p = StageReview \<or> pl_Stage p = StagePublish \<or> pl_Stage p = StageComplete"
    using assms(1) that by (auto simp: ready_def pl_ok_def needs_approval_def)
  then show ?thesis
    using assms by (auto simp: evolves_def ready_def pl_ok_def same_core_def frame_def stage_status_valid_def pl_ValidStatus_def
        needs_approval_def has_approval_def)
qed

lemma persist_failure_safe:
  assumes "ready p to" "same_core p q" "current_at p (pls_rows s)"
  shows "one_write (pls_rows s) (pls_rows (fst (pl_persist_failure env now q err s)))
    \<and> pls_released (fst (pl_persist_failure env now q err s)) = pls_released s"
proof -
  let ?q = "q\<lparr>pl_Status := StatusFailed, pl_FailureReason := pl_failureReason err, pl_UpdatedAt := now\<rparr>"
  have ws: "pl_WorkspaceID q = pl_WorkspaceID p" and f: "frame p ?q" and ok: "pl_ok p"
    using assms(1,2) by (simp_all add: same_core_def frame_def ready_def)
  show ?thesis
  proof (cases "PipeStore_Update (pe_fk env (pls_port s)) now (pl_WorkspaceID p) ?q (pls_rows s)")
    case (Inl e)
    then show ?thesis by (simp add: pl_persist_failure_def ws)
  next
    case (Inr u)
    obtain rows p' where u: "u = (rows, p')" by fastforce
    have "one_write (pls_rows s) rows"
      using evolves_failed [OF assms(1,2)] by (intro update_one_write [OF Inr [unfolded u] assms(3) f _ ok]) simp
    with Inr u show ?thesis by (simp add: pl_persist_failure_def ws)
  qed
qed

lemma pl_emit_state:
  "pl_emit env ev pid ws st p s = (answer, t) \<Longrightarrow> pls_rows t = pls_rows s \<and> pls_released t = pls_released s"
  by (auto simp: pl_emit_def Let_def split: option.splits)

lemma pl_record_state [simp]:
  "pls_rows (pl_record ev pr oc ws pid at ai st s) = pls_rows s"
  "pls_released (pl_record ev pr oc ws pid at ai st s) = pls_released s"
  by (simp_all add: pl_record_def)

lemma evolves_finish:
  assumes "ready p to" "same_core p q"
  shows "evolves p (q\<lparr>pl_Stage := to, pl_Status := stage_status to (pl_Status q), pl_FailureReason := [], pl_UpdatedAt := now,
    pl_Version := pl_Version p + 1\<rparr>)"
proof -
  have "has_approval p" if "pl_Stage p = StageReview \<or> pl_Stage p = StagePublish"
    using assms(1) that by (auto simp: ready_def pl_ok_def needs_approval_def)
  then show ?thesis
    using assms
    by (cases "pl_Stage p")
      (auto simp: evolves_def ready_def pl_ok_def same_core_def frame_def stage_status_valid_def pl_ValidStatus_def
        ValidStage_def needs_approval_def has_approval_def stage_status_def)
qed

lemma pl_finish_safe:
  assumes "ready p to" "same_core p q" "current_at p (pls_rows s)" "pl_finish env now q to at ai s = (answer, t)"
  shows "one_write (pls_rows s) (pls_rows t) \<and> pls_released t = pls_released s"
proof -
  let ?q = "q\<lparr>pl_Stage := to, pl_Status := stage_status to (pl_Status q), pl_FailureReason := [], pl_UpdatedAt := now\<rparr>"
  have ws: "pl_WorkspaceID q = pl_WorkspaceID p" and f: "frame p ?q" and ok: "pl_ok p"
    using assms(1,2) by (simp_all add: same_core_def frame_def ready_def)
  show ?thesis
  proof (cases "PipeStore_Update (pe_fk env (pls_port s)) now (pl_WorkspaceID p) ?q (pls_rows s)")
    case (Inl e)
    then show ?thesis using assms(4) by (auto simp: pl_finish_def ws)
  next
    case (Inr u)
    obtain rows p' where u: "u = (rows, p')" by fastforce
    have "one_write (pls_rows s) rows"
      using evolves_finish [OF assms(1,2)] by (intro update_one_write [OF Inr [unfolded u] assms(3) f _ ok]) simp
    moreover have "pls_rows t = rows \<and> pls_released t = pls_released s"
      using Inr u assms(4) by (auto simp: pl_finish_def ws dest!: pl_emit_state)
    ultimately show ?thesis by simp
  qed
qed

lemma ready_Approved: "ready p StagePublish \<Longrightarrow> same_core p q \<Longrightarrow> Approved q"
  by (cases "pl_Stage p")
    (auto simp: ready_def pl_ok_def stage_status_valid_def needs_approval_def has_approval_def same_core_def Approved_def
      dest: TrimSpace_nonempty)

lemma stageWork_core:
  assumes "stageWork env p to s = (r, q, t)" "ready p to"
  shows "same_core p q \<and> pls_rows t = pls_rows s \<and> (\<forall>x \<in> set (pls_released t). x \<in> set (pls_released s) \<or> Approved x)"
  using assms ready_Approved [of p p]
  by (auto simp: stageWork_def same_core_def frame_def Let_def split: stage.splits sum.splits bool.splits option.splits)

lemma pl_prepare_core:
  assumes "pl_prepare env p to s = (r, t)"
  shows "(\<forall>q. r = Inr q \<longrightarrow> same_core p q) \<and> pls_rows t = pls_rows s \<and> pls_released t = pls_released s"
  using assms
  by (auto simp: pl_prepare_def same_core_def frame_def Let_def split: option.splits if_splits prod.splits sum.splits)

lemma pl_release_core:
  assumes "pl_release env p to s = (r, t)"
  shows "(\<forall>q. r = Some (Inr q) \<longrightarrow> same_core p q) \<and> pls_rows t = pls_rows s
    \<and> (\<forall>x \<in> set (pls_released t). x \<in> set (pls_released s) \<or> Approved x)"
  using assms
  by (auto simp: pl_release_def same_core_def frame_def Let_def split: option.splits if_splits prod.splits sum.splits)

lemma doAdvance_safe:
  assumes "ready p to" "current_at p (pls_rows s)" "doAdvance env now p to at ai s = (answer, t)"
  shows "pl_safe s t"
proof -
  obtain r1 p1 s1 where w: "stageWork env p to s = (r1, p1, s1)" by (metis prod_cases3)
  note c1 = stageWork_core [OF w assms(1)]
  show ?thesis
  proof (cases r1)
    case (Inl err)
    with w assms(3) have "pls_rows t = pls_rows (fst (pl_persist_failure env now p1 err s1))
        \<and> pls_released t = pls_released (fst (pl_persist_failure env now p1 err s1))"
      by (auto simp: doAdvance_def Let_def split: prod.splits)
    with persist_failure_safe [OF assms(1), of p1 s1 env now err] c1 assms(2) show ?thesis
      by (simp add: pl_safe_def)
  next
    case (Inr ref)
    obtain r2 s2 where pr: "pl_prepare env p1 to s1 = (r2, s2)" by fastforce
    note c2 = pl_prepare_core [OF pr]
    show ?thesis
    proof (cases r2)
      case (Inl err)
      with w Inr pr assms(3) have "t = fst (pl_persist_failure env now p1 err s2)"
        by (simp add: doAdvance_def)
      with persist_failure_safe [OF assms(1), of p1 s2 env now err] c1 c2 assms(2) show ?thesis
        by (simp add: pl_safe_def)
    next
      case (Inr p2)
      obtain r3 s3 where rl: "pl_release env p2 to s2 = (r3, s3)" by fastforce
      note c3 = pl_release_core [OF rl]
      have core2: "same_core p p2" using c1 c2 Inr by (blast intro: same_core_trans)
      have rows3: "pls_rows s3 = pls_rows s" and rel3: "\<forall>x \<in> set (pls_released s3). x \<in> set (pls_released s) \<or> Approved x"
        using c1 c2 c3 by auto
      consider (denied) "r3 = None" | (failed) err where "r3 = Some (Inl err)" | (ok) p3 where "r3 = Some (Inr p3)"
        by (metis old.sum.exhaust option.exhaust)
      then show ?thesis
      proof cases
        case denied
        with w \<open>r1 = Inr ref\<close> pr Inr rl assms(3) rows3 rel3 show ?thesis
          by (simp add: doAdvance_def pl_safe_def)
      next
        case failed
        with w \<open>r1 = Inr ref\<close> pr Inr rl assms(3) have "t = fst (pl_persist_failure env now p2 err s3)"
          by (simp add: doAdvance_def)
        with persist_failure_safe [OF assms(1) core2, of s3 env now err] rows3 rel3 assms(2) show ?thesis
          by (simp add: pl_safe_def)
      next
        case ok
        with w \<open>r1 = Inr ref\<close> pr Inr rl assms(3) have "pl_finish env now p3 to at ai s3 = (answer, t)"
          by (simp add: doAdvance_def)
        moreover have "same_core p p3" using core2 c3 ok by (blast intro: same_core_trans)
        ultimately show ?thesis
          using pl_finish_safe [OF assms(1), of p3 s3 env now at ai answer t] rows3 rel3 assms(2) by (simp add: pl_safe_def)
      qed
    qed
  qed
qed

lemma pl_getOwned_Inr: "pl_getOwned snap ws pid = Inr p \<Longrightarrow> p \<in> set snap \<and> pl_ID p = pid \<and> pl_WorkspaceID p = ws"
  by (auto simp: pl_getOwned_def PipeStore_Get_def split: if_splits option.splits dest: find_SomeD)

text \<open>A snapshot all of whose rows are well formed and current.\<close>

definition good_snap :: "pipeline list \<Rightarrow> pipeline list \<Rightarrow> bool" where
  "good_snap snap rows \<longleftrightarrow> (\<forall>r \<in> set snap. pl_ok r \<and> current_at r rows)"

lemma pl_safe_throttle [simp]: "pl_safe (s\<lparr>pls_throttle := th\<rparr>) t = pl_safe s t"
  by (simp add: pl_safe_def)

lemma pl_safe_refl [simp]: "pl_safe s s"
  by (simp add: pl_safe_def)

lemma pl_safe_throttle' [simp]: "pl_safe s (s\<lparr>pls_throttle := th\<rparr>)"
  by (simp add: pl_safe_def)

lemma CanAdvance_ready:
  "CanAdvance to (pl_Stage p) (pl_Status p) = None \<Longrightarrow> pl_ok p \<Longrightarrow> ready p to"
  by (auto simp: CanAdvance_def ready_def pl_ok_def stage_status_valid_def terminalStatus_def split: if_splits stage.splits)

lemma pl_Advance_safe:
  assumes "good_snap snap (pls_rows s)" "pl_Advance env snap now ws pid from to s = (answer, t)"
  shows "pl_safe s t"
proof -
  have adv: "pl_safe s t" if "doAdvance env now p to ''system'' [] (s\<lparr>pls_throttle := th\<rparr>) = (answer, t)"
    "pl_getOwned snap ws pid = Inr p" "CanAdvance to (pl_Stage p) (pl_Status p) = None" for p th
    using doAdvance_safe [OF CanAdvance_ready [OF that(3)] _ that(1)] pl_getOwned_Inr [OF that(2)] assms(1)
    by (simp add: good_snap_def)
  show ?thesis
    using assms(2) by (auto simp: pl_Advance_def Let_def split: if_splits prod.splits sum.splits option.splits elim!: adv)
qed

lemma pl_emit_safe: "pl_emit env ev pid ws st p s = (answer, t) \<Longrightarrow> pl_safe s t"
  by (auto simp: pl_emit_def pl_safe_def Let_def split: option.splits)

lemma AdvanceFromEvent_safe:
  assumes "good_snap snap (pls_rows s)" "AdvanceFromEvent env snap snap2 now ws pid st s = (answer, t)"
  shows "pl_safe s t"
proof (cases "NextStage st")
  case (Inl e)
  with assms(2) show ?thesis by (simp add: AdvanceFromEvent_def)
next
  case (Inr nxt)
  obtain upd err s1 where a: "pl_Advance env snap now ws pid st nxt s = ((upd, err), s1)" by (metis prod.exhaust)
  from pl_Advance_safe [OF assms(1) a] have s1: "pl_safe s s1" .
  have "pl_safe s t" if "publishCurrentEvent env p s1 = (answer, t)" for p
    using that s1 by (auto simp: publishCurrentEvent_def pl_emit_def pl_safe_def Let_def split: option.splits)
  then show ?thesis
    using assms(2) a Inr s1 by (auto simp: AdvanceFromEvent_def split: if_splits sum.splits)
qed

lemma pl_Approve_safe:
  assumes "good_snap snap (pls_rows s)" "pl_Approve env snap now ws pid actor s = (answer, t)"
  shows "pl_safe s t"
proof -
  have upd: "one_write (pls_rows s) rows"
    if p: "pl_getOwned snap ws pid = Inr p" "pl_Stage p = StageReview" "pl_Status p = StatusAwaitingApproval" "TrimSpace actor \<noteq> []"
      and u: "PipeStore_Update fk now ws (p\<lparr>pl_Status := StatusApproved, pl_ApprovedBy := TrimSpace actor, pl_ApprovedAt := Some now,
        pl_FailureReason := [], pl_UpdatedAt := now\<rparr>) (pls_rows s) = Inr (rows, p')" for p rows p' fk
  proof -
    have r: "pl_ok p" "current_at p (pls_rows s)" "pl_WorkspaceID p = ws"
      using assms(1) pl_getOwned_Inr [OF p(1)] by (auto simp: good_snap_def)
    show ?thesis
      by (rule update_one_write [OF u [folded r(3)] r(2) _ _ r(1)])
        (use r p in \<open>simp_all add: frame_def evolves_def pl_ok_def stage_status_valid_def pl_ValidStatus_def has_approval_def\<close>)
  qed
  show ?thesis
    using assms(2)
    by (auto simp: pl_Approve_def publishCurrentEvent_def Let_def pl_safe_def split: if_splits sum.splits option.splits prod.splits
        dest!: pl_emit_state intro: upd)
qed

lemma pl_Create_safe:
  assumes "pl_CreateWithIdempotency env snap now pid gen actor ws goal trace key s = (answer, t)"
  shows "pl_safe s t"
proof -
  have new: "one_write (pls_rows s) rows"
    if p: "NewWithIdempotency now pid ws goal trace k = Inr p" "PipeStore_Create fk gen p (pls_rows s) = Inr (rows, p')" for p rows p' fk k
  proof -
    have "pl_ok (p\<lparr>pl_ID := gen\<rparr>)"
      using p(1) by (auto simp: NewWithIdempotency_def Let_def pl_ok_def stage_status_valid_def ValidStage_def pl_ValidStatus_def
          needs_approval_def split: if_splits)
    moreover have "rows = pls_rows s @ [p\<lparr>pl_ID := gen\<rparr>] \<and> gen \<notin> pl_ID ` set (pls_rows s)"
      using p(2) by (auto simp: PipeStore_Create_def Let_def split: if_splits)
    ultimately show ?thesis
      unfolding one_write_def by (intro disjI2 exI [of _ "p\<lparr>pl_ID := gen\<rparr>"]) simp
  qed
  show ?thesis
    using assms
    by (auto simp: pl_CreateWithIdempotency_def pl_existing_def Let_def pl_safe_def split: if_splits sum.splits prod.splits
        dest!: pl_emit_state intro: new)
qed

lemma Retry_begin_safe:
  assumes "good_snap snap (pls_rows s)" "Retry_begin env snap now ws pid actor s = (r, t)"
  shows "pl_safe s t \<and> (\<forall>p nxt. r = Inr (p, nxt) \<longrightarrow> p \<in> set (pls_rows t) \<and> ready p nxt)"
proof -
  have upd: "one_write (pls_rows s) rows \<and> p' \<in> set rows \<and> pl_ok p' \<and> pl_Stage p' = pl_Stage p \<and> pl_Status p' = retry_status p
      \<and> has_approval p' = has_approval p"
    if p: "pl_getOwned snap ws pid = Inr p" "pl_Status p = StatusFailed" "pl_Stage p \<noteq> StageComplete"
      and u: "PipeStore_Update fk now ws (p\<lparr>pl_Status := retry_status p, pl_RetryCount := pl_RetryCount p + 1, pl_FailureReason := [],
        pl_UpdatedAt := now\<rparr>) (pls_rows s) = Inr (rows, p')" for p rows p' fk
  proof -
    let ?q = "p\<lparr>pl_Status := retry_status p, pl_RetryCount := pl_RetryCount p + 1, pl_FailureReason := [], pl_UpdatedAt := now\<rparr>"
    have r: "pl_ok p" "current_at p (pls_rows s)" "pl_WorkspaceID p = ws"
      using assms(1) pl_getOwned_Inr [OF p(1)] by (auto simp: good_snap_def)
    have f: "frame p ?q" by (simp add: frame_def)
    have e: "evolves p (?q\<lparr>pl_UpdatedAt := now, pl_Version := pl_Version p + 1\<rparr>)"
      using r p TrimSpace_nonempty
      by (cases "pl_Stage p")
        (auto simp: evolves_def pl_ok_def stage_status_valid_def pl_ValidStatus_def needs_approval_def has_approval_def
          ValidStage_def retry_status_def)
    have "one_write (pls_rows s) rows"
      by (rule update_one_write [OF u [folded r(3)] r(2) f e r(1)])
    moreover have "1 \<le> pl_Version p" using r(1) by (simp add: pl_ok_def)
    note sw = PipeStore_Update_swaps [OF u [folded r(3)] r(2) f this]
    have "p' \<in> set rows"
      using sw by (auto simp: set_upd_where image_iff)
    ultimately show ?thesis
      using sw e by (auto simp: evolves_def has_approval_def)
  qed
  have ready: "ready p' nxt" if "pl_ok p'" "pl_Stage p' = pl_Stage p" "pl_Status p' = retry_status p" "pl_Status p = StatusFailed"
    "NextStage (pl_Stage p') = Inr nxt" "pl_ok p" for p p' nxt
    using that TrimSpace_nonempty
    by (cases "pl_Stage p") (auto simp: ready_def retry_status_def pl_ok_def needs_approval_def has_approval_def)
  show ?thesis
  proof (cases "\<exists>p rows p' th. pl_getOwned snap ws pid = Inr p \<and> pl_Status p = StatusFailed \<and> pl_Stage p \<noteq> StageComplete
      \<and> PipeStore_Update (pe_fk env (pls_port s)) now ws (p\<lparr>pl_Status := retry_status p, pl_RetryCount := pl_RetryCount p + 1,
        pl_FailureReason := [], pl_UpdatedAt := now\<rparr>) (pls_rows s) = Inr (rows, p')")
    case True
    then obtain p rows p' where h: "pl_getOwned snap ws pid = Inr p" "pl_Status p = StatusFailed" "pl_Stage p \<noteq> StageComplete"
      "PipeStore_Update (pe_fk env (pls_port s)) now ws (p\<lparr>pl_Status := retry_status p, pl_RetryCount := pl_RetryCount p + 1,
        pl_FailureReason := [], pl_UpdatedAt := now\<rparr>) (pls_rows s) = Inr (rows, p')" by blast
    note u = upd [OF h]
    have "pl_ok p" using assms(1) pl_getOwned_Inr [OF h(1)] by (auto simp: good_snap_def)
    with u h ready [of p' p] have "NextStage (pl_Stage p') = Inr nxt \<Longrightarrow> ready p' nxt" for nxt by blast
    with u h assms(2) show ?thesis
      by (auto simp: Retry_begin_def Let_def pl_safe_def split: if_splits prod.splits sum.splits)
  next
    case False
    with assms(2) show ?thesis
      by (auto simp: Retry_begin_def Let_def split: if_splits prod.splits sum.splits)
  qed
qed

lemma pl_serve_safe:
  "good_snap snap (pls_rows s) \<Longrightarrow> pl_serve env snap snap2 now req s = (answer, t) \<Longrightarrow> pl_safe s t"
  by (cases req) (auto intro: pl_Create_safe pl_Advance_safe AdvanceFromEvent_safe pl_Approve_safe)

subsection \<open>The invariant of all interleavings\<close>

text \<open>
  Every row ever stored is well formed and has a successor or is still there: of two rows of
  a pipeline with the same version there is only one.
\<close>

definition succeeded_by :: "pipeline \<Rightarrow> pipeline \<Rightarrow> bool" where
  "succeeded_by r c \<longleftrightarrow> pl_ID c = pl_ID r \<and> pl_Version r \<le> pl_Version c \<and> (pl_Version r = pl_Version c \<longrightarrow> c = r)
     \<and> stage_order (pl_Stage r) \<le> stage_order (pl_Stage c) \<and> (pl_Status r = StatusDone \<longrightarrow> c = r)"

definition continues :: "pipeline list \<Rightarrow> pipeline list \<Rightarrow> bool" where
  "continues T rows \<longleftrightarrow> (\<forall>r \<in> set T. \<exists>c \<in> set rows. succeeded_by r c)"

definition pl_inv :: "'b pl_world \<Rightarrow> bool" where
  "pl_inv w \<longleftrightarrow> distinct (map pl_ID (pls_rows (plw_now w)))
     \<and> (\<forall>T \<in> tables w. (\<forall>r \<in> set T. pl_ok r) \<and> continues T (pls_rows (plw_now w)))
     \<and> (\<forall>(p, nxt, actor) \<in> plw_retries w. ready p nxt \<and> (\<exists>T \<in> tables w. p \<in> set T))
     \<and> (\<forall>p \<in> set (pls_released (plw_now w)). Approved p)"

lemma succeeded_refl [simp]: "succeeded_by r r"
  by (simp add: succeeded_by_def)

lemma succeeded_trans: "succeeded_by a b \<Longrightarrow> succeeded_by b c \<Longrightarrow> succeeded_by a c"
  by (auto simp: succeeded_by_def)

lemma continues_refl [simp]: "continues T T"
  by (auto simp: continues_def intro: succeeded_refl)

lemma continues_trans: "continues A B \<Longrightarrow> continues B C \<Longrightarrow> continues A C"
  unfolding continues_def by (meson succeeded_trans)

lemma evolves_succeeded: "evolves r r' \<Longrightarrow> succeeded_by r r'"
  by (cases "pl_Stage r") (auto simp: evolves_def succeeded_by_def stage_order_def)

lemma one_write_continues:
  assumes "one_write rows rows'" "distinct (map pl_ID rows)"
  shows "continues rows rows' \<and> distinct (map pl_ID rows')"
  using assms(1) unfolding one_write_def
proof (elim disjE bexE exE conjE)
  fix r r' assume r: "r \<in> set rows" "evolves r r'" and rows': "rows' = upd_where (\<lambda>x. pl_ID x = pl_ID r) (\<lambda>_. r') rows"
  have "continues rows rows'"
    unfolding continues_def
  proof
    fix x assume x: "x \<in> set rows"
    show "\<exists>c \<in> set rows'. succeeded_by x c"
    proof (cases "pl_ID x = pl_ID r")
      case True
      then have "x = r" using x r(1) assms(2) by (blast dest: distinct_map_keyD)
      with r evolves_succeeded show ?thesis unfolding rows' set_upd_where by (auto simp: image_iff)
    next
      case False
      with x show ?thesis unfolding rows' set_upd_where by (intro bexI [of _ x]) (auto simp: image_iff)
    qed
  qed
  moreover have "map pl_ID rows' = map pl_ID rows"
    unfolding rows' using r(2) by (simp add: upd_where_def evolves_def)
  ultimately show ?thesis using assms(2) by simp
qed (use assms(2) in \<open>auto simp: continues_def intro: succeeded_refl\<close>)

lemma one_write_ok: "one_write rows rows' \<Longrightarrow> \<forall>r \<in> set rows. pl_ok r \<Longrightarrow> \<forall>r \<in> set rows'. pl_ok r"
  by (auto simp: one_write_def set_upd_where evolves_def)

lemma inv_good_snap: "pl_inv w \<Longrightarrow> snap \<in> tables w \<Longrightarrow> good_snap snap (pls_rows (plw_now w))"
  unfolding good_snap_def current_at_def
proof (intro ballI conjI impI)
  assume w: "pl_inv w" "snap \<in> tables w"
  show d: "distinct (map pl_ID (pls_rows (plw_now w)))"
    using w(1) by (simp add: pl_inv_def)
  fix r assume r: "r \<in> set snap"
  show "pl_ok r" using w r by (auto simp: pl_inv_def)
  fix c assume c: "c \<in> set (pls_rows (plw_now w))" "pl_ID c = pl_ID r \<and> pl_Version c = pl_Version r"
  from w r obtain c' where "c' \<in> set (pls_rows (plw_now w))" "succeeded_by r c'"
    unfolding pl_inv_def continues_def by blast
  with c d show "c = r" by (auto simp: succeeded_by_def dest: distinct_map_keyD)
qed

lemma safe_step_inv:
  assumes "pl_inv w" "pl_safe (plw_now w) s"
    and "\<And>p nxt actor. (p, nxt, actor) \<in> R \<Longrightarrow> ready p nxt \<and> ((\<exists>T \<in> tables w. p \<in> set T) \<or> p \<in> set (pls_rows s))"
  shows "pl_inv \<lparr>plw_now = s, plw_past = tables w, plw_retries = R\<rparr>"
proof -
  let ?rows = "pls_rows (plw_now w)"
  have ow: "one_write ?rows (pls_rows s)" using assms(2) by (simp add: pl_safe_def)
  have d: "distinct (map pl_ID ?rows)" and hist: "\<And>T. T \<in> tables w \<Longrightarrow> (\<forall>r \<in> set T. pl_ok r) \<and> continues T ?rows"
    using assms(1) by (auto simp: pl_inv_def)
  note c = one_write_continues [OF ow d]
  have "\<forall>r \<in> set (pls_rows s). pl_ok r"
    using one_write_ok [OF ow] hist [of ?rows] by (auto simp: tables_def)
  moreover have "continues T (pls_rows s)" if "T \<in> tables w" for T
    using hist [OF that] c continues_trans by blast
  moreover have "\<forall>p \<in> set (pls_released s). Approved p"
    using assms(1,2) by (auto simp: pl_inv_def pl_safe_def)
  ultimately show ?thesis
    using c hist assms(3) by (fastforce simp: pl_inv_def tables_def)
qed

lemma pl_step_inv: "pl_step E w w' \<Longrightarrow> pl_inv w \<Longrightarrow> pl_inv w' \<and> continues (pls_rows (plw_now w)) (pls_rows (plw_now w'))"
proof (induction rule: pl_step.induct)
  case (pl_serve_step env snap w snap2 now req answer s)
  note safe = pl_serve_safe [OF inv_good_snap [OF pl_serve_step(5,2)] pl_serve_step(4)]
  have "pl_inv \<lparr>plw_now = s, plw_past = tables w, plw_retries = plw_retries w\<rparr>"
    using pl_serve_step(5) by (intro safe_step_inv [OF pl_serve_step(5) safe]) (auto simp: pl_inv_def)
  then show ?case
    using safe pl_serve_step(5) one_write_continues by (auto simp: pl_safe_def pl_inv_def)
next
  case (pl_retry_begin env snap w now ws pid actor r s)
  note b = Retry_begin_safe [OF inv_good_snap [OF pl_retry_begin(4,2)] pl_retry_begin(3)]
  have "pl_inv \<lparr>plw_now = s, plw_past = tables w,
      plw_retries = (case r of Inl _ \<Rightarrow> plw_retries w | Inr (p, nxt) \<Rightarrow> insert (p, nxt, TrimSpace actor) (plw_retries w))\<rparr>"
    using b pl_retry_begin(4)
    by (intro safe_step_inv [OF pl_retry_begin(4)]) (auto simp: pl_inv_def split: sum.splits prod.splits)
  then show ?case
    using b pl_retry_begin(4) one_write_continues by (auto simp: pl_safe_def pl_inv_def)
next
  case (pl_retry_finish env p nxt actor w now answer s)
  have r: "ready p nxt" "current_at p (pls_rows (plw_now w))"
    using pl_retry_finish(2,4) inv_good_snap [OF pl_retry_finish(4)] by (fastforce simp: pl_inv_def good_snap_def)+
  note safe = doAdvance_safe [OF r pl_retry_finish(3)]
  have "pl_inv \<lparr>plw_now = s, plw_past = tables w, plw_retries = plw_retries w - {(p, nxt, actor)}\<rparr>"
    using pl_retry_finish(4) by (intro safe_step_inv [OF pl_retry_finish(4) safe]) (auto simp: pl_inv_def)
  then show ?case
    using safe pl_retry_finish(4) one_write_continues by (auto simp: pl_safe_def pl_inv_def)
qed

interpretation pipeline: guarantee pl_initial "pl_step E" pl_inv
  "\<lambda>w w'. continues (pls_rows (plw_now w)) (pls_rows (plw_now w'))" for E
proof
  show "pl_inv w" if "pl_initial w" for w
    using that by (simp add: pl_initial_def pl_inv_def tables_def)
qed (use pl_step_inv continues_trans in \<open>blast intro: continues_refl\<close>)+

subsection \<open>Properties\<close>

text \<open>A publication port that records what it is asked, and a pipeline driven to its end with it.\<close>

definition demo_port :: "nat publication_port" where
  "demo_port = \<lparr>port_Prepare = (\<lambda>ws p n. (Inr 9, n + 1)), port_Approve = (\<lambda>ws pub actor n. (None, n + 1)),
     port_Publish = (\<lambda>ws pub actor n. (Inr ''stub://stub/5f2a'', n + 1))\<rparr>"

definition demo_pl_env :: "nat pl_env" where
  "demo_pl_env = \<lparr>pe_uuid_String = (\<lambda>_. ''u''), pe_research = StubResearcher_Research (\<lambda>_. ''u''),
     pe_script = StubScriptWriter_WriteScript (\<lambda>_. ''u''), pe_review = StubReviewer_Review,
     pe_publish = StubPublisher_Publish (\<lambda>_. ''u''), pe_publication = Some demo_port, pe_event = (\<lambda>_. None), pe_fk = (\<lambda>_ _. True)\<rparr>"

definition demo_pl_idle :: "nat pl_state" where
  "demo_pl_idle = \<lparr>pls_rows = [], pls_throttle = NewThrottler minute 10 (- minute), pls_audit = [], pls_events = [],
     pls_released = [], pls_port = 0\<rparr>"

definition demo_pl_do :: "instant \<Rightarrow> pl_request \<Rightarrow> nat pl_state \<Rightarrow> nat pl_state" where
  "demo_pl_do now req s = snd (pl_serve demo_pl_env (pls_rows s) (pls_rows s) now req s)"

definition demo_pl_review :: "nat pl_state" where
  "demo_pl_review = demo_pl_do 2 (PlEvent 1 7 StageScript) (demo_pl_do 1 (PlEvent 1 7 StageResearch)
     (demo_pl_do 0 (PlCreate 5 7 ''ann'' 1 None [] []) demo_pl_idle))"

definition demo_pl_done :: "nat pl_state" where
  "demo_pl_done = demo_pl_do 5 (PlEvent 1 7 StagePublish) (demo_pl_do 4 (PlEvent 1 7 StageReview)
     (demo_pl_do 3 (PlApprove 1 7 ''ann'') demo_pl_review))"

lemma demo_pl_do_runs:
  assumes "\<exists>T. runs (pl_step {demo_pl_env}) w0 \<lparr>plw_now = s, plw_past = T, plw_retries = {}\<rparr>"
  shows "\<exists>T. runs (pl_step {demo_pl_env}) w0 \<lparr>plw_now = demo_pl_do now req s, plw_past = T, plw_retries = {}\<rparr>"
proof -
  from assms obtain T where r: "runs (pl_step {demo_pl_env}) w0 \<lparr>plw_now = s, plw_past = T, plw_retries = {}\<rparr>" by blast
  let ?w = "\<lparr>plw_now = s, plw_past = T, plw_retries = {}\<rparr>"
  have "pl_step {demo_pl_env} ?w \<lparr>plw_now = demo_pl_do now req s, plw_past = tables ?w, plw_retries = plw_retries ?w\<rparr>"
    unfolding demo_pl_do_def
    by (rule pl_serve_step [where snap = "pls_rows s" and ?snap2.0 = "pls_rows s" and now = now and req = req
          and answer = "fst (pl_serve demo_pl_env (pls_rows s) (pls_rows s) now req s)"]) (simp_all add: tables_def)
  from runs_step [OF r this] show ?thesis by auto
qed

lemma demo_pl_done_runs:
  "\<exists>T. runs (pl_step {demo_pl_env}) \<lparr>plw_now = demo_pl_idle, plw_past = {}, plw_retries = {}\<rparr>
     \<lparr>plw_now = demo_pl_done, plw_past = T, plw_retries = {}\<rparr>"
  unfolding demo_pl_done_def demo_pl_review_def by (intro demo_pl_do_runs exI [of _ "{}"] runs_refl)

lemma demo_pl_initial: "pl_initial \<lparr>plw_now = demo_pl_idle, plw_past = {}, plw_retries = {}\<rparr>"
  by (simp add: pl_initial_def demo_pl_idle_def)

lemma demo_pl_done_rows:
  "map (\<lambda>r. (pl_Stage r, pl_Status r, pl_ApprovedBy r, pl_Version r)) (pls_rows demo_pl_done) = [(StageComplete, StatusDone, ''ann'', 6)]
   \<and> length (pls_released demo_pl_done) = 1"
  by code_simp

text \<open>
  C13. The approval gate. Whatever requests and retries interleave, however stale the rows
  they read and however the ports behave, a pipeline is handed on for publication only in the
  approved status with the approval of a named human, and every pipeline past the review
  carries such an approval.
\<close>

theorem pipeline_approval_gate:
  assumes "pl_initial w0" "runs (pl_step E) w0 w"
  shows "(\<forall>p \<in> set (pls_released (plw_now w)). Approved p)
    \<and> (\<forall>r \<in> set (pls_rows (plw_now w)). pl_Stage r = StagePublish \<or> pl_Stage r = StageComplete \<or> pl_Status r = StatusApproved \<longrightarrow>
         TrimSpace (pl_ApprovedBy r) \<noteq> [] \<and> pl_ApprovedAt r \<noteq> None)"
proof -
  have inv: "pl_inv w" using assms by (rule pipeline.inv_reachable)
  have "has_approval r" if "r \<in> set (pls_rows (plw_now w))"
    "pl_Stage r = StagePublish \<or> pl_Stage r = StageComplete \<or> pl_Status r = StatusApproved" for r
  proof -
    have "pl_ok r" using inv that(1) by (auto simp: pl_inv_def tables_def)
    with that(2) show ?thesis by (auto simp: pl_ok_def stage_status_valid_def needs_approval_def)
  qed
  with inv show ?thesis by (auto simp: pl_inv_def has_approval_def)
qed

theorem pipeline_approval_gate_witness:
  "\<exists>r p. pls_rows demo_pl_done = [r] \<and> pl_Stage r = StageComplete \<and> TrimSpace (pl_ApprovedBy r) \<noteq> []
     \<and> pls_released demo_pl_done = [p] \<and> Approved p"
proof -
  obtain T where "runs (pl_step {demo_pl_env}) \<lparr>plw_now = demo_pl_idle, plw_past = {}, plw_retries = {}\<rparr>
     \<lparr>plw_now = demo_pl_done, plw_past = T, plw_retries = {}\<rparr>" using demo_pl_done_runs by blast
  from pipeline_approval_gate [OF demo_pl_initial this] demo_pl_done_rows show ?thesis
    by (auto simp: map_eq_Cons_conv length_Suc_conv)
qed

text \<open>
  C14. Updates of a pipeline are serialised. Along any run every row that was ever stored is
  followed by one with a higher version or is still there unchanged; the stage never goes
  back and a pipeline that is done is never written again.
\<close>

theorem pipeline_updates_serialised:
  assumes "pl_initial w0" "runs (pl_step E) w0 w" "runs (pl_step E) w w'" "r \<in> set (pls_rows (plw_now w))"
  shows "\<exists>r' \<in> set (pls_rows (plw_now w')). pl_ID r' = pl_ID r \<and> (r' = r \<or> pl_Version r < pl_Version r')
    \<and> \<not> IsAfter (pl_Stage r) (pl_Stage r') \<and> (pl_Status r = StatusDone \<longrightarrow> r' = r)"
proof -
  have "pl_inv w" using assms(1,2) by (rule pipeline.inv_reachable)
  with assms(3) have "continues (pls_rows (plw_now w)) (pls_rows (plw_now w'))" by (rule pipeline.rel_runs)
  with assms(4) show ?thesis
    unfolding continues_def succeeded_by_def IsAfter_def by (metis leD le_neq_implies_less order_le_less)
qed

theorem pipeline_updates_serialised_witness:
  "\<exists>r r'. r \<in> set (pls_rows demo_pl_review) \<and> r' \<in> set (pls_rows demo_pl_done) \<and> pl_ID r' = pl_ID r
     \<and> \<not> IsAfter (pl_Stage r) (pl_Stage r')"
proof -
  let ?w0 = "\<lparr>plw_now = demo_pl_idle, plw_past = {}, plw_retries = {}\<rparr>"
  have "\<exists>T. runs (pl_step {demo_pl_env}) ?w0 \<lparr>plw_now = demo_pl_review, plw_past = T, plw_retries = {}\<rparr>"
    unfolding demo_pl_review_def by (intro demo_pl_do_runs exI [of _ "{}"] runs_refl)
  then obtain T where r: "runs (pl_step {demo_pl_env}) ?w0 \<lparr>plw_now = demo_pl_review, plw_past = T, plw_retries = {}\<rparr>" by blast
  have "\<exists>U. runs (pl_step {demo_pl_env}) \<lparr>plw_now = demo_pl_review, plw_past = T, plw_retries = {}\<rparr>
      \<lparr>plw_now = demo_pl_done, plw_past = U, plw_retries = {}\<rparr>"
    unfolding demo_pl_done_def by (intro demo_pl_do_runs exI [of _ T] runs_refl)
  then obtain U where r': "runs (pl_step {demo_pl_env}) \<lparr>plw_now = demo_pl_review, plw_past = T, plw_retries = {}\<rparr>
      \<lparr>plw_now = demo_pl_done, plw_past = U, plw_retries = {}\<rparr>" by blast
  have "length (pls_rows demo_pl_review) = 1" by code_simp
  then obtain x where "x \<in> set (pls_rows demo_pl_review)" by (cases "pls_rows demo_pl_review") auto
  with pipeline_updates_serialised [OF demo_pl_initial r r', of x] show ?thesis by auto
qed



text \<open>The events the service sends are read back as the stage they were sent for.\<close>

lemma EventKind_stage: "ValidStage st \<Longrightarrow> EventKind (''pipeline.'' @ stage_text st) = Some st"
proof (cases st)
  case (StageOther x)
  then show "ValidStage st \<Longrightarrow> EventKind (''pipeline.'' @ stage_text st) = Some st" by (simp add: ValidStage_def)
qed (simp, code_simp)+

lemma EventKind_review: "EventKind ''pipeline.review_ready'' = Some StageReview" "EventKind ''pipeline.review_approved'' = Some StageReview"
  by code_simp+

lemma publishCurrentEvent_event:
  assumes "publishCurrentEvent env p s = (answer, t)" "ValidStage (pl_Stage p)"
  shows "fst answer = Some p \<and> pls_rows t = pls_rows s \<and> pls_released t = pls_released s \<and> pls_port t = pls_port s
    \<and> (\<exists>ev. EventKind (fst ev) = Some (pl_Stage p) \<and> pls_events t = pls_events s @ (if snd answer = None then [ev] else []))"
proof -
  let ?ev = "if pl_Stage p = StageReview then if pl_Status p = StatusApproved then ''pipeline.review_approved''
      else ''pipeline.review_ready'' else ''pipeline.'' @ stage_text (pl_Stage p)"
  have k: "EventKind ?ev = Some (pl_Stage p)"
    using EventKind_stage [OF assms(2)] EventKind_review by (simp split: if_split)
  have e: "pl_emit env ?ev (pl_ID p) (pl_WorkspaceID p) (pl_Stage p) p s = (answer, t)"
    using assms(1) by (simp only: publishCurrentEvent_def)
  show ?thesis
    using e k unfolding pl_emit_def Let_def
    by (cases "pe_event env (?ev, pl_ID p, pl_WorkspaceID p, stage_text (pl_Stage p))") (auto simp del: append.simps)
qed

text \<open>
  A duplicate delivery is harmless: an event for a stage the pipeline has left changes no
  row and calls no port; the event of the present stage is sent again and the present
  pipeline is the answer.
\<close>

theorem duplicate_event_republishes:
  assumes "pl_getOwned (pls_rows s) ws pid = Inr p" "IsAfter (pl_Stage p) st" "pl_Status p \<noteq> StatusFailed" "ValidStage st"
    and "fst (Throttler_Allow now (pe_uuid_String env ws) (pls_throttle s))"
    and "AdvanceFromEvent env (pls_rows s) (pls_rows s) now ws pid st s = (answer, t)"
  shows "pls_rows t = pls_rows s \<and> pls_released t = pls_released s \<and> pls_port t = pls_port s \<and> fst answer = Some p
    \<and> (\<exists>ev. EventKind (fst ev) = Some (pl_Stage p) \<and> pls_events t = pls_events s @ (if snd answer = None then [ev] else []))"
proof -
  obtain th where th: "Throttler_Allow now (pe_uuid_String env ws) (pls_throttle s) = (True, th)"
    using assms(5) by (cases "Throttler_Allow now (pe_uuid_String env ws) (pls_throttle s)") auto
  have ne: "pl_Stage p \<noteq> st" and v: "ValidStage (pl_Stage p)" and st: "st \<noteq> StageComplete"
    using assms(2) by (cases "pl_Stage p"; auto simp: IsAfter_def ValidStage_def stage_order_def)+
  obtain nxt where n: "NextStage st = Inr nxt"
    using assms(4) st by (cases st) (auto simp: ValidStage_def)
  have ws: "ws \<noteq> 0" using assms(1) by (auto simp: pl_getOwned_def)
  have "pl_Advance env (pls_rows s) now ws pid st nxt s = ((None, Some ErrConsecutiveAdvance), s\<lparr>pls_throttle := th\<rparr>)"
    using th ne assms(1) ws by (simp add: pl_Advance_def)
  then have "publishCurrentEvent env p (s\<lparr>pls_throttle := th\<rparr>) = (answer, t)"
    using n assms(1,2,3,6) by (simp add: AdvanceFromEvent_def pl_Get_def)
  from publishCurrentEvent_event [OF this v] show ?thesis by simp
qed

theorem duplicate_event_republishes_witness:
  "pls_rows (demo_pl_do 9 (PlEvent 1 7 StageResearch) demo_pl_review) = pls_rows demo_pl_review
   \<and> pls_released (demo_pl_do 9 (PlEvent 1 7 StageResearch) demo_pl_review) = pls_released demo_pl_review"
proof -
  have v: "pl_getOwned (pls_rows demo_pl_review) 1 7 = Inr (hd (pls_rows demo_pl_review))
      \<and> (\<lambda>p. IsAfter (pl_Stage p) StageResearch \<and> pl_Status p \<noteq> StatusFailed) (hd (pls_rows demo_pl_review))
      \<and> ValidStage StageResearch \<and> fst (Throttler_Allow 9 (pe_uuid_String demo_pl_env 1) (pls_throttle demo_pl_review))"
    by code_simp
  have "AdvanceFromEvent demo_pl_env (pls_rows demo_pl_review) (pls_rows demo_pl_review) 9 1 7 StageResearch demo_pl_review
      = (fst (AdvanceFromEvent demo_pl_env (pls_rows demo_pl_review) (pls_rows demo_pl_review) 9 1 7 StageResearch demo_pl_review),
         demo_pl_do 9 (PlEvent 1 7 StageResearch) demo_pl_review)"
    by (simp add: demo_pl_do_def)
  from duplicate_event_republishes [OF _ _ _ _ _ this] v show ?thesis by blast
qed

end
