(* ===== verification/Publication.thy ===== *)
theory Publication
  imports Rate_Limits
begin

text \<open>
  The publishing domain: the publication aggregate and its reviewed lifecycle
  (\<^verbatim>\<open>internal/publish/publish.go\<close>), the service (\<^verbatim>\<open>internal/publish/service.go\<close>), the
  PostgreSQL adapter (\<^verbatim>\<open>infrastructure/postgres/publications.go\<close>) and the stub platform
  (\<^verbatim>\<open>internal/publish/publisher_stub.go\<close>).

  A service method reads the row in one transaction and writes it in another. So each method
  takes two tables: \<open>snap\<close>, the one it reads, and the one in the service state, which it
  writes; they are the same table when nothing comes in between. \<^verbatim>\<open>time.Now\<close>, generated
  identifiers, the digest and the platform adapter are arguments; a text column that is
  NULL is the empty string the adapter reads it as.
\<close>

subsection \<open>Domain\<close>

datatype pub_error =
    ErrInvalidInput | ErrNotFound | ErrWorkspaceMismatch | ErrInvalidTransition | ErrTerminalState
  | ErrInvalidStatus | ErrApprovalRequired | ErrUnauthorizedApprover | ErrUnauthorizedRejecter
  | ErrUnauthorizedPublisher | ErrRateLimited | ErrEmptyContent
  | ErrDatabase \<comment> \<open>an error of PostgreSQL without a sentinel\<close>
  | ErrDelivery string \<comment> \<open>an error of the platform adapter, by its text\<close>

datatype pub_status =
    StatusQueued | StatusReview | StatusApproved | StatusPublished | StatusFailed | StatusRejected
  | StatusCancelled | OtherStatus string

record publication =
  pb_ID :: uuid
  pb_WorkspaceID :: uuid
  pb_GoalID :: "uuid option"
  pb_TaskID :: "uuid option"
  pb_Title :: string
  pb_Body :: string
  pb_Platform :: string
  pb_Status :: pub_status
  pb_ContentHash :: string
  pb_IdempotencyKey :: string
  pb_ApprovedBy :: "string option"
  pb_ApprovedAt :: "instant option"
  pb_RejectedBy :: "string option"
  pb_RejectedAt :: "instant option"
  pb_PublishedAt :: "instant option"
  pb_PublishedBy :: "string option"
  pb_ExternalReference :: string
  pb_FailureReason :: string
  pb_CreatedAt :: instant
  pb_UpdatedAt :: instant

definition StubPlatform :: string where
  "StubPlatform = ''stub''"

definition ContentDigest :: "(string \<Rightarrow> string) \<Rightarrow> string \<Rightarrow> string \<Rightarrow> string" where
  "ContentDigest sha256hex title body = sha256hex (title @ [CHR 0x00] @ body)"

definition pub_New ::
  "(string \<Rightarrow> string) \<Rightarrow> instant \<Rightarrow> uuid \<Rightarrow> uuid \<Rightarrow> uuid option \<Rightarrow> uuid option \<Rightarrow> string \<Rightarrow> string \<Rightarrow> string \<Rightarrow>
   (pub_error, publication) result" where
  "pub_New sha256hex now pid ws goal task title body platform =
     (if ws = uuid_Nil then Inl ErrWorkspaceMismatch
      else if TrimSpace title = [] \<or> TrimSpace body = [] then Inl ErrEmptyContent
      else let platform = (if TrimSpace platform = [] then StubPlatform else platform)
           in Inr \<lparr>pb_ID = pid, pb_WorkspaceID = ws, pb_GoalID = goal, pb_TaskID = task,
                   pb_Title = TrimSpace title, pb_Body = body, pb_Platform = TrimSpace platform,
                   pb_Status = StatusQueued, pb_ContentHash = ContentDigest sha256hex title body,
                   pb_IdempotencyKey = [], pb_ApprovedBy = None, pb_ApprovedAt = None, pb_RejectedBy = None,
                   pb_RejectedAt = None, pb_PublishedAt = None, pb_PublishedBy = None, pb_ExternalReference = [],
                   pb_FailureReason = [], pb_CreatedAt = now, pb_UpdatedAt = now\<rparr>)"

definition pub_ValidStatus :: "pub_status \<Rightarrow> bool" where
  "pub_ValidStatus s = (case s of OtherStatus _ \<Rightarrow> False | _ \<Rightarrow> True)"

definition pub_terminal :: "pub_status \<Rightarrow> bool" where
  "pub_terminal s \<longleftrightarrow> s = StatusPublished \<or> s = StatusFailed \<or> s = StatusRejected \<or> s = StatusCancelled"

fun allowedTransition :: "pub_status \<Rightarrow> pub_status \<Rightarrow> bool" where
  "allowedTransition StatusQueued to = (to = StatusReview \<or> to = StatusCancelled)"
| "allowedTransition StatusReview to = (to = StatusApproved \<or> to = StatusRejected \<or> to = StatusCancelled)"
| "allowedTransition StatusApproved to = (to = StatusPublished \<or> to = StatusFailed)"
| "allowedTransition StatusFailed to = (to = StatusPublished)"
| "allowedTransition _ to = False"

definition pub_CanTransition :: "pub_status \<Rightarrow> pub_status \<Rightarrow> pub_error option" where
  "pub_CanTransition from to =
     (if \<not> pub_ValidStatus from \<or> \<not> pub_ValidStatus to then Some ErrInvalidStatus
      else if pub_terminal from then Some ErrTerminalState
      else if from = to then Some ErrInvalidTransition
      else if \<not> allowedTransition from to then Some ErrInvalidTransition
      else None)"

definition HasApproval :: "publication \<Rightarrow> bool" where
  "HasApproval p \<longleftrightarrow> pb_Status p = StatusApproved \<and> pb_ApprovedBy p \<noteq> None \<and> pb_ApprovedAt p \<noteq> None"

text \<open>A platform adapter answers with the external reference or the text of its error.\<close>

definition StubPublisher_Publish :: "publication \<Rightarrow> (string, string) result" where
  "StubPublisher_Publish p =
     (if \<not> HasApproval p then Inl ''publish: publication must be approved before publishing''
      else Inr (''stub://'' @ pb_Platform p @ ''/'' @ pb_ContentHash p))"

definition pub_failureReason :: "string \<Rightarrow> string" where
  "pub_failureReason err =
     (let reason = TrimSpace err in
      if reason = [] then ''delivery_failed'' else if length reason > 512 then take 512 reason else reason)"

subsection \<open>Store\<close>

text \<open>
  The unique index on (workspace, idempotency key) ignores NULL keys. The identifier of a
  new row is generated by the database.
\<close>

definition PubStore_Create :: "uuid \<Rightarrow> publication \<Rightarrow> publication list \<Rightarrow> (pub_error, publication list \<times> publication) result" where
  "PubStore_Create gen p rows =
     (if \<exists>r \<in> set rows. pb_ID r = gen
          \<or> (pb_IdempotencyKey p \<noteq> [] \<and> pb_WorkspaceID r = pb_WorkspaceID p \<and> pb_IdempotencyKey r = pb_IdempotencyKey p)
      then Inl ErrDatabase
      else let p' = p\<lparr>pb_ID := gen\<rparr> in Inr (rows @ [p'], p'))"

definition PubStore_GetByIdempotency :: "uuid \<Rightarrow> string \<Rightarrow> publication list \<Rightarrow> (pub_error, publication) result" where
  "PubStore_GetByIdempotency ws key rows =
     (case find (\<lambda>r. pb_WorkspaceID r = ws \<and> pb_IdempotencyKey r = key \<and> key \<noteq> []) rows of
        None \<Rightarrow> Inl ErrNotFound | Some p \<Rightarrow> Inr p)"

definition PubStore_Get :: "uuid \<Rightarrow> uuid \<Rightarrow> publication list \<Rightarrow> (pub_error, publication) result" where
  "PubStore_Get ws pid rows =
     (case find (\<lambda>r. pb_ID r = pid \<and> pb_WorkspaceID r = ws) rows of None \<Rightarrow> Inl ErrNotFound | Some p \<Rightarrow> Inr p)"

text \<open>\<^verbatim>\<open>ORDER BY created_at DESC, id DESC LIMIT 100\<close>.\<close>

definition PubStore_List :: "uuid \<Rightarrow> pub_status option \<Rightarrow> publication list \<Rightarrow> publication list" where
  "PubStore_List ws status rows =
     take 100 (rev (sort_key (\<lambda>r. pb_CreatedAt r) (sort_key (\<lambda>r. unat (pb_ID r))
       (filter (\<lambda>r. pb_WorkspaceID r = ws \<and> (case status of None \<Rightarrow> True | Some st \<Rightarrow> pb_Status r = st)) rows))))"

text \<open>
  \<^verbatim>\<open>Update\<close> writes the mutable columns of the row with that identifier in the workspace. The
  number of affected rows is not looked at: without such a row it reports success.
\<close>

definition pub_write :: "publication \<Rightarrow> publication \<Rightarrow> publication" where
  "pub_write p r =
     r\<lparr>pb_Status := pb_Status p, pb_IdempotencyKey := pb_IdempotencyKey p, pb_ExternalReference := pb_ExternalReference p,
       pb_FailureReason := pb_FailureReason p, pb_ApprovedBy := pb_ApprovedBy p, pb_ApprovedAt := pb_ApprovedAt p,
       pb_RejectedBy := pb_RejectedBy p, pb_RejectedAt := pb_RejectedAt p, pb_PublishedAt := pb_PublishedAt p,
       pb_PublishedBy := pb_PublishedBy p, pb_UpdatedAt := pb_UpdatedAt p\<rparr>"

definition PubStore_Update ::
  "instant \<Rightarrow> uuid \<Rightarrow> publication \<Rightarrow> publication list \<Rightarrow> (pub_error, publication list \<times> publication) result" where
  "PubStore_Update now ws p0 rows =
     (let p = p0\<lparr>pb_UpdatedAt := now\<rparr>;
          hit = (\<lambda>r. pb_ID r = pb_ID p \<and> pb_WorkspaceID r = ws)
      in if \<not> pub_ValidStatus (pb_Status p) \<and> (\<exists>r \<in> set rows. hit r) then Inl ErrDatabase
         else if pb_IdempotencyKey p \<noteq> [] \<and> (\<exists>r \<in> set rows. hit r)
              \<and> (\<exists>q \<in> set rows. pb_ID q \<noteq> pb_ID p \<and> pb_WorkspaceID q = ws \<and> pb_IdempotencyKey q = pb_IdempotencyKey p)
         then Inl ErrDatabase
         else Inr (upd_where hit (pub_write p) rows, p))"

subsection \<open>Service\<close>

record pub_audit =
  pa_EventType :: string
  pa_Principle :: string
  pa_Outcome :: string
  pa_WorkspaceID :: uuid
  pa_PublicationID :: "uuid option"
  pa_ActorType :: string
  pa_ActorID :: string

record pub_state =
  ps_rows :: "publication list"
  ps_throttle :: throttler
  ps_audit :: "pub_audit list"
  ps_events :: "(string \<times> uuid \<times> uuid) list"
  ps_delivered :: "publication list" \<comment> \<open>what was handed to the platform adapter\<close>

type_synonym pub_answer = "publication option \<times> pub_error option"

definition pub_record :: "string \<Rightarrow> string \<Rightarrow> string \<Rightarrow> uuid \<Rightarrow> uuid option \<Rightarrow> string \<Rightarrow> string \<Rightarrow> pub_state \<Rightarrow> pub_state" where
  "pub_record ev principle outcome ws pid atype aid s =
     s\<lparr>ps_audit := ps_audit s @ [\<lparr>pa_EventType = ev, pa_Principle = principle, pa_Outcome = outcome,
         pa_WorkspaceID = ws, pa_PublicationID = pid, pa_ActorType = atype, pa_ActorID = aid\<rparr>]\<rparr>"

definition pub_status_text :: "pub_status \<Rightarrow> string" where
  "pub_status_text s =
     (case s of StatusQueued \<Rightarrow> ''queued'' | StatusReview \<Rightarrow> ''review'' | StatusApproved \<Rightarrow> ''approved''
      | StatusPublished \<Rightarrow> ''published'' | StatusFailed \<Rightarrow> ''failed'' | StatusRejected \<Rightarrow> ''rejected''
      | StatusCancelled \<Rightarrow> ''cancelled'' | OtherStatus t \<Rightarrow> t)"

definition pub_event :: "string \<Rightarrow> uuid \<Rightarrow> uuid \<Rightarrow> pub_state \<Rightarrow> pub_state" where
  "pub_event ev pid ws s = s\<lparr>ps_events := ps_events s @ [(ev, pid, ws)]\<rparr>"

definition pub_actorType :: "string \<Rightarrow> string \<Rightarrow> string" where
  "pub_actorType actorID fallback = (if actorID \<noteq> [] then ''human'' else fallback)"

definition pub_getOwned :: "publication list \<Rightarrow> uuid \<Rightarrow> uuid \<Rightarrow> (pub_error, publication) result" where
  "pub_getOwned snap ws pid =
     (case PubStore_Get ws pid snap of
        Inl e \<Rightarrow> Inl e
      | Inr p \<Rightarrow> if pb_WorkspaceID p \<noteq> ws then Inl ErrWorkspaceMismatch else Inr p)"

definition pub_apply ::
  "instant \<Rightarrow> uuid \<Rightarrow> publication \<Rightarrow> pub_status \<Rightarrow> string \<Rightarrow> string \<Rightarrow> pub_state \<Rightarrow> pub_answer \<times> pub_state" where
  "pub_apply now ws p to atype aid s =
     (case pub_CanTransition (pb_Status p) to of
        Some e \<Rightarrow>
          ((None, Some e), pub_record ''publication.transition'' ''Human Oversight'' ''failed'' ws (Some (pb_ID p)) atype aid s)
      | None \<Rightarrow>
          (case PubStore_Update now ws (p\<lparr>pb_Status := to, pb_UpdatedAt := now\<rparr>) (ps_rows s) of
             Inl e \<Rightarrow> ((None, Some e), s)
           | Inr (rows, updated) \<Rightarrow>
               ((Some updated, None),
                pub_event (''publication.'' @ pub_status_text to) (pb_ID p) ws
                  (pub_record ''publication.transition'' ''Human Oversight'' ''success'' ws (Some (pb_ID p)) atype aid
                     (s\<lparr>ps_rows := rows\<rparr>)))))"

definition pub_transition ::
  "publication list \<Rightarrow> instant \<Rightarrow> uuid \<Rightarrow> uuid \<Rightarrow> pub_status \<Rightarrow> string \<Rightarrow> string \<Rightarrow> pub_state \<Rightarrow> pub_answer \<times> pub_state" where
  "pub_transition snap now ws pid to atype aid s =
     (if \<not> pub_ValidStatus to then ((None, Some ErrInvalidStatus), s)
      else case pub_getOwned snap ws pid of
             Inl e \<Rightarrow> ((None, Some e), s)
           | Inr p \<Rightarrow> pub_apply now ws p to atype aid s)"

text \<open>
  \<^verbatim>\<open>create\<close>: \<open>pid\<close> is the identifier \<^verbatim>\<open>New\<close> generates (it only labels a failed record),
  \<open>gen\<close> the one the database does.
\<close>

definition pub_create ::
  "(string \<Rightarrow> string) \<Rightarrow> instant \<Rightarrow> uuid \<Rightarrow> uuid \<Rightarrow> string \<Rightarrow> uuid \<Rightarrow> uuid option \<Rightarrow> uuid option \<Rightarrow> string \<Rightarrow> string \<Rightarrow> string \<Rightarrow>
   string \<Rightarrow> pub_state \<Rightarrow> pub_answer \<times> pub_state" where
  "pub_create sha256hex now pid gen actor ws goal task title body platform key s =
     (if ws = uuid_Nil then ((None, Some ErrWorkspaceMismatch), s)
      else case pub_New sha256hex now pid ws goal task title body platform of
        Inl e \<Rightarrow> ((None, Some e), pub_record ''publication.create'' ''Vision First'' ''failed'' ws None (pub_actorType actor ''system'') actor s)
      | Inr p0 \<Rightarrow>
          (case PubStore_Create gen (p0\<lparr>pb_IdempotencyKey := key\<rparr>) (ps_rows s) of
             Inl e \<Rightarrow>
               (case (if key \<noteq> [] then PubStore_GetByIdempotency ws key (ps_rows s) else Inl e) of
                  Inr existing \<Rightarrow> ((Some existing, None), s)
                | Inl _ \<Rightarrow> ((None, Some e), pub_record ''publication.create'' ''Vision First'' ''failed'' ws (Some pid)
                               (pub_actorType actor ''system'') actor s))
           | Inr (rows, p) \<Rightarrow>
               ((Some p, None),
                pub_event ''publication.created'' (pb_ID p) ws
                  (pub_record ''publication.create'' ''Vision First'' ''success'' ws (Some (pb_ID p)) (pub_actorType actor ''system'') actor
                     (s\<lparr>ps_rows := rows\<rparr>)))))"

definition pub_CreateWithIdempotency ::
  "(string \<Rightarrow> string) \<Rightarrow> publication list \<Rightarrow> instant \<Rightarrow> uuid \<Rightarrow> uuid \<Rightarrow> string \<Rightarrow> uuid \<Rightarrow> uuid option \<Rightarrow> uuid option \<Rightarrow>
   string \<Rightarrow> string \<Rightarrow> string \<Rightarrow> string \<Rightarrow> pub_state \<Rightarrow> pub_answer \<times> pub_state" where
  "pub_CreateWithIdempotency sha256hex snap now pid gen actor ws goal task title body platform key0 s =
     (let key = TrimSpace key0 in
      if key = [] then pub_create sha256hex now pid gen actor ws goal task title body platform [] s
      else if length key > 128 then ((None, Some ErrInvalidInput), s)
      else case PubStore_GetByIdempotency ws key snap of
             Inr existing \<Rightarrow> ((Some existing, None), s)
           | Inl e \<Rightarrow>
               if e \<noteq> ErrNotFound then ((None, Some e), s)
               else pub_create sha256hex now pid gen actor ws goal task title body platform key s)"

definition pub_ToReview :: "publication list \<Rightarrow> instant \<Rightarrow> string \<Rightarrow> uuid \<Rightarrow> uuid \<Rightarrow> pub_state \<Rightarrow> pub_answer \<times> pub_state" where
  "pub_ToReview snap now actor ws pid s =
     pub_transition snap now ws pid StatusReview (pub_actorType actor ''human'') actor s"

definition pub_Cancel :: "publication list \<Rightarrow> instant \<Rightarrow> uuid \<Rightarrow> uuid \<Rightarrow> pub_state \<Rightarrow> pub_answer \<times> pub_state" where
  "pub_Cancel snap now ws pid s = pub_transition snap now ws pid StatusCancelled ''system'' [] s"

definition pub_Approve ::
  "publication list \<Rightarrow> instant \<Rightarrow> uuid \<Rightarrow> uuid \<Rightarrow> string \<Rightarrow> pub_state \<Rightarrow> pub_answer \<times> pub_state" where
  "pub_Approve snap now ws pid humanActor s =
     (if TrimSpace humanActor = []
      then ((None, Some ErrUnauthorizedApprover),
            pub_record ''publication.approve'' ''Human Oversight'' ''failed'' ws (Some pid) [] [] s)
      else case pub_getOwned snap ws pid of
             Inl e \<Rightarrow> ((None, Some e), s)
           | Inr p \<Rightarrow>
               if pb_Status p \<noteq> StatusReview then ((None, Some ErrInvalidTransition), s)
               else pub_apply now ws (p\<lparr>pb_ApprovedBy := Some humanActor, pb_ApprovedAt := Some now\<rparr>)
                      StatusApproved ''human'' humanActor s)"

definition pub_Reject ::
  "publication list \<Rightarrow> instant \<Rightarrow> uuid \<Rightarrow> uuid \<Rightarrow> string \<Rightarrow> pub_state \<Rightarrow> pub_answer \<times> pub_state" where
  "pub_Reject snap now ws pid humanActor s =
     (if TrimSpace humanActor = []
      then ((None, Some ErrUnauthorizedRejecter),
            pub_record ''publication.reject'' ''Human Oversight'' ''failed'' ws (Some pid) [] [] s)
      else case pub_getOwned snap ws pid of
             Inl e \<Rightarrow> ((None, Some e), s)
           | Inr p \<Rightarrow>
               if pb_Status p \<noteq> StatusReview then ((None, Some ErrInvalidTransition), s)
               else pub_apply now ws (p\<lparr>pb_RejectedBy := Some humanActor, pb_RejectedAt := Some now\<rparr>)
                      StatusRejected ''human'' humanActor s)"

definition pub_Publish ::
  "(uuid \<Rightarrow> string) \<Rightarrow> (publication \<Rightarrow> (string, string) result) \<Rightarrow> publication list \<Rightarrow> instant \<Rightarrow> uuid \<Rightarrow> uuid \<Rightarrow> string \<Rightarrow>
   pub_state \<Rightarrow> pub_answer \<times> pub_state" where
  "pub_Publish uuid_String deliver snap now ws pid humanActor s0 =
     (if TrimSpace humanActor = []
      then ((None, Some ErrUnauthorizedPublisher),
            pub_record ''publication.publish'' ''Human Oversight'' ''failed'' ws (Some pid) [] [] s0)
      else
        let (ok, th) = Throttler_Allow now (uuid_String ws) (ps_throttle s0);
            s = s0\<lparr>ps_throttle := th\<rparr>
        in if \<not> ok
           then ((None, Some ErrRateLimited),
                 pub_record ''publication.publish'' ''Security by Design'' ''failed'' ws (Some pid) [] [] s)
           else case pub_getOwned snap ws pid of
                  Inl e \<Rightarrow> ((None, Some e), s)
                | Inr p \<Rightarrow>
                    (case pub_CanTransition (pb_Status p) StatusPublished of
                       Some e \<Rightarrow>
                         ((None, Some e),
                          pub_record ''publication.publish'' ''Human Oversight'' ''failed'' ws (Some pid) ''human'' humanActor s)
                     | None \<Rightarrow>
                         if \<not> HasApproval p
                         then ((None, Some ErrApprovalRequired),
                               pub_record ''publication.publish'' ''Human Oversight'' ''failed'' ws (Some pid) [] [] s)
                         else
                           let s1 = s\<lparr>ps_delivered := ps_delivered s @ [p]\<rparr>
                           in case deliver p of
                                Inl err \<Rightarrow>
                                  let (answer, s2) = pub_apply now ws (p\<lparr>pb_FailureReason := pub_failureReason err\<rparr>)
                                                       StatusFailed ''human'' humanActor s1;
                                      s3 = pub_record ''publication.publish'' ''Security by Design'' ''failed'' ws (Some pid)
                                             ''human'' humanActor s2
                                  in (case snd answer of
                                        Some persistErr \<Rightarrow> ((None, Some persistErr), s3)
                                      | None \<Rightarrow> ((fst answer, Some (ErrDelivery err)), s3))
                              | Inr ref \<Rightarrow>
                                  pub_apply now ws
                                    (p\<lparr>pb_PublishedAt := Some now, pb_PublishedBy := Some humanActor, pb_ExternalReference := ref\<rparr>)
                                    StatusPublished ''human'' humanActor s1))"

definition pub_Retry ::
  "(uuid \<Rightarrow> string) \<Rightarrow> (publication \<Rightarrow> (string, string) result) \<Rightarrow> publication list \<Rightarrow> instant \<Rightarrow> uuid \<Rightarrow> uuid \<Rightarrow> string \<Rightarrow>
   pub_state \<Rightarrow> pub_answer \<times> pub_state" where
  "pub_Retry uuid_String deliver snap now ws pid humanActor s0 =
     (if TrimSpace humanActor = [] then ((None, Some ErrUnauthorizedPublisher), s0)
      else
        let (ok, th) = Throttler_Allow now (uuid_String ws) (ps_throttle s0);
            s = s0\<lparr>ps_throttle := th\<rparr>
        in if \<not> ok then ((None, Some ErrRateLimited), s)
           else case pub_getOwned snap ws pid of
                  Inl e \<Rightarrow> ((None, Some e), s)
                | Inr p0 \<Rightarrow>
                    if pb_Status p0 \<noteq> StatusFailed then ((None, Some ErrInvalidTransition), s)
                    else if pb_ApprovedBy p0 = None \<or> pb_ApprovedAt p0 = None then ((None, Some ErrApprovalRequired), s)
                    else
                      let p = p0\<lparr>pb_Status := StatusApproved\<rparr>;
                          s1 = s\<lparr>ps_delivered := ps_delivered s @ [p]\<rparr>
                      in case deliver p of
                           Inl err \<Rightarrow>
                             (case PubStore_Update now ws
                                     (p\<lparr>pb_Status := StatusFailed, pb_FailureReason := pub_failureReason err, pb_UpdatedAt := now\<rparr>)
                                     (ps_rows s1) of
                                Inl persistErr \<Rightarrow>
                                  ((None, Some persistErr),
                                   pub_record ''publication.retry'' ''Human Oversight'' ''failed'' ws (Some pid) ''human'' humanActor s1)
                              | Inr (rows, failed) \<Rightarrow>
                                  ((Some failed, Some (ErrDelivery err)),
                                   pub_record ''publication.retry'' ''Human Oversight'' ''failed'' ws (Some pid) ''human'' humanActor
                                     (s1\<lparr>ps_rows := rows\<rparr>)))
                         | Inr ref \<Rightarrow>
                             pub_apply now ws
                               (p\<lparr>pb_FailureReason := [], pb_ExternalReference := ref, pb_PublishedAt := Some now,
                                  pb_PublishedBy := Some humanActor\<rparr>)
                               StatusPublished ''human'' humanActor s1)"

definition pub_Get :: "publication list \<Rightarrow> uuid \<Rightarrow> uuid \<Rightarrow> (pub_error, publication) result" where
  "pub_Get snap ws pid = pub_getOwned snap ws pid"

definition pub_List :: "publication list \<Rightarrow> uuid \<Rightarrow> pub_status option \<Rightarrow> publication list" where
  "pub_List snap ws status = PubStore_List ws status snap"

subsection \<open>Interleaved requests\<close>

text \<open>
  A request works on the table as it is or as it was at any earlier time it may have read
  it; \<open>pw_past\<close> holds the earlier tables. Any number of requests may be in progress.
\<close>

record pub_world =
  pw_now :: pub_state
  pw_past :: "publication list set"

datatype pub_request =
    ReqCreate uuid uuid string uuid "uuid option" "uuid option" string string string string
  | ReqToReview string uuid uuid
  | ReqApprove uuid uuid string
  | ReqReject uuid uuid string
  | ReqPublish uuid uuid string
  | ReqRetry uuid uuid string
  | ReqCancel uuid uuid

text \<open>The service around a digest, the text of a UUID and a platform adapter.\<close>

record pub_env =
  pe_sha256hex :: "string \<Rightarrow> string"
  pe_uuid_String :: "uuid \<Rightarrow> string"
  pe_deliver :: "publication \<Rightarrow> (string, string) result"

fun pub_serve :: "pub_env \<Rightarrow> publication list \<Rightarrow> instant \<Rightarrow> pub_request \<Rightarrow> pub_state \<Rightarrow> pub_answer \<times> pub_state" where
  "pub_serve env snap now (ReqCreate pid gen actor ws goal task title body platform key) s =
     pub_CreateWithIdempotency (pe_sha256hex env) snap now pid gen actor ws goal task title body platform key s"
| "pub_serve env snap now (ReqToReview actor ws pid) s = pub_ToReview snap now actor ws pid s"
| "pub_serve env snap now (ReqApprove ws pid actor) s = pub_Approve snap now ws pid actor s"
| "pub_serve env snap now (ReqReject ws pid actor) s = pub_Reject snap now ws pid actor s"
| "pub_serve env snap now (ReqPublish ws pid actor) s =
     pub_Publish (pe_uuid_String env) (pe_deliver env) snap now ws pid actor s"
| "pub_serve env snap now (ReqRetry ws pid actor) s =
     pub_Retry (pe_uuid_String env) (pe_deliver env) snap now ws pid actor s"
| "pub_serve env snap now (ReqCancel ws pid) s = pub_Cancel snap now ws pid s"

inductive pub_step :: "pub_env \<Rightarrow> pub_world \<Rightarrow> pub_world \<Rightarrow> bool" for env where
  pub_serve_step:
    "snap = ps_rows (pw_now w) \<or> snap \<in> pw_past w \<Longrightarrow> pub_serve env snap now req (pw_now w) = (answer, s) \<Longrightarrow>
     pub_step env w \<lparr>pw_now = s, pw_past = insert (ps_rows (pw_now w)) (pw_past w)\<rparr>"

definition pub_initial :: "pub_world \<Rightarrow> bool" where
  "pub_initial w \<longleftrightarrow> ps_rows (pw_now w) = [] \<and> ps_delivered (pw_now w) = [] \<and> pw_past w = {}"

text \<open>What a row promises: the human decisions its status stands for are recorded in it.\<close>

definition human :: "string option \<Rightarrow> bool" where
  "human a \<longleftrightarrow> (case a of None \<Rightarrow> False | Some x \<Rightarrow> TrimSpace x \<noteq> [])"

definition approved_by_human :: "publication \<Rightarrow> bool" where
  "approved_by_human p \<longleftrightarrow> human (pb_ApprovedBy p) \<and> pb_ApprovedAt p \<noteq> None"

definition pub_ok :: "publication \<Rightarrow> bool" where
  "pub_ok p \<longleftrightarrow>
     pub_ValidStatus (pb_Status p) \<and> TrimSpace (pb_Title p) \<noteq> [] \<and> TrimSpace (pb_Body p) \<noteq> []
     \<and> (pb_Status p = StatusApproved \<or> pb_Status p = StatusPublished \<or> pb_Status p = StatusFailed \<longrightarrow> approved_by_human p)
     \<and> (pb_Status p = StatusPublished \<longrightarrow> human (pb_PublishedBy p) \<and> pb_PublishedAt p \<noteq> None)
     \<and> (pb_Status p = StatusRejected \<longrightarrow> human (pb_RejectedBy p) \<and> pb_RejectedAt p \<noteq> None)"

definition pub_inv :: "pub_world \<Rightarrow> bool" where
  "pub_inv w \<longleftrightarrow>
     (\<forall>p \<in> set (ps_rows (pw_now w)). pub_ok p)
     \<and> (\<forall>rows \<in> pw_past w. \<forall>p \<in> set rows. pub_ok p)
     \<and> (\<forall>p \<in> set (ps_delivered (pw_now w)). HasApproval p \<and> approved_by_human p)"

text \<open>The part of the state the invariant looks at after one request.\<close>

definition serve_ok :: "pub_state \<Rightarrow> pub_state \<Rightarrow> bool" where
  "serve_ok s t \<longleftrightarrow>
     ((\<forall>p \<in> set (ps_rows s). pub_ok p) \<longrightarrow> (\<forall>p \<in> set (ps_rows t). pub_ok p))
     \<and> ((\<forall>p \<in> set (ps_delivered s). HasApproval p \<and> approved_by_human p) \<longrightarrow>
        (\<forall>p \<in> set (ps_delivered t). HasApproval p \<and> approved_by_human p))"

lemma pub_record_frame [simp]:
  "ps_rows (pub_record ev pr oc ws pid at ai s) = ps_rows s"
  "ps_delivered (pub_record ev pr oc ws pid at ai s) = ps_delivered s"
  "ps_rows (pub_event ev i ws s) = ps_rows s" "ps_delivered (pub_event ev i ws s) = ps_delivered s"
  by (simp_all add: pub_record_def pub_event_def)

lemma serve_ok_refl [simp]: "serve_ok s s"
  by (simp add: serve_ok_def)

lemma serve_ok_frame [simp]:
  "serve_ok s (pub_record ev pr oc ws pid at ai t) = serve_ok s t"
  "serve_ok s (pub_event ev i ws t) = serve_ok s t"
  "serve_ok s (t\<lparr>ps_throttle := th\<rparr>) = serve_ok s t" "serve_ok (s\<lparr>ps_throttle := th\<rparr>) t = serve_ok s t"
  by (simp_all add: serve_ok_def)

lemma serve_ok_trans: "serve_ok s t \<Longrightarrow> serve_ok t u \<Longrightarrow> serve_ok s u"
  unfolding serve_ok_def by blast

lemma serve_ok_deliver:
  "HasApproval p \<Longrightarrow> approved_by_human p \<Longrightarrow> serve_ok s (s\<lparr>ps_delivered := ps_delivered s @ [p]\<rparr>)"
  by (auto simp: serve_ok_def)

lemma pub_ok_write:
  assumes "pub_ok p" "pub_ok r"
  shows "pub_ok (pub_write p r)"
  using assms by (auto simp: pub_ok_def pub_write_def approved_by_human_def)

lemma PubStore_Update_ok:
  assumes "PubStore_Update now ws p rows = Inr (rows', p')" "pub_ok p" "\<forall>r \<in> set rows. pub_ok r"
  shows "\<forall>r \<in> set rows'. pub_ok r"
proof -
  have "pub_ok (p\<lparr>pb_UpdatedAt := now\<rparr>)"
    using assms(2) by (simp add: pub_ok_def approved_by_human_def)
  moreover have "rows' = upd_where (\<lambda>r. pb_ID r = pb_ID p \<and> pb_WorkspaceID r = ws) (pub_write (p\<lparr>pb_UpdatedAt := now\<rparr>)) rows"
    using assms(1) by (auto simp: PubStore_Update_def Let_def split: if_splits)
  ultimately show ?thesis
    using assms(3) by (auto simp: set_upd_where pub_ok_write)
qed

lemma pub_apply_ok:
  assumes "pub_CanTransition (pb_Status p) to = None \<Longrightarrow> pub_ok (p\<lparr>pb_Status := to, pb_UpdatedAt := now\<rparr>)"
    and "pub_apply now ws p to atype aid s = (answer, t)"
  shows "serve_ok s t"
proof (cases "pub_CanTransition (pb_Status p) to")
  case (Some e)
  with assms(2) show ?thesis by (auto simp: pub_apply_def)
next
  case None
  show ?thesis
  proof (cases "PubStore_Update now ws (p\<lparr>pb_Status := to, pb_UpdatedAt := now\<rparr>) (ps_rows s)")
    case (Inl e)
    with None assms(2) show ?thesis by (simp add: pub_apply_def)
  next
    case (Inr q)
    obtain rows u where q: "q = (rows, u)" by fastforce
    have "serve_ok s (s\<lparr>ps_rows := rows\<rparr>)"
      using PubStore_Update_ok [OF Inr [unfolded q] assms(1) [OF None]] by (simp add: serve_ok_def)
    with None Inr q assms(2) show ?thesis by (auto simp: pub_apply_def)
  qed
qed

lemma getOwned_Inr: "pub_getOwned snap ws pid = Inr p \<Longrightarrow> p \<in> set snap \<and> pb_ID p = pid \<and> pb_WorkspaceID p = ws"
  by (auto simp: pub_getOwned_def PubStore_Get_def split: option.splits if_splits dest!: find_SomeD)

lemma serve_keeps_Create:
  assumes "pub_CreateWithIdempotency h snap now pid gen actor ws goal task title body platform key0 s = (answer, t)"
  shows "serve_ok s t"
proof -
  have create: "serve_ok s u" if "pub_create h now pid gen actor ws goal task title body platform key s = (ans, u)" for key ans u
  proof -
    have fresh: "pub_ok (p\<lparr>pb_IdempotencyKey := key, pb_ID := gen\<rparr>)"
      if "pub_New h now pid ws goal task title body platform = Inr p" for p
      using that by (auto simp: pub_New_def Let_def pub_ok_def pub_ValidStatus_def TrimSpace_idem split: if_splits)
    show ?thesis
      using that fresh
      by (auto simp: pub_create_def PubStore_Create_def Let_def serve_ok_def split: if_splits sum.splits)
  qed
  show ?thesis
    using assms create by (auto simp: pub_CreateWithIdempotency_def Let_def split: if_splits sum.splits)
qed

lemma serve_keeps_transition:
  assumes "\<forall>p \<in> set snap. pub_ok p" "to \<in> {StatusReview, StatusCancelled}"
    and "pub_transition snap now ws pid to atype aid s = (answer, t)"
  shows "serve_ok s t"
proof (cases "pub_getOwned snap ws pid")
  case (Inl e)
  with assms(2,3) show ?thesis by (auto simp: pub_transition_def split: if_splits)
next
  case (Inr p)
  then have "pub_ok p" using getOwned_Inr assms(1) by blast
  then have ok: "pub_ok (p\<lparr>pb_Status := to, pb_UpdatedAt := now\<rparr>)"
    using assms(2) by (auto simp: pub_ok_def approved_by_human_def pub_ValidStatus_def)
  have "pub_apply now ws p to atype aid s = (answer, t)"
    using Inr assms(2,3) by (auto simp: pub_transition_def pub_ValidStatus_def)
  then show ?thesis
    by (rule pub_apply_ok [OF ok, rotated]) 
qed

lemma serve_keeps_Approve:
  assumes "\<forall>p \<in> set snap. pub_ok p" "pub_Approve snap now ws pid actor s = (answer, t)"
  shows "serve_ok s t"
proof (cases "TrimSpace actor = [] \<or> (\<exists>e. pub_getOwned snap ws pid = Inl e)")
  case True
  with assms(2) show ?thesis by (auto simp: pub_Approve_def split: if_splits)
next
  case False
  then obtain p where p: "pub_getOwned snap ws pid = Inr p" by (cases "pub_getOwned snap ws pid") auto
  then have "pub_ok p" using getOwned_Inr assms(1) by blast
  with False have ok: "pub_ok (p\<lparr>pb_ApprovedBy := Some actor, pb_ApprovedAt := Some now, pb_Status := StatusApproved, pb_UpdatedAt := now\<rparr>)"
    by (auto simp: pub_ok_def approved_by_human_def human_def pub_ValidStatus_def)
  show ?thesis
    using assms(2) False p
    by (auto simp: pub_Approve_def split: if_splits elim!: pub_apply_ok [rotated]) (use ok in simp)
qed

lemma serve_keeps_Reject:
  assumes "\<forall>p \<in> set snap. pub_ok p" "pub_Reject snap now ws pid actor s = (answer, t)"
  shows "serve_ok s t"
proof (cases "TrimSpace actor = [] \<or> (\<exists>e. pub_getOwned snap ws pid = Inl e)")
  case True
  with assms(2) show ?thesis by (auto simp: pub_Reject_def split: if_splits)
next
  case False
  then obtain p where p: "pub_getOwned snap ws pid = Inr p" by (cases "pub_getOwned snap ws pid") auto
  then have "pub_ok p" using getOwned_Inr assms(1) by blast
  with False have ok: "pub_ok (p\<lparr>pb_RejectedBy := Some actor, pb_RejectedAt := Some now, pb_Status := StatusRejected, pb_UpdatedAt := now\<rparr>)"
    by (auto simp: pub_ok_def approved_by_human_def human_def pub_ValidStatus_def)
  show ?thesis
    using assms(2) False p
    by (auto simp: pub_Reject_def split: if_splits elim!: pub_apply_ok [rotated]) (use ok in simp)
qed

lemma serve_keeps_Publish:
  assumes "\<forall>p \<in> set snap. pub_ok p" "pub_Publish us dl snap now ws pid actor s0 = (answer, t)"
  shows "serve_ok s0 t"
proof -
  obtain ok th where th: "Throttler_Allow now (us ws) (ps_throttle s0) = (ok, th)" by fastforce
  let ?s = "s0\<lparr>ps_throttle := th\<rparr>"
  show ?thesis
  proof (cases "TrimSpace actor \<noteq> [] \<and> ok \<and> (\<exists>p. pub_getOwned snap ws pid = Inr p
      \<and> pub_CanTransition (pb_Status p) StatusPublished = None \<and> HasApproval p)")
    case False
    then show ?thesis
      using assms(2) th
      by (auto simp: pub_Publish_def Let_def split: if_splits sum.splits option.splits)
  next
    case True
    then obtain p where p: "TrimSpace actor \<noteq> []" ok "pub_getOwned snap ws pid = Inr p"
      "pub_CanTransition (pb_Status p) StatusPublished = None" "HasApproval p" by blast
    have okp: "pub_ok p" using getOwned_Inr [OF p(3)] assms(1) by blast
    then have ah: "approved_by_human p" using p(5) by (simp add: pub_ok_def HasApproval_def)
    define s1 where "s1 = ?s\<lparr>ps_delivered := ps_delivered ?s @ [p]\<rparr>"
    have s1: "serve_ok s0 s1"
      using serve_ok_deliver [OF p(5) ah, of ?s] by (simp add: s1_def)
    show ?thesis
    proof (cases "dl p")
      case (Inr ref)
      then have a: "pub_apply now ws (p\<lparr>pb_PublishedAt := Some now, pb_PublishedBy := Some actor, pb_ExternalReference := ref\<rparr>)
          StatusPublished ''human'' actor s1 = (answer, t)"
        using assms(2) th p by (simp add: pub_Publish_def s1_def)
      have "pub_ok (p\<lparr>pb_PublishedAt := Some now, pb_PublishedBy := Some actor, pb_ExternalReference := ref,
          pb_Status := StatusPublished, pb_UpdatedAt := now\<rparr>)"
        using okp ah p(1) by (simp add: pub_ok_def approved_by_human_def human_def pub_ValidStatus_def)
      then have "serve_ok s1 t"
        by (intro pub_apply_ok [OF _ a]) simp
      with s1 show ?thesis by (rule serve_ok_trans)
    next
      case (Inl err)
      let ?p = "p\<lparr>pb_FailureReason := pub_failureReason err\<rparr>"
      obtain ans s2 where a: "pub_apply now ws ?p StatusFailed ''human'' actor s1 = (ans, s2)" by fastforce
      have "pub_ok (?p\<lparr>pb_Status := StatusFailed, pb_UpdatedAt := now\<rparr>)"
        using okp ah by (simp add: pub_ok_def approved_by_human_def pub_ValidStatus_def)
      then have "serve_ok s1 s2"
        by (intro pub_apply_ok [OF _ a]) simp
      moreover have "t = pub_record ''publication.publish'' ''Security by Design'' ''failed'' ws (Some pid) ''human'' actor s2"
        using assms(2) th p Inl a by (simp add: pub_Publish_def s1_def Let_def split: option.splits)
      ultimately show ?thesis
        using serve_ok_trans [OF s1] by simp
    qed
  qed
qed

lemma serve_keeps_Retry:
  assumes "\<forall>p \<in> set snap. pub_ok p" "pub_Retry us dl snap now ws pid actor s0 = (answer, t)"
  shows "serve_ok s0 t"
proof -
  obtain ok th where th: "Throttler_Allow now (us ws) (ps_throttle s0) = (ok, th)" by fastforce
  let ?s = "s0\<lparr>ps_throttle := th\<rparr>"
  show ?thesis
  proof (cases "TrimSpace actor \<noteq> [] \<and> ok \<and> (\<exists>p. pub_getOwned snap ws pid = Inr p \<and> pb_Status p = StatusFailed
      \<and> pb_ApprovedBy p \<noteq> None \<and> pb_ApprovedAt p \<noteq> None)")
    case False
    then show ?thesis
      using assms(2) th by (auto simp: pub_Retry_def Let_def split: if_splits sum.splits)
  next
    case True
    then obtain p0 where p0: "TrimSpace actor \<noteq> []" ok "pub_getOwned snap ws pid = Inr p0" "pb_Status p0 = StatusFailed"
      "pb_ApprovedBy p0 \<noteq> None" "pb_ApprovedAt p0 \<noteq> None" by blast
    define p where "p = p0\<lparr>pb_Status := StatusApproved\<rparr>"
    have okp: "pub_ok p0" using getOwned_Inr [OF p0(3)] assms(1) by blast
    then have ah: "approved_by_human p" "HasApproval p"
      using p0 by (simp_all add: pub_ok_def HasApproval_def approved_by_human_def p_def)
    define s1 where "s1 = ?s\<lparr>ps_delivered := ps_delivered ?s @ [p]\<rparr>"
    have s1: "serve_ok s0 s1"
      using serve_ok_deliver [OF ah(2,1), of ?s] by (simp add: s1_def)
    show ?thesis
    proof (cases "dl p")
      case (Inr ref)
      then have a: "pub_apply now ws (p\<lparr>pb_FailureReason := [], pb_ExternalReference := ref, pb_PublishedAt := Some now,
          pb_PublishedBy := Some actor\<rparr>) StatusPublished ''human'' actor s1 = (answer, t)"
        using assms(2) th p0 by (simp add: pub_Retry_def s1_def p_def Let_def)
      have "pub_ok (p\<lparr>pb_FailureReason := [], pb_ExternalReference := ref, pb_PublishedAt := Some now,
          pb_PublishedBy := Some actor, pb_Status := StatusPublished, pb_UpdatedAt := now\<rparr>)"
        using okp ah p0(1) by (simp add: pub_ok_def approved_by_human_def human_def pub_ValidStatus_def p_def)
      then have "serve_ok s1 t"
        by (intro pub_apply_ok [OF _ a]) simp
      with s1 show ?thesis by (rule serve_ok_trans)
    next
      case (Inl err)
      let ?p = "p\<lparr>pb_Status := StatusFailed, pb_FailureReason := pub_failureReason err, pb_UpdatedAt := now\<rparr>"
      have okf: "pub_ok ?p"
        using okp ah by (simp add: pub_ok_def approved_by_human_def pub_ValidStatus_def p_def)
      show ?thesis
      proof (cases "PubStore_Update now ws ?p (ps_rows s1)")
        case (Inl e)
        with \<open>dl p = Inl err\<close> s1 show ?thesis
          using assms(2) th p0 by (auto simp: pub_Retry_def s1_def p_def Let_def)
      next
        case (Inr q)
        obtain rows u where q: "q = (rows, u)" by fastforce
        have "serve_ok s1 (s1\<lparr>ps_rows := rows\<rparr>)"
          using PubStore_Update_ok [OF Inr [unfolded q] okf] by (simp add: serve_ok_def)
        moreover have "serve_ok s0 t = serve_ok s0 (s1\<lparr>ps_rows := rows\<rparr>)"
          using Inr q \<open>dl p = Inl err\<close> assms(2) th p0 by (auto simp: pub_Retry_def s1_def p_def Let_def)
        ultimately show ?thesis
          using serve_ok_trans [OF s1] by simp
      qed
    qed
  qed
qed

lemma pub_serve_keeps:
  assumes "\<forall>p \<in> set snap. pub_ok p" "pub_serve env snap now req s = (answer, t)"
  shows "serve_ok s t"
  using assms
  by (cases req)
    (auto simp: pub_ToReview_def pub_Cancel_def intro: serve_keeps_Create serve_keeps_Approve serve_keeps_Reject
      serve_keeps_Publish serve_keeps_Retry serve_keeps_transition)

lemma pub_step_inv: "pub_step env w w' \<Longrightarrow> pub_inv w \<Longrightarrow> pub_inv w'"
proof (induction rule: pub_step.induct)
  case (pub_serve_step snap w now req answer s)
  have "\<forall>p \<in> set snap. pub_ok p"
    using pub_serve_step(1,3) by (auto simp: pub_inv_def)
  from pub_serve_keeps [OF this pub_serve_step(2)] pub_serve_step(3) show ?case
    by (simp add: pub_inv_def serve_ok_def)
qed

interpretation pub: invariant pub_initial "pub_step env" pub_inv for env
proof
  show "pub_inv w" if "pub_initial w" for w
    using that by (simp add: pub_initial_def pub_inv_def)
qed (rule pub_step_inv)

subsection \<open>Properties\<close>

text \<open>The stub platform, and a history: create, review, approve, publish.\<close>

definition demo_pub_env :: pub_env where
  "demo_pub_env = \<lparr>pe_sha256hex = (\<lambda>_. ''5f2a''), pe_uuid_String = (\<lambda>_. ''ws''), pe_deliver = StubPublisher_Publish\<rparr>"

definition demo_pub_idle :: pub_state where
  "demo_pub_idle = \<lparr>ps_rows = [], ps_throttle = NewThrottler minute 10 (- minute), ps_audit = [], ps_events = [],
     ps_delivered = []\<rparr>"

definition demo_pub_queued :: pub_state where
  "demo_pub_queued = snd (pub_serve demo_pub_env (ps_rows demo_pub_idle) 0
     (ReqCreate 5 7 ''ann'' 1 None None ''Title'' ''Body'' [] ''k'') demo_pub_idle)"

definition demo_pub_review :: pub_state where
  "demo_pub_review = snd (pub_serve demo_pub_env (ps_rows demo_pub_queued) 1 (ReqToReview ''ann'' 1 7) demo_pub_queued)"

definition demo_pub_approved :: pub_state where
  "demo_pub_approved = snd (pub_serve demo_pub_env (ps_rows demo_pub_review) 2 (ReqApprove 1 7 ''ann'') demo_pub_review)"

definition demo_pub_published :: pub_state where
  "demo_pub_published = snd (pub_serve demo_pub_env (ps_rows demo_pub_approved) 3 (ReqPublish 1 7 ''ann'') demo_pub_approved)"

text \<open>
  C11. Human oversight. Under any interleaving of requests, with any platform adapter and
  however stale the row a request works on, everything handed to the platform was an
  approved publication whose approval a named human recorded, every row that reads approved,
  published or failed carries that approval, and every published row names the human who
  released it.
\<close>

theorem publish_requires_human_approval:
  assumes "pub_initial w0" "runs (pub_step env) w0 w"
  shows "(\<forall>p \<in> set (ps_delivered (pw_now w)). HasApproval p \<and> approved_by_human p)
    \<and> (\<forall>p \<in> set (ps_rows (pw_now w)).
         (pb_Status p = StatusApproved \<or> pb_Status p = StatusPublished \<or> pb_Status p = StatusFailed \<longrightarrow> approved_by_human p)
         \<and> (pb_Status p = StatusPublished \<longrightarrow> human (pb_PublishedBy p)))"
  using pub.inv_reachable [OF assms] by (auto simp: pub_inv_def pub_ok_def)

lemma pub_serve_runs:
  "runs (pub_step env) w0 \<lparr>pw_now = s, pw_past = T\<rparr> \<Longrightarrow> snap = ps_rows s \<or> snap \<in> T \<Longrightarrow>
   runs (pub_step env) w0 \<lparr>pw_now = snd (pub_serve env snap now req s), pw_past = insert (ps_rows s) T\<rparr>"
  by (erule runs_step) (rule pub_serve_step [where w = "\<lparr>pw_now = s, pw_past = T\<rparr>", simplified, OF _ prod.collapse [symmetric]], simp)

lemma demo_pub_runs:
  "runs (pub_step demo_pub_env) \<lparr>pw_now = demo_pub_idle, pw_past = {}\<rparr>
     \<lparr>pw_now = demo_pub_published, pw_past = {ps_rows demo_pub_approved, ps_rows demo_pub_review, ps_rows demo_pub_queued, ps_rows demo_pub_idle}\<rparr>"
  unfolding demo_pub_published_def
  by (rule pub_serve_runs, subst demo_pub_approved_def, rule pub_serve_runs, subst demo_pub_review_def, rule pub_serve_runs,
      subst demo_pub_queued_def, rule pub_serve_runs, rule runs_refl) simp_all

lemma demo_pub_rows:
  "map pb_Status (ps_rows demo_pub_published) = [StatusPublished] \<and> length (ps_delivered demo_pub_published) = 1"
  by code_simp

theorem publish_requires_human_approval_witness:
  "map pb_Status (ps_rows demo_pub_published) = [StatusPublished] \<and> length (ps_delivered demo_pub_published) = 1
   \<and> approved_by_human (hd (ps_delivered demo_pub_published))"
proof -
  have "pub_initial \<lparr>pw_now = demo_pub_idle, pw_past = {}\<rparr>"
    by (simp add: pub_initial_def demo_pub_idle_def)
  from publish_requires_human_approval [OF this demo_pub_runs] demo_pub_rows show ?thesis
    by (cases "ps_delivered demo_pub_published") auto
qed

subsubsection \<open>The lifecycle without interference\<close>

text \<open>One request moves a row along an edge of the lifecycle or not at all.\<close>

definition follows_lifecycle :: "publication list \<Rightarrow> publication list \<Rightarrow> bool" where
  "follows_lifecycle rows rows' \<longleftrightarrow>
     (\<forall>r \<in> set rows. \<exists>r' \<in> set rows'. pb_ID r' = pb_ID r \<and> pb_WorkspaceID r' = pb_WorkspaceID r
        \<and> (pb_Status r' = pb_Status r \<or> allowedTransition (pb_Status r) (pb_Status r')))"

lemma follows_refl [simp]: "follows_lifecycle rows rows"
  by (auto simp: follows_lifecycle_def)

lemma pub_CanTransition_None: "pub_CanTransition from to = None \<longleftrightarrow>
    pub_ValidStatus from \<and> pub_ValidStatus to \<and> \<not> pub_terminal from \<and> from \<noteq> to \<and> allowedTransition from to"
  by (auto simp: pub_CanTransition_def)

lemma PubStore_Update_follows:
  assumes "PubStore_Update now ws p rows = Inr (rows', u)" and "distinct (map pb_ID rows)" and "r0 \<in> set rows"
    and "pb_ID p = pb_ID r0"
    and "pb_Status p = pb_Status r0 \<or> allowedTransition (pb_Status r0) (pb_Status p)"
  shows "follows_lifecycle rows rows'"
  unfolding follows_lifecycle_def
proof
  fix r assume r: "r \<in> set rows"
  let ?h = "\<lambda>r. pb_ID r = pb_ID p \<and> pb_WorkspaceID r = ws"
  have rows': "rows' = upd_where ?h (pub_write (p\<lparr>pb_UpdatedAt := now\<rparr>)) rows"
    using assms(1) by (auto simp: PubStore_Update_def Let_def split: if_splits)
  have "?h r \<Longrightarrow> r = r0"
    using assms(2-4) r by (auto dest: distinct_map_keyD)
  with r assms(5) show "\<exists>r' \<in> set rows'. pb_ID r' = pb_ID r \<and> pb_WorkspaceID r' = pb_WorkspaceID r
      \<and> (pb_Status r' = pb_Status r \<or> allowedTransition (pb_Status r) (pb_Status r'))"
    unfolding rows' set_upd_where by (intro bexI [OF _ imageI [OF r]]) (auto simp: pub_write_def)
qed

lemma pub_apply_follows:
  assumes "pub_apply now ws p to at ai s = (answer, t)" and "distinct (map pb_ID (ps_rows s))" and "r0 \<in> set (ps_rows s)"
    and "pb_ID p = pb_ID r0" and "pb_Status r0 = pb_Status p \<or> (pb_Status r0 = StatusFailed \<and> to = StatusPublished)"
  shows "follows_lifecycle (ps_rows s) (ps_rows t)"
proof (cases "pub_CanTransition (pb_Status p) to")
  case None
  show ?thesis
  proof (cases "PubStore_Update now ws (p\<lparr>pb_Status := to, pb_UpdatedAt := now\<rparr>) (ps_rows s)")
    case (Inl e)
    with None assms(1) show ?thesis by (auto simp: pub_apply_def)
  next
    case (Inr q)
    then obtain rows u where q: "q = (rows, u)" by fastforce
    have "follows_lifecycle (ps_rows s) rows"
      using None assms(4,5) by (intro PubStore_Update_follows [OF Inr [unfolded q] assms(2,3)]) (auto simp: pub_CanTransition_None)
    with None Inr q assms(1) show ?thesis by (auto simp: pub_apply_def pub_event_def pub_record_def)
  qed
next
  case (Some e)
  with assms(1) show ?thesis by (auto simp: pub_apply_def pub_record_def)
qed

lemma pub_transition_follows:
  assumes "pub_transition (ps_rows s) now ws pid to at ai s = (answer, t)" and "distinct (map pb_ID (ps_rows s))"
  shows "follows_lifecycle (ps_rows s) (ps_rows t)"
  using assms by (auto simp: pub_transition_def split: if_splits sum.splits dest!: getOwned_Inr intro: pub_apply_follows)

lemma pub_create_follows:
  "pub_CreateWithIdempotency sha snap now pid gen actor ws goal task title body platform key s = (answer, t) \<Longrightarrow>
   follows_lifecycle (ps_rows s) (ps_rows t)"
  by (auto simp: pub_CreateWithIdempotency_def pub_create_def PubStore_Create_def Let_def pub_record_def pub_event_def
      follows_lifecycle_def split: if_splits sum.splits)

lemma pub_Publish_follows:
  assumes "pub_Publish us dl (ps_rows s) now ws pid actor s = (answer, t)" and "distinct (map pb_ID (ps_rows s))"
  shows "follows_lifecycle (ps_rows s) (ps_rows t)"
proof -
  have step: "follows_lifecycle (ps_rows s) (ps_rows u)"
    if "pub_apply now ws p to at ai s1 = (a, u)" "pub_getOwned (ps_rows s) ws pid = Inr r0" "ps_rows s1 = ps_rows s"
      "pb_ID p = pb_ID r0" "pb_Status p = pb_Status r0" for p to at ai s1 a u r0
    using pub_apply_follows [where ?r0.0 = r0, OF that(1)] that assms(2) getOwned_Inr [OF that(2)] by simp
  show ?thesis
    using assms(1)
    by (auto simp: pub_Publish_def Let_def pub_record_def split: if_splits sum.splits option.splits prod.splits elim!: step)
qed

lemma pub_Retry_follows:
  assumes "pub_Retry us dl (ps_rows s) now ws pid actor s = (answer, t)" and "distinct (map pb_ID (ps_rows s))"
  shows "follows_lifecycle (ps_rows s) (ps_rows t)"
proof -
  have ok: "follows_lifecycle (ps_rows s) (ps_rows u)"
    if "pub_apply now ws p StatusPublished at ai s1 = (a, u)" "pub_getOwned (ps_rows s) ws pid = Inr r0" "ps_rows s1 = ps_rows s"
      "pb_ID p = pb_ID r0" "pb_Status r0 = StatusFailed" for p at ai s1 a u r0
    using pub_apply_follows [where ?r0.0 = r0, OF that(1)] that assms(2) getOwned_Inr [OF that(2)] by simp
  have failed: "follows_lifecycle (ps_rows s) rows"
    if "PubStore_Update now ws p (ps_rows s) = Inr (rows, u)" "pub_getOwned (ps_rows s) ws pid = Inr r0"
      "pb_ID p = pb_ID r0" "pb_Status p = pb_Status r0" for p rows u r0
    using PubStore_Update_follows [where ?r0.0 = r0, OF that(1) assms(2)] that getOwned_Inr [OF that(2)] by simp
  show ?thesis
    using assms(1)
    by (auto simp: pub_Retry_def Let_def pub_record_def split: if_splits sum.splits option.splits prod.splits elim!: ok failed)
qed

text \<open>
  C12. Without interference a publication only moves along the reviewed lifecycle: a request
  that writes the table it read leaves every row in its status or moves it along one of the
  allowed edges; so what is published, rejected or cancelled stays so.
\<close>

theorem publication_lifecycle:
  assumes "distinct (map pb_ID (ps_rows s))" "pub_serve env (ps_rows s) now req s = (answer, t)" "r \<in> set (ps_rows s)"
  shows "\<exists>r' \<in> set (ps_rows t). pb_ID r' = pb_ID r \<and> pb_WorkspaceID r' = pb_WorkspaceID r
    \<and> (pb_Status r' = pb_Status r \<or> allowedTransition (pb_Status r) (pb_Status r'))
    \<and> (pb_Status r = StatusPublished \<or> pb_Status r = StatusRejected \<or> pb_Status r = StatusCancelled \<longrightarrow>
         pb_Status r' = pb_Status r)"
proof -
  have "follows_lifecycle (ps_rows s) (ps_rows t)"
    using assms(1,2)
    by (cases req)
      (auto simp: pub_ToReview_def pub_Cancel_def pub_Approve_def pub_Reject_def pub_record_def split: if_splits sum.splits
        dest!: getOwned_Inr intro: pub_create_follows pub_transition_follows pub_Publish_follows pub_Retry_follows
          pub_apply_follows)
  with assms(3) show ?thesis
    unfolding follows_lifecycle_def by (metis allowedTransition.simps(5-7))
qed

theorem publication_lifecycle_witness:
  "\<exists>r \<in> set (ps_rows (snd (pub_serve demo_pub_env (ps_rows demo_pub_published) 4 (ReqCancel 1 7) demo_pub_published))).
     pb_ID r = pb_ID (hd (ps_rows demo_pub_published)) \<and> pb_Status r = StatusPublished"
proof -
  have rows: "distinct (map pb_ID (ps_rows demo_pub_published)) \<and> length (ps_rows demo_pub_published) = 1
      \<and> pb_Status (hd (ps_rows demo_pub_published)) = StatusPublished"
    by code_simp
  then have "hd (ps_rows demo_pub_published) \<in> set (ps_rows demo_pub_published)"
    by (cases "ps_rows demo_pub_published") auto
  from publication_lifecycle [OF _ prod.collapse [symmetric] this, of demo_pub_env 4 "ReqCancel 1 7"] rows show ?thesis
    by auto
qed

text \<open>
  Creation is idempotent: once a row carries the idempotency key of a workspace, no
  create request with that key adds or changes a row, whatever it carries and even when it
  read the table before that row was there; when it answers with a publication after such a
  read, it is a stored row with that key.
\<close>

theorem publication_create_idempotent:
  assumes "r \<in> set (ps_rows s)" "pb_WorkspaceID r = ws" "pb_IdempotencyKey r = TrimSpace key" "TrimSpace key \<noteq> []"
    and "pub_CreateWithIdempotency sha snap now pid gen actor ws goal task title body platform key s = (answer, t)"
  shows "ps_rows t = ps_rows s \<and> (set snap \<subseteq> set (ps_rows s) \<longrightarrow> (\<forall>p. fst answer = Some p \<longrightarrow>
      p \<in> set (ps_rows s) \<and> pb_WorkspaceID p = ws \<and> pb_IdempotencyKey p = TrimSpace key))"
proof -
  have "PubStore_Create gen (p\<lparr>pb_IdempotencyKey := TrimSpace key\<rparr>) (ps_rows s) = Inl ErrDatabase"
    if "pub_New sha now pid ws goal task title body platform = Inr p" for p
    using that assms(1-4) by (auto simp: pub_New_def PubStore_Create_def Let_def split: if_splits)
  then show ?thesis
    using assms(4,5)
    by (auto simp: pub_CreateWithIdempotency_def pub_create_def Let_def pub_record_def PubStore_GetByIdempotency_def
        split: if_splits sum.splits option.splits dest!: find_SomeD)
qed

theorem publication_create_idempotent_witness:
  "ps_rows (snd (pub_CreateWithIdempotency (\<lambda>_. ''77'') [] 9 8 8 ''bob'' 1 None None ''Other'' ''Text'' [] ''k'' demo_pub_queued))
     = ps_rows demo_pub_queued"
proof -
  have q: "length (ps_rows demo_pub_queued) = 1 \<and> pb_WorkspaceID (hd (ps_rows demo_pub_queued)) = 1
      \<and> pb_IdempotencyKey (hd (ps_rows demo_pub_queued)) = TrimSpace ''k'' \<and> TrimSpace ''k'' \<noteq> []"
    by code_simp
  then have m: "hd (ps_rows demo_pub_queued) \<in> set (ps_rows demo_pub_queued)"
    by (cases "ps_rows demo_pub_queued") auto
  from q publication_create_idempotent [OF m _ _ _ prod.collapse [symmetric], of 1 "''k''" "\<lambda>_. ''77''" "[]" 9 8 8 "''bob''" None None
      "''Other''" "''Text''" "[]"]
  show ?thesis by auto
qed

text \<open>
  With interference the lifecycle is not kept: \<^verbatim>\<open>Update\<close> compares neither the status nor
  a version. A cancellation that read the row while it was under review, and writes after the
  row was approved and published, leaves a row that reads cancelled and was never published,
  although its approved content was handed to the platform.
\<close>

theorem publication_lost_update:
  "\<exists>w. runs (pub_step demo_pub_env) \<lparr>pw_now = demo_pub_idle, pw_past = {}\<rparr> w
     \<and> (\<exists>r \<in> set (ps_rows (pw_now w)). pb_Status r = StatusCancelled \<and> pb_PublishedAt r = None)
     \<and> (\<exists>p \<in> set (ps_delivered (pw_now w)). HasApproval p)"
proof -
  let ?snap = "ps_rows demo_pub_review"
  let ?s = "snd (pub_serve demo_pub_env ?snap 4 (ReqCancel 1 7) demo_pub_published)"
  have v: "map (\<lambda>r. (pb_Status r, pb_PublishedAt r)) (ps_rows ?s) = [(StatusCancelled, None)] \<and> map HasApproval (ps_delivered ?s) = [True]"
    by code_simp
  then have "(\<exists>r \<in> set (ps_rows ?s). pb_Status r = StatusCancelled \<and> pb_PublishedAt r = None) \<and> (\<exists>p \<in> set (ps_delivered ?s). HasApproval p)"
    by (cases "ps_rows ?s"; cases "ps_delivered ?s") auto
  moreover have "runs (pub_step demo_pub_env) \<lparr>pw_now = demo_pub_idle, pw_past = {}\<rparr>
      \<lparr>pw_now = ?s, pw_past = insert (ps_rows demo_pub_published) {ps_rows demo_pub_approved, ps_rows demo_pub_review, ps_rows demo_pub_queued, ps_rows demo_pub_idle}\<rparr>"
    by (rule pub_serve_runs [OF demo_pub_runs]) simp
  ultimately show ?thesis
    by (intro exI conjI) (assumption, simp_all)
qed

end
