(* ===== verification/Pipeline_Publication.thy ===== *)
theory Pipeline_Publication
  imports Pipeline Publication
begin

text \<open>
  The bridge from the creator pipeline to the publishing service
  (\<^verbatim>\<open>internal/composition/pipeline_publication.go\<close>) and what the two promise together. The
  port's state is the world of the publishing service. Between the read and the write of
  every publishing call \<open>gap\<close> lets other publishing requests run.
\<close>

record adapter =
  ad_env :: pub_env
  ad_gap :: "pub_world \<Rightarrow> pub_world"
  ad_now :: instant
  ad_ids :: "uuid \<times> uuid" \<comment> \<open>identifiers for a new publication, as \<open>New\<close> and the database generate them\<close>
  ad_dberr :: string \<comment> \<open>the text of a PostgreSQL error\<close>

definition pub_call :: "adapter \<Rightarrow> pub_request \<Rightarrow> pub_world \<Rightarrow> pub_answer \<times> pub_world" where
  "pub_call ad req w =
     (let snap = ps_rows (pw_now w);
          w1 = ad_gap ad w;
          (answer, s) = pub_serve (ad_env ad) snap (ad_now ad) req (pw_now w1)
      in (answer, \<lparr>pw_now = s, pw_past = insert (ps_rows (pw_now w1)) (pw_past w1)\<rparr>))"

fun pub_Error :: "adapter \<Rightarrow> pub_error \<Rightarrow> string" where
  "pub_Error ad pub_error.ErrInvalidInput = ''publish: invalid input''"
| "pub_Error ad pub_error.ErrNotFound = ''publish: not found''"
| "pub_Error ad pub_error.ErrWorkspaceMismatch = ''publish: workspace mismatch''"
| "pub_Error ad pub_error.ErrInvalidTransition = ''publish: invalid status transition''"
| "pub_Error ad pub_error.ErrTerminalState = ''publish: publication is in a terminal state''"
| "pub_Error ad pub_error.ErrInvalidStatus = ''publish: invalid status''"
| "pub_Error ad pub_error.ErrApprovalRequired = ''publish: publication must be approved before publishing''"
| "pub_Error ad pub_error.ErrUnauthorizedApprover = ''publish: only a human may approve''"
| "pub_Error ad pub_error.ErrUnauthorizedRejecter = ''publish: only a human may reject''"
| "pub_Error ad pub_error.ErrUnauthorizedPublisher = ''publish: only a human may publish''"
| "pub_Error ad pub_error.ErrRateLimited = ''publish: publishing rate limit exceeded''"
| "pub_Error ad pub_error.ErrEmptyContent = ''publish: title or body is empty''"
| "pub_Error ad pub_error.ErrDatabase = ad_dberr ad"
| "pub_Error ad (pub_error.ErrDelivery t) = t"

definition adapter_Prepare :: "adapter \<Rightarrow> uuid \<Rightarrow> pipeline \<Rightarrow> pub_world \<Rightarrow> (string, uuid) result \<times> pub_world" where
  "adapter_Prepare ad ws p w =
     (let body = ''Research reference: '' @ pl_ResearchReference p @ [CHR 0x0A] @ ''Script reference: '' @ pl_ScriptReference p
                 @ [CHR 0x0A] @ ''Review reference: '' @ pl_ReviewReference p;
          create = ReqCreate (fst (ad_ids ad)) (snd (ad_ids ad)) [] ws (pl_GoalID p) (pl_TaskID p) ''Creator pipeline output'' body
                     StubPlatform (''pipeline:'' @ pub_env.pe_uuid_String (ad_env ad) (pl_ID p))
      in case pub_call ad create w of
           ((_, Some e), w1) \<Rightarrow> (Inl (pub_Error ad e), w1)
         | ((None, None), w1) \<Rightarrow> (Inl [], w1)
         | ((Some pub, None), w1) \<Rightarrow>
             (case pb_Status pub of
                StatusQueued \<Rightarrow>
                  (case pub_call ad (ReqToReview [] ws (pb_ID pub)) w1 of
                     ((_, Some e), w2) \<Rightarrow> (Inl (pub_Error ad e), w2)
                   | ((None, None), w2) \<Rightarrow> (Inl [], w2)
                   | ((Some pub2, None), w2) \<Rightarrow> (Inr (pb_ID pub2), w2))
              | StatusReview \<Rightarrow> (Inr (pb_ID pub), w1)
              | pub_status.StatusApproved \<Rightarrow> (Inr (pb_ID pub), w1)
              | StatusPublished \<Rightarrow> (Inr (pb_ID pub), w1)
              | _ \<Rightarrow> (Inl (''pipeline publication is not reviewable: '' @ pub_status_text (pb_Status pub)), w1)))"

definition adapter_Approve :: "adapter \<Rightarrow> uuid \<Rightarrow> uuid \<Rightarrow> string \<Rightarrow> pub_world \<Rightarrow> string option \<times> pub_world" where
  "adapter_Approve ad ws pubid actor w =
     (case pub_Get (ps_rows (pw_now w)) ws pubid of
        Inl e \<Rightarrow> (Some (pub_Error ad e), w)
      | Inr pub \<Rightarrow>
          if pb_Status pub = pub_status.StatusApproved \<or> pb_Status pub = StatusPublished then (None, w)
          else (case pub_call ad (ReqApprove ws pubid actor) (ad_gap ad w) of ((_, e), w1) \<Rightarrow> (map_option (pub_Error ad) e, w1)))"

definition adapter_Publish :: "adapter \<Rightarrow> uuid \<Rightarrow> uuid \<Rightarrow> string \<Rightarrow> pub_world \<Rightarrow> (string, string) result \<times> pub_world" where
  "adapter_Publish ad ws pubid actor w =
     (case pub_Get (ps_rows (pw_now w)) ws pubid of
        Inl e \<Rightarrow> (Inl (pub_Error ad e), w)
      | Inr pub \<Rightarrow>
          if pb_Status pub = StatusPublished then (Inr (pb_ExternalReference pub), w)
          else (case pub_call ad (if pb_Status pub = pub_status.StatusFailed then ReqRetry ws pubid actor else ReqPublish ws pubid actor)
                       (ad_gap ad w) of
                  ((_, Some e), w1) \<Rightarrow> (Inl (pub_Error ad e), w1)
                | ((None, None), w1) \<Rightarrow> (Inl [], w1)
                | ((Some pub2, None), w1) \<Rightarrow> (Inr (pb_ExternalReference pub2), w1)))"

definition publication_adapter :: "adapter \<Rightarrow> pub_world publication_port" where
  "publication_adapter ad =
     \<lparr>port_Prepare = adapter_Prepare ad, port_Approve = adapter_Approve ad, port_Publish = adapter_Publish ad\<rparr>"

subsection \<open>The adapter only makes publishing requests\<close>

definition gap_ok :: "adapter \<Rightarrow> bool" where
  "gap_ok ad \<longleftrightarrow> (\<forall>w. runs (pub_step (ad_env ad)) w (ad_gap ad w))"

lemma pub_runs_past:
  "runs (pub_step env) w w' \<Longrightarrow> ps_rows (pw_now w) = ps_rows (pw_now w') \<or> ps_rows (pw_now w) \<in> pw_past w'"
  by (induction rule: runs.induct) (auto elim!: pub_step.cases)

lemma pub_call_runs:
  assumes "gap_ok ad" "pub_call ad req w = (answer, w')"
  shows "runs (pub_step (ad_env ad)) w w'"
proof -
  let ?w1 = "ad_gap ad w"
  obtain a s where s: "pub_serve (ad_env ad) (ps_rows (pw_now w)) (ad_now ad) req (pw_now ?w1) = (a, s)" by fastforce
  have g: "runs (pub_step (ad_env ad)) w ?w1" using assms(1) by (simp add: gap_ok_def)
  have "pub_step (ad_env ad) ?w1 \<lparr>pw_now = s, pw_past = insert (ps_rows (pw_now ?w1)) (pw_past ?w1)\<rparr>"
    by (rule pub_serve_step [OF pub_runs_past [OF g] s])
  moreover have "w' = \<lparr>pw_now = s, pw_past = insert (ps_rows (pw_now ?w1)) (pw_past ?w1)\<rparr>"
    using assms(2) s by (simp add: pub_call_def Let_def)
  ultimately show ?thesis using runs_step [OF g] by simp
qed

lemma gap_call_runs:
  assumes "gap_ok ad" "pub_call ad req (ad_gap ad w) = (answer, w')"
  shows "runs (pub_step (ad_env ad)) w w'"
  using runs_trans [OF pub_call_runs [OF assms]] assms(1) by (simp add: gap_ok_def)

lemma adapter_Publish_runs:
  "gap_ok ad \<Longrightarrow> adapter_Publish ad ws pubid actor w = (r, w') \<Longrightarrow> runs (pub_step (ad_env ad)) w w'"
  by (auto simp: adapter_Publish_def runs_refl split: sum.splits if_splits prod.splits option.splits dest: gap_call_runs)

lemma adapter_Approve_runs:
  "gap_ok ad \<Longrightarrow> adapter_Approve ad ws pubid actor w = (r, w') \<Longrightarrow> runs (pub_step (ad_env ad)) w w'"
  by (auto simp: adapter_Approve_def runs_refl split: sum.splits if_splits prod.splits dest: gap_call_runs)

lemma adapter_Prepare_runs:
  assumes "gap_ok ad" "adapter_Prepare ad ws p w = (r, w')"
  shows "runs (pub_step (ad_env ad)) w w'"
proof -
  have two: "runs (pub_step (ad_env ad)) w w2" if "pub_call ad a w = (x, w1)" "pub_call ad b w1 = (y, w2)" for a b x y w1 w2
    using runs_trans [OF pub_call_runs [OF assms(1) that(2)] pub_call_runs [OF assms(1) that(1)]] .
  show ?thesis
    using assms(2)
    by (auto simp: adapter_Prepare_def Let_def split: prod.splits option.splits pub_status.splits
        dest: pub_call_runs [OF assms(1)] two)
qed

subsection \<open>A delivered publication is published\<close>

definition stored :: "uuid \<Rightarrow> uuid \<Rightarrow> publication list \<Rightarrow> bool" where
  "stored ws pid rows \<longleftrightarrow> (\<exists>r \<in> set rows. pb_ID r = pid \<and> pb_WorkspaceID r = ws)"

definition published_as :: "uuid \<Rightarrow> uuid \<Rightarrow> string \<Rightarrow> pub_state \<Rightarrow> bool" where
  "published_as ws pid ref s \<longleftrightarrow> (\<exists>r \<in> set (ps_rows s). pb_ID r = pid \<and> pb_WorkspaceID r = ws \<and> pb_Status r = StatusPublished
     \<and> pb_ExternalReference r = ref)"

lemma PubStore_Update_Inr:
  "PubStore_Update now ws p rows = Inr (rows', u) \<Longrightarrow>
   u = p\<lparr>pb_UpdatedAt := now\<rparr> \<and> rows' = upd_where (\<lambda>r. pb_ID r = pb_ID p \<and> pb_WorkspaceID r = ws) (pub_write u) rows"
  by (auto simp: PubStore_Update_def Let_def split: if_splits)

lemma upd_where_mem: "r \<in> set rows \<Longrightarrow> (if P r then f r else r) \<in> set (upd_where P f rows)"
  by (auto simp: upd_where_def)

lemma PubStore_Update_stored:
  assumes "PubStore_Update now ws p rows = Inr (rows', u)" "stored v i rows"
  shows "stored v i rows'"
proof -
  from assms(2) obtain r where r: "r \<in> set rows" "pb_ID r = i" "pb_WorkspaceID r = v" by (auto simp: stored_def)
  let ?h = "\<lambda>r. pb_ID r = pb_ID p \<and> pb_WorkspaceID r = ws"
  have "(if ?h r then pub_write u r else r) \<in> set rows'"
    using PubStore_Update_Inr [OF assms(1)] upd_where_mem [OF r(1), of ?h "pub_write u"] by simp
  then show ?thesis unfolding stored_def using r(2,3) by (intro bexI) (auto simp: pub_write_def)
qed

lemma pub_record_rows [simp]: "ps_rows (pub_record ev pr oc ws pid at ai s) = ps_rows s"
  by (simp add: pub_record_def)

lemma pub_apply_stored: "pub_apply now ws p to at ai s = (a, t) \<Longrightarrow> stored v i (ps_rows s) \<Longrightarrow> stored v i (ps_rows t)"
  by (auto simp: pub_apply_def pub_event_def split: option.splits sum.splits elim: PubStore_Update_stored)

lemma pub_Publish_stored:
  "pub_Publish us dl snap now ws pid actor s = (a, t) \<Longrightarrow> stored v i (ps_rows s) \<Longrightarrow> stored v i (ps_rows t)"
  by (auto simp: pub_Publish_def Let_def split: if_splits sum.splits option.splits prod.splits dest!: pub_apply_stored)

lemma pub_Retry_stored:
  "pub_Retry us dl snap now ws pid actor s = (a, t) \<Longrightarrow> stored v i (ps_rows s) \<Longrightarrow> stored v i (ps_rows t)"
  by (auto simp: pub_Retry_def Let_def split: if_splits sum.splits option.splits prod.splits dest!: pub_apply_stored
      elim: PubStore_Update_stored)

lemma pub_serve_stored:
  assumes "pub_serve env snap now req s = (a, t)" "stored v i (ps_rows s)"
  shows "stored v i (ps_rows t)"
proof (cases req)
  case (ReqCreate x1 x2 x3 x4 x5 x6 x7 x8 x9 x10)
  then show ?thesis
    using assms
    by (auto simp: pub_CreateWithIdempotency_def pub_create_def PubStore_Create_def Let_def stored_def pub_event_def
        split: if_splits sum.splits)
qed (use assms in \<open>auto simp: pub_ToReview_def pub_Cancel_def pub_transition_def pub_Approve_def pub_Reject_def
    split: if_splits sum.splits elim: pub_Publish_stored pub_Retry_stored pub_apply_stored\<close>)

lemma pub_runs_stored: "runs (pub_step env) w w' \<Longrightarrow> stored v i (ps_rows (pw_now w)) \<Longrightarrow> stored v i (ps_rows (pw_now w'))"
  by (induction rule: runs.induct) (auto elim!: pub_step.cases dest: pub_serve_stored)

lemma pub_apply_published:
  assumes "pub_apply now ws p StatusPublished at ai s = ((Some u, None), t)" "stored ws (pb_ID p) (ps_rows s)"
  shows "published_as ws (pb_ID p) (pb_ExternalReference p) t \<and> pb_ExternalReference u = pb_ExternalReference p"
proof -
  from assms(1) obtain rows where r: "PubStore_Update now ws (p\<lparr>pb_Status := StatusPublished, pb_UpdatedAt := now\<rparr>) (ps_rows s) = Inr (rows, u)"
    and t: "ps_rows t = rows"
    by (auto simp: pub_apply_def pub_event_def split: option.splits sum.splits)
  note u = PubStore_Update_Inr [OF r]
  from assms(2) obtain x where x: "x \<in> set (ps_rows s)" "pb_ID x = pb_ID p" "pb_WorkspaceID x = ws" by (auto simp: stored_def)
  have "pub_write u x \<in> set (ps_rows t)"
    using u t x upd_where_mem [OF x(1), of "\<lambda>r. pb_ID r = pb_ID p \<and> pb_WorkspaceID r = ws" "pub_write u"] by simp
  then show ?thesis
    unfolding published_as_def using x u by (intro conjI bexI [of _ "pub_write u x"]) (auto simp: pub_write_def)
qed

lemma pub_Publish_published:
  assumes "pub_Publish us dl snap now ws pid actor s = ((Some u, None), t)" "stored ws pid (ps_rows s)"
  shows "published_as ws pid (pb_ExternalReference u) t"
proof -
  have app: "published_as ws pid (pb_ExternalReference u) t"
    if "pub_apply now ws (p\<lparr>pb_PublishedAt := x, pb_PublishedBy := y, pb_ExternalReference := ref\<rparr>) StatusPublished ''human'' actor s1
        = ((Some u, None), t)" "pub_getOwned snap ws pid = Inr p" "ps_rows s1 = ps_rows s" for p x y ref s1
    using pub_apply_published [OF that(1)] that(2,3) assms(2) getOwned_Inr [OF that(2)] by (simp add: stored_def)
  show ?thesis
    using assms(1)
    by (auto simp: pub_Publish_def Let_def split: if_splits sum.splits option.splits prod.splits elim!: app)
qed

lemma pub_Retry_published:
  assumes "pub_Retry us dl snap now ws pid actor s = ((Some u, None), t)" "stored ws pid (ps_rows s)"
  shows "published_as ws pid (pb_ExternalReference u) t"
proof -
  have app: "published_as ws pid (pb_ExternalReference u) t"
    if "pub_apply now ws (p\<lparr>pb_Status := st, pb_FailureReason := fr, pb_ExternalReference := ref, pb_PublishedAt := x, pb_PublishedBy := y\<rparr>)
          StatusPublished ''human'' actor s1 = ((Some u, None), t)" "pub_getOwned snap ws pid = Inr p" "ps_rows s1 = ps_rows s"
    for p st fr x y ref s1
    using pub_apply_published [OF that(1)] that(2,3) assms(2) getOwned_Inr [OF that(2)] by (simp add: stored_def)
  show ?thesis
    using assms(1)
    by (auto simp: pub_Retry_def Let_def split: if_splits sum.splits option.splits prod.splits elim!: app)
qed

lemma adapter_Publish_published:
  assumes "gap_ok ad" "adapter_Publish ad ws pubid actor w = (Inr ref, w')"
  shows "published_as ws pubid ref (pw_now w')"
proof -
  from assms(2) obtain pub where g: "pub_Get (ps_rows (pw_now w)) ws pubid = Inr pub"
    by (auto simp: adapter_Publish_def split: sum.splits)
  then have pub: "pub \<in> set (ps_rows (pw_now w))" "pb_ID pub = pubid" "pb_WorkspaceID pub = ws"
    using getOwned_Inr by (auto simp: pub_Get_def)
  show ?thesis
  proof (cases "pb_Status pub = StatusPublished")
    case True
    with assms(2) g pub show ?thesis by (auto simp: adapter_Publish_def published_as_def)
  next
    case False
    let ?req = "if pb_Status pub = pub_status.StatusFailed then ReqRetry ws pubid actor else ReqPublish ws pubid actor"
    let ?w1 = "ad_gap ad (ad_gap ad w)"
    obtain u where c: "pub_call ad ?req (ad_gap ad w) = ((Some u, None), w')" and ref: "ref = pb_ExternalReference u"
      using assms(2) g False by (auto simp: adapter_Publish_def split: prod.splits option.splits)
    have "runs (pub_step (ad_env ad)) w ?w1"
      using assms(1) runs_trans by (metis gap_ok_def)
    moreover have "stored ws pubid (ps_rows (pw_now w))" using pub by (auto simp: stored_def)
    ultimately have st: "stored ws pubid (ps_rows (pw_now ?w1))" by (rule pub_runs_stored)
    have "pub_serve (ad_env ad) (ps_rows (pw_now (ad_gap ad w))) (ad_now ad) ?req (pw_now ?w1) = ((Some u, None), pw_now w')"
      using c by (auto simp: pub_call_def Let_def split: prod.splits)
    then show ?thesis
      using st ref pub_Publish_published pub_Retry_published by (auto split: if_splits)
  qed
qed

subsection \<open>The pipeline and the publishing service together\<close>

text \<open>
  The environments of the composed system hand the pipeline service an adapter on one
  publishing service; a step is one of the pipeline's or a publishing request of somebody
  else.
\<close>

definition adapted :: "pub_env \<Rightarrow> pub_world pl_env set" where
  "adapted pe = {env. \<exists>ad. gap_ok ad \<and> ad_env ad = pe \<and> pe_publication env = Some (publication_adapter ad)}"

definition set_port :: "'b \<Rightarrow> 'b pl_world \<Rightarrow> 'b pl_world" where
  "set_port b w = w\<lparr>plw_now := (plw_now w)\<lparr>pls_port := b\<rparr>\<rparr>"

abbreviation port :: "'b pl_world \<Rightarrow> 'b" where
  "port w \<equiv> pls_port (plw_now w)"

inductive sys_step :: "pub_env \<Rightarrow> pub_world pl_world \<Rightarrow> pub_world pl_world \<Rightarrow> bool" for pe where
  sys_pipeline: "pl_step (adapted pe) w w' \<Longrightarrow> sys_step pe w w'"
| sys_publishing: "pub_step pe (port w) b \<Longrightarrow> sys_step pe w (set_port b w)"

definition sys_initial :: "pub_world pl_world \<Rightarrow> bool" where
  "sys_initial w \<longleftrightarrow> pl_initial w \<and> pub_initial (port w)"

lemma pl_emit_port: "pl_emit env ev pid ws st p s = (a, t) \<Longrightarrow> pls_port t = pls_port s"
  by (auto simp: pl_emit_def Let_def split: option.splits)

lemma pl_record_port [simp]: "pls_port (pl_record ev pr oc ws pid at ai st s) = pls_port s"
  by (simp add: pl_record_def)

lemma pl_persist_failure_port [simp]: "pls_port (fst (pl_persist_failure env now p err s)) = pls_port s"
  by (simp add: pl_persist_failure_def split: sum.split)

lemma stageWork_port: "stageWork env p to s = (r, q, t) \<Longrightarrow> pls_port t = pls_port s"
  by (auto simp: stageWork_def Let_def split: stage.splits sum.splits bool.splits option.splits)

lemma pl_finish_port: "pl_finish env now p to at ai s = (a, t) \<Longrightarrow> pls_port t = pls_port s"
  by (auto simp: pl_finish_def split: sum.splits dest: pl_emit_port)

lemma pl_prepare_port:
  assumes "env \<in> adapted pe" "pl_prepare env p to s = (r, t)"
  shows "runs (pub_step pe) (pls_port s) (pls_port t)"
proof -
  obtain ad where ad: "gap_ok ad" "ad_env ad = pe" "pe_publication env = Some (publication_adapter ad)"
    using assms(1) by (auto simp: adapted_def)
  obtain x b where x: "adapter_Prepare ad (pl_WorkspaceID p) p (pls_port s) = (x, b)" by fastforce
  have "pls_port t = b \<or> pls_port t = pls_port s"
    using assms(2) ad(3) x by (auto simp: pl_prepare_def publication_adapter_def Let_def split: if_splits sum.splits)
  with adapter_Prepare_runs [OF ad(1) x] ad(2) show ?thesis by (auto simp: runs_refl)
qed

lemma pl_release_port:
  assumes "env \<in> adapted pe" "pl_release env p to s = (r, t)"
  shows "runs (pub_step pe) (pls_port s) (pls_port t)"
  using assms by (auto simp: adapted_def pl_release_def publication_adapter_def Let_def runs_refl
      split: if_splits prod.splits sum.splits option.splits intro: adapter_Publish_runs)

lemma doAdvance_port:
  assumes "env \<in> adapted pe" "doAdvance env now p to at ai s = (a, t)"
  shows "runs (pub_step pe) (pls_port s) (pls_port t)"
proof -
  obtain r1 p1 s1 where w: "stageWork env p to s = (r1, p1, s1)" by (metis prod_cases3)
  obtain r2 s2 where pr: "pl_prepare env p1 to s1 = (r2, s2)" by fastforce
  note runs2 = pl_prepare_port [OF assms(1) pr]
  have p1: "pls_port s1 = pls_port s" using stageWork_port [OF w] .
  show ?thesis
  proof (cases r1)
    case (Inl err)
    then have "pls_port t = pls_port s"
      using w assms(2) p1 pl_persist_failure_port [of env now p1 err s1]
      by (cases "pl_persist_failure env now p1 err s1") (auto simp: doAdvance_def Let_def)
    then show ?thesis by (simp add: runs_refl)
  next
    case (Inr ref)
    show ?thesis
    proof (cases r2)
      case (Inl err)
      with w Inr pr assms(2) runs2 p1 \<open>r1 = Inr ref\<close> show ?thesis by (auto simp: doAdvance_def)
    next
      case (Inr p2)
      obtain r3 s3 where rl: "pl_release env p2 to s2 = (r3, s3)" by fastforce
      have "runs (pub_step pe) (pls_port s) (pls_port s3)"
        using runs_trans [OF pl_release_port [OF assms(1) rl] runs2] p1 by simp
      moreover have "pls_port t = pls_port s3"
        using w Inr pr rl assms(2) \<open>r1 = Inr ref\<close>
        by (auto simp: doAdvance_def split: option.splits sum.splits dest: pl_finish_port)
      ultimately show ?thesis by simp
    qed
  qed
qed

lemma pl_Advance_port:
  assumes "env \<in> adapted pe" "pl_Advance env snap now ws pid from to s = (a, t)"
  shows "runs (pub_step pe) (pls_port s) (pls_port t)"
  using assms by (auto simp: pl_Advance_def Let_def runs_refl split: if_splits prod.splits sum.splits option.splits
      dest!: doAdvance_port [OF assms(1)])

lemma pl_serve_port:
  assumes "env \<in> adapted pe" "pl_serve env snap snap2 now req s = (a, t)"
  shows "runs (pub_step pe) (pls_port s) (pls_port t)"
proof (cases req)
  case (PlEvent ws pid st)
  show ?thesis
  proof (cases "NextStage st")
    case (Inr nxt)
    obtain u e s1 where a: "pl_Advance env snap now ws pid st nxt s = ((u, e), s1)" by (metis prod.exhaust)
    have "pls_port t = pls_port s1"
      using assms(2) PlEvent Inr a
      by (auto simp: AdvanceFromEvent_def publishCurrentEvent_def split: if_splits sum.splits dest: pl_emit_port)
    with pl_Advance_port [OF assms(1) a] show ?thesis by simp
  qed (use assms(2) PlEvent in \<open>auto simp: AdvanceFromEvent_def runs_refl\<close>)
next
  case (PlApprove ws pid actor)
  then show ?thesis
    using assms
    by (auto simp: pl_Approve_def publishCurrentEvent_def adapted_def publication_adapter_def Let_def runs_refl
        split: if_splits sum.splits prod.splits option.splits dest!: pl_emit_port intro: adapter_Approve_runs)
next
  case (PlCreate x1 x2 x3 x4 x5 x6 x7)
  then show ?thesis
    using assms(2)
    by (auto simp: pl_CreateWithIdempotency_def pl_existing_def Let_def runs_refl split: if_splits sum.splits prod.splits
        dest!: pl_emit_port)
qed (use assms pl_Advance_port in auto)

lemma Retry_begin_port: "Retry_begin env snap now ws pid actor s = (r, t) \<Longrightarrow> pls_port t = pls_port s"
  by (auto simp: Retry_begin_def Let_def split: if_splits prod.splits sum.splits)

lemma pl_step_port: "pl_step (adapted pe) w w' \<Longrightarrow> runs (pub_step pe) (port w) (port w')"
proof (induction rule: pl_step.induct)
  case (pl_serve_step env snap w snap2 now req answer s)
  then show ?case using pl_serve_port by simp
next
  case (pl_retry_begin env snap w now ws pid actor r s)
  then show ?case by (simp add: Retry_begin_port runs_refl)
next
  case (pl_retry_finish env p nxt actor w now answer s)
  then show ?case using doAdvance_port by simp
qed

lemma sys_step_port: "sys_step pe w w' \<Longrightarrow> runs (pub_step pe) (port w) (port w')"
  by (induction rule: sys_step.induct) (auto simp: set_port_def intro: pl_step_port runs_single)

lemma set_port_inv: "pl_inv (set_port b w) = pl_inv w"
  by (simp add: pl_inv_def set_port_def tables_def)

interpretation composed: guarantee sys_initial "sys_step pe" pl_inv "\<lambda>w w'. runs (pub_step pe) (port w) (port w')" for pe
proof
  show "pl_inv w" if "sys_initial w" for w
    using that pipeline.inv_start unfolding sys_initial_def by blast
  show "pl_inv w'" if "sys_step pe w w'" "pl_inv w" for w w'
    using that pipeline.inv_step by cases (auto simp: set_port_inv)
qed (use sys_step_port runs_refl runs_trans in \<open>metis+\<close>)

subsection \<open>Properties\<close>

text \<open>
  C16. The pipeline refines the publishing service. Whatever the composed system does, the
  publishing service only goes through runs of its own requests, so its human oversight holds:
  everything handed to a platform was approved by a named human, and every pipeline that was
  handed on for publication was approved.
\<close>

theorem composed_human_oversight:
  assumes "sys_initial w0" "runs (sys_step pe) w0 w"
  shows "runs (pub_step pe) (port w0) (port w)
    \<and> (\<forall>p \<in> set (ps_delivered (pw_now (port w))). HasApproval p \<and> approved_by_human p)
    \<and> (\<forall>p \<in> set (pls_released (plw_now w)). Approved p)"
proof -
  have inv0: "pl_inv w0" using assms(1) by (rule composed.inv_start)
  have r: "runs (pub_step pe) (port w0) (port w)" using assms(2) inv0 by (rule composed.rel_runs)
  have "pub_inv (port w)" using assms(1) r by (intro pub.inv_reachable) (simp_all add: sys_initial_def)
  moreover have "pl_inv w" using assms by (rule composed.inv_reachable)
  ultimately show ?thesis using r by (simp add: pub_inv_def pl_inv_def)
qed

text \<open>
  A pipeline that reaches the publish stage is published. When the advance out of the
  review succeeds, its publication is stored as published, under the external reference that
  the pipeline records.
\<close>

theorem published_pipeline_delivered:
  assumes "env \<in> adapted pe" "pl_Advance env snap now ws pid StageReview StagePublish s = (answer, t)" "fst answer = Some p"
  shows "pl_Stage p = StagePublish
    \<and> (\<exists>pubid. pl_PublicationID p = Some pubid \<and> published_as ws pubid (pl_PublishedReference p) (pw_now (pls_port t)))"
proof -
  obtain ad where ad: "gap_ok ad" "pe_publication env = Some (publication_adapter ad)"
    using assms(1) by (auto simp: adapted_def)
  obtain p0 th where p0: "pl_getOwned snap ws pid = Inr p0"
    and adv: "doAdvance env now p0 StagePublish ''system'' [] (s\<lparr>pls_throttle := th\<rparr>) = (answer, t)"
    using assms(2,3) by (auto simp: pl_Advance_def Let_def split: if_splits prod.splits sum.splits option.splits)
  let ?s = "s\<lparr>pls_throttle := th\<rparr>"
  obtain r3 s3 where rl: "pl_release env p0 StagePublish ?s = (r3, s3)" by fastforce
  have adv': "(case r3 of None \<Rightarrow> ((None, Some pl_error.ErrApprovalRequired), s3)
      | Some (Inl err) \<Rightarrow> ((None, Some err), fst (pl_persist_failure env now p0 err s3))
      | Some (Inr p3) \<Rightarrow> pl_finish env now p3 StagePublish ''system'' [] s3) = (answer, t)"
    using adv ad(2) rl by (simp add: doAdvance_def stageWork_def pl_prepare_def)
  with assms(3) obtain p3 where p3: "r3 = Some (Inr p3)" by (auto split: option.splits sum.splits)
  with rl ad(2) obtain pubid ref b where pb: "pl_PublicationID p3 = Some pubid" "pl_PublishedReference p3 = ref"
      "pl_WorkspaceID p3 = pl_WorkspaceID p0" "pls_port s3 = b"
      "adapter_Publish ad (pl_WorkspaceID p0) pubid (pl_ApprovedBy p0) (pls_port s) = (Inr ref, b)"
    by (auto simp: pl_release_def publication_adapter_def Let_def split: option.splits if_splits prod.splits sum.splits)
  have fin: "pl_finish env now p3 StagePublish ''system'' [] s3 = (answer, t)" using adv' p3 by simp
  then have "pl_Stage p = StagePublish \<and> pl_PublicationID p = pl_PublicationID p3 \<and> pl_PublishedReference p = pl_PublishedReference p3"
    using assms(3)
    by (auto simp: pl_finish_def pl_emit_def PipeStore_Update_def Let_def split: sum.splits option.splits if_splits)
  then have "pl_Stage p = StagePublish" "pl_PublicationID p = Some pubid" "pl_PublishedReference p = ref"
    using pb by simp_all
  moreover have "published_as (pl_WorkspaceID p0) pubid ref (pw_now b)"
    using adapter_Publish_published [OF ad(1) pb(5)] .
  ultimately show ?thesis
    using pl_finish_port [OF fin] pb pl_getOwned_Inr [OF p0] by auto
qed

text \<open>A pipeline driven through the review with the stub platform behind the publishing service.\<close>

definition demo_adapter :: adapter where
  "demo_adapter = \<lparr>ad_env = demo_pub_env, ad_gap = (\<lambda>w. w), ad_now = 0, ad_ids = (8, 8), ad_dberr = ''pq''\<rparr>"

definition demo_sys_env :: "pub_world pl_env" where
  "demo_sys_env = \<lparr>pl_env.pe_uuid_String = (\<lambda>_. ''u''), pe_research = StubResearcher_Research (\<lambda>_. ''u''),
     pe_script = StubScriptWriter_WriteScript (\<lambda>_. ''u''), pe_review = StubReviewer_Review,
     pe_publish = Pipeline.StubPublisher_Publish (\<lambda>_. ''u''), pe_publication = Some (publication_adapter demo_adapter),
     pe_event = (\<lambda>_. None), pe_fk = (\<lambda>_ _. True)\<rparr>"

definition demo_sys_idle :: "pub_world pl_state" where
  "demo_sys_idle = \<lparr>pls_rows = [], pls_throttle = NewThrottler minute 10 (- minute), pls_audit = [], pls_events = [],
     pls_released = [], pls_port = \<lparr>pw_now = demo_pub_idle, pw_past = {}\<rparr>\<rparr>"

definition demo_sys_do :: "instant \<Rightarrow> pl_request \<Rightarrow> pub_world pl_state \<Rightarrow> pub_world pl_state" where
  "demo_sys_do now req s = snd (pl_serve demo_sys_env (pls_rows s) (pls_rows s) now req s)"

definition demo_sys_approved :: "pub_world pl_state" where
  "demo_sys_approved = demo_sys_do 3 (PlApprove 1 7 ''ann'') (demo_sys_do 2 (PlEvent 1 7 StageScript)
     (demo_sys_do 1 (PlEvent 1 7 StageResearch) (demo_sys_do 0 (PlCreate 5 7 ''ann'' 1 None [] []) demo_sys_idle)))"

definition demo_sys_published :: "pub_world pl_state" where
  "demo_sys_published = demo_sys_do 4 (PlAdvance 1 7 StageReview StagePublish) demo_sys_approved"

lemma demo_sys_adapted: "demo_sys_env \<in> adapted demo_pub_env"
  unfolding adapted_def
  by (intro CollectI exI [of _ demo_adapter]) (simp add: demo_sys_env_def demo_adapter_def gap_ok_def runs_refl)

lemma demo_sys_answer:
  "map_option (\<lambda>p. (pl_Stage p, pl_PublicationID p, pl_PublishedReference p))
     (fst (fst (pl_Advance demo_sys_env (pls_rows demo_sys_approved) 4 1 7 StageReview StagePublish demo_sys_approved)))
   = Some (StagePublish, Some 8, ''stub://stub/5f2a'')"
  by code_simp

theorem published_pipeline_delivered_witness:
  "published_as 1 8 ''stub://stub/5f2a'' (pw_now (pls_port demo_sys_published))"
proof -
  let ?r = "pl_Advance demo_sys_env (pls_rows demo_sys_approved) 4 1 7 StageReview StagePublish demo_sys_approved"
  obtain p where p: "fst (fst ?r) = Some p" "pl_PublicationID p = Some 8" "pl_PublishedReference p = ''stub://stub/5f2a''"
    using demo_sys_answer by auto
  have "snd ?r = demo_sys_published" by (simp add: demo_sys_published_def demo_sys_do_def)
  with published_pipeline_delivered [OF demo_sys_adapted prod.collapse [symmetric] p(1)] p(2,3) show ?thesis by simp
qed

lemma demo_sys_do_runs:
  assumes "\<exists>T. runs (sys_step demo_pub_env) w0 \<lparr>plw_now = s, plw_past = T, plw_retries = {}\<rparr>"
  shows "\<exists>T. runs (sys_step demo_pub_env) w0 \<lparr>plw_now = demo_sys_do now req s, plw_past = T, plw_retries = {}\<rparr>"
proof -
  from assms obtain T where r: "runs (sys_step demo_pub_env) w0 \<lparr>plw_now = s, plw_past = T, plw_retries = {}\<rparr>" by blast
  let ?w = "\<lparr>plw_now = s, plw_past = T, plw_retries = {}\<rparr>"
  have "pl_step (adapted demo_pub_env) ?w \<lparr>plw_now = demo_sys_do now req s, plw_past = tables ?w, plw_retries = plw_retries ?w\<rparr>"
    unfolding demo_sys_do_def
    by (rule pl_serve_step [OF demo_sys_adapted, where snap = "pls_rows s" and ?snap2.0 = "pls_rows s" and now = now and req = req
          and answer = "fst (pl_serve demo_sys_env (pls_rows s) (pls_rows s) now req s)"]) (simp_all add: tables_def)
  from runs_step [OF r sys_pipeline [OF this]] show ?thesis by auto
qed

theorem composed_human_oversight_witness:
  "\<exists>p q. ps_delivered (pw_now (pls_port demo_sys_published)) = [p] \<and> approved_by_human p
     \<and> pls_released demo_sys_published = [q] \<and> Approved q"
proof -
  let ?w0 = "\<lparr>plw_now = demo_sys_idle, plw_past = {}, plw_retries = {}\<rparr>"
  have "\<exists>T. runs (sys_step demo_pub_env) ?w0 \<lparr>plw_now = demo_sys_published, plw_past = T, plw_retries = {}\<rparr>"
    unfolding demo_sys_published_def demo_sys_approved_def by (intro demo_sys_do_runs exI [of _ "{}"] runs_refl)
  then obtain T where r: "runs (sys_step demo_pub_env) ?w0 \<lparr>plw_now = demo_sys_published, plw_past = T, plw_retries = {}\<rparr>" by blast
  have "sys_initial ?w0"
    by (simp add: sys_initial_def pl_initial_def pub_initial_def demo_sys_idle_def demo_pub_idle_def)
  from composed_human_oversight [OF this r]
  have "\<forall>p \<in> set (ps_delivered (pw_now (pls_port demo_sys_published))). approved_by_human p"
    "\<forall>p \<in> set (pls_released demo_sys_published). Approved p" by simp_all
  moreover have "length (ps_delivered (pw_now (pls_port demo_sys_published))) = 1 \<and> length (pls_released demo_sys_published) = 1"
    by code_simp
  ultimately show ?thesis by (auto simp: length_Suc_conv)
qed

end
