(* ===== verification/Access_Control.thy ===== *)
theory Access_Control
  imports Go_Prelude
begin

text \<open>
  Authorization: the role model and the rule set (\<^verbatim>\<open>internal/rbac/rbac.go\<close>), the verified
  claims with their shape check (\<^verbatim>\<open>internal/auth/auth.go\<close>) and the deny-by-default enforcement
  point (\<^verbatim>\<open>internal/authz/authz.go\<close>). A Go map of permissions is an association list
  with distinct keys.
\<close>

subsection \<open>Roles and rules\<close>

datatype Role = RoleFounder | RoleWorkspaceAdmin | RoleWorkspaceMember | RoleOther string

definition ValidRole :: "Role \<Rightarrow> bool" where
  "ValidRole r = (case r of RoleOther _ \<Rightarrow> False | _ \<Rightarrow> True)"

datatype WorkspaceScope = ScopeNone | ScopeSelf | ScopePath | ScopeOther int

definition WorkspaceScope_String :: "WorkspaceScope \<Rightarrow> string" where
  "WorkspaceScope_String s =
     (case s of ScopeNone \<Rightarrow> ''none'' | ScopeSelf \<Rightarrow> ''self'' | ScopePath \<Rightarrow> ''path'' | ScopeOther _ \<Rightarrow> ''unknown'')"

record Rule =
  ru_Action :: string
  ru_ResourcePattern :: string
  ru_Roles :: "Role list"
  ru_Scope :: WorkspaceScope
  ru_Principle :: string

definition rbac_rule :: "string \<Rightarrow> string \<Rightarrow> Role list \<Rightarrow> WorkspaceScope \<Rightarrow> string \<Rightarrow> Rule" where
  "rbac_rule a p rs sc pr = \<lparr>ru_Action = a, ru_ResourcePattern = p, ru_Roles = rs, ru_Scope = sc, ru_Principle = pr\<rparr>"

definition pipelineRules :: "Rule list" where
  "pipelineRules =
     [rbac_rule ''POST'' ''/pipelines'' [RoleWorkspaceAdmin, RoleWorkspaceMember] ScopeSelf ''Principle 1 - Vision First'',
      rbac_rule ''GET'' ''/pipelines'' [RoleWorkspaceAdmin, RoleWorkspaceMember] ScopeSelf ''Principle 13 - Observability'',
      rbac_rule ''GET'' ''/pipelines/{id}'' [RoleWorkspaceAdmin, RoleWorkspaceMember] ScopeSelf ''Principle 10 - Privacy by Design'',
      rbac_rule ''POST'' ''/pipelines/{id}/approve'' [RoleWorkspaceAdmin] ScopeSelf ''Principle 11 - Human Oversight'',
      rbac_rule ''POST'' ''/pipelines/{id}/retry'' [RoleWorkspaceAdmin, RoleWorkspaceMember] ScopeSelf ''Principle 13 - Observability'']"

definition publicationRules :: "Rule list" where
  "publicationRules =
     [rbac_rule ''POST'' ''/publications'' [RoleWorkspaceAdmin, RoleWorkspaceMember] ScopeSelf ''Principle 1 - Vision First'',
      rbac_rule ''GET'' ''/publications'' [RoleWorkspaceAdmin, RoleWorkspaceMember] ScopeSelf ''Principle 10 - Privacy by Design'',
      rbac_rule ''GET'' ''/publications/{id}'' [RoleWorkspaceAdmin, RoleWorkspaceMember] ScopeSelf ''Principle 10 - Privacy by Design'',
      rbac_rule ''POST'' ''/publications/{id}/submit'' [RoleWorkspaceAdmin, RoleWorkspaceMember] ScopeSelf ''Principle 11 - Human Oversight'',
      rbac_rule ''POST'' ''/publications/{id}/approve'' [RoleWorkspaceAdmin] ScopeSelf ''Principle 11 - Human Oversight'',
      rbac_rule ''POST'' ''/publications/{id}/reject'' [RoleWorkspaceAdmin] ScopeSelf ''Principle 11 - Human Oversight'',
      rbac_rule ''POST'' ''/publications/{id}/publish'' [RoleWorkspaceAdmin] ScopeSelf ''Principle 11 - Human Oversight'',
      rbac_rule ''POST'' ''/publications/{id}/retry'' [RoleWorkspaceAdmin] ScopeSelf ''Principle 11 - Human Oversight'']"

definition rbac_Rules :: "Rule list" where
  "rbac_Rules =
     [rbac_rule ''GET'' ''/api/me'' [RoleFounder, RoleWorkspaceAdmin, RoleWorkspaceMember] ScopeNone ''Principle 9 - Security by Design'',
      rbac_rule ''GET'' ''/workspaces'' [RoleFounder] ScopeNone ''Principle 9 - Security by Design'',
      rbac_rule ''POST'' ''/workspaces'' [RoleFounder] ScopeNone ''Principle 5 - Modular Design'',
      rbac_rule ''GET'' ''/workspaces/{id}'' [RoleFounder] ScopeNone ''Principle 10 - Privacy by Design'',
      rbac_rule ''GET'' ''/workspaces/{id}'' [RoleWorkspaceAdmin] ScopePath ''Principle 10 - Privacy by Design'',
      rbac_rule ''POST'' ''/tasks'' [RoleWorkspaceAdmin, RoleWorkspaceMember] ScopeSelf ''Principle 1 - Vision First'',
      rbac_rule ''GET'' ''/tasks'' [RoleWorkspaceAdmin, RoleWorkspaceMember] ScopeSelf ''Principle 13 - Observability'',
      rbac_rule ''GET'' ''/tasks/{id}'' [RoleWorkspaceAdmin, RoleWorkspaceMember] ScopeSelf ''Principle 10 - Privacy by Design'',
      rbac_rule ''PATCH'' ''/tasks/{id}'' [RoleWorkspaceAdmin, RoleWorkspaceMember] ScopeSelf ''Principle 4 - Quality Over Speed'',
      rbac_rule ''POST'' ''/tasks/{id}/transition'' [RoleWorkspaceAdmin, RoleWorkspaceMember] ScopeSelf ''Principle 11 - Human Oversight'',
      rbac_rule ''POST'' ''/tasks/{id}/execute'' [RoleWorkspaceAdmin, RoleWorkspaceMember] ScopeSelf ''Principle 1 - Vision First'',
      rbac_rule ''GET'' ''/executions/{id}'' [RoleWorkspaceAdmin, RoleWorkspaceMember] ScopeSelf ''Principle 13 - Observability'',
      rbac_rule ''POST'' ''/executions/{id}/cancel'' [RoleWorkspaceAdmin, RoleWorkspaceMember] ScopeSelf ''Principle 11 - Human Oversight'',
      rbac_rule ''POST'' ''/knowledge'' [RoleWorkspaceAdmin, RoleWorkspaceMember] ScopeSelf ''Principle 1 - Vision First'',
      rbac_rule ''GET'' ''/knowledge'' [RoleWorkspaceAdmin, RoleWorkspaceMember] ScopeSelf ''Principle 13 - Observability'',
      rbac_rule ''GET'' ''/knowledge/{id}'' [RoleWorkspaceAdmin, RoleWorkspaceMember] ScopeSelf ''Principle 10 - Privacy by Design'',
      rbac_rule ''PATCH'' ''/knowledge/{id}'' [RoleWorkspaceAdmin, RoleWorkspaceMember] ScopeSelf ''Principle 4 - Quality Over Speed'',
      rbac_rule ''DELETE'' ''/knowledge/{id}'' [RoleWorkspaceAdmin, RoleWorkspaceMember] ScopeSelf ''Principle 9 - Security by Design'',
      rbac_rule ''POST'' ''/knowledge/search'' [RoleWorkspaceAdmin, RoleWorkspaceMember] ScopeSelf ''Principle 10 - Privacy by Design'',
      rbac_rule ''GET'' ''/memory/{layer}/{key}'' [RoleWorkspaceAdmin, RoleWorkspaceMember] ScopeSelf ''Principle 10 - Privacy by Design'',
      rbac_rule ''PUT'' ''/memory/{layer}/{key}'' [RoleWorkspaceAdmin, RoleWorkspaceMember] ScopeSelf ''Principle 9 - Security by Design'',
      rbac_rule ''POST'' ''/departments'' [RoleWorkspaceAdmin] ScopeSelf ''Principle 5 - Modular Design'',
      rbac_rule ''GET'' ''/departments'' [RoleWorkspaceAdmin, RoleWorkspaceMember] ScopeSelf ''Principle 13 - Observability'',
      rbac_rule ''GET'' ''/departments/{id}'' [RoleWorkspaceAdmin, RoleWorkspaceMember] ScopeSelf ''Principle 10 - Privacy by Design'',
      rbac_rule ''PATCH'' ''/departments/{id}'' [RoleWorkspaceAdmin] ScopeSelf ''Principle 4 - Quality Over Speed'',
      rbac_rule ''DELETE'' ''/departments/{id}'' [RoleWorkspaceAdmin] ScopeSelf ''Principle 9 - Security by Design'',
      rbac_rule ''POST'' ''/teams'' [RoleWorkspaceAdmin] ScopeSelf ''Principle 5 - Modular Design'',
      rbac_rule ''GET'' ''/teams'' [RoleWorkspaceAdmin, RoleWorkspaceMember] ScopeSelf ''Principle 13 - Observability'',
      rbac_rule ''GET'' ''/teams/{id}'' [RoleWorkspaceAdmin, RoleWorkspaceMember] ScopeSelf ''Principle 10 - Privacy by Design'',
      rbac_rule ''PATCH'' ''/teams/{id}'' [RoleWorkspaceAdmin] ScopeSelf ''Principle 4 - Quality Over Speed'',
      rbac_rule ''DELETE'' ''/teams/{id}'' [RoleWorkspaceAdmin] ScopeSelf ''Principle 9 - Security by Design'',
      rbac_rule ''POST'' ''/ai-employees'' [RoleWorkspaceAdmin] ScopeSelf ''Principle 5 - Modular Design'',
      rbac_rule ''GET'' ''/ai-employees'' [RoleWorkspaceAdmin, RoleWorkspaceMember] ScopeSelf ''Principle 13 - Observability'',
      rbac_rule ''GET'' ''/ai-employees/{id}'' [RoleWorkspaceAdmin, RoleWorkspaceMember] ScopeSelf ''Principle 10 - Privacy by Design'',
      rbac_rule ''PATCH'' ''/ai-employees/{id}'' [RoleWorkspaceAdmin] ScopeSelf ''Principle 4 - Quality Over Speed'',
      rbac_rule ''DELETE'' ''/ai-employees/{id}'' [RoleWorkspaceAdmin] ScopeSelf ''Principle 9 - Security by Design'']
     @ publicationRules @ pipelineRules"

definition ImplementedRules :: "Rule list" where
  "ImplementedRules =
     [rbac_rule ''GET'' ''/api/me'' [RoleFounder, RoleWorkspaceAdmin, RoleWorkspaceMember] ScopeNone ''Principle 9 - Security by Design'',
      rbac_rule ''GET'' ''/workspaces'' [RoleFounder] ScopeNone ''Principle 9 - Security by Design'',
      rbac_rule ''POST'' ''/workspaces'' [RoleFounder] ScopeNone ''Principle 5 - Modular Design'',
      rbac_rule ''GET'' ''/workspaces/{id}'' [RoleFounder] ScopeNone ''Principle 10 - Privacy by Design'',
      rbac_rule ''GET'' ''/workspaces/{id}'' [RoleWorkspaceAdmin] ScopePath ''Principle 10 - Privacy by Design'',
      rbac_rule ''GET'' ''/audit/events'' [RoleFounder] ScopeNone ''Principle 11 - Human Oversight'',
      rbac_rule ''GET'' ''/audit/verification'' [RoleFounder] ScopeNone ''Principle 11 - Human Oversight'',
      rbac_rule ''GET'' ''/workspaces/{id}/audit/events'' [RoleFounder] ScopeNone ''Principle 11 - Human Oversight'',
      rbac_rule ''GET'' ''/workspaces/{id}/audit/events'' [RoleWorkspaceAdmin, RoleWorkspaceMember] ScopePath ''Principle 10 - Privacy by Design'',
      rbac_rule ''POST'' ''/tasks'' [RoleWorkspaceAdmin, RoleWorkspaceMember] ScopeSelf ''Principle 1 - Vision First'',
      rbac_rule ''GET'' ''/tasks'' [RoleWorkspaceAdmin, RoleWorkspaceMember] ScopeSelf ''Principle 13 - Observability'',
      rbac_rule ''GET'' ''/tasks/{id}'' [RoleWorkspaceAdmin, RoleWorkspaceMember] ScopeSelf ''Principle 10 - Privacy by Design'',
      rbac_rule ''PATCH'' ''/tasks/{id}'' [RoleWorkspaceAdmin, RoleWorkspaceMember] ScopeSelf ''Principle 4 - Quality Over Speed'',
      rbac_rule ''POST'' ''/tasks/{id}/transition'' [RoleWorkspaceAdmin, RoleWorkspaceMember] ScopeSelf ''Principle 11 - Human Oversight'',
      rbac_rule ''POST'' ''/tasks/{id}/execute'' [RoleWorkspaceAdmin, RoleWorkspaceMember] ScopeSelf ''Principle 1 - Vision First'',
      rbac_rule ''GET'' ''/executions/{id}'' [RoleWorkspaceAdmin, RoleWorkspaceMember] ScopeSelf ''Principle 13 - Observability'',
      rbac_rule ''POST'' ''/executions/{id}/cancel'' [RoleWorkspaceAdmin, RoleWorkspaceMember] ScopeSelf ''Principle 11 - Human Oversight'',
      rbac_rule ''POST'' ''/knowledge'' [RoleWorkspaceAdmin, RoleWorkspaceMember] ScopeSelf ''Principle 1 - Vision First'',
      rbac_rule ''GET'' ''/knowledge'' [RoleWorkspaceAdmin, RoleWorkspaceMember] ScopeSelf ''Principle 13 - Observability'',
      rbac_rule ''GET'' ''/knowledge/{id}'' [RoleWorkspaceAdmin, RoleWorkspaceMember] ScopeSelf ''Principle 10 - Privacy by Design'',
      rbac_rule ''PATCH'' ''/knowledge/{id}'' [RoleWorkspaceAdmin, RoleWorkspaceMember] ScopeSelf ''Principle 4 - Quality Over Speed'',
      rbac_rule ''DELETE'' ''/knowledge/{id}'' [RoleWorkspaceAdmin, RoleWorkspaceMember] ScopeSelf ''Principle 9 - Security by Design'',
      rbac_rule ''POST'' ''/knowledge/search'' [RoleWorkspaceAdmin, RoleWorkspaceMember] ScopeSelf ''Principle 10 - Privacy by Design'',
      rbac_rule ''GET'' ''/memory/{layer}/{key}'' [RoleWorkspaceAdmin, RoleWorkspaceMember] ScopeSelf ''Principle 10 - Privacy by Design'',
      rbac_rule ''PUT'' ''/memory/{layer}/{key}'' [RoleWorkspaceAdmin, RoleWorkspaceMember] ScopeSelf ''Principle 9 - Security by Design'',
      rbac_rule ''POST'' ''/departments'' [RoleWorkspaceAdmin] ScopeSelf ''Principle 5 - Modular Design'',
      rbac_rule ''GET'' ''/departments'' [RoleWorkspaceAdmin, RoleWorkspaceMember] ScopeSelf ''Principle 13 - Observability'',
      rbac_rule ''GET'' ''/departments/{id}'' [RoleWorkspaceAdmin, RoleWorkspaceMember] ScopeSelf ''Principle 10 - Privacy by Design'',
      rbac_rule ''PATCH'' ''/departments/{id}'' [RoleWorkspaceAdmin] ScopeSelf ''Principle 4 - Quality Over Speed'',
      rbac_rule ''DELETE'' ''/departments/{id}'' [RoleWorkspaceAdmin] ScopeSelf ''Principle 9 - Security by Design'',
      rbac_rule ''POST'' ''/teams'' [RoleWorkspaceAdmin] ScopeSelf ''Principle 5 - Modular Design'',
      rbac_rule ''GET'' ''/teams'' [RoleWorkspaceAdmin, RoleWorkspaceMember] ScopeSelf ''Principle 13 - Observability'',
      rbac_rule ''GET'' ''/teams/{id}'' [RoleWorkspaceAdmin, RoleWorkspaceMember] ScopeSelf ''Principle 10 - Privacy by Design'',
      rbac_rule ''PATCH'' ''/teams/{id}'' [RoleWorkspaceAdmin] ScopeSelf ''Principle 4 - Quality Over Speed'',
      rbac_rule ''DELETE'' ''/teams/{id}'' [RoleWorkspaceAdmin] ScopeSelf ''Principle 9 - Security by Design'',
      rbac_rule ''POST'' ''/ai-employees'' [RoleWorkspaceAdmin] ScopeSelf ''Principle 5 - Modular Design'',
      rbac_rule ''GET'' ''/ai-employees'' [RoleWorkspaceAdmin, RoleWorkspaceMember] ScopeSelf ''Principle 13 - Observability'',
      rbac_rule ''GET'' ''/ai-employees/{id}'' [RoleWorkspaceAdmin, RoleWorkspaceMember] ScopeSelf ''Principle 10 - Privacy by Design'',
      rbac_rule ''PATCH'' ''/ai-employees/{id}'' [RoleWorkspaceAdmin] ScopeSelf ''Principle 4 - Quality Over Speed'',
      rbac_rule ''DELETE'' ''/ai-employees/{id}'' [RoleWorkspaceAdmin] ScopeSelf ''Principle 9 - Security by Design'']
     @ publicationRules @ pipelineRules"

definition PermissionsForRole :: "Role \<Rightarrow> (string \<times> string list) list" where
  "PermissionsForRole r =
     (case r of
       RoleFounder \<Rightarrow>
         [(''GET'', [''/api/me'', ''/workspaces'', ''/workspaces/{id}'', ''/audit/events'', ''/audit/verification'', ''/workspaces/{id}/audit/events'']),
          (''POST'', [''/workspaces''])]
     | RoleWorkspaceAdmin \<Rightarrow>
         [(''GET'', [''/api/me'', ''/workspaces/{id}'', ''/workspaces/{id}/audit/events'', ''/tasks'', ''/tasks/{id}'', ''/executions/{id}'', ''/knowledge'', ''/knowledge/{id}'', ''/memory/{layer}/{key}'', ''/publications'', ''/publications/{id}'', ''/pipelines'', ''/pipelines/{id}'', ''/departments'', ''/departments/{id}'', ''/teams'', ''/teams/{id}'', ''/ai-employees'', ''/ai-employees/{id}'']),
          (''POST'', [''/tasks'', ''/tasks/{id}/transition'', ''/tasks/{id}/execute'', ''/executions/{id}/cancel'', ''/knowledge'', ''/knowledge/search'', ''/publications'', ''/publications/{id}/submit'', ''/publications/{id}/approve'', ''/publications/{id}/reject'', ''/publications/{id}/publish'', ''/publications/{id}/retry'', ''/pipelines'', ''/pipelines/{id}/approve'', ''/pipelines/{id}/retry'', ''/departments'', ''/teams'', ''/ai-employees'']),
          (''PATCH'', [''/tasks/{id}'', ''/knowledge/{id}'', ''/departments/{id}'', ''/teams/{id}'', ''/ai-employees/{id}'']),
          (''PUT'', [''/memory/{layer}/{key}'']),
          (''DELETE'', [''/knowledge/{id}'', ''/departments/{id}'', ''/teams/{id}'', ''/ai-employees/{id}''])]
     | RoleWorkspaceMember \<Rightarrow>
         [(''GET'', [''/api/me'', ''/workspaces/{id}/audit/events'', ''/tasks'', ''/tasks/{id}'', ''/executions/{id}'', ''/knowledge'', ''/knowledge/{id}'', ''/memory/{layer}/{key}'', ''/publications'', ''/publications/{id}'', ''/pipelines'', ''/pipelines/{id}'', ''/departments'', ''/departments/{id}'', ''/teams'', ''/teams/{id}'', ''/ai-employees'', ''/ai-employees/{id}'']),
          (''POST'', [''/tasks'', ''/tasks/{id}/transition'', ''/tasks/{id}/execute'', ''/executions/{id}/cancel'', ''/knowledge'', ''/knowledge/search'', ''/publications'', ''/publications/{id}/submit'', ''/pipelines'', ''/pipelines/{id}/retry'']),
          (''PATCH'', [''/tasks/{id}'', ''/knowledge/{id}'']),
          (''PUT'', [''/memory/{layer}/{key}'']),
          (''DELETE'', [''/knowledge/{id}''])]
     | RoleOther _ \<Rightarrow> [])"

subsection \<open>Claims\<close>

record Claims =
  cl_Subject :: string
  cl_ExpiresAt :: instant
  cl_TokenID :: string
  cl_ID :: string
  cl_Role :: Role
  cl_WorkspaceID :: string
  cl_Permissions :: "(string \<times> string list) list"

definition validateClaimsShape :: "Claims \<Rightarrow> bool" where
  "validateClaimsShape claims =
     (if cl_ID claims = [] then False
      else if \<not> ValidRole (cl_Role claims) then False
      else case cl_Role claims of
             RoleFounder \<Rightarrow> cl_WorkspaceID claims = []
           | RoleWorkspaceAdmin \<Rightarrow> cl_WorkspaceID claims \<noteq> []
           | RoleWorkspaceMember \<Rightarrow> cl_WorkspaceID claims \<noteq> []
           | _ \<Rightarrow> True)"

subsection \<open>Enforcement point\<close>

definition slash_trim :: "string \<Rightarrow> string" where
  "slash_trim s = rev (dropWhile (\<lambda>c. c = CHR ''/'') (rev (dropWhile (\<lambda>c. c = CHR ''/'') s)))"

fun slash_split :: "string \<Rightarrow> string \<Rightarrow> string list" where
  "slash_split acc [] = [rev acc]"
| "slash_split acc (c # s) = (if c = CHR ''/'' then rev acc # slash_split [] s else slash_split (c # acc) s)"

definition splitPath :: "string \<Rightarrow> string list" where
  "splitPath p0 = (let p = slash_trim p0 in if p = [] then [] else slash_split [] p)"

definition placeholder :: "string \<Rightarrow> bool" where
  "placeholder segment \<longleftrightarrow> length segment > 2 \<and> take 1 segment = ''{'' \<and> last segment = CHR ''}''"

text \<open>The loop over the segments; \<open>captured\<close> is the first one a placeholder stood for.\<close>

fun match_segments :: "string \<Rightarrow> string list \<Rightarrow> string list \<Rightarrow> string option" where
  "match_segments captured (p # ps) (a # as) =
     (if placeholder p then
        if a = [] then None else match_segments (if captured = [] then a else captured) ps as
      else if p \<noteq> a then None
      else match_segments captured ps as)"
| "match_segments captured _ _ = Some captured"

definition matchResource :: "string \<Rightarrow> string \<Rightarrow> string option" where
  "matchResource pattern actual =
     (let pSegs = splitPath pattern; aSegs = splitPath actual in
      if length pSegs \<noteq> length aSegs then None else match_segments [] pSegs aSegs)"

definition hasRole :: "Role list \<Rightarrow> Role \<Rightarrow> bool" where
  "hasRole roles role = (role \<in> set roles)"

definition hasPermission :: "Claims \<Rightarrow> string \<Rightarrow> string \<Rightarrow> bool" where
  "hasPermission claims action resource =
     (case map_of (cl_Permissions claims) action of
        None \<Rightarrow> False
      | Some perms \<Rightarrow> list_ex (\<lambda>granted. matchResource granted resource \<noteq> None) perms)"

definition inScope :: "WorkspaceScope \<Rightarrow> string \<Rightarrow> string \<Rightarrow> bool" where
  "inScope scope captured claimsWorkspace =
     (case scope of
        ScopeNone \<Rightarrow> True
      | ScopeSelf \<Rightarrow> claimsWorkspace \<noteq> []
      | ScopePath \<Rightarrow> claimsWorkspace \<noteq> [] \<and> captured \<noteq> [] \<and> captured = claimsWorkspace
      | ScopeOther _ \<Rightarrow> False)"

record ruleEntry =
  re_Action :: string
  re_Resource :: string
  re_roles :: "Role list"
  re_scope :: WorkspaceScope

type_synonym Authorizer = "ruleEntry list"

definition AddRule :: "string \<Rightarrow> string \<Rightarrow> WorkspaceScope \<Rightarrow> Role list \<Rightarrow> Authorizer \<Rightarrow> Authorizer" where
  "AddRule action resource scope roles a =
     a @ [\<lparr>re_Action = action, re_Resource = resource, re_roles = roles, re_scope = scope\<rparr>]"

fun AddRules :: "Rule list \<Rightarrow> Authorizer \<Rightarrow> Authorizer" where
  "AddRules [] a = a"
| "AddRules (r # rs) a = AddRules rs (AddRule (ru_Action r) (ru_ResourcePattern r) (ru_Scope r) (ru_Roles r) a)"

text \<open>The loop over the rules; \<open>True\<close> is the nil error, \<open>False\<close> is \<^verbatim>\<open>ErrDenied\<close>.\<close>

fun authorize_loop :: "Claims \<Rightarrow> string \<Rightarrow> string \<Rightarrow> Authorizer \<Rightarrow> bool" where
  "authorize_loop claims action resource [] = False"
| "authorize_loop claims action resource (e # es) =
     (if re_Action e \<noteq> action then authorize_loop claims action resource es
      else case matchResource (re_Resource e) resource of
             None \<Rightarrow> authorize_loop claims action resource es
           | Some captured \<Rightarrow>
               if \<not> hasRole (re_roles e) (cl_Role claims) then authorize_loop claims action resource es
               else if \<not> hasPermission claims action resource then authorize_loop claims action resource es
               else if \<not> inScope (re_scope e) captured (cl_WorkspaceID claims) then authorize_loop claims action resource es
               else True)"

definition AuthorizeClaims :: "Authorizer \<Rightarrow> Claims option \<Rightarrow> string \<Rightarrow> string \<Rightarrow> bool" where
  "AuthorizeClaims a claims action resource =
     (case claims of
        None \<Rightarrow> False
      | Some c \<Rightarrow> if \<not> ValidRole (cl_Role c) then False else authorize_loop c action resource a)"

subsection \<open>What a grant rests on\<close>

lemma AddRules_map:
  "AddRules rs a = a @ map (\<lambda>r. \<lparr>re_Action = ru_Action r, re_Resource = ru_ResourcePattern r, re_roles = ru_Roles r, re_scope = ru_Scope r\<rparr>) rs"
  by (induction rs arbitrary: a) (simp_all add: AddRule_def)

lemma authorize_loop_iff:
  "authorize_loop c action resource es \<longleftrightarrow> hasPermission c action resource \<and>
     (\<exists>e \<in> set es. re_Action e = action \<and> cl_Role c \<in> set (re_roles e) \<and>
        (\<exists>cap. matchResource (re_Resource e) resource = Some cap \<and> inScope (re_scope e) cap (cl_WorkspaceID c)))"
  by (induction es) (auto simp: hasRole_def split: option.splits)

definition grants :: "Claims \<Rightarrow> string \<Rightarrow> string \<Rightarrow> Rule \<Rightarrow> bool" where
  "grants c action resource ru \<longleftrightarrow> ru_Action ru = action \<and> cl_Role c \<in> set (ru_Roles ru) \<and>
     (case matchResource (ru_ResourcePattern ru) resource of
        None \<Rightarrow> False | Some cap \<Rightarrow> inScope (ru_Scope ru) cap (cl_WorkspaceID c))"

lemma AuthorizeClaims_iff:
  "AuthorizeClaims (AddRules rs []) (Some c) action resource \<longleftrightarrow>
     ValidRole (cl_Role c) \<and> hasPermission c action resource \<and> (\<exists>ru \<in> set rs. grants c action resource ru)"
  by (auto simp: AuthorizeClaims_def AddRules_map authorize_loop_iff grants_def split: option.splits)

text \<open>A pattern and a path match segment by segment.\<close>

definition seg_match :: "string \<Rightarrow> string \<Rightarrow> bool" where
  "seg_match p a \<longleftrightarrow> (if placeholder p then a \<noteq> [] else p = a)"

lemma match_segments_all2:
  "match_segments cap ps as = Some c \<Longrightarrow> length ps = length as \<Longrightarrow> list_all2 seg_match ps as"
  by (induction cap ps as rule: match_segments.induct) (auto simp: seg_match_def split: if_splits)

lemma match_segments_captured: "match_segments cap ps as = Some c \<Longrightarrow> cap \<noteq> [] \<Longrightarrow> c = cap"
  by (induction cap ps as rule: match_segments.induct) (auto split: if_splits)

lemma matchResource_all2: "matchResource pat res = Some c \<Longrightarrow> list_all2 seg_match (splitPath pat) (splitPath res)"
  by (auto simp: matchResource_def Let_def split: if_splits dest: match_segments_all2)

lemma matchResource_second:
  assumes "matchResource pat res = Some c" "splitPath res = a # x # as" "splitPath pat = a # q # qs" "\<not> placeholder a" "placeholder q"
  shows "c = x"
  using assms by (auto simp: matchResource_def Let_def split: if_splits dest: match_segments_captured)

subsection \<open>Properties\<close>

text \<open>The grants of a role, as pairs of action and route.\<close>

definition permission_pairs :: "Role \<Rightarrow> (string \<times> string) list" where
  "permission_pairs r = concat (map (\<lambda>(a, ps). map (Pair a) ps) (PermissionsForRole r))"

definition rule_pairs :: "Role \<Rightarrow> (string \<times> string) list" where
  "rule_pairs r = map (\<lambda>ru. (ru_Action ru, ru_ResourcePattern ru)) (filter (\<lambda>ru. hasRole (ru_Roles ru) r) ImplementedRules)"

lemma pairs_check:
  "list_all (\<lambda>r. list_all (\<lambda>x. x \<in> set (rule_pairs r)) (permission_pairs r)
       \<and> list_all (\<lambda>x. x \<in> set (permission_pairs r)) (rule_pairs r) \<and> distinct (map fst (PermissionsForRole r)))
     [RoleFounder, RoleWorkspaceAdmin, RoleWorkspaceMember]"
  by code_simp

lemma valid_role_cases: "ValidRole r \<Longrightarrow> r = RoleFounder \<or> r = RoleWorkspaceAdmin \<or> r = RoleWorkspaceMember"
  by (cases r) (auto simp: ValidRole_def)

lemma pairs_equal:
  assumes "ValidRole r"
  shows "set (permission_pairs r) = set (rule_pairs r)" "distinct (map fst (PermissionsForRole r))"
  using pairs_check valid_role_cases [OF assms] by (auto simp: list_all_iff)

lemma permission_pairs_iff:
  "distinct (map fst (PermissionsForRole r)) \<Longrightarrow>
   (a, p) \<in> set (permission_pairs r) \<longleftrightarrow> (\<exists>ps. map_of (PermissionsForRole r) a = Some ps \<and> p \<in> set ps)"
  by (auto simp: permission_pairs_def map_of_eq_Some_iff)

text \<open>
  The two tables of the role model agree: a role is granted a route in its token exactly
  when a seeded rule allows the role on that route.
\<close>

theorem permissions_match_rules:
  assumes "ValidRole r"
  shows "(\<exists>ps. map_of (PermissionsForRole r) action = Some ps \<and> pattern \<in> set ps) \<longleftrightarrow>
    (\<exists>ru \<in> set ImplementedRules. ru_Action ru = action \<and> ru_ResourcePattern ru = pattern \<and> r \<in> set (ru_Roles ru))"
  using permission_pairs_iff [OF pairs_equal(2) [OF assms], of action pattern] pairs_equal(1) [OF assms]
  by (auto simp: rule_pairs_def hasRole_def)

theorem permissions_match_rules_witness:
  "\<not> (\<exists>ru \<in> set ImplementedRules. ru_Action ru = ''POST'' \<and> ru_ResourcePattern ru = ''/publications/{id}/approve''
      \<and> RoleWorkspaceMember \<in> set (ru_Roles ru))"
proof -
  have "map_option (\<lambda>ps. ''/publications/{id}/approve'' \<in> set ps) (map_of (PermissionsForRole RoleWorkspaceMember) ''POST'')
      = Some False" by code_simp
  then have "\<not> (\<exists>ps. map_of (PermissionsForRole RoleWorkspaceMember) ''POST'' = Some ps \<and> ''/publications/{id}/approve'' \<in> set ps)"
    by auto
  with permissions_match_rules [of RoleWorkspaceMember "''POST''" "''/publications/{id}/approve''"] show ?thesis
    by (simp add: ValidRole_def)
qed

lemma minted_hasPermission:
  assumes "ValidRole (cl_Role c)" "cl_Permissions c = PermissionsForRole (cl_Role c)" "ru \<in> set ImplementedRules" "grants c action resource ru"
  shows "hasPermission c action resource"
proof -
  have "(action, ru_ResourcePattern ru) \<in> set (rule_pairs (cl_Role c))"
    using assms(3,4) by (auto simp: rule_pairs_def grants_def hasRole_def)
  then obtain ps where "map_of (PermissionsForRole (cl_Role c)) action = Some ps" "ru_ResourcePattern ru \<in> set ps"
    using permission_pairs_iff [OF pairs_equal(2) [OF assms(1)]] pairs_equal(1) [OF assms(1)] by blast
  moreover have "matchResource (ru_ResourcePattern ru) resource \<noteq> None"
    using assms(4) by (auto simp: grants_def split: option.splits)
  ultimately show ?thesis
    using assms(2) by (auto simp: hasPermission_def list_ex_iff)
qed

text \<open>
  The decision on a token as the service mints it is the declarative one: a request is
  granted exactly when one of the seeded rules names the action, matches the path, allows
  the role and is satisfied by the workspace of the claims. The order of the rules and the
  permissions of the token play no part.
\<close>

theorem minted_token_decision:
  assumes "cl_Permissions c = PermissionsForRole (cl_Role c)"
  shows "AuthorizeClaims (AddRules ImplementedRules []) (Some c) action resource \<longleftrightarrow>
    ValidRole (cl_Role c) \<and> (\<exists>ru \<in> set ImplementedRules. grants c action resource ru)"
  using minted_hasPermission [OF _ assms] by (auto simp: AuthorizeClaims_iff)

definition demo_claims :: "Role \<Rightarrow> string \<Rightarrow> Claims" where
  "demo_claims r ws = \<lparr>cl_Subject = ''ann'', cl_ExpiresAt = 0, cl_TokenID = ''t'', cl_ID = ''ann'', cl_Role = r, cl_WorkspaceID = ws,
     cl_Permissions = PermissionsForRole r\<rparr>"

theorem minted_token_decision_witness:
  "AuthorizeClaims (AddRules ImplementedRules []) (Some (demo_claims RoleWorkspaceAdmin ''w1'')) ''GET'' ''/workspaces/w1''
   \<and> \<not> (\<exists>ru \<in> set ImplementedRules. grants (demo_claims RoleWorkspaceAdmin ''w1'') ''GET'' ''/workspaces/w2'' ru)"
proof -
  have "AuthorizeClaims (AddRules ImplementedRules []) (Some (demo_claims RoleWorkspaceAdmin ''w1'')) ''GET'' ''/workspaces/w1''
      \<and> \<not> AuthorizeClaims (AddRules ImplementedRules []) (Some (demo_claims RoleWorkspaceAdmin ''w1'')) ''GET'' ''/workspaces/w2''"
    by code_simp
  with minted_token_decision [of "demo_claims RoleWorkspaceAdmin ''w1''" "''GET''" "''/workspaces/w2''"] show ?thesis
    by (simp add: demo_claims_def ValidRole_def)
qed

text \<open>
  How a rule for a role other than the founder's binds the workspace: its routes begin with
  a fixed segment; below \<^verbatim>\<open>/workspaces\<close> the next segment is the workspace it compares.
\<close>

definition tenant_bound :: "Rule \<Rightarrow> bool" where
  "tenant_bound ru \<longleftrightarrow>
     (hasRole (ru_Roles ru) RoleWorkspaceAdmin \<or> hasRole (ru_Roles ru) RoleWorkspaceMember \<longrightarrow>
        (ru_Scope ru = ScopeNone \<longrightarrow> ru_ResourcePattern ru = ''/api/me'' \<and> ru_Action ru = ''GET'') \<and>
        (case splitPath (ru_ResourcePattern ru) of
           p # qs \<Rightarrow> \<not> placeholder p \<and> (p = ''workspaces'' \<longrightarrow> ru_Scope ru = ScopePath \<and> (case qs of q # _ \<Rightarrow> placeholder q | [] \<Rightarrow> False))
         | [] \<Rightarrow> False))"

lemma rules_tenant_bound: "list_all tenant_bound ImplementedRules"
  by code_simp

text \<open>
  C17. Tenants are isolated. Whatever permissions its token claims, a principal other than the
  founder is granted a request only when its claims name a workspace or it reads its own
  profile, and a granted path below \<^verbatim>\<open>/workspaces\<close> names the very workspace of the claims.
\<close>

theorem tenant_isolation:
  assumes "AuthorizeClaims (AddRules ImplementedRules []) (Some c) action resource" "cl_Role c \<noteq> RoleFounder"
  shows "(cl_WorkspaceID c \<noteq> [] \<or> (action = ''GET'' \<and> splitPath resource = [''api'', ''me'']))
    \<and> (\<forall>segs. splitPath resource = ''workspaces'' # segs \<longrightarrow> (\<exists>rest. segs = cl_WorkspaceID c # rest))"
proof -
  from assms obtain ru where ru: "ru \<in> set ImplementedRules" "grants c action resource ru" and v: "ValidRole (cl_Role c)"
    by (auto simp: AuthorizeClaims_iff)
  then obtain cap where cap: "matchResource (ru_ResourcePattern ru) resource = Some cap" "inScope (ru_Scope ru) cap (cl_WorkspaceID c)"
    and role: "cl_Role c \<in> set (ru_Roles ru)" and act: "ru_Action ru = action"
    by (auto simp: grants_def split: option.splits)
  have "tenant_bound ru" using rules_tenant_bound ru(1) by (auto simp: list_all_iff)
  then have b: "ru_Scope ru = ScopeNone \<Longrightarrow> ru_ResourcePattern ru = ''/api/me'' \<and> action = ''GET''"
    and pat: "case splitPath (ru_ResourcePattern ru) of
           p # qs \<Rightarrow> \<not> placeholder p \<and> (p = ''workspaces'' \<longrightarrow> ru_Scope ru = ScopePath \<and> (case qs of q # _ \<Rightarrow> placeholder q | [] \<Rightarrow> False))
         | [] \<Rightarrow> False"
    using role act valid_role_cases [OF v] assms(2) by (auto simp: tenant_bound_def hasRole_def)
  note m = matchResource_all2 [OF cap(1)]
  have "cl_WorkspaceID c \<noteq> [] \<or> (action = ''GET'' \<and> splitPath resource = [''api'', ''me''])"
  proof (cases "ru_Scope ru = ScopeNone")
    case True
    have "splitPath ''/api/me'' = [''api'', ''me''] \<and> \<not> placeholder ''api'' \<and> \<not> placeholder ''me''" by code_simp
    with m b [OF True] show ?thesis by (auto simp: list_all2_Cons1 seg_match_def)
  next
    case False
    with cap(2) show ?thesis by (auto simp: inScope_def split: WorkspaceScope.splits)
  qed
  moreover have "\<exists>rest. segs = cl_WorkspaceID c # rest" if segs: "splitPath resource = ''workspaces'' # segs" for segs
  proof -
    from m segs obtain p qs where p: "splitPath (ru_ResourcePattern ru) = p # qs" "seg_match p ''workspaces''" "list_all2 seg_match qs segs"
      by (auto simp: list_all2_Cons2)
    with pat have pw: "p = ''workspaces''" "\<not> placeholder p" by (auto simp: seg_match_def)
    with pat p(1) obtain q qs' where q: "qs = q # qs'" "placeholder q" "ru_Scope ru = ScopePath"
      by (auto split: list.splits)
    with p(3) obtain x rest where x: "segs = x # rest" by (auto simp: list_all2_Cons1)
    have "cap = x"
      by (rule matchResource_second [OF cap(1) segs [unfolded x], of q qs']) (use p q pw in simp_all)
    with cap(2) q(3) x show ?thesis by (auto simp: inScope_def)
  qed
  ultimately show ?thesis by blast
qed

theorem tenant_isolation_witness:
  "\<exists>rest. splitPath ''/workspaces/w1/audit/events'' = ''workspaces'' # ''w1'' # rest"
proof -
  have "AuthorizeClaims (AddRules ImplementedRules []) (Some (demo_claims RoleWorkspaceMember ''w1'')) ''GET'' ''/workspaces/w1/audit/events''
      \<and> splitPath ''/workspaces/w1/audit/events'' = ''workspaces'' # [''w1'', ''audit'', ''events'']"
    by code_simp
  with tenant_isolation [of "demo_claims RoleWorkspaceMember ''w1''" "''GET''" "''/workspaces/w1/audit/events''"] show ?thesis
    by (simp add: demo_claims_def)
qed

text \<open>The decisions reserved to a human with authority over the workspace.\<close>

definition human_decision :: "string \<Rightarrow> string list \<Rightarrow> bool" where
  "human_decision action segs \<longleftrightarrow>
     (action = ''POST'' \<and> (case segs of
        [r, _, d] \<Rightarrow> (r = ''publications'' \<and> d \<in> set [''approve'', ''reject'', ''publish'', ''retry'']) \<or> (r = ''pipelines'' \<and> d = ''approve'')
      | _ \<Rightarrow> False))
     \<or> ((action = ''POST'' \<or> action = ''PATCH'' \<or> action = ''DELETE'') \<and> (case segs of
        r # _ \<Rightarrow> r \<in> set [''departments'', ''teams'', ''ai-employees''] | [] \<Rightarrow> False))"

text \<open>A pattern that could match a path of a human decision.\<close>

definition reserved :: "Rule \<Rightarrow> bool" where
  "reserved ru \<longleftrightarrow>
     (case splitPath (ru_ResourcePattern ru) of
        p # qs \<Rightarrow> \<not> placeholder p
          \<and> (human_decision (ru_Action ru) (p # qs) \<longrightarrow> ru_Roles ru = [RoleWorkspaceAdmin])
          \<and> (p \<in> set [''publications'', ''pipelines''] \<longrightarrow> list_all (\<lambda>q. \<not> placeholder q) (drop 1 qs))
      | [] \<Rightarrow> False)"

lemma rules_reserved: "list_all reserved ImplementedRules"
  by code_simp

lemma human_decision_iff:
  "human_decision action (p # as) \<longleftrightarrow>
     (action = ''POST'' \<and> (\<exists>x d. as = [x, d] \<and> (p = ''publications'' \<and> d \<in> set [''approve'', ''reject'', ''publish'', ''retry'']
        \<or> p = ''pipelines'' \<and> d = ''approve'')))
     \<or> ((action = ''POST'' \<or> action = ''PATCH'' \<or> action = ''DELETE'') \<and> p \<in> set [''departments'', ''teams'', ''ai-employees''])"
proof -
  have c: "(case p # as of [r, _, d] \<Rightarrow> Q r d | _ \<Rightarrow> False) \<longleftrightarrow> (\<exists>x d. as = [x, d] \<and> Q p d)" for Q :: "string \<Rightarrow> string \<Rightarrow> bool"
    by (cases as; cases "tl as"; cases "tl (tl as)") auto
  show ?thesis
    unfolding human_decision_def
      c [of "\<lambda>r d. (r = ''publications'' \<and> d \<in> set [''approve'', ''reject'', ''publish'', ''retry'']) \<or> (r = ''pipelines'' \<and> d = ''approve'')"]
    by (simp only: list.case)
qed

lemma human_decision_pattern:
  assumes "human_decision action (p # as)" "list_all2 seg_match qs as"
    and "p = ''publications'' \<or> p = ''pipelines'' \<longrightarrow> list_all (\<lambda>q. \<not> placeholder q) (drop 1 qs)"
  shows "human_decision action (p # qs)"
  using assms(1) unfolding human_decision_iff
proof (elim disjE conjE exE)
  fix x d assume as: "action = ''POST''" "as = [x, d]" "p = ''publications''" "d \<in> set [''approve'', ''reject'', ''publish'', ''retry'']"
  obtain q d' where qs: "qs = [q, d']" "seg_match d' d" using assms(2) as(2) by (auto simp: list_all2_Cons2)
  then have "d' = d" using assms(3) as(3) by (simp add: seg_match_def)
  then show "action = ''POST'' \<and> (\<exists>x d. qs = [x, d] \<and> (p = ''publications'' \<and> d \<in> set [''approve'', ''reject'', ''publish'', ''retry'']
        \<or> p = ''pipelines'' \<and> d = ''approve''))
     \<or> (action = ''POST'' \<or> action = ''PATCH'' \<or> action = ''DELETE'') \<and> p \<in> set [''departments'', ''teams'', ''ai-employees'']"
    using as qs(1) by blast
next
  fix x d assume as: "action = ''POST''" "as = [x, d]" "p = ''pipelines''" "d = ''approve''"
  obtain q d' where qs: "qs = [q, d']" "seg_match d' d" using assms(2) as(2) by (auto simp: list_all2_Cons2)
  then have "d' = d" using assms(3) as(3) by (simp add: seg_match_def)
  then show "action = ''POST'' \<and> (\<exists>x d. qs = [x, d] \<and> (p = ''publications'' \<and> d \<in> set [''approve'', ''reject'', ''publish'', ''retry'']
        \<or> p = ''pipelines'' \<and> d = ''approve''))
     \<or> (action = ''POST'' \<or> action = ''PATCH'' \<or> action = ''DELETE'') \<and> p \<in> set [''departments'', ''teams'', ''ai-employees'']"
    using as qs(1) by blast
qed blast+

text \<open>
  Decisions are reserved. Approving, rejecting, publishing or retrying a publication,
  approving a pipeline and changing the organisation is granted to workspace admins only,
  whatever permissions the token claims.
\<close>

theorem human_decisions_reserved:
  assumes "AuthorizeClaims (AddRules ImplementedRules []) (Some c) action resource" "human_decision action (splitPath resource)"
  shows "cl_Role c = RoleWorkspaceAdmin"
proof -
  from assms(1) obtain ru cap where ru: "ru \<in> set ImplementedRules" "ru_Action ru = action" "cl_Role c \<in> set (ru_Roles ru)"
    "matchResource (ru_ResourcePattern ru) resource = Some cap"
    by (auto simp: AuthorizeClaims_iff grants_def split: option.splits)
  have "reserved ru" using rules_reserved ru(1) by (auto simp: list_all_iff)
  then obtain p qs where p: "splitPath (ru_ResourcePattern ru) = p # qs" "\<not> placeholder p"
      "human_decision action (p # qs) \<longrightarrow> ru_Roles ru = [RoleWorkspaceAdmin]"
      "p = ''publications'' \<or> p = ''pipelines'' \<longrightarrow> list_all (\<lambda>q. \<not> placeholder q) (drop 1 qs)"
    using ru(2) by (auto simp: reserved_def split: list.splits)
  from matchResource_all2 [OF ru(4)] p(1) obtain as where as: "splitPath resource = p # as" "list_all2 seg_match qs as"
    using p(2) by (auto simp: list_all2_Cons1 seg_match_def)
  have "human_decision action (p # qs)"
    by (rule human_decision_pattern [OF assms(2) [unfolded as(1)] as(2) p(4)])
  with p(3) ru(3) show ?thesis by simp
qed

theorem human_decisions_reserved_witness:
  "cl_Role (demo_claims RoleWorkspaceAdmin ''w1'') = RoleWorkspaceAdmin
   \<and> \<not> AuthorizeClaims (AddRules ImplementedRules []) (Some (demo_claims RoleWorkspaceMember ''w1'')) ''POST'' ''/pipelines/7/approve''"
proof -
  have g: "AuthorizeClaims (AddRules ImplementedRules []) (Some (demo_claims RoleWorkspaceAdmin ''w1'')) ''POST'' ''/pipelines/7/approve''
      \<and> human_decision ''POST'' (splitPath ''/pipelines/7/approve'')" by code_simp
  then show ?thesis
    using human_decisions_reserved [of "demo_claims RoleWorkspaceAdmin ''w1''" "''POST''" "''/pipelines/7/approve''"]
      human_decisions_reserved [of "demo_claims RoleWorkspaceMember ''w1''" "''POST''" "''/pipelines/7/approve''"]
    by (auto simp: demo_claims_def)
qed

text \<open>The audit routes are missing from the declared contract, although the server seeds rules for them.\<close>

lemma declared_contract_incomplete:
  "list_ex (\<lambda>ru. ru_ResourcePattern ru = ''/audit/events'') ImplementedRules
   \<and> \<not> list_ex (\<lambda>ru. ru_ResourcePattern ru = ''/audit/events'') rbac_Rules"
  by code_simp

end
