(* ===== verification/Auth_Tokens.thy ===== *)
theory Auth_Tokens
  imports Access_Control Rate_Limits
begin

text \<open>
  Identities and sessions: the user records and their stores (\<^verbatim>\<open>internal/auth/users.go\<close>,
  \<^verbatim>\<open>infrastructure/postgres/users.go\<close>), the refresh-token store and the JWT service with
  rotation and reuse detection (\<^verbatim>\<open>internal/auth/auth.go\<close>).

  The JWT library, SHA-256 and UUID parsing are parameters. A Go map is an association list
  with distinct keys, and \<open>ranged\<close> is the order in which a \<^verbatim>\<open>range\<close> visits it. Signing
  with an HMAC key does not fail.
\<close>

datatype auth_error =
    ErrInvalidToken
  | ErrRefreshTokenReused \<comment> \<open>wraps \<open>ErrInvalidToken\<close> as well\<close>
  | ErrUserNotFound | ErrUserExists
  | ErrTokenHashRequired
  | ErrParse string \<comment> \<open>an error of a parser or of the database, by its text\<close>

subsection \<open>Identities\<close>

record UserRecord =
  ur_ID :: string
  ur_Username :: string
  ur_DisplayName :: string
  ur_Email :: string
  ur_IsFounder :: bool
  ur_Role :: Role
  ur_WorkspaceID :: string
  ur_PasswordHash :: string
  ur_CreatedAt :: instant
  ur_UpdatedAt :: instant

definition RoleFor :: "UserRecord option \<Rightarrow> Role" where
  "RoleFor u =
     (case u of
        None \<Rightarrow> RoleOther []
      | Some u \<Rightarrow>
          if ur_IsFounder u then RoleFounder
          else if ur_Role u = RoleOther [] \<or> \<not> ValidRole (ur_Role u) then RoleWorkspaceMember
          else ur_Role u)"

text \<open>The PostgreSQL store: the constraints of the table, then the row.\<close>

definition user_check :: "UserRecord \<Rightarrow> bool" where
  "user_check u \<longleftrightarrow> ValidRole (ur_Role u) \<and> ur_IsFounder u = (ur_Role u = RoleFounder)
     \<and> (\<not> ur_IsFounder u \<or> ur_WorkspaceID u = []) \<and> (ur_IsFounder u \<or> ur_WorkspaceID u \<noteq> [])"

definition UserStore_Create ::
  "(string \<Rightarrow> uuid option) \<Rightarrow> (uuid \<Rightarrow> string) \<Rightarrow> instant \<Rightarrow> uuid \<Rightarrow> UserRecord \<Rightarrow> UserRecord list \<Rightarrow>
   (auth_error, UserRecord list \<times> UserRecord) result" where
  "UserStore_Create parse us_of now gen u0 us =
     (let role = RoleFor (Some u0);
          u = (if role = RoleFounder then u0\<lparr>ur_WorkspaceID := []\<rparr> else u0)
      in case (if ur_WorkspaceID u \<noteq> [] then map_option Some (parse (ur_WorkspaceID u)) else Some None) of
           None \<Rightarrow> Inl (ErrParse ''invalid UUID'')
         | Some ws \<Rightarrow>
             let row = u\<lparr>ur_ID := us_of gen, ur_Role := role, ur_WorkspaceID := (case ws of None \<Rightarrow> [] | Some w \<Rightarrow> us_of w),
                         ur_CreatedAt := now, ur_UpdatedAt := now\<rparr>
             in if \<not> user_check row \<or> (\<exists>v \<in> set us. ur_Username v = ur_Username u \<or> (ur_IsFounder v \<and> ur_IsFounder u))
                then Inl ErrUserExists
                else if \<exists>v \<in> set us. ur_ID v = us_of gen then Inl ErrUserExists
                else Inr (us @ [row], u\<lparr>ur_ID := us_of gen, ur_CreatedAt := now, ur_UpdatedAt := now, ur_Role := role\<rparr>))"

definition UserStore_ByUsername :: "string \<Rightarrow> UserRecord list \<Rightarrow> (auth_error, UserRecord) result" where
  "UserStore_ByUsername name us = (case find (\<lambda>u. ur_Username u = name) us of None \<Rightarrow> Inl ErrUserNotFound | Some u \<Rightarrow> Inr u)"

definition UserStore_ByID ::
  "(string \<Rightarrow> uuid option) \<Rightarrow> (uuid \<Rightarrow> string) \<Rightarrow> string \<Rightarrow> UserRecord list \<Rightarrow> (auth_error, UserRecord) result" where
  "UserStore_ByID parse us_of i us =
     (case parse i of
        None \<Rightarrow> Inl ErrUserNotFound
      | Some uid \<Rightarrow> (case find (\<lambda>u. ur_ID u = us_of uid) us of None \<Rightarrow> Inl ErrUserNotFound | Some u \<Rightarrow> Inr u))"

subsection \<open>The refresh-token store\<close>

record StoredRefreshToken =
  rt_ID :: string
  rt_FamilyID :: string
  rt_UserID :: string
  rt_TokenHash :: string
  rt_CreatedAt :: instant
  rt_ExpiresAt :: instant
  rt_Revoked :: bool
  rt_Used :: bool

type_synonym refresh_store = "(string \<times> StoredRefreshToken) list"

definition maxRefreshTokenRecords :: nat where "maxRefreshTokenRecords = 2 ^ 16"
definition refreshEvictBatch :: nat where "refreshEvictBatch = 2 ^ 12"
definition refreshSweepThreshold :: nat where "refreshSweepThreshold = maxRefreshTokenRecords - refreshEvictBatch"

definition evictExpiredLocked :: "instant \<Rightarrow> refresh_store \<Rightarrow> refresh_store" where
  "evictExpiredLocked now m = filter (\<lambda>(h, rt). \<not> now > rt_ExpiresAt rt) m"

fun evict_scan :: "nat \<Rightarrow> (string \<times> instant) list \<Rightarrow> refresh_store \<Rightarrow> (string \<times> instant) list" where
  "evict_scan n oldest [] = oldest"
| "evict_scan n oldest ((h, rt) # entries) =
     (if length oldest < n then evict_scan n (oldest @ [(h, rt_CreatedAt rt)]) entries
      else let newest = newest_index oldest 0 1
           in if rt_CreatedAt rt < snd (oldest ! newest)
              then evict_scan n (oldest[newest := (h, rt_CreatedAt rt)]) entries
              else evict_scan n oldest entries)"

definition evictOldestLocked :: "(refresh_store \<Rightarrow> refresh_store) \<Rightarrow> nat \<Rightarrow> refresh_store \<Rightarrow> refresh_store" where
  "evictOldestLocked ranged n m =
     (if n = 0 \<or> m = [] then m
      else let oldest = evict_scan n [] (ranged m) in filter (\<lambda>(h, rt). h \<notin> fst ` set oldest) m)"

definition refresh_Save :: "(refresh_store \<Rightarrow> refresh_store) \<Rightarrow> instant \<Rightarrow> StoredRefreshToken \<Rightarrow> refresh_store \<Rightarrow> (auth_error, refresh_store) result" where
  "refresh_Save ranged now rt m =
     (if rt_TokenHash rt = [] then Inl ErrTokenHashRequired
      else let m1 = (if map_of m (rt_TokenHash rt) = None \<and> length m \<ge> refreshSweepThreshold
                     then let m' = evictExpiredLocked now m
                          in if length m' \<ge> refreshSweepThreshold then evictOldestLocked ranged refreshEvictBatch m' else m'
                     else m)
           in Inr (AList.update (rt_TokenHash rt) rt m1))"

definition refresh_Get :: "string \<Rightarrow> refresh_store \<Rightarrow> (auth_error, StoredRefreshToken) result" where
  "refresh_Get h m = (case map_of m h of None \<Rightarrow> Inl ErrInvalidToken | Some rt \<Rightarrow> Inr rt)"

definition refresh_Revoke :: "string \<Rightarrow> refresh_store \<Rightarrow> refresh_store" where
  "refresh_Revoke h m = map (\<lambda>(k, rt). (k, if k = h then rt\<lparr>rt_Revoked := True\<rparr> else rt)) m"

definition refresh_RevokeFamily :: "string \<Rightarrow> refresh_store \<Rightarrow> refresh_store" where
  "refresh_RevokeFamily fam m =
     (if fam = [] then m else map (\<lambda>(k, rt). (k, if rt_FamilyID rt = fam then rt\<lparr>rt_Revoked := True\<rparr> else rt)) m)"

subsection \<open>The JWT service\<close>

text \<open>The library: signing claims with a key, and parsing a token at a time, which checks signature, issuer, audience and expiry.\<close>

record jwt_lib =
  jl_sign :: "string \<Rightarrow> Claims \<Rightarrow> string"
  jl_parse :: "string \<Rightarrow> instant \<Rightarrow> string \<Rightarrow> (string, Claims) result"
  jl_sha256hex :: "string \<Rightarrow> string"
  jl_ranged :: "refresh_store \<Rightarrow> refresh_store"

record JWTService =
  js_secret :: string
  js_refreshSecret :: string
  js_refreshStore :: refresh_store

definition refreshTokenTTL :: duration where
  "refreshTokenTTL = 30 * 24 * 60 * minute"

definition hashToken :: "jwt_lib \<Rightarrow> string \<Rightarrow> string" where
  "hashToken lib token = jl_sha256hex lib token"

definition access_claims :: "instant \<Rightarrow> string \<Rightarrow> string \<Rightarrow> string \<Rightarrow> Role \<Rightarrow> (string \<times> string list) list \<Rightarrow> Claims" where
  "access_claims now tokenID userID ws role perms =
     \<lparr>cl_Subject = userID, cl_ExpiresAt = now + 15 * minute, cl_TokenID = tokenID, cl_ID = userID, cl_Role = role,
      cl_WorkspaceID = ws, cl_Permissions = perms\<rparr>"

definition GenerateAccessTokenWithPermissions ::
  "jwt_lib \<Rightarrow> instant \<Rightarrow> string \<Rightarrow> string \<Rightarrow> string \<Rightarrow> Role \<Rightarrow> (string \<times> string list) list \<Rightarrow> JWTService \<Rightarrow> string" where
  "GenerateAccessTokenWithPermissions lib now tokenID userID ws role perms s =
     jl_sign lib (js_secret s) (access_claims now tokenID userID ws role perms)"

definition refresh_claims :: "instant \<Rightarrow> string \<Rightarrow> string \<Rightarrow> Claims" where
  "refresh_claims now tokenID userID =
     \<lparr>cl_Subject = userID, cl_ExpiresAt = now + refreshTokenTTL, cl_TokenID = tokenID, cl_ID = userID, cl_Role = RoleOther [],
      cl_WorkspaceID = [], cl_Permissions = []\<rparr>"

definition issueRefreshToken ::
  "jwt_lib \<Rightarrow> string \<Rightarrow> string \<Rightarrow> string \<Rightarrow> instant \<Rightarrow> JWTService \<Rightarrow> (auth_error, string \<times> JWTService) result" where
  "issueRefreshToken lib userID tokenID familyID now s =
     (let tok = jl_sign lib (js_refreshSecret s) (refresh_claims now tokenID userID);
          rt = \<lparr>rt_ID = tokenID, rt_FamilyID = familyID, rt_UserID = userID, rt_TokenHash = hashToken lib tok,
                rt_CreatedAt = now, rt_ExpiresAt = now + refreshTokenTTL, rt_Revoked = False, rt_Used = False\<rparr>
      in case refresh_Save (jl_ranged lib) now rt (js_refreshStore s) of
           Inl e \<Rightarrow> Inl e
         | Inr m \<Rightarrow> Inr (tok, s\<lparr>js_refreshStore := m\<rparr>))"

definition IssueRefreshToken :: "jwt_lib \<Rightarrow> instant \<Rightarrow> string \<Rightarrow> string \<Rightarrow> JWTService \<Rightarrow> (auth_error, string \<times> JWTService) result" where
  "IssueRefreshToken lib now rawID userID s = issueRefreshToken lib userID rawID rawID now s"

text \<open>
  \<^verbatim>\<open>Refresh\<close> reads the record in one critical section and writes it in another, so it is two
  functions: the check, and the rotation of the record the check returned.
\<close>

definition Refresh_check :: "jwt_lib \<Rightarrow> instant \<Rightarrow> string \<Rightarrow> JWTService \<Rightarrow> (auth_error, Claims \<times> StoredRefreshToken) result \<times> JWTService" where
  "Refresh_check lib now token s =
     (case jl_parse lib (js_refreshSecret s) now token of
        Inl e \<Rightarrow> (Inl (ErrParse e), s)
      | Inr claims \<Rightarrow>
          (case refresh_Get (hashToken lib token) (js_refreshStore s) of
             Inl _ \<Rightarrow> (Inl ErrInvalidToken, s)
           | Inr rt \<Rightarrow>
               if rt_Used rt \<or> rt_Revoked rt
               then (Inl ErrRefreshTokenReused,
                     if rt_Used rt then s\<lparr>js_refreshStore := refresh_RevokeFamily (rt_FamilyID rt) (js_refreshStore s)\<rparr> else s)
               else if now > rt_ExpiresAt rt then (Inl ErrInvalidToken, s)
               else (Inr (claims, rt), s)))"

definition Refresh_rotate ::
  "jwt_lib \<Rightarrow> instant \<Rightarrow> string \<Rightarrow> Claims \<Rightarrow> StoredRefreshToken \<Rightarrow> JWTService \<Rightarrow> (auth_error, string) result \<times> JWTService" where
  "Refresh_rotate lib now newID claims rt s =
     (case refresh_Save (jl_ranged lib) now (rt\<lparr>rt_Used := True, rt_Revoked := True\<rparr>) (js_refreshStore s) of
        Inl e \<Rightarrow> (Inl e, s)
      | Inr m \<Rightarrow>
          (case issueRefreshToken lib (cl_ID claims) newID (if rt_FamilyID rt = [] then rt_ID rt else rt_FamilyID rt) now
                  (s\<lparr>js_refreshStore := m\<rparr>) of
             Inl e \<Rightarrow> (Inl e, s\<lparr>js_refreshStore := m\<rparr>)
           | Inr (tok, s') \<Rightarrow> (Inr tok, s')))"

definition Refresh :: "jwt_lib \<Rightarrow> instant \<Rightarrow> string \<Rightarrow> string \<Rightarrow> JWTService \<Rightarrow> (auth_error, string) result \<times> JWTService" where
  "Refresh lib now newID token s =
     (case Refresh_check lib now token s of
        (Inl e, s1) \<Rightarrow> (Inl e, s1)
      | (Inr (claims, rt), s1) \<Rightarrow> Refresh_rotate lib now newID claims rt s1)"

definition VerifyRefreshToken :: "jwt_lib \<Rightarrow> instant \<Rightarrow> string \<Rightarrow> JWTService \<Rightarrow> bool" where
  "VerifyRefreshToken lib now token s =
     (case refresh_Get (hashToken lib token) (js_refreshStore s) of
        Inl _ \<Rightarrow> False
      | Inr rt \<Rightarrow> \<not> rt_Revoked rt \<and> \<not> rt_Used rt \<and> now < rt_ExpiresAt rt)"

definition SubjectFromRefreshToken :: "jwt_lib \<Rightarrow> instant \<Rightarrow> string \<Rightarrow> JWTService \<Rightarrow> (auth_error, string) result" where
  "SubjectFromRefreshToken lib now token s =
     (case jl_parse lib (js_refreshSecret s) now token of
        Inl e \<Rightarrow> Inl (ErrParse e)
      | Inr claims \<Rightarrow> if cl_Subject claims = [] then Inl ErrInvalidToken else Inr (cl_Subject claims))"

definition RevokeRefreshToken :: "jwt_lib \<Rightarrow> string \<Rightarrow> JWTService \<Rightarrow> JWTService" where
  "RevokeRefreshToken lib token s = s\<lparr>js_refreshStore := refresh_Revoke (hashToken lib token) (js_refreshStore s)\<rparr>"

definition VerifyAccessToken :: "jwt_lib \<Rightarrow> instant \<Rightarrow> string \<Rightarrow> JWTService \<Rightarrow> (auth_error, Claims) result" where
  "VerifyAccessToken lib now token s =
     (case jl_parse lib (js_secret s) now token of
        Inl e \<Rightarrow> Inl (ErrParse e)
      | Inr claims \<Rightarrow> if validateClaimsShape claims then Inr claims else Inl ErrInvalidToken)"

definition BearerClaims :: "string \<Rightarrow> (string \<Rightarrow> (auth_error, Claims) result) \<Rightarrow> Claims option" where
  "BearerClaims bearer verify =
     (let token = TrimSpace bearer in
      if take 7 token \<noteq> ''Bearer '' then None
      else let raw = TrimSpace (drop 7 token) in
           if raw = [] then None
           else case verify raw of Inl _ \<Rightarrow> None | Inr claims \<Rightarrow> Some claims)"

subsection \<open>Sessions as a state machine\<close>

text \<open>
  \<open>aw_issued\<close> holds the hashes of all tokens ever issued, \<open>aw_families\<close> the families ever
  started and \<open>aw_consumed\<close> the tokens that were exchanged. A new token identifier is a
  fresh UUID: neither its hash nor, at a login, its family was there before.
\<close>

record auth_world =
  aw_service :: JWTService
  aw_issued :: "string set"
  aw_families :: "string set"
  aw_consumed :: "string set"

inductive auth_step :: "jwt_lib \<Rightarrow> auth_world \<Rightarrow> auth_world \<Rightarrow> bool" for lib where
  auth_login:
    "IssueRefreshToken lib now rawID userID (aw_service w) = Inr (tok, s) \<Longrightarrow> hashToken lib tok \<notin> aw_issued w \<Longrightarrow>
     rawID \<notin> aw_families w \<Longrightarrow> rawID \<noteq> [] \<Longrightarrow>
     auth_step lib w \<lparr>aw_service = s, aw_issued = insert (hashToken lib tok) (aw_issued w),
       aw_families = insert rawID (aw_families w), aw_consumed = aw_consumed w\<rparr>"
| auth_refresh:
    "Refresh lib now newID token (aw_service w) = (Inr tok, s) \<Longrightarrow> hashToken lib tok \<notin> aw_issued w \<Longrightarrow>
     auth_step lib w \<lparr>aw_service = s, aw_issued = insert (hashToken lib tok) (aw_issued w), aw_families = aw_families w,
       aw_consumed = insert token (aw_consumed w)\<rparr>"
| auth_refused:
    "Refresh lib now newID token (aw_service w) = (Inl e, s) \<Longrightarrow> auth_step lib w (w\<lparr>aw_service := s\<rparr>)"
| auth_logout:
    "auth_step lib w (w\<lparr>aw_service := RevokeRefreshToken lib token (aw_service w)\<rparr>)"

definition auth_initial :: "auth_world \<Rightarrow> bool" where
  "auth_initial w \<longleftrightarrow> js_refreshStore (aw_service w) = [] \<and> aw_issued w = {} \<and> aw_families w = {} \<and> aw_consumed w = {}"

definition live :: "StoredRefreshToken \<Rightarrow> bool" where
  "live rt \<longleftrightarrow> \<not> rt_Used rt \<and> \<not> rt_Revoked rt"

text \<open>What the store promises: records under their hashes, at most one live record in a family.\<close>

definition store_ok :: "string set \<Rightarrow> string set \<Rightarrow> refresh_store \<Rightarrow> bool" where
  "store_ok issued families m \<longleftrightarrow> distinct (map fst m)
     \<and> (\<forall>h rt. map_of m h = Some rt \<longrightarrow> h \<in> issued \<and> rt_TokenHash rt = h \<and> rt_FamilyID rt \<noteq> [] \<and> rt_FamilyID rt \<in> families)
     \<and> (\<forall>h rt h' rt'. map_of m h = Some rt \<and> map_of m h' = Some rt' \<and> live rt \<and> live rt' \<and> rt_FamilyID rt = rt_FamilyID rt' \<longrightarrow> h = h')"

definition auth_inv :: "jwt_lib \<Rightarrow> auth_world \<Rightarrow> bool" where
  "auth_inv lib w \<longleftrightarrow> store_ok (aw_issued w) (aw_families w) (js_refreshStore (aw_service w))
     \<and> (\<forall>t \<in> aw_consumed w. hashToken lib t \<in> aw_issued w
          \<and> (\<forall>rt. map_of (js_refreshStore (aw_service w)) (hashToken lib t) = Some rt \<longrightarrow> rt_Used rt))"

text \<open>A store that only lost records, and whose records are at most more revoked and used.\<close>

definition aged :: "StoredRefreshToken \<Rightarrow> StoredRefreshToken \<Rightarrow> bool" where
  "aged rt rt' \<longleftrightarrow> rt_TokenHash rt' = rt_TokenHash rt \<and> rt_FamilyID rt' = rt_FamilyID rt \<and> (rt_Used rt \<longrightarrow> rt_Used rt') \<and> (live rt' \<longrightarrow> live rt)"

definition weaker :: "refresh_store \<Rightarrow> refresh_store \<Rightarrow> bool" where
  "weaker m m' \<longleftrightarrow> distinct (map fst m') \<and> (\<forall>h rt'. map_of m' h = Some rt' \<longrightarrow> (\<exists>rt. map_of m h = Some rt \<and> aged rt rt'))"

lemma aged_refl [simp]: "aged rt rt"
  by (simp add: aged_def)

lemma aged_revoked [simp]: "aged rt (rt\<lparr>rt_Revoked := True\<rparr>)"
  by (simp add: aged_def live_def)

lemma aged_trans: "aged a b \<Longrightarrow> aged b c \<Longrightarrow> aged a c"
  by (simp add: aged_def)

lemma weaker_refl: "distinct (map fst m) \<Longrightarrow> weaker m m"
  by (auto simp: weaker_def)

lemma weaker_trans: "weaker a b \<Longrightarrow> weaker b c \<Longrightarrow> weaker a c"
  unfolding weaker_def by (metis aged_trans)

lemma weaker_ok:
  assumes "weaker m m'" "store_ok I F m"
  shows "store_ok I F m'"
  unfolding store_ok_def
proof (intro conjI allI impI)
  have old: "\<exists>rt. map_of m h = Some rt \<and> aged rt rt'" if "map_of m' h = Some rt'" for h rt'
    using assms(1) that unfolding weaker_def by blast
  show "distinct (map fst m')" using assms(1) by (simp add: weaker_def)
  show "h \<in> I" "rt_TokenHash rt' = h" "rt_FamilyID rt' \<noteq> []" "rt_FamilyID rt' \<in> F" if "map_of m' h = Some rt'" for h rt'
    using old [OF that] assms(2) unfolding store_ok_def aged_def by metis+
  show "h = h'" if "map_of m' h = Some rt \<and> map_of m' h' = Some rt' \<and> live rt \<and> live rt' \<and> rt_FamilyID rt = rt_FamilyID rt'" for h rt h' rt'
    using that old [of h rt] old [of h' rt'] assms(2) unfolding store_ok_def aged_def by metis
qed

lemma weaker_used:
  "weaker m m' \<Longrightarrow> \<forall>rt. map_of m h = Some rt \<longrightarrow> rt_Used rt \<Longrightarrow> \<forall>rt. map_of m' h = Some rt \<longrightarrow> rt_Used rt"
  unfolding weaker_def aged_def by metis

lemma weaker_filter: "distinct (map fst m) \<Longrightarrow> weaker m (filter P m)"
  by (auto simp: weaker_def distinct_keys_filter)

lemma map_of_map_values: "map_of (map (\<lambda>(k, v). (k, f k v)) m) h = map_option (f h) (map_of m h)"
  by (induction m) auto

lemma weaker_map:
  "distinct (map fst m) \<Longrightarrow> (\<And>k rt. aged rt (f k rt)) \<Longrightarrow> weaker m (map (\<lambda>(k, rt). (k, f k rt)) m)"
  by (auto simp: weaker_def map_of_map_values comp_def case_prod_beta)

lemma weaker_Revoke: "distinct (map fst m) \<Longrightarrow> weaker m (refresh_Revoke h m)"
  unfolding refresh_Revoke_def by (rule weaker_map) auto

lemma weaker_RevokeFamily: "distinct (map fst m) \<Longrightarrow> weaker m (refresh_RevokeFamily f m)"
  unfolding refresh_RevokeFamily_def by (auto intro: weaker_refl weaker_map)

lemma refresh_Save_cases:
  assumes "refresh_Save ranged now rt m = Inr m'" "distinct (map fst m)"
  obtains m1 where "weaker m m1" "m' = AList.update (rt_TokenHash rt) rt m1"
proof -
  have e: "weaker m (evictExpiredLocked now m)" "distinct (map fst (evictExpiredLocked now m))"
    using assms(2) weaker_filter by (auto simp: evictExpiredLocked_def distinct_keys_filter)
  have "weaker (evictExpiredLocked now m) (evictOldestLocked ranged n (evictExpiredLocked now m))" for n
    using e(2) by (auto simp: evictOldestLocked_def Let_def intro: weaker_filter weaker_refl)
  with e have "weaker m (evictOldestLocked ranged n (evictExpiredLocked now m))" for n
    by (blast intro: weaker_trans)
  with assms e that weaker_refl [OF assms(2)] show thesis
    by (auto simp: refresh_Save_def Let_def split: if_splits)
qed

lemma weaker_update:
  assumes "weaker m m1" "map_of m h = Some rt" "aged rt rt'"
  shows "weaker m (AList.update h rt' m1)"
  using assms by (auto simp: weaker_def update_conv' distinct_update)

definition dead_family :: "string \<Rightarrow> refresh_store \<Rightarrow> bool" where
  "dead_family f m \<longleftrightarrow> (\<forall>h rt. map_of m h = Some rt \<and> rt_FamilyID rt = f \<longrightarrow> \<not> live rt)"

lemma weaker_dead: "weaker m m' \<Longrightarrow> dead_family f m \<Longrightarrow> dead_family f m'"
  unfolding weaker_def dead_family_def aged_def by metis

lemma store_ok_insert:
  assumes "store_ok I F m" "h \<notin> I" "rt_TokenHash rt = h" "rt_FamilyID rt \<in> F'" "rt_FamilyID rt \<noteq> []" "F \<subseteq> F'"
    and "dead_family (rt_FamilyID rt) m"
  shows "store_ok (insert h I) F' (AList.update h rt m)"
  unfolding store_ok_def
proof (intro conjI allI impI)
  have m: "map_of m k = Some r \<Longrightarrow> k \<in> I \<and> k \<noteq> h \<and> rt_TokenHash r = k \<and> rt_FamilyID r \<noteq> [] \<and> rt_FamilyID r \<in> F'" for k r
    using assms(1,2,6) unfolding store_ok_def by blast
  show "distinct (map fst (AList.update h rt m))" using assms(1) by (simp add: store_ok_def distinct_update)
  show "k \<in> insert h I" "rt_TokenHash r = k" "rt_FamilyID r \<noteq> []" "rt_FamilyID r \<in> F'" if "map_of (AList.update h rt m) k = Some r" for k r
    using that m [of k r] assms(3,4,5) by (auto simp: update_conv' split: if_splits)
  show "k = k'" if "map_of (AList.update h rt m) k = Some r \<and> map_of (AList.update h rt m) k' = Some r' \<and> live r \<and> live r'
      \<and> rt_FamilyID r = rt_FamilyID r'" for k r k' r'
  proof -
    have u: "map_of (AList.update h rt m) x = (if x = h then Some rt else map_of m x)" for x by (simp add: update_conv')
    have dead: "\<not> (map_of m x = Some y \<and> rt_FamilyID y = rt_FamilyID rt \<and> live y)" for x y
      using assms(7) unfolding dead_family_def by blast
    have one: "map_of m x = Some y \<Longrightarrow> map_of m x' = Some y' \<Longrightarrow> live y \<Longrightarrow> live y' \<Longrightarrow> rt_FamilyID y = rt_FamilyID y' \<Longrightarrow> x = x'" for x y x' y'
      using assms(1) unfolding store_ok_def by blast
    show ?thesis
      using that u dead one by (metis option.inject)
  qed
qed

lemma issueRefreshToken_Inr:
  assumes "issueRefreshToken lib userID tokenID fam now s = Inr (tok, t)" "distinct (map fst (js_refreshStore s))"
  obtains m rt where "weaker (js_refreshStore s) m" "js_refreshStore t = AList.update (hashToken lib tok) rt m"
    "rt_TokenHash rt = hashToken lib tok" "rt_FamilyID rt = fam"
proof -
  let ?tok = "jl_sign lib (js_refreshSecret s) (refresh_claims now tokenID userID)"
  let ?rt = "\<lparr>rt_ID = tokenID, rt_FamilyID = fam, rt_UserID = userID, rt_TokenHash = hashToken lib ?tok,
                rt_CreatedAt = now, rt_ExpiresAt = now + refreshTokenTTL, rt_Revoked = False, rt_Used = False\<rparr>"
  from assms(1) obtain m' where sv: "refresh_Save (jl_ranged lib) now ?rt (js_refreshStore s) = Inr m'"
    and t: "tok = ?tok" "t = s\<lparr>js_refreshStore := m'\<rparr>"
    by (auto simp: issueRefreshToken_def Let_def split: sum.splits)
  from refresh_Save_cases [OF sv assms(2)] obtain m1 where "weaker (js_refreshStore s) m1" "m' = AList.update (rt_TokenHash ?rt) ?rt m1" .
  with t that [of m1 ?rt] show thesis by simp
qed

lemma Refresh_Inr:
  assumes "Refresh lib now newID token s = (Inr tok, t)" "store_ok I F (js_refreshStore s)"
  obtains rt m2 m3 rt' where "map_of (js_refreshStore s) (hashToken lib token) = Some rt" "live rt"
    "weaker (js_refreshStore s) m2" "dead_family (rt_FamilyID rt) m2"
    "\<forall>r. map_of m2 (hashToken lib token) = Some r \<longrightarrow> rt_Used r"
    "weaker m2 m3" "js_refreshStore t = AList.update (hashToken lib tok) rt' m3"
    "rt_TokenHash rt' = hashToken lib tok" "rt_FamilyID rt' = rt_FamilyID rt"
proof -
  let ?m = "js_refreshStore s" let ?h = "hashToken lib token"
  from assms(1) obtain claims rt where c: "Refresh_check lib now token s = (Inr (claims, rt), s)"
    and rot: "Refresh_rotate lib now newID claims rt s = (Inr tok, t)"
    by (auto simp: Refresh_def Refresh_check_def split: sum.splits if_splits)
  have rt: "map_of ?m ?h = Some rt" "live rt"
    using c by (auto simp: Refresh_check_def refresh_Get_def live_def split: sum.splits option.splits if_splits)
  have ok: "rt_TokenHash rt = ?h" "rt_FamilyID rt \<noteq> []" "distinct (map fst ?m)"
    using assms(2) rt unfolding store_ok_def by blast+
  let ?used = "rt\<lparr>rt_Used := True, rt_Revoked := True\<rparr>"
  from rot ok(2) obtain m2 where sv: "refresh_Save (jl_ranged lib) now ?used ?m = Inr m2"
    and iss: "issueRefreshToken lib (cl_ID claims) newID (rt_FamilyID rt) now (s\<lparr>js_refreshStore := m2\<rparr>) = Inr (tok, t)"
    by (auto simp: Refresh_rotate_def split: sum.splits)
  from refresh_Save_cases [OF sv ok(3)] obtain m1 where m1: "weaker ?m m1" "m2 = AList.update ?h ?used m1"
    using ok(1) by auto
  have w2: "weaker ?m m2" unfolding m1(2) by (rule weaker_update [OF m1(1) rt(1)]) (simp add: aged_def live_def)
  have u: "map_of m2 ?h = Some ?used" by (simp add: m1(2) update_conv')
  have dead: "dead_family (rt_FamilyID rt) m2"
    unfolding dead_family_def
  proof (intro allI impI notI)
    fix h r assume r: "map_of m2 h = Some r \<and> rt_FamilyID r = rt_FamilyID rt" and lr: "live r"
    with w2 obtain r0 where "map_of ?m h = Some r0" "live r0" "rt_FamilyID r0 = rt_FamilyID rt"
      unfolding weaker_def aged_def by metis
    with rt assms(2) have "h = ?h" unfolding store_ok_def by blast
    with r u lr show False by (auto simp: live_def)
  qed
  have d2: "distinct (map fst m2)" using w2 by (simp add: weaker_def)
  from issueRefreshToken_Inr [OF iss] d2 obtain m3 rt' where i: "weaker m2 m3" "js_refreshStore t = AList.update (hashToken lib tok) rt' m3"
    "rt_TokenHash rt' = hashToken lib tok" "rt_FamilyID rt' = rt_FamilyID rt" by auto
  show thesis by (rule that [OF rt w2 dead _ i]) (use u in simp)
qed

lemma Refresh_Inl:
  assumes "Refresh lib now newID token s = (Inl e, t)" "store_ok I F (js_refreshStore s)"
  shows "weaker (js_refreshStore s) (js_refreshStore t)"
proof -
  let ?m = "js_refreshStore s"
  have d: "distinct (map fst ?m)" using assms(2) by (simp add: store_ok_def)
  show ?thesis
  proof (cases "fst (Refresh_check lib now token s)")
    case (Inl e')
    then have "t = s \<or> (\<exists>f. t = s\<lparr>js_refreshStore := refresh_RevokeFamily f ?m\<rparr>)"
      using assms(1) by (auto simp: Refresh_def Refresh_check_def split: sum.splits if_splits)
    then show ?thesis using weaker_refl [OF d] weaker_RevokeFamily [OF d] by auto
  next
    case (Inr q)
    then obtain claims rt where c: "Refresh_check lib now token s = (Inr (claims, rt), s)"
      by (auto simp: Refresh_check_def split: sum.splits if_splits)
    then have rt: "map_of ?m (hashToken lib token) = Some rt"
      by (auto simp: Refresh_check_def refresh_Get_def split: sum.splits option.splits if_splits)
    with assms(2) have h: "rt_TokenHash rt = hashToken lib token" unfolding store_ok_def by blast
    let ?used = "rt\<lparr>rt_Used := True, rt_Revoked := True\<rparr>"
    have rot: "Refresh_rotate lib now newID claims rt s = (Inl e, t)" using assms(1) c by (simp add: Refresh_def)
    show ?thesis
    proof (cases "refresh_Save (jl_ranged lib) now ?used ?m")
      case (Inl e')
      with rot show ?thesis using weaker_refl [OF d] by (simp add: Refresh_rotate_def)
    next
      case (Inr m2)
      from refresh_Save_cases [OF Inr d] h obtain m1 where m1: "weaker ?m m1" "m2 = AList.update (hashToken lib token) ?used m1" by auto
      have "weaker ?m m2" unfolding m1(2) by (rule weaker_update [OF m1(1) rt]) (simp add: aged_def live_def)
      moreover have "js_refreshStore t = m2"
        using rot Inr by (auto simp: Refresh_rotate_def split: sum.splits)
      ultimately show ?thesis by simp
    qed
  qed
qed

lemma auth_inv_weaker:
  assumes "auth_inv lib w" "weaker (js_refreshStore (aw_service w)) (js_refreshStore s)"
  shows "auth_inv lib (w\<lparr>aw_service := s\<rparr>)"
proof -
  have "\<forall>t \<in> aw_consumed w. hashToken lib t \<in> aw_issued w
      \<and> (\<forall>rt. map_of (js_refreshStore s) (hashToken lib t) = Some rt \<longrightarrow> rt_Used rt)"
    using assms(1) weaker_used [OF assms(2)] unfolding auth_inv_def by blast
  then show ?thesis
    using assms(1) weaker_ok [OF assms(2)] by (simp add: auth_inv_def)
qed

lemma auth_step_inv: "auth_step lib w w' \<Longrightarrow> auth_inv lib w \<Longrightarrow> auth_inv lib w'"
proof (induction rule: auth_step.induct)
  case (auth_login now rawID userID w tok s)
  let ?m = "js_refreshStore (aw_service w)"
  have ok: "store_ok (aw_issued w) (aw_families w) ?m" using auth_login(5) by (simp add: auth_inv_def)
  then have d: "distinct (map fst ?m)" by (simp add: store_ok_def)
  from issueRefreshToken_Inr [OF auth_login(1) [unfolded IssueRefreshToken_def] d]
  obtain m rt where i: "weaker ?m m" "js_refreshStore s = AList.update (hashToken lib tok) rt m"
    "rt_TokenHash rt = hashToken lib tok" "rt_FamilyID rt = rawID" .
  have okm: "store_ok (aw_issued w) (aw_families w) m" by (rule weaker_ok [OF i(1) ok])
  have "dead_family rawID m" using okm auth_login(3) unfolding store_ok_def dead_family_def by blast
  then have "store_ok (insert (hashToken lib tok) (aw_issued w)) (insert rawID (aw_families w)) (js_refreshStore s)"
    unfolding i(2) using i auth_login(2,4) by (intro store_ok_insert [OF okm]) auto
  moreover have "\<forall>r. map_of (js_refreshStore s) (hashToken lib t) = Some r \<longrightarrow> rt_Used r" if "t \<in> aw_consumed w" for t
  proof -
    have t: "hashToken lib t \<in> aw_issued w" "\<forall>r. map_of ?m (hashToken lib t) = Some r \<longrightarrow> rt_Used r"
      using auth_login(5) that by (auto simp: auth_inv_def)
    then have "hashToken lib t \<noteq> hashToken lib tok" using auth_login(2) by auto
    with weaker_used [OF i(1) t(2)] show ?thesis by (simp add: i(2) update_conv')
  qed
  ultimately show ?case using auth_login(5) by (simp add: auth_inv_def)
next
  case (auth_refresh now newID token w tok s)
  let ?m = "js_refreshStore (aw_service w)"
  have ok: "store_ok (aw_issued w) (aw_families w) ?m" using auth_refresh(3) by (simp add: auth_inv_def)
  from Refresh_Inr [OF auth_refresh(1) ok] obtain rt m2 m3 rt' where
    r: "map_of ?m (hashToken lib token) = Some rt" "live rt" "weaker ?m m2" "dead_family (rt_FamilyID rt) m2"
    "\<forall>r. map_of m2 (hashToken lib token) = Some r \<longrightarrow> rt_Used r"
    "weaker m2 m3" "js_refreshStore s = AList.update (hashToken lib tok) rt' m3"
    "rt_TokenHash rt' = hashToken lib tok" "rt_FamilyID rt' = rt_FamilyID rt" .
  have w3: "weaker ?m m3" by (rule weaker_trans [OF r(3,6)])
  have ok3: "store_ok (aw_issued w) (aw_families w) m3" by (rule weaker_ok [OF w3 ok])
  have old: "hashToken lib token \<in> aw_issued w" "rt_FamilyID rt \<in> aw_families w" "rt_FamilyID rt \<noteq> []"
    using ok r(1) unfolding store_ok_def by blast+
  have "dead_family (rt_FamilyID rt) m3" by (rule weaker_dead [OF r(6,4)])
  then have "store_ok (insert (hashToken lib tok) (aw_issued w)) (aw_families w) (js_refreshStore s)"
    unfolding r(7) using r(8,9) old auth_refresh(2) by (intro store_ok_insert [OF ok3]) auto
  moreover have "hashToken lib t \<in> insert (hashToken lib tok) (aw_issued w)
      \<and> (\<forall>x. map_of (js_refreshStore s) (hashToken lib t) = Some x \<longrightarrow> rt_Used x)" if t: "t = token \<or> t \<in> aw_consumed w" for t
  proof -
    have c: "t \<in> aw_consumed w \<Longrightarrow> hashToken lib t \<in> aw_issued w \<and> (\<forall>x. map_of ?m (hashToken lib t) = Some x \<longrightarrow> rt_Used x)"
      using auth_refresh(3) unfolding auth_inv_def by blast
    have i: "hashToken lib t \<in> aw_issued w" using t c old(1) by blast
    have "\<forall>x. map_of m2 (hashToken lib t) = Some x \<longrightarrow> rt_Used x"
      using t c r(5) weaker_used [OF r(3)] by blast
    from weaker_used [OF r(6) this] have "\<forall>x. map_of m3 (hashToken lib t) = Some x \<longrightarrow> rt_Used x" .
    moreover have "hashToken lib t \<noteq> hashToken lib tok" using auth_refresh(2) i by auto
    ultimately show ?thesis using i unfolding r(7) update_conv' fun_upd_def by simp
  qed
  ultimately show ?case unfolding auth_inv_def by simp
next
  case (auth_refused now newID token w e s)
  then have "weaker (js_refreshStore (aw_service w)) (js_refreshStore s)"
    by (intro Refresh_Inl) (auto simp: auth_inv_def)
  with auth_refused(2) show ?case by (rule auth_inv_weaker)
next
  case (auth_logout w token)
  then have "weaker (js_refreshStore (aw_service w)) (refresh_Revoke (hashToken lib token) (js_refreshStore (aw_service w)))"
    by (intro weaker_Revoke) (auto simp: auth_inv_def store_ok_def)
  with auth_logout show ?case by (intro auth_inv_weaker) (simp_all add: RevokeRefreshToken_def)
qed

interpretation sessions: invariant auth_initial "auth_step lib" "auth_inv lib" for lib
proof
  show "auth_inv lib w" if "auth_initial w" for w
    using that by (simp add: auth_initial_def auth_inv_def store_ok_def)
qed (rule auth_step_inv)

subsection \<open>Properties\<close>

text \<open>A library for the examples: a token is the key followed by its identifier.\<close>

definition demo_lib :: jwt_lib where
  "demo_lib = \<lparr>jl_sign = (\<lambda>k c. k @ cl_TokenID c), jl_parse = (\<lambda>k now t. Inr (refresh_claims 0 (drop (length k) t) ''ann'')),
     jl_sha256hex = (\<lambda>t. ''h'' @ t), jl_ranged = (\<lambda>m. m)\<rparr>"

definition demo_service :: JWTService where
  "demo_service = \<lparr>js_secret = ''s'', js_refreshSecret = ''r'', js_refreshStore = []\<rparr>"

definition demo_login :: JWTService where
  "demo_login = (case IssueRefreshToken demo_lib 0 ''1'' ''ann'' demo_service of Inr (_, s) \<Rightarrow> s | Inl _ \<Rightarrow> demo_service)"

definition demo_rotated :: JWTService where
  "demo_rotated = snd (Refresh demo_lib 1 ''2'' ''r1'' demo_login)"

definition demo_auth_world :: auth_world where
  "demo_auth_world = \<lparr>aw_service = demo_rotated, aw_issued = {''hr2'', ''hr1''}, aw_families = {''1''}, aw_consumed = {''r1''}\<rparr>"

lemma refreshSweepThreshold_eq: "refreshSweepThreshold = 61440"
  by (simp add: refreshSweepThreshold_def maxRefreshTokenRecords_def refreshEvictBatch_def)

lemmas demo_session_simps = IssueRefreshToken_def issueRefreshToken_def refresh_Save_def refreshSweepThreshold_eq hashToken_def
  refresh_claims_def refreshTokenTTL_def minute_def second_def demo_service_def demo_lib_def Refresh_def Refresh_check_def
  Refresh_rotate_def refresh_Get_def refresh_RevokeFamily_def VerifyRefreshToken_def Let_def

lemma demo_login_eq: "demo_login = demo_service\<lparr>js_refreshStore := [(''hr1'', \<lparr>rt_ID = ''1'', rt_FamilyID = ''1'', rt_UserID = ''ann'',
    rt_TokenHash = ''hr1'', rt_CreatedAt = 0, rt_ExpiresAt = refreshTokenTTL, rt_Revoked = False, rt_Used = False\<rparr>)]\<rparr>"
  by (simp add: demo_login_def demo_session_simps)

lemma demo_rotated_eq: "demo_rotated = demo_service\<lparr>js_refreshStore :=
    [(''hr1'', \<lparr>rt_ID = ''1'', rt_FamilyID = ''1'', rt_UserID = ''ann'', rt_TokenHash = ''hr1'', rt_CreatedAt = 0,
       rt_ExpiresAt = refreshTokenTTL, rt_Revoked = True, rt_Used = True\<rparr>),
     (''hr2'', \<lparr>rt_ID = ''2'', rt_FamilyID = ''1'', rt_UserID = ''ann'', rt_TokenHash = ''hr2'', rt_CreatedAt = 1,
       rt_ExpiresAt = 1 + refreshTokenTTL, rt_Revoked = False, rt_Used = False\<rparr>)]\<rparr>"
  by (simp add: demo_rotated_def demo_login_eq demo_session_simps)

lemma demo_auth_runs:
  "runs (auth_step demo_lib) \<lparr>aw_service = demo_service, aw_issued = {}, aw_families = {}, aw_consumed = {}\<rparr> demo_auth_world"
proof -
  have a: "IssueRefreshToken demo_lib 0 ''1'' ''ann'' demo_service = Inr (''r1'', demo_login)"
    by (simp add: demo_login_eq demo_session_simps)
  have b: "Refresh demo_lib 1 ''2'' ''r1'' demo_login = (Inr ''r2'', demo_rotated)"
    by (simp add: demo_login_eq demo_rotated_eq demo_session_simps)
  let ?w0 = "\<lparr>aw_service = demo_service, aw_issued = {}, aw_families = {}, aw_consumed = {}\<rparr>"
  let ?w1 = "\<lparr>aw_service = demo_login, aw_issued = {''hr1''}, aw_families = {''1''}, aw_consumed = {}\<rparr>"
  have "auth_step demo_lib ?w0 ?w1"
    using auth_login [of demo_lib 0 "''1''" "''ann''" ?w0 "''r1''" demo_login] a by (simp add: hashToken_def demo_lib_def)
  moreover have "auth_step demo_lib ?w1 demo_auth_world"
    using auth_refresh [of demo_lib 1 "''2''" "''r1''" ?w1 "''r2''" demo_rotated] b
    by (simp add: hashToken_def demo_lib_def demo_auth_world_def)
  ultimately show ?thesis by (blast intro: runs_step runs_refl)
qed



text \<open>
  Reuse is detected. Presenting a token that was exchanged before, while its record is
  kept, is answered as a reuse and leaves no live token of that login.
\<close>

theorem replay_revokes_family:
  assumes "auth_initial w0" "runs (auth_step lib) w0 w" "token \<in> aw_consumed w"
    and "map_of (js_refreshStore (aw_service w)) (hashToken lib token) = Some rt"
    and "jl_parse lib (js_refreshSecret (aw_service w)) now token = Inr claims"
    and "Refresh lib now newID token (aw_service w) = (r, s)"
  shows "r = Inl ErrRefreshTokenReused \<and> (\<forall>h rt'. map_of (js_refreshStore s) h = Some rt' \<and> rt_FamilyID rt' = rt_FamilyID rt \<longrightarrow> rt_Revoked rt')"
proof -
  have inv: "auth_inv lib w" using assms(1,2) by (rule sessions.inv_reachable)
  then have u: "rt_Used rt" using assms(3,4) unfolding auth_inv_def by blast
  have "store_ok (aw_issued w) (aw_families w) (js_refreshStore (aw_service w))" using inv by (simp add: auth_inv_def)
  then have f: "rt_FamilyID rt \<noteq> []" using assms(4) unfolding store_ok_def by blast
  have "r = Inl ErrRefreshTokenReused \<and> s = (aw_service w)\<lparr>js_refreshStore := refresh_RevokeFamily (rt_FamilyID rt) (js_refreshStore (aw_service w))\<rparr>"
    using assms(4-6) u by (auto simp: Refresh_def Refresh_check_def refresh_Get_def)
  moreover have "rt_Revoked rt'" if "map_of (refresh_RevokeFamily (rt_FamilyID rt) m) h = Some rt'" "rt_FamilyID rt' = rt_FamilyID rt" for m h rt'
  proof -
    let ?f = "\<lambda>_ x. if rt_FamilyID x = rt_FamilyID rt then x\<lparr>rt_Revoked := True\<rparr> else x"
    have "map_option (?f h) (map_of m h) = Some rt'"
      using that(1) f map_of_map_values [of ?f m h] by (simp add: refresh_RevokeFamily_def)
    then obtain x where "rt' = ?f h x" by auto
    with that(2) show ?thesis by (cases "rt_FamilyID x = rt_FamilyID rt") simp_all
  qed
  ultimately show ?thesis by auto
qed

theorem replay_revokes_family_witness:
  "fst (Refresh demo_lib 2 ''3'' ''r1'' demo_rotated) = Inl ErrRefreshTokenReused
   \<and> \<not> VerifyRefreshToken demo_lib 2 ''r2'' (snd (Refresh demo_lib 2 ''3'' ''r1'' demo_rotated))"
proof -
  let ?r = "Refresh demo_lib 2 ''3'' ''r1'' demo_rotated"
  have i: "auth_initial \<lparr>aw_service = demo_service, aw_issued = {}, aw_families = {}, aw_consumed = {}\<rparr>"
    by (simp add: auth_initial_def demo_service_def)
  obtain rt where rt: "map_of (js_refreshStore demo_rotated) ''hr1'' = Some rt" "rt_FamilyID rt = ''1''"
    by (simp add: demo_rotated_eq)
  obtain rt2 where rt2: "map_of (js_refreshStore (snd ?r)) ''hr2'' = Some rt2" "rt_FamilyID rt2 = ''1''"
    by (simp add: demo_rotated_eq demo_session_simps)
  have w: "aw_service demo_auth_world = demo_rotated" "''r1'' \<in> aw_consumed demo_auth_world" "hashToken demo_lib ''r1'' = ''hr1''"
    by (simp_all add: demo_auth_world_def hashToken_def demo_lib_def)
  have p: "jl_parse demo_lib (js_refreshSecret (aw_service demo_auth_world)) 2 ''r1'' = Inr (refresh_claims 0 ''1'' ''ann'')"
    by (simp add: demo_lib_def demo_auth_world_def demo_rotated_eq demo_service_def)
  have "map_of (js_refreshStore (aw_service demo_auth_world)) (hashToken demo_lib ''r1'') = Some rt"
    using rt(1) w by simp
  from replay_revokes_family [OF i demo_auth_runs w(2) this p prod.collapse [symmetric], of "''3''", unfolded w(1)] rt(2)
  have "fst ?r = Inl ErrRefreshTokenReused \<and> (\<forall>h rt'. map_of (js_refreshStore (snd ?r)) h = Some rt' \<and> rt_FamilyID rt' = ''1'' \<longrightarrow> rt_Revoked rt')"
    by metis
  with rt2 show ?thesis by (auto simp: VerifyRefreshToken_def refresh_Get_def hashToken_def demo_lib_def)
qed

text \<open>
  The check and the rotation are separate critical sections, so single use is lost when
  two exchanges of one token overlap: both pass the check before either rotates, both
  succeed, and the login then has two live tokens.
\<close>

theorem refresh_race_two_live_tokens:
  "\<exists>claims rt s1 s2. Refresh_check demo_lib 1 ''r1'' demo_login = (Inr (claims, rt), demo_login)
     \<and> Refresh_rotate demo_lib 1 ''2'' claims rt demo_login = (Inr ''r2'', s1)
     \<and> Refresh_rotate demo_lib 1 ''3'' claims rt s1 = (Inr ''r3'', s2)
     \<and> VerifyRefreshToken demo_lib 2 ''r2'' s2 \<and> VerifyRefreshToken demo_lib 2 ''r3'' s2"
proof -
  let ?c = "refresh_claims 0 ''1'' ''ann''"
  let ?rt = "snd (hd (js_refreshStore demo_login))"
  let ?s1 = "snd (Refresh_rotate demo_lib 1 ''2'' ?c ?rt demo_login)"
  let ?s2 = "snd (Refresh_rotate demo_lib 1 ''3'' ?c ?rt ?s1)"
  have "Refresh_check demo_lib 1 ''r1'' demo_login = (Inr (?c, ?rt), demo_login)"
    by (simp add: demo_login_eq demo_session_simps)
  moreover have "fst (Refresh_rotate demo_lib 1 ''2'' ?c ?rt demo_login) = Inr ''r2''"
    by (simp add: demo_login_eq demo_session_simps)
  moreover have "fst (Refresh_rotate demo_lib 1 ''3'' ?c ?rt ?s1) = Inr ''r3''"
    by (simp add: demo_login_eq demo_session_simps)
  moreover have "VerifyRefreshToken demo_lib 2 ''r2'' ?s2 \<and> VerifyRefreshToken demo_lib 2 ''r3'' ?s2"
    by (simp add: demo_login_eq demo_session_simps)
  ultimately show ?thesis by (metis prod.collapse)
qed

subsubsection \<open>From the identity to the decision\<close>

inductive user_step :: "(string \<Rightarrow> uuid option) \<Rightarrow> (uuid \<Rightarrow> string) \<Rightarrow> UserRecord list \<Rightarrow> UserRecord list \<Rightarrow> bool" for parse us_of where
  user_create: "UserStore_Create parse us_of now gen u us = Inr (us', u') \<Longrightarrow> user_step parse us_of us us'"

definition users_ok :: "UserRecord list \<Rightarrow> bool" where
  "users_ok us \<longleftrightarrow> (\<forall>u \<in> set us. user_check u \<and> ur_ID u \<noteq> []) \<and> length (filter ur_IsFounder us) \<le> 1"

lemma UserStore_Create_Inr:
  assumes "UserStore_Create parse us_of now gen u us = Inr (us', u')"
  obtains row where "us' = us @ [row]" "user_check row" "ur_ID row = us_of gen" "ur_IsFounder row \<longrightarrow> (\<forall>v \<in> set us. \<not> ur_IsFounder v)"
  using assms by (auto simp: UserStore_Create_def Let_def split: if_splits option.splits) blast+

interpretation identities: invariant "\<lambda>us. us = []" "user_step parse (\<lambda>i. c # us_of i)" users_ok for parse c us_of
proof
  show "users_ok us" if "us = []" for us using that by (simp add: users_ok_def)
  show "users_ok us'" if "user_step parse (\<lambda>i. c # us_of i) us us'" "users_ok us" for us us'
    using that
  proof cases
    case (user_create now gen u u')
    from UserStore_Create_Inr [OF user_create] obtain row where r: "us' = us @ [row]" "user_check row" "ur_ID row = c # us_of gen"
      "ur_IsFounder row \<longrightarrow> (\<forall>v \<in> set us. \<not> ur_IsFounder v)" by metis
    then have "ur_IsFounder row \<Longrightarrow> filter ur_IsFounder us = []" by simp
    with r that(2) show ?thesis by (auto simp: users_ok_def)
  qed
qed

text \<open>The characters of a signed token: base64url and the separating dots.\<close>

definition jwt_alphabet :: string where
  "jwt_alphabet = ''ABCDEFGHIJKLMNOPQRSTUVWXYZabcdefghijklmnopqrstuvwxyz0123456789-_.''"

definition jwt_text :: "string \<Rightarrow> bool" where
  "jwt_text t \<longleftrightarrow> t \<noteq> [] \<and> list_all (\<lambda>c. c \<in> set jwt_alphabet) t"

lemma jwt_alphabet_plain:
  "list_all (\<lambda>c. c \<notin> hd ` (set go_spaces - {[]}) \<and> c \<notin> hd ` (set (map rev go_spaces) - {[]})) (CHR ''B'' # jwt_alphabet)"
  by code_simp

lemma jwt_text_trim:
  assumes "jwt_text t"
  shows "TrimSpace t = t" "TrimSpace (''Bearer '' @ t) = ''Bearer '' @ t"
proof -
  have p: "c \<notin> hd ` (set go_spaces - {[]}) \<and> c \<notin> hd ` (set (map rev go_spaces) - {[]})" if "c \<in> set jwt_alphabet \<or> c = CHR ''B''" for c
    using jwt_alphabet_plain that unfolding list_all_iff list.set by blast
  have t: "t \<noteq> []" "hd t \<in> set jwt_alphabet" "last t \<in> set jwt_alphabet"
    using assms by (auto simp: jwt_text_def list_all_iff)
  show "TrimSpace t = t" by (rule TrimSpace_plain [OF t(1)]) (use p t in blast)+
  show "TrimSpace (''Bearer '' @ t) = ''Bearer '' @ t"
  proof (rule TrimSpace_plain)
    show "hd (''Bearer '' @ t) \<notin> hd ` (set go_spaces - {[]})" using p by simp
    show "last (''Bearer '' @ t) \<notin> hd ` (set (map rev go_spaces) - {[]})" using p t(1,3) by simp
  qed simp
qed


definition demo_user :: UserRecord where
  "demo_user = \<lparr>ur_ID = [], ur_Username = ''ann'', ur_DisplayName = ''Ann'', ur_Email = [], ur_IsFounder = False, ur_Role = RoleWorkspaceAdmin,
     ur_WorkspaceID = ''u1'', ur_PasswordHash = ''x'', ur_CreatedAt = 0, ur_UpdatedAt = 0\<rparr>"

definition demo_row :: UserRecord where
  "demo_row = demo_user\<lparr>ur_ID := ''u7''\<rparr>"

definition demo_us :: "uuid \<Rightarrow> string" where
  "demo_us i = (if i = 1 then ''1'' else ''7'')"


end
