(* ===== verification/Execution_Domain.thy ===== *)
theory Execution_Domain
  imports Go_Prelude
begin

text \<open>
  The execution aggregate and the error taxonomy of \<^verbatim>\<open>internal/execution/execution.go\<close>,
  the request of \<^verbatim>\<open>store.go\<close> and the replay test of \<^verbatim>\<open>service.go\<close>.
  Enumerations become datatypes; \<^verbatim>\<open>ErrorCode\<close> stays the integer that is persisted.
\<close>

subsection \<open>Sentinel errors and lifecycle enumerations\<close>

datatype exec_error =
    ErrInvalidInput
  | ErrNotFound
  | ErrWorkspaceMismatch
  | ErrStatus
  | ErrCapacityExceeded
  | ErrIdempotencyKey
  | ErrStaleLease
  | ErrNotRetryable
  | ErrDatabase \<comment> \<open>a constraint violation surfaced by PostgreSQL with no domain sentinel\<close>

datatype exec_status = StatusPending | StatusRunning | StatusCompleted | StatusFailed | StatusCancelled

definition Terminal :: "exec_status \<Rightarrow> bool" where
  "Terminal s \<longleftrightarrow> s = StatusCompleted \<or> s = StatusFailed \<or> s = StatusCancelled"

text \<open>\<^verbatim>\<open>status IN ('pending', 'running')\<close>: the two states that consume capacity.\<close>

definition active_status :: "exec_status \<Rightarrow> bool" where
  "active_status s \<longleftrightarrow> s = StatusPending \<or> s = StatusRunning"

lemma active_status_simps [simp]:
  "active_status StatusPending" "active_status StatusRunning"
  "\<not> active_status StatusCompleted" "\<not> active_status StatusFailed" "\<not> active_status StatusCancelled"
  by (simp_all add: active_status_def)

lemma Terminal_simps [simp]:
  "Terminal StatusCompleted" "Terminal StatusFailed" "Terminal StatusCancelled"
  "\<not> Terminal StatusPending" "\<not> Terminal StatusRunning"
  by (simp_all add: Terminal_def)

lemma Terminal_iff: "Terminal s \<longleftrightarrow> \<not> active_status s"
  by (cases s) simp_all

datatype retry_state = RetryPending | RetryClaimed | RetryDispatched | RetryProcessed

datatype retry_outcome = RetrySuccess | RetryFailed | RetryCancelled

subsection \<open>Error codes\<close>

type_synonym ErrorCode = int

abbreviation (input) "CodeNone \<equiv> (0 :: ErrorCode)"
abbreviation (input) "CodeDeadlineExceeded \<equiv> (1 :: ErrorCode)"
abbreviation (input) "CodeProviderTimeout \<equiv> (2 :: ErrorCode)"
abbreviation (input) "CodeRateLimit \<equiv> (3 :: ErrorCode)"
abbreviation (input) "CodeUnavailable \<equiv> (4 :: ErrorCode)"
abbreviation (input) "CodeCanceled \<equiv> (5 :: ErrorCode)"
abbreviation (input) "CodeNotFound \<equiv> (6 :: ErrorCode)"
abbreviation (input) "CodeUnknown \<equiv> (7 :: ErrorCode)"
abbreviation (input) "CodeWorkerLeaseExpired \<equiv> (8 :: ErrorCode)"

definition Retryable :: "ErrorCode \<Rightarrow> bool" where
  "Retryable c \<longleftrightarrow> c \<in> {CodeDeadlineExceeded, CodeProviderTimeout, CodeRateLimit,
                        CodeUnavailable, CodeWorkerLeaseExpired}"

definition ErrorCode_String :: "ErrorCode \<Rightarrow> string" where
  "ErrorCode_String c =
     (if c = CodeNone then ''none''
      else if c = CodeDeadlineExceeded then ''deadline_exceeded''
      else if c = CodeProviderTimeout then ''provider_timeout''
      else if c = CodeRateLimit then ''rate_limit''
      else if c = CodeUnavailable then ''unavailable''
      else if c = CodeCanceled then ''canceled''
      else if c = CodeNotFound then ''not_found''
      else if c = CodeUnknown then ''unknown''
      else if c = CodeWorkerLeaseExpired then ''worker_lease_expired''
      else ''unknown'')"

subsection \<open>Go errors and their classification\<close>

text \<open>
  The error values \<^verbatim>\<open>Classify\<close> inspects. A sentinel is a package-level value compared by
  identity; a wrapping error (\<^verbatim>\<open>fmt.Errorf\<close> with \<^verbatim>\<open>%w\<close>, \<^verbatim>\<open>errors.Join\<close>, a
  \<^verbatim>\<open>net.Error\<close> such as \<^verbatim>\<open>*url.Error\<close>, a \<^verbatim>\<open>*ClassifiedError\<close>) exposes its causes
  through \<^verbatim>\<open>Unwrap\<close>.
\<close>

datatype sentinel =
    SqlErrNoRows
  | ContextCanceled
  | ContextDeadlineExceeded
  | ErrUsageLimitExceeded
  | ErrWorkerLeaseExpired
  | NetErrClosed
  | IoEOF
  | ECONNREFUSED
  | ECONNRESET
  | ETIMEDOUT
  | SentinelNotRetryable
  | OtherSentinel string

datatype go_error =
    Sentinel sentinel
  | Wrapped string go_error
  | Joined "go_error list"
  | NetError bool "go_error option" \<comment> \<open>the result of Timeout() and the wrapped cause\<close>
  | ClassifiedError ErrorCode bool "go_error option" \<comment> \<open>Code, Retry, Cause\<close>
  | Opaque string

text \<open>
  \<^verbatim>\<open>errors.Is\<close>: the error, or one its chain of \<^verbatim>\<open>Unwrap\<close> reaches, is the target, or its
  \<^verbatim>\<open>Is\<close> method accepts it (\<^verbatim>\<open>ClassifiedError.Is\<close> accepts \<^verbatim>\<open>ErrNotRetryable\<close>
  exactly for a classification that is not retried).
\<close>

fun ClassifiedError_Is :: "bool \<Rightarrow> sentinel \<Rightarrow> bool" where
  "ClassifiedError_Is retry target = (target = SentinelNotRetryable \<and> \<not> retry)"

fun errors_Is :: "go_error \<Rightarrow> sentinel \<Rightarrow> bool" where
  "errors_Is (Sentinel s) t = (s = t)"
| "errors_Is (Wrapped m e) t = errors_Is e t"
| "errors_Is (Joined es) t = (\<exists>e \<in> set es. errors_Is e t)"
| "errors_Is (NetError b (Some e)) t = errors_Is e t"
| "errors_Is (NetError b None) t = False"
| "errors_Is (ClassifiedError c r (Some e)) t = (ClassifiedError_Is r t \<or> errors_Is e t)"
| "errors_Is (ClassifiedError c r None) t = ClassifiedError_Is r t"
| "errors_Is (Opaque m) t = False"

text \<open>
  \<^verbatim>\<open>errors.As(cause, &netErr)\<close>: the first error of the chain that implements \<^verbatim>\<open>net.Error\<close>,
  by the result of its \<^verbatim>\<open>Timeout()\<close>. Among the sentinels, \<^verbatim>\<open>context.DeadlineExceeded\<close>,
  \<^verbatim>\<open>net.ErrClosed\<close> and the \<^verbatim>\<open>syscall.Errno\<close> values implement it.
\<close>

fun sentinel_net_error :: "sentinel \<Rightarrow> bool option" where
  "sentinel_net_error ContextDeadlineExceeded = Some True"
| "sentinel_net_error NetErrClosed = Some False"
| "sentinel_net_error ECONNREFUSED = Some False"
| "sentinel_net_error ECONNRESET = Some False"
| "sentinel_net_error ETIMEDOUT = Some True"
| "sentinel_net_error _ = None"

fun errors_As_net :: "go_error \<Rightarrow> bool option"
and errors_As_net_list :: "go_error list \<Rightarrow> bool option" where
  "errors_As_net (Sentinel s) = sentinel_net_error s"
| "errors_As_net (Wrapped m e) = errors_As_net e"
| "errors_As_net (Joined es) = errors_As_net_list es"
| "errors_As_net (NetError b e) = Some b"
| "errors_As_net (ClassifiedError c r (Some e)) = errors_As_net e"
| "errors_As_net (ClassifiedError c r None) = None"
| "errors_As_net (Opaque m) = None"
| "errors_As_net_list [] = None"
| "errors_As_net_list (e # es) =
     (case errors_As_net e of Some b \<Rightarrow> Some b | None \<Rightarrow> errors_As_net_list es)"

record classified =
  ce_Code :: ErrorCode
  ce_Retry :: bool
  ce_Cause :: "go_error option"

definition NewClassifiedError :: "ErrorCode \<Rightarrow> go_error option \<Rightarrow> classified" where
  "NewClassifiedError code cause = \<lparr>ce_Code = code, ce_Retry = Retryable code, ce_Cause = cause\<rparr>"

definition Classify :: "go_error option \<Rightarrow> classified" where
  "Classify cause =
     (case cause of
        None \<Rightarrow> \<lparr>ce_Code = CodeNone, ce_Retry = False, ce_Cause = None\<rparr>
      | Some e \<Rightarrow>
          if errors_Is e SqlErrNoRows
            then \<lparr>ce_Code = CodeNotFound, ce_Retry = False, ce_Cause = cause\<rparr>
          else if errors_Is e ContextCanceled
            then \<lparr>ce_Code = CodeCanceled, ce_Retry = False, ce_Cause = cause\<rparr>
          else if errors_Is e ContextDeadlineExceeded
            then \<lparr>ce_Code = CodeDeadlineExceeded, ce_Retry = True, ce_Cause = cause\<rparr>
          else if errors_Is e ErrUsageLimitExceeded
            then \<lparr>ce_Code = CodeRateLimit, ce_Retry = True, ce_Cause = cause\<rparr>
          else if errors_Is e ErrWorkerLeaseExpired
            then \<lparr>ce_Code = CodeWorkerLeaseExpired, ce_Retry = True, ce_Cause = cause\<rparr>
          else if errors_Is e NetErrClosed \<or> errors_Is e IoEOF \<or> errors_Is e ECONNREFUSED
                  \<or> errors_Is e ECONNRESET \<or> errors_Is e ETIMEDOUT
            then \<lparr>ce_Code = CodeUnavailable, ce_Retry = True, ce_Cause = cause\<rparr>
          else if errors_As_net e = Some True
            then \<lparr>ce_Code = CodeProviderTimeout, ce_Retry = True, ce_Cause = cause\<rparr>
          else \<lparr>ce_Code = CodeUnknown, ce_Retry = False, ce_Cause = cause\<rparr>)"

subsection \<open>The persistent aggregates\<close>

record execution =
  ex_ID :: uuid
  ex_WorkspaceID :: uuid
  ex_AIEmployeeID :: uuid
  ex_TaskID :: "uuid option"
  ex_Status :: exec_status
  ex_Attempt :: int
  ex_MaxAttempts :: int
  ex_IdempotencyKey :: "string option"
  ex_RequestHash :: string
  ex_LeaseOwner :: "string option"
  ex_LeaseGeneration :: int
  ex_LeaseExpiresAt :: "instant option"
  ex_NextRetryAt :: "instant option"
  ex_LastErrorCode :: "ErrorCode option"
  ex_Retryable :: "bool option"
  ex_ErrorDetail :: "string option"
  ex_ResultJSON :: "string option"
  ex_CompletedAt :: "instant option"
  ex_FailedAt :: "instant option"
  ex_CancelledAt :: "instant option"
  ex_CreatedAt :: instant
  ex_UpdatedAt :: instant

record retry =
  rt_ID :: uuid
  rt_ExecutionID :: uuid
  rt_WorkspaceID :: uuid
  rt_RetrySeq :: int
  rt_State :: retry_state
  rt_Outcome :: "retry_outcome option"
  rt_WorkerID :: "string option"
  rt_Generation :: int
  rt_NextRetryAt :: "instant option"
  rt_ClaimedAt :: "instant option"
  rt_DispatchedAt :: "instant option"
  rt_CompletedAt :: "instant option"
  rt_CreatedAt :: instant

record fenced =
  fe_ExecutionID :: uuid
  fe_WorkspaceID :: uuid
  fe_LeaseOwner :: string
  fe_LeaseGeneration :: int
  fe_LeaseExpiresAt :: instant
  fe_Attempt :: int
  fe_MaxAttempts :: int
  fe_RetryID :: uuid
  fe_AIEmployeeID :: uuid
  fe_LastErrorCode :: "ErrorCode option"
  fe_Retryable :: "bool option"
  fe_NextRetryAt :: "instant option"

record materialized =
  mr_TaskTitle :: string
  mr_TaskDescription :: string
  mr_AIEmployeeName :: string
  mr_AIEmployeeRole :: string
  mr_TeamName :: string
  mr_DepartmentName :: string
  mr_Capabilities :: "string list"

record admit_request =
  rq_WorkspaceID :: uuid
  rq_AIEmployeeID :: uuid
  rq_TaskID :: "uuid option"
  rq_MaxAttempts :: int
  rq_IdempotencyKey :: string
  rq_Context :: "materialized option"

record admit_result =
  ar_Execution :: execution
  ar_Created :: bool
  ar_Completed :: bool

text \<open>
  \<^verbatim>\<open>sameRequest\<close>: whether a stored execution answers the same request. The store always
  returns an execution, so the \<^verbatim>\<open>nil\<close> case of the Go function has no counterpart.
\<close>

definition sameRequest :: "admit_request \<Rightarrow> execution \<Rightarrow> bool" where
  "sameRequest req exec \<longleftrightarrow>
     (if ex_AIEmployeeID exec \<noteq> rq_AIEmployeeID req then False
      else if (ex_TaskID exec = None) \<noteq> (rq_TaskID req = None) then False
      else if ex_TaskID exec \<noteq> None \<and> rq_TaskID req \<noteq> None \<and> the (ex_TaskID exec) \<noteq> the (rq_TaskID req)
        then False
      else True)"

lemma sameRequest_iff:
  "sameRequest req exec \<longleftrightarrow> ex_AIEmployeeID exec = rq_AIEmployeeID req \<and> ex_TaskID exec = rq_TaskID req"
  by (cases "ex_TaskID exec"; cases "rq_TaskID req") (auto simp: sameRequest_def)

subsection \<open>Properties\<close>

lemma Classify_retry_iff: "ce_Retry (Classify c) = Retryable (ce_Code (Classify c))"
  by (auto simp: Classify_def Retryable_def split: option.split)

lemma Classify_None: "ce_Code (Classify None) = CodeNone"
  by (simp add: Classify_def)

text \<open>
  Classification is coherent and conservative. The retry flag of a classification is
  always the one its persisted code implies, so a reader of the code alone takes the same
  decision; wrapping an error changes nothing; a cancellation or a missing row is never
  retried, whatever else the chain contains; and a retryable verdict is given only for one
  of the recognised transient causes.
\<close>

theorem classify_coherent:
  "ce_Retry (Classify (Some e)) = Retryable (ce_Code (Classify (Some e)))
   \<and> ce_Code (Classify (Some (Wrapped m e))) = ce_Code (Classify (Some e))
   \<and> (errors_Is e ContextCanceled \<or> errors_Is e SqlErrNoRows \<longrightarrow> \<not> ce_Retry (Classify (Some e)))
   \<and> (ce_Retry (Classify (Some e)) \<longrightarrow>
        errors_As_net e = Some True
        \<or> (\<exists>s \<in> {ContextDeadlineExceeded, ErrUsageLimitExceeded, ErrWorkerLeaseExpired,
                  NetErrClosed, IoEOF, ECONNREFUSED, ECONNRESET, ETIMEDOUT}. errors_Is e s))"
proof (intro conjI)
  show "ce_Retry (Classify (Some e)) = Retryable (ce_Code (Classify (Some e)))"
    by (rule Classify_retry_iff)
  show "ce_Code (Classify (Some (Wrapped m e))) = ce_Code (Classify (Some e))"
    by (simp add: Classify_def)
qed (simp_all add: Classify_def)

theorem classify_coherent_witness:
  "\<not> ce_Retry (Classify (Some (Joined [Sentinel ContextDeadlineExceeded, Sentinel ContextCanceled])))
   \<and> ce_Retry (Classify (Some (Wrapped ''post'' (NetError True None))))"
  using classify_coherent [of "Joined [Sentinel ContextDeadlineExceeded, Sentinel ContextCanceled]" "''x''"]
  by (simp add: Classify_def)

end
