(* ===== verification/Execution_Store.thy ===== *)
theory Execution_Store
  imports Execution_Domain
begin

text \<open>
  The PostgreSQL adapter of the execution runtime
  (\<^verbatim>\<open>infrastructure/postgres/executions.go\<close>) over the tables of
  \<^verbatim>\<open>infrastructure/database/database.go\<close>. Each method is one transaction, so it is one
  function from the database to the database: a commit returns the new tables, an error
  leaves them as they were (the deferred \<^verbatim>\<open>tx.Rollback\<close>). \<^verbatim>\<open>NOW()\<close> and the
  identifiers a method generates are arguments. Row level security is the workspace
  condition of every query: \<^verbatim>\<open>app.current_workspace\<close> is bound to the workspace argument.
\<close>

subsection \<open>Tables\<close>

record ai_employee_row =
  em_ID :: uuid
  em_WorkspaceID :: uuid \<comment> \<open>reached through team and department\<close>
  em_MaxConcurrent :: int

record dlq_row =
  dq_WorkspaceID :: uuid
  dq_ExecutionID :: uuid
  dq_Attempt :: int
  dq_ErrorCode :: ErrorCode
  dq_Retryable :: bool
  dq_ErrorDetail :: "string option"
  dq_Snapshot :: "string option"

record dispatch_row =
  dl_WorkspaceID :: uuid
  dl_RetryID :: uuid
  dl_WorkerID :: string
  dl_Generation :: int
  dl_Success :: bool

text \<open>
  \<^verbatim>\<open>execution_contexts\<close>. The column \<^verbatim>\<open>workspace_id\<close> is declared \<^verbatim>\<open>UUID NOT NULL\<close>
  without a default, so the candidate row of an \<^verbatim>\<open>INSERT\<close> that does not name it carries
  \<open>None\<close> there.
\<close>

record context_row =
  cx_WorkspaceID :: "uuid option"
  cx_ExecutionID :: uuid
  cx_TaskTitle :: "string option"
  cx_TaskDescription :: "string option"
  cx_AIEmployeeName :: string
  cx_AIEmployeeRole :: string
  cx_TeamName :: "string option"
  cx_DepartmentName :: "string option"
  cx_Capabilities :: "string list"

record execdb =
  ai_executions :: "execution list"
  ai_execution_retries :: "retry list"
  ai_execution_dlq :: "dlq_row list"
  retry_dispatch_log :: "dispatch_row list"
  execution_contexts :: "context_row list"
  ai_employees :: "ai_employee_row list"
  task_keys :: "(uuid \<times> uuid) list" \<comment> \<open>(id, workspace) of the tasks: the target of the foreign key\<close>

definition nullableString :: "string \<Rightarrow> string option" where
  "nullableString s = (if s = [] then None else Some s)"

definition derefString :: "string option \<Rightarrow> string" where
  "derefString p = (case p of None \<Rightarrow> [] | Some s \<Rightarrow> s)"

text \<open>\<^verbatim>\<open>make_interval(secs => int(leaseTTL.Seconds()))\<close>: the lease is granted in whole seconds.\<close>

definition lease_interval :: "duration \<Rightarrow> duration" where
  "lease_interval ttl = quot ttl second * second"

subsection \<open>Admission\<close>

text \<open>
  The constraints PostgreSQL checks on an insert into \<^verbatim>\<open>ai_executions\<close>, in its order: the
  range of the INTEGER column and \<^verbatim>\<open>max_attempts > 0\<close>; the primary key and the partial
  unique index on the idempotency key (SQLSTATE 23505, which the adapter maps to
  \<^verbatim>\<open>ErrIdempotencyKey\<close>); the composite foreign key to \<^verbatim>\<open>tasks(id, workspace_id)\<close>.
\<close>

definition check_violation :: "execution \<Rightarrow> bool" where
  "check_violation e \<longleftrightarrow> \<not> (0 < ex_MaxAttempts e \<and> ex_MaxAttempts e < 2 ^ 31)"

definition unique_violation :: "execution \<Rightarrow> execdb \<Rightarrow> bool" where
  "unique_violation e db \<longleftrightarrow>
     (\<exists>r \<in> set (ai_executions db). ex_ID r = ex_ID e
        \<or> (ex_IdempotencyKey e \<noteq> None \<and> ex_WorkspaceID r = ex_WorkspaceID e
           \<and> ex_IdempotencyKey r = ex_IdempotencyKey e))"

definition fk_violation :: "execution \<Rightarrow> execdb \<Rightarrow> bool" where
  "fk_violation e db \<longleftrightarrow>
     (case ex_TaskID e of None \<Rightarrow> False | Some t \<Rightarrow> (t, ex_WorkspaceID e) \<notin> set (task_keys db))"

definition insert_execution :: "execution \<Rightarrow> execdb \<Rightarrow> (exec_error, execdb) result" where
  "insert_execution e db =
     (if check_violation e then Inl ErrDatabase
      else if unique_violation e db then Inl ErrIdempotencyKey
      else if fk_violation e db then Inl ErrDatabase
      else Inr (db\<lparr>ai_executions := ai_executions db @ [e]\<rparr>))"

definition outstanding :: "retry_state \<Rightarrow> bool" where
  "outstanding s \<longleftrightarrow> s = RetryPending \<or> s = RetryClaimed \<or> s = RetryDispatched"

lemma outstanding_simps [simp]:
  "outstanding RetryPending" "outstanding RetryClaimed" "outstanding RetryDispatched"
  "\<not> outstanding RetryProcessed"
  by (simp_all add: outstanding_def)

lemma outstanding_iff: "outstanding s \<longleftrightarrow> s \<noteq> RetryProcessed"
  by (cases s) simp_all

text \<open>
  An insert into \<^verbatim>\<open>ai_execution_retries\<close> is checked against the primary key, the partial
  unique index \<^verbatim>\<open>uq_ai_execution_retries_one_outstanding\<close> and \<^verbatim>\<open>retry_seq > 0\<close>.
\<close>

definition insert_retry :: "retry \<Rightarrow> execdb \<Rightarrow> (exec_error, execdb) result" where
  "insert_retry r db =
     (if (\<exists>q \<in> set (ai_execution_retries db). rt_ID q = rt_ID r
            \<or> (outstanding (rt_State q) \<and> outstanding (rt_State r)
               \<and> rt_ExecutionID q = rt_ExecutionID r \<and> rt_WorkspaceID q = rt_WorkspaceID r))
         \<or> rt_RetrySeq r \<le> 0
      then Inl ErrDatabase
      else Inr (db\<lparr>ai_execution_retries := ai_execution_retries db @ [r]\<rparr>))"

definition pending_retry :: "uuid \<Rightarrow> uuid \<Rightarrow> uuid \<Rightarrow> int \<Rightarrow> int \<Rightarrow> instant option \<Rightarrow> instant \<Rightarrow> retry" where
  "pending_retry rid exec ws seq gen next_at now =
     \<lparr>rt_ID = rid, rt_ExecutionID = exec, rt_WorkspaceID = ws, rt_RetrySeq = seq,
      rt_State = RetryPending, rt_Outcome = None, rt_WorkerID = None, rt_Generation = gen,
      rt_NextRetryAt = next_at, rt_ClaimedAt = None, rt_DispatchedAt = None,
      rt_CompletedAt = None, rt_CreatedAt = now\<rparr>"

definition insert_context :: "context_row \<Rightarrow> execdb \<Rightarrow> (exec_error, execdb) result" where
  "insert_context c db =
     (if cx_WorkspaceID c = None then Inl ErrDatabase \<comment> \<open>NOT NULL violation\<close>
      else if \<exists>q \<in> set (execution_contexts db). cx_ExecutionID q = cx_ExecutionID c then Inl ErrDatabase
      else Inr (db\<lparr>execution_contexts := execution_contexts db @ [c]\<rparr>))"

text \<open>The candidate row of the \<^verbatim>\<open>INSERT INTO execution_contexts (execution_id, ...)\<close>.\<close>

definition context_candidate :: "uuid \<Rightarrow> materialized \<Rightarrow> context_row" where
  "context_candidate exec m =
     \<lparr>cx_WorkspaceID = None, cx_ExecutionID = exec,
      cx_TaskTitle = nullableString (mr_TaskTitle m),
      cx_TaskDescription = nullableString (mr_TaskDescription m),
      cx_AIEmployeeName = mr_AIEmployeeName m, cx_AIEmployeeRole = mr_AIEmployeeRole m,
      cx_TeamName = nullableString (mr_TeamName m),
      cx_DepartmentName = nullableString (mr_DepartmentName m),
      cx_Capabilities = mr_Capabilities m\<rparr>"

definition new_execution :: "uuid \<Rightarrow> admit_request \<Rightarrow> string \<Rightarrow> instant \<Rightarrow> execution" where
  "new_execution eid req hash now =
     \<lparr>ex_ID = eid, ex_WorkspaceID = rq_WorkspaceID req, ex_AIEmployeeID = rq_AIEmployeeID req,
      ex_TaskID = rq_TaskID req, ex_Status = StatusPending, ex_Attempt = 0,
      ex_MaxAttempts = rq_MaxAttempts req, ex_IdempotencyKey = nullableString (rq_IdempotencyKey req),
      ex_RequestHash = hash, ex_LeaseOwner = None, ex_LeaseGeneration = 0,
      ex_LeaseExpiresAt = None, ex_NextRetryAt = None, ex_LastErrorCode = None,
      ex_Retryable = None, ex_ErrorDetail = None, ex_ResultJSON = None,
      ex_CompletedAt = None, ex_FailedAt = None, ex_CancelledAt = None,
      ex_CreatedAt = now, ex_UpdatedAt = now\<rparr>"

definition ActiveCount :: "execdb \<Rightarrow> uuid \<Rightarrow> uuid \<Rightarrow> nat" where
  "ActiveCount db ws emp =
     count_where (\<lambda>e. ex_WorkspaceID e = ws \<and> ex_AIEmployeeID e = emp \<and> active_status (ex_Status e))
       (ai_executions db)"

definition Capacity :: "execdb \<Rightarrow> uuid \<Rightarrow> uuid \<Rightarrow> (exec_error, int) result" where
  "Capacity db ws emp =
     (case find (\<lambda>m. em_ID m = emp \<and> em_WorkspaceID m = ws) (ai_employees db) of
        None \<Rightarrow> Inl ErrNotFound
      | Some m \<Rightarrow> Inr (em_MaxConcurrent m))"

definition Exec_GetByIdempotencyKey :: "execdb \<Rightarrow> uuid \<Rightarrow> string \<Rightarrow> (exec_error, execution) result" where
  "Exec_GetByIdempotencyKey db ws key =
     (case find (\<lambda>e. ex_WorkspaceID e = ws \<and> ex_IdempotencyKey e = Some key) (ai_executions db) of
        None \<Rightarrow> Inl ErrNotFound
      | Some e \<Rightarrow> Inr e)"

definition Exec_Get :: "execdb \<Rightarrow> uuid \<Rightarrow> uuid \<Rightarrow> (exec_error, execution) result" where
  "Exec_Get db ws eid =
     (case find (\<lambda>e. ex_ID e = eid \<and> ex_WorkspaceID e = ws) (ai_executions db) of
        None \<Rightarrow> Inl ErrNotFound
      | Some e \<Rightarrow> Inr e)"

text \<open>
  \<^verbatim>\<open>AdmissionAdmit\<close>: idempotency, capacity, then the three inserts of one transaction.
  \<open>eid\<close> and \<open>rid\<close> are the generated identifiers of the execution and its first retry,
  \<open>done_at\<close> the process clock (\<^verbatim>\<open>time.Now\<close>) read after the commit for the returned value.
\<close>

definition admit_insert ::
  "execdb \<Rightarrow> instant \<Rightarrow> uuid \<Rightarrow> uuid \<Rightarrow> instant \<Rightarrow> admit_request \<Rightarrow> string \<Rightarrow>
   (exec_error, execdb \<times> admit_result) result" where
  "admit_insert db now eid rid done_at req hash =
     (let exec = new_execution eid req hash now in
      case insert_execution exec db of
        Inl e \<Rightarrow> Inl e
      | Inr db1 \<Rightarrow>
          (case insert_retry (pending_retry rid eid (rq_WorkspaceID req) 1 0 None now) db1 of
             Inl e \<Rightarrow> Inl e
           | Inr db2 \<Rightarrow>
               (case (case rq_Context req of
                        None \<Rightarrow> Inr db2
                      | Some m \<Rightarrow> insert_context (context_candidate eid m) db2) of
                  Inl e \<Rightarrow> Inl e
                | Inr db3 \<Rightarrow> 
                    Inr (db3, \<lparr>ar_Execution = exec\<lparr>ex_CreatedAt := done_at, ex_UpdatedAt := done_at\<rparr>,
                               ar_Created = True, ar_Completed = False\<rparr>))))"

definition AdmissionAdmit ::
  "execdb \<Rightarrow> instant \<Rightarrow> uuid \<Rightarrow> uuid \<Rightarrow> instant \<Rightarrow> admit_request \<Rightarrow> string \<Rightarrow>
   (exec_error, execdb \<times> admit_result) result" where
  "AdmissionAdmit db now eid rid done_at req hash =
     (case (if rq_IdempotencyKey req \<noteq> []
            then find (\<lambda>e. ex_WorkspaceID e = rq_WorkspaceID req
                          \<and> ex_IdempotencyKey e = Some (rq_IdempotencyKey req)) (ai_executions db)
            else None) of
        Some existing \<Rightarrow>
          Inr (db, \<lparr>ar_Execution = existing, ar_Created = False,
                    ar_Completed = (ex_Status existing = StatusCompleted)\<rparr>)
      | None \<Rightarrow>
          (case Capacity db (rq_WorkspaceID req) (rq_AIEmployeeID req) of
             Inl e \<Rightarrow> Inl e
           | Inr cap \<Rightarrow>
               if int (ActiveCount db (rq_WorkspaceID req) (rq_AIEmployeeID req)) \<ge> cap
               then Inl ErrCapacityExceeded
               else admit_insert db now eid rid done_at req hash))"

subsection \<open>Cancel\<close>

definition Exec_Cancel :: "execdb \<Rightarrow> instant \<Rightarrow> uuid \<Rightarrow> uuid \<Rightarrow> (exec_error, execdb) result" where
  "Exec_Cancel db now ws eid =
     (let hit = (\<lambda>e. ex_ID e = eid \<and> ex_WorkspaceID e = ws \<and> active_status (ex_Status e)) in
      if count_where hit (ai_executions db) = 0
      then (if \<exists>e \<in> set (ai_executions db). ex_ID e = eid \<and> ex_WorkspaceID e = ws
            then Inr db \<comment> \<open>already terminal: idempotent cancel\<close>
            else Inl ErrNotFound)
      else Inr (db\<lparr>ai_executions :=
                     upd_where hit
                       (\<lambda>e. e\<lparr>ex_Status := StatusCancelled, ex_LastErrorCode := None, ex_Retryable := None,
                              ex_ErrorDetail := None, ex_LeaseOwner := None, ex_LeaseExpiresAt := None,
                              ex_CancelledAt := Some now\<rparr>) (ai_executions db),
                   ai_execution_retries :=
                     upd_where
                       (\<lambda>r. rt_ExecutionID r = eid \<and> rt_WorkspaceID r = ws \<and> outstanding (rt_State r))
                       (\<lambda>r. r\<lparr>rt_State := RetryProcessed, rt_Outcome := Some RetryCancelled,
                              rt_WorkerID := None, rt_CompletedAt := Some now\<rparr>)
                       (ai_execution_retries db)\<rparr>))"

subsection \<open>Work lists\<close>

definition due :: "instant \<Rightarrow> execution \<Rightarrow> bool" where
  "due now e \<longleftrightarrow>
     (case ex_NextRetryAt e of None \<Rightarrow> True | Some t \<Rightarrow> t \<le> now)"

text \<open>\<^verbatim>\<open>ORDER BY created_at ASC LIMIT $1\<close>; rows with the same key keep the table's order.\<close>

definition GetDue :: "execdb \<Rightarrow> instant \<Rightarrow> uuid \<Rightarrow> nat \<Rightarrow> uuid list" where
  "GetDue db now ws limit =
     map ex_ID (take limit (sort_key ex_CreatedAt
       (filter (\<lambda>e. ex_WorkspaceID e = ws \<and> ex_Status e = StatusPending \<and> due now e) (ai_executions db))))"

definition lease_expired :: "instant \<Rightarrow> execution \<Rightarrow> bool" where
  "lease_expired now e \<longleftrightarrow>
     (case ex_LeaseExpiresAt e of None \<Rightarrow> False | Some t \<Rightarrow> t < now)"

definition GetStale :: "execdb \<Rightarrow> instant \<Rightarrow> uuid \<Rightarrow> nat \<Rightarrow> uuid list" where
  "GetStale db now ws limit =
     map ex_ID (take limit (sort_key (\<lambda>e. the (ex_LeaseExpiresAt e))
       (filter (\<lambda>e. ex_WorkspaceID e = ws \<and> ex_Status e = StatusRunning \<and> lease_expired now e)
          (ai_executions db))))"

subsection \<open>Claim and reclaim\<close>

text \<open>
  \<^verbatim>\<open>Claim\<close>: one statement with two data-modifying CTEs joined on the row the first returns.
  Without a pending retry row the join is empty, the scan reports \<^verbatim>\<open>ErrNotFound\<close> and the
  transaction is rolled back.
\<close>

definition claimable :: "instant \<Rightarrow> uuid \<Rightarrow> uuid \<Rightarrow> execution \<Rightarrow> bool" where
  "claimable now ws eid e \<longleftrightarrow>
     ex_ID e = eid \<and> ex_WorkspaceID e = ws \<and> ex_Status e = StatusPending
     \<and> ex_Attempt e < ex_MaxAttempts e \<and> due now e"

definition claim_row :: "instant \<Rightarrow> string \<Rightarrow> duration \<Rightarrow> execution \<Rightarrow> execution" where
  "claim_row now worker ttl e =
     e\<lparr>ex_Status := StatusRunning, ex_Attempt := ex_Attempt e + 1, ex_LeaseOwner := Some worker,
       ex_LeaseGeneration := ex_LeaseGeneration e + 1,
       ex_LeaseExpiresAt := Some (now + lease_interval ttl)\<rparr>"

definition claimable_retry :: "uuid \<Rightarrow> uuid \<Rightarrow> retry \<Rightarrow> bool" where
  "claimable_retry ws eid r \<longleftrightarrow>
     rt_ExecutionID r = eid \<and> rt_WorkspaceID r = ws \<and> rt_State r = RetryPending"

definition fence_of :: "execution \<Rightarrow> uuid \<Rightarrow> fenced" where
  "fence_of e rid =
     \<lparr>fe_ExecutionID = ex_ID e, fe_WorkspaceID = ex_WorkspaceID e,
      fe_LeaseOwner = derefString (ex_LeaseOwner e), fe_LeaseGeneration = ex_LeaseGeneration e,
      fe_LeaseExpiresAt = (case ex_LeaseExpiresAt e of None \<Rightarrow> 0 | Some t \<Rightarrow> t),
      fe_Attempt = ex_Attempt e, fe_MaxAttempts = ex_MaxAttempts e, fe_RetryID = rid,
      fe_AIEmployeeID = ex_AIEmployeeID e, fe_LastErrorCode = None, fe_Retryable = None,
      fe_NextRetryAt = None\<rparr>"

definition Claim ::
  "execdb \<Rightarrow> instant \<Rightarrow> uuid \<Rightarrow> uuid \<Rightarrow> string \<Rightarrow> duration \<Rightarrow> (exec_error, execdb \<times> fenced) result" where
  "Claim db now ws eid worker ttl =
     (case find (claimable now ws eid) (ai_executions db) of
        None \<Rightarrow> Inl ErrNotFound
      | Some e \<Rightarrow>
          (case find (claimable_retry ws eid) (ai_execution_retries db) of
             None \<Rightarrow> Inl ErrNotFound
           | Some r \<Rightarrow>
               let e' = claim_row now worker ttl e in
               Inr (db\<lparr>ai_executions :=
                         upd_where (claimable now ws eid) (claim_row now worker ttl) (ai_executions db),
                       ai_execution_retries :=
                         upd_where (claimable_retry ws eid)
                           (\<lambda>r. r\<lparr>rt_State := RetryClaimed, rt_WorkerID := ex_LeaseOwner e',
                                  rt_Generation := ex_LeaseGeneration e', rt_ClaimedAt := Some now\<rparr>)
                           (ai_execution_retries db)\<rparr>,
                    fence_of e' (rt_ID r))))"

definition reclaimable :: "instant \<Rightarrow> uuid \<Rightarrow> uuid \<Rightarrow> execution \<Rightarrow> bool" where
  "reclaimable now ws eid e \<longleftrightarrow>
     ex_ID e = eid \<and> ex_WorkspaceID e = ws \<and> ex_Status e = StatusRunning \<and> lease_expired now e"

definition reclaim_row :: "instant \<Rightarrow> string \<Rightarrow> duration \<Rightarrow> execution \<Rightarrow> execution" where
  "reclaim_row now worker ttl e =
     e\<lparr>ex_LeaseOwner := Some worker, ex_LeaseGeneration := ex_LeaseGeneration e + 1,
       ex_LeaseExpiresAt := Some (now + lease_interval ttl)\<rparr>"

text \<open>
  \<^verbatim>\<open>ReclaimStale\<close>: its \<^verbatim>\<open>RETURNING\<close> looks for a retry in state \<^verbatim>\<open>pending\<close>; a SQL
  NULL scanned into a \<^verbatim>\<open>uuid.UUID\<close> leaves it \<^verbatim>\<open>uuid.Nil\<close>.
\<close>

definition ReclaimStale ::
  "execdb \<Rightarrow> instant \<Rightarrow> uuid \<Rightarrow> uuid \<Rightarrow> string \<Rightarrow> duration \<Rightarrow> (exec_error, execdb \<times> fenced) result" where
  "ReclaimStale db now ws eid worker ttl =
     (case find (reclaimable now ws eid) (ai_executions db) of
        None \<Rightarrow> Inl ErrNotFound
      | Some e \<Rightarrow>
          (let e' = reclaim_row now worker ttl e;
               rid = (case find (claimable_retry ws eid) (ai_execution_retries db) of
                        None \<Rightarrow> uuid_Nil | Some r \<Rightarrow> rt_ID r)
           in Inr (db\<lparr>ai_executions :=
                        upd_where (reclaimable now ws eid) (reclaim_row now worker ttl) (ai_executions db)\<rparr>,
                   (fence_of e' rid)\<lparr>fe_LastErrorCode := ex_LastErrorCode e,
                      fe_Retryable := ex_Retryable e, fe_NextRetryAt := ex_NextRetryAt e\<rparr>)))"

subsection \<open>Fenced writes\<close>

text \<open>The \<^verbatim>\<open>WHERE\<close> clause every write after a claim repeats.\<close>

definition fence_holds :: "fenced \<Rightarrow> execution \<Rightarrow> bool" where
  "fence_holds f e \<longleftrightarrow>
     ex_ID e = fe_ExecutionID f \<and> ex_WorkspaceID e = fe_WorkspaceID f \<and> ex_Status e = StatusRunning
     \<and> ex_LeaseOwner e = Some (fe_LeaseOwner f) \<and> ex_LeaseGeneration e = fe_LeaseGeneration f"

text \<open>\<^verbatim>\<open>UPDATE ai_executions ... WHERE <fence>\<close>, which must affect exactly one row.\<close>

definition fenced_update ::
  "fenced \<Rightarrow> (execution \<Rightarrow> execution) \<Rightarrow> execdb \<Rightarrow> (exec_error, execdb) result" where
  "fenced_update f upd db =
     (if count_where (fence_holds f) (ai_executions db) \<noteq> 1 then Inl ErrStaleLease
      else Inr (db\<lparr>ai_executions := upd_where (fence_holds f) upd (ai_executions db)\<rparr>))"

text \<open>Resolution of the claimed or dispatched retry, shared by the three finalisations.\<close>

definition resolve_retries :: "fenced \<Rightarrow> instant \<Rightarrow> retry_outcome \<Rightarrow> execdb \<Rightarrow> execdb" where
  "resolve_retries f now outcome db =
     db\<lparr>ai_execution_retries :=
          upd_where (\<lambda>r. rt_ExecutionID r = fe_ExecutionID f \<and> rt_WorkspaceID r = fe_WorkspaceID f
                         \<and> (rt_State r = RetryClaimed \<or> rt_State r = RetryDispatched))
            (\<lambda>r. r\<lparr>rt_State := RetryProcessed, rt_Outcome := Some outcome, rt_WorkerID := None,
                   rt_CompletedAt := Some now\<rparr>)
            (ai_execution_retries db)\<rparr>"

definition Heartbeat :: "execdb \<Rightarrow> instant \<Rightarrow> fenced \<Rightarrow> duration \<Rightarrow> (exec_error, execdb) result" where
  "Heartbeat db now f ttl =
     fenced_update f (\<lambda>e. e\<lparr>ex_LeaseExpiresAt := Some (now + lease_interval ttl)\<rparr>) db"

definition PersistError ::
  "execdb \<Rightarrow> instant \<Rightarrow> fenced \<Rightarrow> ErrorCode \<Rightarrow> bool \<Rightarrow> string \<Rightarrow> (exec_error, execdb) result" where
  "PersistError db now f code retryable detail =
     fenced_update f
       (\<lambda>e. e\<lparr>ex_LastErrorCode := Some code, ex_Retryable := Some retryable,
              ex_ErrorDetail := nullableString detail, ex_UpdatedAt := now\<rparr>) db"

definition Complete :: "execdb \<Rightarrow> instant \<Rightarrow> fenced \<Rightarrow> string \<Rightarrow> (exec_error, execdb) result" where
  "Complete db now f res =
     (case fenced_update f
             (\<lambda>e. e\<lparr>ex_Status := StatusCompleted, ex_ResultJSON := Some res, ex_CompletedAt := Some now,
                    ex_LeaseOwner := None, ex_LeaseExpiresAt := None, ex_UpdatedAt := now\<rparr>) db of
        Inl e \<Rightarrow> Inl e
      | Inr db1 \<Rightarrow> Inr (resolve_retries f now RetrySuccess db1))"

definition FailAndDLQ ::
  "execdb \<Rightarrow> instant \<Rightarrow> fenced \<Rightarrow> ErrorCode \<Rightarrow> string \<Rightarrow> string \<Rightarrow> (exec_error, execdb) result" where
  "FailAndDLQ db now f code detail snapshot =
     (case fenced_update f
             (\<lambda>e. e\<lparr>ex_Status := StatusFailed, ex_LastErrorCode := Some code, ex_Retryable := Some False,
                    ex_ErrorDetail := nullableString detail, ex_FailedAt := Some now,
                    ex_LeaseOwner := None, ex_LeaseExpiresAt := None, ex_UpdatedAt := now\<rparr>) db of
        Inl e \<Rightarrow> Inl e
      | Inr db1 \<Rightarrow>
          (let db2 = resolve_retries f now RetryFailed db1 in
           if code < 0 then Inl ErrDatabase \<comment> \<open>ai_execution_dlq_error_code_valid\<close>
           else Inr (db2\<lparr>ai_execution_dlq := ai_execution_dlq db2 @
                 [\<lparr>dq_WorkspaceID = fe_WorkspaceID f, dq_ExecutionID = fe_ExecutionID f,
                   dq_Attempt = fe_Attempt f, dq_ErrorCode = code, dq_Retryable = False,
                   dq_ErrorDetail = nullableString detail, dq_Snapshot = nullableString snapshot\<rparr>]\<rparr>)))"

definition Reschedule ::
  "execdb \<Rightarrow> instant \<Rightarrow> uuid \<Rightarrow> fenced \<Rightarrow> instant \<Rightarrow> int \<Rightarrow> (exec_error, execdb) result" where
  "Reschedule db now rid f nextRetryAt seq =
     (case fenced_update f
             (\<lambda>e. e\<lparr>ex_Status := StatusPending, ex_LeaseOwner := None, ex_LeaseExpiresAt := None,
                    ex_NextRetryAt := Some nextRetryAt, ex_UpdatedAt := now\<rparr>) db of
        Inl e \<Rightarrow> Inl e
      | Inr db1 \<Rightarrow>
          insert_retry (pending_retry rid (fe_ExecutionID f) (fe_WorkspaceID f) seq
                          (fe_LeaseGeneration f) (Some nextRetryAt) now)
            (resolve_retries f now RetryFailed db1))"

subsection \<open>Dispatch records and the context snapshot\<close>

definition RecordDispatch ::
  "execdb \<Rightarrow> instant \<Rightarrow> uuid \<Rightarrow> uuid \<Rightarrow> string \<Rightarrow> int \<Rightarrow> bool \<Rightarrow> execdb" where
  "RecordDispatch db now ws rid worker gen success =
     (let db1 = (if success
                 then db\<lparr>ai_execution_retries :=
                        upd_where (\<lambda>r. rt_ID r = rid \<and> rt_WorkspaceID r = ws \<and> rt_State r = RetryClaimed
                                       \<and> rt_WorkerID r = Some worker \<and> rt_Generation r = gen)
                          (\<lambda>r. r\<lparr>rt_State := RetryDispatched, rt_DispatchedAt := Some now\<rparr>)
                          (ai_execution_retries db)\<rparr>
                 else db)
      in if \<exists>r \<in> set (ai_execution_retries db1). rt_ID r = rid \<and> rt_WorkspaceID r = ws
              \<and> rt_WorkerID r = Some worker \<and> rt_Generation r = gen
              \<and> (rt_State r = RetryClaimed \<or> rt_State r = RetryDispatched)
         then db1\<lparr>retry_dispatch_log := retry_dispatch_log db1 @
                [\<lparr>dl_WorkspaceID = ws, dl_RetryID = rid, dl_WorkerID = worker, dl_Generation = gen,
                  dl_Success = success\<rparr>]\<rparr>
         else db1)"

definition Materialize :: "execdb \<Rightarrow> uuid \<Rightarrow> uuid \<Rightarrow> (exec_error, materialized) result" where
  "Materialize db ws eid =
     (case find (\<lambda>c. cx_ExecutionID c = eid \<and> cx_WorkspaceID c = Some ws) (execution_contexts db) of
        None \<Rightarrow> Inl ErrNotFound
      | Some c \<Rightarrow>
          Inr \<lparr>mr_TaskTitle = derefString (cx_TaskTitle c),
               mr_TaskDescription = derefString (cx_TaskDescription c),
               mr_AIEmployeeName = cx_AIEmployeeName c, mr_AIEmployeeRole = cx_AIEmployeeRole c,
               mr_TeamName = derefString (cx_TeamName c),
               mr_DepartmentName = derefString (cx_DepartmentName c),
               mr_Capabilities = cx_Capabilities c\<rparr>)"

lemma derefString_nullableString [simp]: "derefString (nullableString s) = s"
  by (simp add: derefString_def nullableString_def)

end
