(* ===== verification/Execution_Safety.thy ===== *)
theory Execution_Safety
  imports Execution_Store "HOL-Library.Sublist"
begin

text \<open>
  The execution runtime as a state machine: every process of the deployment (API,
  dispatchers, workers) changes the tables only through the transactions of
  \<open>Execution_Store\<close>, in any order and at any clock reading. The state pairs the tables
  with the fences handed out so far, which is what worker and recovery processes hold.
\<close>

subsection \<open>Steps\<close>

record runtime =
  tables :: execdb
  issued :: "fenced set"

definition initial_runtime :: "runtime \<Rightarrow> bool" where
  "initial_runtime s \<longleftrightarrow>
     ai_executions (tables s) = [] \<and> ai_execution_retries (tables s) = []
     \<and> ai_execution_dlq (tables s) = [] \<and> issued s = {}"

text \<open>
  A worker or the recovery pass writes with a fence it was given (\<open>f \<in> issued s\<close>), records
  an error code of the enumeration (none is negative) and reschedules only while attempts remain, with the sequence number after the failed attempt
  (\<^verbatim>\<open>worker.finalizeFailure\<close>, \<^verbatim>\<open>dispatcher.resolveRecovered\<close>).
\<close>

inductive exec_step :: "runtime \<Rightarrow> runtime \<Rightarrow> bool" where
  step_admit:
    "AdmissionAdmit (tables s) now eid rid done_at req hash = Inr (db, res) \<Longrightarrow>
     exec_step s (s\<lparr>tables := db\<rparr>)"
| step_claim:
    "Claim (tables s) now ws eid worker ttl = Inr (db, f) \<Longrightarrow>
     exec_step s (s\<lparr>tables := db, issued := insert f (issued s)\<rparr>)"
| step_reclaim:
    "ReclaimStale (tables s) now ws eid worker ttl = Inr (db, f) \<Longrightarrow>
     exec_step s (s\<lparr>tables := db, issued := insert f (issued s)\<rparr>)"
| step_heartbeat:
    "f \<in> issued s \<Longrightarrow> Heartbeat (tables s) now f ttl = Inr db \<Longrightarrow> exec_step s (s\<lparr>tables := db\<rparr>)"
| step_persist:
    "f \<in> issued s \<Longrightarrow> 0 \<le> code \<Longrightarrow> PersistError (tables s) now f code retryable detail = Inr db \<Longrightarrow>
     exec_step s (s\<lparr>tables := db\<rparr>)"
| step_complete:
    "f \<in> issued s \<Longrightarrow> Complete (tables s) now f res = Inr db \<Longrightarrow> exec_step s (s\<lparr>tables := db\<rparr>)"
| step_fail:
    "f \<in> issued s \<Longrightarrow> FailAndDLQ (tables s) now f code detail snapshot = Inr db \<Longrightarrow>
     exec_step s (s\<lparr>tables := db\<rparr>)"
| step_reschedule:
    "f \<in> issued s \<Longrightarrow> fe_Attempt f < fe_MaxAttempts f \<Longrightarrow>
     Reschedule (tables s) now rid f next_at (fe_Attempt f + 1) = Inr db \<Longrightarrow>
     exec_step s (s\<lparr>tables := db\<rparr>)"
| step_dispatch:
    "exec_step s (s\<lparr>tables := RecordDispatch (tables s) now ws rid worker gen success\<rparr>)"
| step_cancel:
    "Exec_Cancel (tables s) now ws eid = Inr db \<Longrightarrow> exec_step s (s\<lparr>tables := db\<rparr>)"

subsection \<open>The invariant\<close>

abbreviation execs :: "runtime \<Rightarrow> execution list" where
  "execs s \<equiv> ai_executions (tables s)"

definition retries_of :: "runtime \<Rightarrow> uuid \<Rightarrow> retry list" where
  "retries_of s i = filter (\<lambda>r. rt_ExecutionID r = i) (ai_execution_retries (tables s))"

definition dlq_of :: "runtime \<Rightarrow> uuid \<Rightarrow> dlq_row list" where
  "dlq_of s i = filter (\<lambda>d. dq_ExecutionID d = i) (ai_execution_dlq (tables s))"

definition fences_of :: "runtime \<Rightarrow> uuid \<Rightarrow> fenced set" where
  "fences_of s i = {f \<in> issued s. fe_ExecutionID f = i}"

text \<open>
  One row of \<^verbatim>\<open>ai_executions\<close>: the CHECK constraints of the table (attempt bounds, the lease
  fingerprint exactly while running) and that a pending execution can still be claimed.
\<close>

definition row_ok :: "execution \<Rightarrow> bool" where
  "row_ok e \<longleftrightarrow>
     0 \<le> ex_Attempt e \<and> ex_Attempt e \<le> ex_MaxAttempts e
     \<and> (ex_Status e = StatusPending \<longrightarrow> ex_Attempt e < ex_MaxAttempts e)
     \<and> (ex_LeaseOwner e \<noteq> None \<longleftrightarrow> ex_Status e = StatusRunning)
     \<and> (ex_LeaseExpiresAt e \<noteq> None \<longleftrightarrow> ex_Status e = StatusRunning)
     \<and> ex_Attempt e \<le> ex_LeaseGeneration e
     \<and> (\<forall>c. ex_LastErrorCode e = Some c \<longrightarrow> 0 \<le> c)"

text \<open>
  One row of \<^verbatim>\<open>ai_execution_retries\<close> against its execution: same workspace, a generation the
  execution has reached, and the worker fingerprint and outcome its state calls for.
\<close>

definition retry_ok :: "execution \<Rightarrow> retry \<Rightarrow> bool" where
  "retry_ok e r \<longleftrightarrow>
     rt_WorkspaceID r = ex_WorkspaceID e \<and> rt_Generation r \<le> ex_LeaseGeneration e
     \<and> (rt_State r = RetryProcessed \<longleftrightarrow> rt_Outcome r \<noteq> None)
     \<and> (rt_State r = RetryProcessed \<or> rt_State r = RetryPending \<longrightarrow> rt_WorkerID r = None)
     \<and> (rt_State r = RetryClaimed \<or> rt_State r = RetryDispatched \<longrightarrow> rt_WorkerID r \<noteq> None)"

definition in_flight :: "retry \<Rightarrow> bool" where
  "in_flight r \<longleftrightarrow> rt_State r = RetryClaimed \<or> rt_State r = RetryDispatched"

abbreviation is_pending :: "retry \<Rightarrow> bool" where
  "is_pending r \<equiv> rt_State r = RetryPending"

text \<open>
  How the retries of an execution follow its status: exactly one pending retry while it is
  pending, exactly one claimed or dispatched while it runs, none outstanding once terminal.
\<close>

definition retries_ok :: "execution \<Rightarrow> retry list \<Rightarrow> bool" where
  "retries_ok e R \<longleftrightarrow>
     (\<forall>r \<in> set R. retry_ok e r)
     \<and> count_where is_pending R = (if ex_Status e = StatusPending then 1 else 0)
     \<and> count_where in_flight R = (if ex_Status e = StatusRunning then 1 else 0)"

definition fence_ok :: "execution \<Rightarrow> fenced \<Rightarrow> bool" where
  "fence_ok e f \<longleftrightarrow>
     fe_WorkspaceID f = ex_WorkspaceID e \<and> fe_MaxAttempts f = ex_MaxAttempts e
     \<and> 1 \<le> fe_LeaseGeneration f \<and> fe_LeaseGeneration f \<le> ex_LeaseGeneration e
     \<and> (fe_LeaseGeneration f = ex_LeaseGeneration e \<longrightarrow> fe_Attempt f = ex_Attempt e)
     \<and> (fe_LeaseGeneration f = ex_LeaseGeneration e \<and> ex_Status e = StatusRunning \<longrightarrow>
          ex_LeaseOwner e = Some (fe_LeaseOwner f))"

definition fences_ok :: "execution \<Rightarrow> fenced set \<Rightarrow> bool" where
  "fences_ok e F \<longleftrightarrow>
     (\<forall>f \<in> F. fence_ok e f)
     \<and> (\<forall>f \<in> F. \<forall>g \<in> F. fe_LeaseGeneration f = fe_LeaseGeneration g \<longrightarrow> f = g)
     \<and> (ex_Status e = StatusRunning \<longrightarrow> (\<exists>f \<in> F. fe_LeaseGeneration f = ex_LeaseGeneration e))"

definition exec_ok :: "execution \<Rightarrow> retry list \<Rightarrow> dlq_row list \<Rightarrow> fenced set \<Rightarrow> bool" where
  "exec_ok e R D F \<longleftrightarrow>
     row_ok e \<and> retries_ok e R \<and> fences_ok e F
     \<and> length D = (if ex_Status e = StatusFailed then 1 else 0)"

definition exec_inv :: "runtime \<Rightarrow> bool" where
  "exec_inv s \<longleftrightarrow>
     distinct (map ex_ID (execs s))
     \<and> distinct (map rt_ID (ai_execution_retries (tables s)))
     \<and> (\<forall>i. i \<notin> ex_ID ` set (execs s) \<longrightarrow> retries_of s i = [] \<and> dlq_of s i = [] \<and> fences_of s i = {})
     \<and> (\<forall>e \<in> set (execs s).
          exec_ok e (retries_of s (ex_ID e)) (dlq_of s (ex_ID e)) (fences_of s (ex_ID e)))"

lemmas exec_inv_defs = exec_inv_def exec_ok_def row_ok_def retries_ok_def fences_ok_def fence_ok_def retry_ok_def

lemma exec_inv_initial: "initial_runtime s \<Longrightarrow> exec_inv s"
  by (simp add: initial_runtime_def exec_inv_def retries_of_def dlq_of_def fences_of_def)

lemma exec_inv_distinct: "exec_inv s \<Longrightarrow> distinct (map ex_ID (execs s))"
  by (simp add: exec_inv_def)

lemma exec_invD:
  "exec_inv s \<Longrightarrow> e \<in> set (execs s) \<Longrightarrow>
   exec_ok e (retries_of s (ex_ID e)) (dlq_of s (ex_ID e)) (fences_of s (ex_ID e))"
  by (simp add: exec_inv_def)

text \<open>
  The frame: a step that changes the row of one execution, its retries, its dead letters and
  its fences only has to re-establish the invariant of that execution.
\<close>

lemma exec_inv_frame:
  assumes inv: "exec_inv s" and e: "e \<in> set (execs s)" "ex_ID e = i"
    and ex: "execs t = upd_where (\<lambda>x. ex_ID x = i) f (execs s)" and key: "\<And>x. ex_ID (f x) = ex_ID x"
    and rt: "distinct (map rt_ID (ai_execution_retries (tables t)))"
    and other: "\<And>j. j \<noteq> i \<Longrightarrow> retries_of t j = retries_of s j \<and> dlq_of t j = dlq_of s j \<and> fences_of t j = fences_of s j"
    and self: "exec_ok (f e) (retries_of t i) (dlq_of t i) (fences_of t i)"
  shows "exec_inv t"
proof -
  have keys: "map ex_ID (execs t) = map ex_ID (execs s)"
    unfolding ex by (rule map_upd_where_key) (rule key)
  then have ids: "ex_ID ` set (execs t) = ex_ID ` set (execs s)"
    by (metis set_map)
  have dist: "distinct (map ex_ID (execs t))"
    unfolding keys using inv by (rule exec_inv_distinct)
  have "exec_ok x (retries_of t (ex_ID x)) (dlq_of t (ex_ID x)) (fences_of t (ex_ID x))"
    if x: "x \<in> set (execs t)" for x
  proof -
    from x obtain y where y: "y \<in> set (execs s)" "x = (if ex_ID y = i then f y else y)"
      unfolding ex by (auto simp: set_upd_where)
    show ?thesis
    proof (cases "ex_ID y = i")
      case True
      with e y(1) have "y = e"
        using exec_inv_distinct [OF inv] by (metis distinct_map_keyD)
      with True y(2) self key e(2) show ?thesis by simp
    next
      case False
      then show ?thesis
        using exec_invD [OF inv y(1)] other [OF False] y(2) by simp
    qed
  qed
  moreover have "retries_of t j = [] \<and> dlq_of t j = [] \<and> fences_of t j = {}"
    if "j \<notin> ex_ID ` set (execs t)" for j
  proof -
    from that ids e have "j \<noteq> i" "j \<notin> ex_ID ` set (execs s)"
      by auto
    then show ?thesis
      using inv other [of j] by (simp add: exec_inv_def)
  qed
  ultimately show ?thesis
    using dist rt by (simp add: exec_inv_def)
qed

subsection \<open>Every transaction keeps the invariant\<close>

lemma retries_of_mem: "r \<in> set (retries_of s i) \<longleftrightarrow> r \<in> set (ai_execution_retries (tables s)) \<and> rt_ExecutionID r = i"
  by (auto simp: retries_of_def)

lemma fenced_updateE:
  assumes "fenced_update f upd db = Inr db1" and "distinct (map ex_ID (ai_executions db))"
  obtains e where "e \<in> set (ai_executions db)" "fence_holds f e"
    "db1 = db\<lparr>ai_executions := upd_where (\<lambda>x. ex_ID x = fe_ExecutionID f) upd (ai_executions db)\<rparr>"
proof -
  from assms(1) have one: "count_where (fence_holds f) (ai_executions db) = 1"
    and db1: "db1 = db\<lparr>ai_executions := upd_where (fence_holds f) upd (ai_executions db)\<rparr>"
    by (auto simp: fenced_update_def split: if_splits)
  from one obtain e where e: "e \<in> set (ai_executions db)" "fence_holds f e"
    by (metis count_where_pos_iff zero_less_one)
  then have "upd_where (fence_holds f) upd (ai_executions db) =
      upd_where (\<lambda>x. ex_ID x = ex_ID e) upd (ai_executions db)"
    using assms(2) by (intro upd_where_key) (auto simp: fence_holds_def)
  with db1 e show ?thesis
    by (intro that [of e]) (auto simp: fence_holds_def)
qed

text \<open>A fenced write that touches the execution row only (heartbeat, error record).\<close>

lemma fenced_update_inv:
  assumes inv: "exec_inv s" and ok: "fenced_update f upd (tables s) = Inr db"
    and key: "\<And>x. ex_ID (upd x) = ex_ID x"
    and row: "\<And>e R D F. fence_holds f e \<Longrightarrow> exec_ok e R D F \<Longrightarrow> exec_ok (upd e) R D F"
  shows "exec_inv (s\<lparr>tables := db\<rparr>)"
proof -
  obtain e where e: "e \<in> set (execs s)" "fence_holds f e"
    and db: "db = (tables s)\<lparr>ai_executions := upd_where (\<lambda>x. ex_ID x = fe_ExecutionID f) upd (execs s)\<rparr>"
    using fenced_updateE [OF ok exec_inv_distinct [OF inv]] by blast
  from e(2) have i: "ex_ID e = fe_ExecutionID f"
    by (simp add: fence_holds_def)
  have same: "retries_of (s\<lparr>tables := db\<rparr>) j = retries_of s j" "dlq_of (s\<lparr>tables := db\<rparr>) j = dlq_of s j"
    "fences_of (s\<lparr>tables := db\<rparr>) j = fences_of s j" for j
    by (simp_all add: db retries_of_def dlq_of_def fences_of_def)
  show ?thesis
  proof (rule exec_inv_frame [OF inv e(1) i, where f = upd])
    show "exec_ok (upd e) (retries_of (s\<lparr>tables := db\<rparr>) (fe_ExecutionID f))
        (dlq_of (s\<lparr>tables := db\<rparr>) (fe_ExecutionID f)) (fences_of (s\<lparr>tables := db\<rparr>) (fe_ExecutionID f))"
      using row [OF e(2)] exec_invD [OF inv e(1)] i by (simp add: same)
    show "distinct (map rt_ID (ai_execution_retries (tables (s\<lparr>tables := db\<rparr>))))"
      using inv by (simp add: db exec_inv_def)
  qed (simp_all add: same key, simp add: db)
qed

lemma Heartbeat_inv: "exec_inv s \<Longrightarrow> Heartbeat (tables s) now f ttl = Inr db \<Longrightarrow> exec_inv (s\<lparr>tables := db\<rparr>)"
  unfolding Heartbeat_def
  by (erule (1) fenced_update_inv) (auto simp: exec_inv_defs fence_holds_def)

lemma PersistError_inv:
  "exec_inv s \<Longrightarrow> 0 \<le> code \<Longrightarrow> PersistError (tables s) now f code b detail = Inr db \<Longrightarrow> exec_inv (s\<lparr>tables := db\<rparr>)"
  unfolding PersistError_def
  by (erule fenced_update_inv, assumption) (auto simp: exec_inv_defs fence_holds_def)

text \<open>The retries of the execution after its claimed or dispatched retry is resolved.\<close>

abbreviation processed :: "instant \<Rightarrow> retry_outcome \<Rightarrow> retry \<Rightarrow> retry" where
  "processed now outcome r \<equiv>
     r\<lparr>rt_State := RetryProcessed, rt_Outcome := Some outcome, rt_WorkerID := None, rt_CompletedAt := Some now\<rparr>"

lemma resolve_retries_of:
  assumes "\<forall>r \<in> set (retries_of s j). rt_WorkspaceID r = fe_WorkspaceID f \<or> j \<noteq> fe_ExecutionID f"
  shows "filter (\<lambda>r. rt_ExecutionID r = j) (ai_execution_retries (resolve_retries f now out (tables s))) =
     (if j = fe_ExecutionID f then upd_where in_flight (processed now out) (retries_of s j) else retries_of s j)"
proof -
  let ?Q = "\<lambda>r. rt_ExecutionID r = fe_ExecutionID f \<and> rt_WorkspaceID r = fe_WorkspaceID f
                 \<and> (rt_State r = RetryClaimed \<or> rt_State r = RetryDispatched)"
  have "filter (\<lambda>r. rt_ExecutionID r = j) (ai_execution_retries (resolve_retries f now out (tables s)))
      = upd_where ?Q (processed now out) (retries_of s j)"
    by (simp add: resolve_retries_def filter_upd_where retries_of_def)
  also have "\<dots> = (if j = fe_ExecutionID f then upd_where in_flight (processed now out) (retries_of s j)
                    else retries_of s j)"
  proof (cases "j = fe_ExecutionID f")
    case True
    with assms show ?thesis
      by (auto simp: retries_of_mem in_flight_def intro!: upd_where_cong)
  next
    case False
    then show ?thesis by (auto simp: retries_of_mem intro: upd_where_none)
  qed
  finally show ?thesis .
qed

lemma resolve_keys:
  "map rt_ID (ai_execution_retries (resolve_retries f now out db)) = map rt_ID (ai_execution_retries db)"
  by (simp add: resolve_retries_def map_upd_where_key)

lemma retries_ok_resolved:
  assumes "retries_ok e R" "ex_Status e = StatusRunning"
    and "ex_Status e' \<noteq> StatusPending" "ex_Status e' \<noteq> StatusRunning"
    and "ex_WorkspaceID e' = ex_WorkspaceID e" "ex_LeaseGeneration e' = ex_LeaseGeneration e"
  shows "retries_ok e' (upd_where in_flight (processed now out) R)"
proof -
  have "count_where is_pending (upd_where in_flight (processed now out) R) = count_where is_pending R"
    by (simp add: count_where_upd) (rule count_where_cong, auto simp: in_flight_def)
  moreover have "count_where in_flight (upd_where in_flight (processed now out) R) = 0"
    by (auto simp: count_where_upd count_where_0_iff in_flight_def)
  ultimately show ?thesis
    using assms by (auto simp: retries_ok_def set_upd_where retry_ok_def in_flight_def)
qed

lemma views_tables:
  "retries_of (s\<lparr>tables := T\<rparr>) i = filter (\<lambda>r. rt_ExecutionID r = i) (ai_execution_retries T)"
  "dlq_of (s\<lparr>tables := T\<rparr>) i = filter (\<lambda>d. dq_ExecutionID d = i) (ai_execution_dlq T)"
  "fences_of (s\<lparr>tables := T\<rparr>) i = fences_of s i"
  by (simp_all add: retries_of_def dlq_of_def fences_of_def)

lemma views_issue:
  "retries_of (s\<lparr>tables := T, issued := I\<rparr>) i = filter (\<lambda>r. rt_ExecutionID r = i) (ai_execution_retries T)"
  "dlq_of (s\<lparr>tables := T, issued := I\<rparr>) i = filter (\<lambda>d. dq_ExecutionID d = i) (ai_execution_dlq T)"
  "fences_of (s\<lparr>tables := T, issued := I\<rparr>) i = {f \<in> I. fe_ExecutionID f = i}"
  by (simp_all add: retries_of_def dlq_of_def fences_of_def)

lemma filter_all_or_none:
  "\<forall>x \<in> set xs. k x = a \<Longrightarrow> filter (\<lambda>x. k x = j) xs = (if j = a then xs else [])"
  by (induction xs) auto

text \<open>
  A fenced write that moves the execution out of \<^verbatim>\<open>running\<close> and resolves its retry: the
  three finalisations differ in the new row, the rows appended to the retries and the dead
  letters.
\<close>

lemma finalise_inv:
  assumes inv: "exec_inv s" and ok: "fenced_update f upd (tables s) = Inr db1"
    and key: "\<And>x. ex_ID (upd x) = ex_ID x"
    and exs: "ai_executions db = ai_executions db1"
    and rts: "ai_execution_retries db = ai_execution_retries (resolve_retries f now out (tables s)) @ extra"
    and new: "\<forall>r \<in> set extra. rt_ExecutionID r = fe_ExecutionID f"
    and dist: "distinct (map rt_ID (ai_execution_retries (tables s) @ extra))"
    and dlq: "ai_execution_dlq db = ai_execution_dlq (tables s) @ dead"
    and dead: "\<forall>d \<in> set dead. dq_ExecutionID d = fe_ExecutionID f"
    and row: "\<And>e R D F. fence_holds f e \<Longrightarrow> exec_ok e R D F \<Longrightarrow>
        f \<in> issued s \<longrightarrow> f \<in> F \<Longrightarrow>
        exec_ok (upd e) (upd_where in_flight (processed now out) R @ extra) (D @ dead) F"
  shows "exec_inv (s\<lparr>tables := db\<rparr>)"
proof -
  obtain e where e: "e \<in> set (execs s)" "fence_holds f e"
    and db1: "db1 = (tables s)\<lparr>ai_executions := upd_where (\<lambda>x. ex_ID x = fe_ExecutionID f) upd (execs s)\<rparr>"
    using fenced_updateE [OF ok exec_inv_distinct [OF inv]] by blast
  let ?i = "fe_ExecutionID f"
  from e(2) have i: "ex_ID e = ?i" and ws: "ex_WorkspaceID e = fe_WorkspaceID f"
    by (simp_all add: fence_holds_def)
  have eok: "exec_ok e (retries_of s ?i) (dlq_of s ?i) (fences_of s ?i)"
    using exec_invD [OF inv e(1)] i by simp
  have rws: "\<forall>r \<in> set (retries_of s j). rt_WorkspaceID r = fe_WorkspaceID f \<or> j \<noteq> ?i" for j
    using eok ws by (auto simp: exec_ok_def retries_ok_def retry_ok_def)
  have R: "retries_of (s\<lparr>tables := db\<rparr>) j =
      (if j = ?i then upd_where in_flight (processed now out) (retries_of s j) @ extra else retries_of s j)" for j
    using resolve_retries_of [OF rws, where now = now and out = out] filter_all_or_none [OF new]
    by (simp add: views_tables rts)
  have D: "dlq_of (s\<lparr>tables := db\<rparr>) j = (if j = ?i then dlq_of s j @ dead else dlq_of s j)" for j
    using filter_all_or_none [OF dead] by (simp add: views_tables dlq dlq_of_def)
  have F: "fences_of (s\<lparr>tables := db\<rparr>) j = fences_of s j" for j
    by (simp add: views_tables)
  have mem: "f \<in> issued s \<longrightarrow> f \<in> fences_of s ?i"
    by (simp add: fences_of_def)
  show ?thesis
  proof (rule exec_inv_frame [OF inv e(1) i, where f = upd])
    show "exec_ok (upd e) (retries_of (s\<lparr>tables := db\<rparr>) ?i) (dlq_of (s\<lparr>tables := db\<rparr>) ?i) (fences_of (s\<lparr>tables := db\<rparr>) ?i)"
      using row [OF e(2) eok mem] by (simp add: R D F)
    have "map rt_ID (ai_execution_retries db) = map rt_ID (ai_execution_retries (tables s) @ extra)"
      by (simp add: rts resolve_retries_def map_upd_where_key)
    with dist show "distinct (map rt_ID (ai_execution_retries (tables (s\<lparr>tables := db\<rparr>))))"
      by simp
  qed (simp_all add: R D F key exs db1)
qed

lemma fences_ok_weaken:
  assumes "fences_ok e F" "ex_WorkspaceID e' = ex_WorkspaceID e" "ex_MaxAttempts e' = ex_MaxAttempts e"
    "ex_LeaseGeneration e' = ex_LeaseGeneration e" "ex_Attempt e' = ex_Attempt e" "ex_Status e' \<noteq> StatusRunning"
  shows "fences_ok e' F"
  using assms by (auto simp: fences_ok_def fence_ok_def)

lemma Complete_inv:
  assumes inv: "exec_inv s" and ok: "Complete (tables s) now f res = Inr db"
  shows "exec_inv (s\<lparr>tables := db\<rparr>)"
proof -
  from ok obtain db1 where
    u: "fenced_update f (\<lambda>e. e\<lparr>ex_Status := StatusCompleted, ex_ResultJSON := Some res, ex_CompletedAt := Some now,
          ex_LeaseOwner := None, ex_LeaseExpiresAt := None, ex_UpdatedAt := now\<rparr>) (tables s) = Inr db1"
    and db: "db = resolve_retries f now RetrySuccess db1"
    by (auto simp: Complete_def split: sum.splits)
  have rest: "ai_execution_retries db1 = ai_execution_retries (tables s)" "ai_execution_dlq db1 = ai_execution_dlq (tables s)"
    using u by (auto simp: fenced_update_def split: if_splits)
  show ?thesis
  proof (rule finalise_inv [OF inv u, where extra = "[]" and dead = "[]" and now = now and out = RetrySuccess])
    fix e R D F
    assume h: "fence_holds f e" "exec_ok e R D F"
    then show "exec_ok (e\<lparr>ex_Status := StatusCompleted, ex_ResultJSON := Some res, ex_CompletedAt := Some now,
        ex_LeaseOwner := None, ex_LeaseExpiresAt := None, ex_UpdatedAt := now\<rparr>)
        (upd_where in_flight (processed now RetrySuccess) R @ []) (D @ []) F"
      by (auto simp: exec_ok_def row_ok_def fence_holds_def intro: fences_ok_weaken [of e] retries_ok_resolved [of e])
  qed (use inv in \<open>auto simp: db resolve_retries_def rest exec_inv_def\<close>)
qed

lemma FailAndDLQ_inv:
  assumes inv: "exec_inv s" and ok: "FailAndDLQ (tables s) now f code detail snapshot = Inr db"
  shows "exec_inv (s\<lparr>tables := db\<rparr>)"
proof -
  let ?upd = "\<lambda>e. e\<lparr>ex_Status := StatusFailed, ex_LastErrorCode := Some code, ex_Retryable := Some False,
       ex_ErrorDetail := nullableString detail, ex_FailedAt := Some now,
       ex_LeaseOwner := None, ex_LeaseExpiresAt := None, ex_UpdatedAt := now\<rparr>"
  let ?dead = "[\<lparr>dq_WorkspaceID = fe_WorkspaceID f, dq_ExecutionID = fe_ExecutionID f,
       dq_Attempt = fe_Attempt f, dq_ErrorCode = code, dq_Retryable = False,
       dq_ErrorDetail = nullableString detail, dq_Snapshot = nullableString snapshot\<rparr>]"
  from ok obtain db1 where u: "fenced_update f ?upd (tables s) = Inr db1"
    and db: "db = (resolve_retries f now RetryFailed db1)\<lparr>ai_execution_dlq := ai_execution_dlq db1 @ ?dead\<rparr>"
    and code: "0 \<le> code"
    by (auto simp: FailAndDLQ_def Let_def resolve_retries_def split: sum.splits if_splits)
  have rest: "ai_execution_retries db1 = ai_execution_retries (tables s)" "ai_execution_dlq db1 = ai_execution_dlq (tables s)"
    using u by (auto simp: fenced_update_def split: if_splits)
  show ?thesis
  proof (rule finalise_inv [OF inv u, where extra = "[]" and dead = ?dead and now = now and out = RetryFailed])
    fix e R D F
    assume h: "fence_holds f e" "exec_ok e R D F"
    then show "exec_ok (?upd e) (upd_where in_flight (processed now RetryFailed) R @ []) (D @ ?dead) F"
      using code by (auto simp: exec_ok_def row_ok_def fence_holds_def intro: fences_ok_weaken [of e] retries_ok_resolved [of e])
  qed (use inv in \<open>auto simp: db resolve_retries_def rest exec_inv_def\<close>)
qed

lemma retries_ok_rescheduled:
  assumes ok: "retries_ok e R" and run: "ex_Status e = StatusRunning"
    and e': "ex_Status e' = StatusPending" "ex_WorkspaceID e' = ex_WorkspaceID e"
      "ex_LeaseGeneration e' = ex_LeaseGeneration e"
    and r: "rt_State r = RetryPending" "retry_ok e' r"
  shows "retries_ok e' (upd_where in_flight (processed now out) R @ [r])"
proof -
  have "retries_ok (e'\<lparr>ex_Status := StatusFailed\<rparr>) (upd_where in_flight (processed now out) R)"
    using ok run e' by (intro retries_ok_resolved [of e]) simp_all
  with r e' show ?thesis
    by (auto simp: retries_ok_def retry_ok_def in_flight_def)
qed

lemma insert_retry_Inr:
  "insert_retry r db = Inr db' \<Longrightarrow>
   db' = db\<lparr>ai_execution_retries := ai_execution_retries db @ [r]\<rparr>
   \<and> rt_ID r \<notin> rt_ID ` set (ai_execution_retries db)"
  by (auto simp: insert_retry_def split: if_splits)

lemma Reschedule_inv:
  assumes inv: "exec_inv s" and f: "f \<in> issued s" "fe_Attempt f < fe_MaxAttempts f"
    and ok: "Reschedule (tables s) now rid f next_at seq = Inr db"
  shows "exec_inv (s\<lparr>tables := db\<rparr>)"
proof -
  let ?upd = "\<lambda>e. e\<lparr>ex_Status := StatusPending, ex_LeaseOwner := None, ex_LeaseExpiresAt := None,
       ex_NextRetryAt := Some next_at, ex_UpdatedAt := now\<rparr>"
  let ?r = "pending_retry rid (fe_ExecutionID f) (fe_WorkspaceID f) seq (fe_LeaseGeneration f) (Some next_at) now"
  from ok obtain db1 where u: "fenced_update f ?upd (tables s) = Inr db1"
    and ins: "insert_retry ?r (resolve_retries f now RetryFailed db1) = Inr db"
    by (auto simp: Reschedule_def split: sum.splits)
  have rest: "ai_execution_retries db1 = ai_execution_retries (tables s)" "ai_execution_dlq db1 = ai_execution_dlq (tables s)"
    using u by (auto simp: fenced_update_def split: if_splits)
  from insert_retry_Inr [OF ins]
  have db: "db = (resolve_retries f now RetryFailed db1)\<lparr>ai_execution_retries :=
       ai_execution_retries (resolve_retries f now RetryFailed db1) @ [?r]\<rparr>"
    and fresh: "rid \<notin> rt_ID ` set (ai_execution_retries (resolve_retries f now RetryFailed db1))"
    by (simp_all add: pending_retry_def)
  have "rid \<notin> rt_ID ` set (ai_execution_retries (tables s))"
    using fresh resolve_keys [of f now RetryFailed db1] by (metis rest(1) set_map)
  then have dist: "distinct (map rt_ID (ai_execution_retries (tables s) @ [?r]))"
    using inv by (auto simp: exec_inv_def pending_retry_def)
  show ?thesis
  proof (rule finalise_inv [OF inv u _ _ _ _ dist, where dead = "[]" and now = now and out = RetryFailed])
    fix e R D F
    assume h: "fence_holds f e" "exec_ok e R D F" "f \<in> issued s \<longrightarrow> f \<in> F"
    then have "fence_ok e f" "retries_ok e R" "fences_ok e F"
      using f by (auto simp: exec_ok_def fences_ok_def)
    moreover from this h have "retries_ok (?upd e) (upd_where in_flight (processed now RetryFailed) R @ [?r])"
      by (intro retries_ok_rescheduled [of e]) (auto simp: fence_holds_def pending_retry_def retry_ok_def)
    moreover have "fences_ok (?upd e) F"
      using \<open>fences_ok e F\<close> by (rule fences_ok_weaken) simp_all
    ultimately show "exec_ok (?upd e) (upd_where in_flight (processed now RetryFailed) R @ [?r]) (D @ []) F"
      using h f by (auto simp: exec_ok_def row_ok_def fence_holds_def fence_ok_def)
  qed (auto simp: db resolve_retries_def rest pending_retry_def)
qed

text \<open>
  A claim or a reclaim gives the row the next lease generation and hands out the fence of
  that generation; the earlier fences keep their smaller generations.
\<close>

lemma fences_ok_issue:
  assumes ok: "fences_ok e F" and e': "ex_WorkspaceID e' = ex_WorkspaceID e" "ex_MaxAttempts e' = ex_MaxAttempts e"
      "ex_LeaseGeneration e' = ex_LeaseGeneration e + 1"
    and gen: "0 \<le> ex_LeaseGeneration e"
    and f: "fe_LeaseGeneration f = ex_LeaseGeneration e'" "fe_WorkspaceID f = ex_WorkspaceID e'"
      "fe_MaxAttempts f = ex_MaxAttempts e'" "fe_Attempt f = ex_Attempt e'" "ex_LeaseOwner e' = Some (fe_LeaseOwner f)"
  shows "fences_ok e' (insert f F)"
proof -
  have old: "fe_LeaseGeneration g < ex_LeaseGeneration e'" if "g \<in> F" for g
    using ok e' that by (auto simp: fences_ok_def fence_ok_def)
  have "fence_ok e' g" if "g \<in> F" for g
    using ok e' old [OF that] that by (auto simp: fences_ok_def fence_ok_def)
  moreover have "fence_ok e' f"
    using f gen e' by (simp add: fence_ok_def)
  moreover have "g = h" if "g \<in> insert f F" "h \<in> insert f F" "fe_LeaseGeneration g = fe_LeaseGeneration h" for g h
    using that old [of g] old [of h] ok f(1) by (auto simp: fences_ok_def)
  ultimately show ?thesis using f(1) by (simp add: fences_ok_def)
qed

lemma local_inv:
  assumes inv: "exec_inv s" and e: "e \<in> set (execs s)" "ex_ID e = i"
    and exs: "ai_executions db = upd_where (\<lambda>x. ex_ID x = i) upd (execs s)" and key: "\<And>x. ex_ID (upd x) = ex_ID x"
    and rts: "ai_execution_retries db = upd_where Q g (ai_execution_retries (tables s))"
    and Q: "\<And>r. r \<in> set (ai_execution_retries (tables s)) \<Longrightarrow> Q r \<longleftrightarrow> rt_ExecutionID r = i \<and> P r"
    and g: "\<And>r. rt_ID (g r) = rt_ID r" "\<And>r. rt_ExecutionID (g r) = rt_ExecutionID r"
    and dlq: "ai_execution_dlq db = ai_execution_dlq (tables s)" and N: "\<forall>f \<in> N. fe_ExecutionID f = i"
    and row: "exec_ok (upd e) (upd_where P g (retries_of s i)) (dlq_of s i) (N \<union> fences_of s i)"
  shows "exec_inv (s\<lparr>tables := db, issued := N \<union> issued s\<rparr>)" (is "exec_inv ?t")
proof -
  have R: "retries_of ?t j = (if j = i then upd_where P g (retries_of s i) else retries_of s j)" for j
  proof -
    have "retries_of ?t j = upd_where Q g (retries_of s j)"
      using g(2) by (simp add: views_issue rts filter_upd_where retries_of_def)
    moreover have "upd_where Q g (retries_of s i) = upd_where P g (retries_of s i)"
      by (rule upd_where_cong) (auto simp: Q retries_of_mem)
    moreover have "j \<noteq> i \<Longrightarrow> upd_where Q g (retries_of s j) = retries_of s j"
      by (rule upd_where_none) (auto simp: Q retries_of_mem)
    ultimately show ?thesis by auto
  qed
  have D: "dlq_of ?t j = dlq_of s j" for j
    by (simp add: views_issue dlq dlq_of_def)
  have F: "fences_of ?t j = (if j = i then N \<union> fences_of s i else fences_of s j)" for j
    using N by (auto simp: fences_of_def)
  show ?thesis
  proof (rule exec_inv_frame [OF inv e, where f = upd])
    show "exec_ok (upd e) (retries_of ?t i) (dlq_of ?t i) (fences_of ?t i)"
      using row by (simp add: R D F)
    show "distinct (map rt_ID (ai_execution_retries (tables ?t)))"
      using inv g(1) by (simp add: rts map_upd_where_key exec_inv_def)
  qed (simp_all add: R D F key exs)
qed

lemma retries_ok_claimed:
  assumes "retries_ok e R" "ex_Status e = StatusPending" "ex_WorkspaceID e' = ex_WorkspaceID e"
    "ex_LeaseGeneration e \<le> ex_LeaseGeneration e'" "ex_Status e' = StatusRunning"
  shows "retries_ok e' (upd_where is_pending
     (\<lambda>r. r\<lparr>rt_State := RetryClaimed, rt_WorkerID := Some w, rt_Generation := ex_LeaseGeneration e', rt_ClaimedAt := t\<rparr>) R)"
    (is "retries_ok e' (upd_where is_pending ?g R)")
proof -
  have "count_where is_pending (upd_where is_pending ?g R) = 0"
    by (auto simp: count_where_upd count_where_0_iff)
  moreover have "count_where in_flight (upd_where is_pending ?g R) = count_where (\<lambda>r. is_pending r \<or> in_flight r) R"
    by (simp add: count_where_upd) (rule count_where_cong, auto simp: in_flight_def)
  moreover have "count_where (\<lambda>r. is_pending r \<or> in_flight r) R = count_where is_pending R + count_where in_flight R"
    by (induction R) (auto simp: in_flight_def)
  ultimately show ?thesis
    using assms by (auto simp: retries_ok_def set_upd_where retry_ok_def)
qed

lemma Claim_Inr:
  assumes "Claim db now ws eid worker ttl = Inr (db', f)"
  obtains e r where "e \<in> set (ai_executions db)" "claimable now ws eid e"
    "r \<in> set (ai_execution_retries db)" "claimable_retry ws eid r"
    "f = fence_of (claim_row now worker ttl e) (rt_ID r)"
    "db' = db\<lparr>ai_executions := upd_where (claimable now ws eid) (claim_row now worker ttl) (ai_executions db),
       ai_execution_retries := upd_where (claimable_retry ws eid)
         (\<lambda>r. r\<lparr>rt_State := RetryClaimed, rt_WorkerID := Some worker,
                rt_Generation := ex_LeaseGeneration e + 1, rt_ClaimedAt := Some now\<rparr>)
         (ai_execution_retries db)\<rparr>"
  using assms by (auto simp: Claim_def Let_def claim_row_def split: option.splits dest!: find_SomeD)

lemma Claim_inv:
  assumes inv: "exec_inv s" and ok: "Claim (tables s) now ws eid worker ttl = Inr (db, f)"
  shows "exec_inv (s\<lparr>tables := db, issued := insert f (issued s)\<rparr>)"
proof -
  obtain e r where e: "e \<in> set (execs s)" "claimable now ws eid e"
    and r: "r \<in> set (ai_execution_retries (tables s))"
    and f: "f = fence_of (claim_row now worker ttl e) (rt_ID r)"
    and db: "db = (tables s)\<lparr>ai_executions := upd_where (claimable now ws eid) (claim_row now worker ttl) (execs s),
       ai_execution_retries := upd_where (claimable_retry ws eid)
         (\<lambda>r. r\<lparr>rt_State := RetryClaimed, rt_WorkerID := Some worker,
                rt_Generation := ex_LeaseGeneration e + 1, rt_ClaimedAt := Some now\<rparr>)
         (ai_execution_retries (tables s))\<rparr>"
    by (rule Claim_Inr [OF ok]) (rule that, assumption+)
  have i: "ex_ID e = eid" and ws: "ex_WorkspaceID e = ws" and p: "ex_Status e = StatusPending" "ex_Attempt e < ex_MaxAttempts e"
    using e(2) by (simp_all add: claimable_def)
  have eok: "exec_ok e (retries_of s eid) (dlq_of s eid) (fences_of s eid)"
    using exec_invD [OF inv e(1)] i by simp
  have rws: "rt_WorkspaceID q = ws" if "q \<in> set (ai_execution_retries (tables s))" "rt_ExecutionID q = eid" for q
    using eok that ws by (auto simp: exec_ok_def retries_ok_def retry_ok_def retries_of_mem)
  have "exec_inv (s\<lparr>tables := db, issued := {f} \<union> issued s\<rparr>)"
  proof (rule local_inv [OF inv e(1) i, where upd = "claim_row now worker ttl" and P = is_pending
        and Q = "claimable_retry ws eid"])
    show "ai_executions db = upd_where (\<lambda>x. ex_ID x = eid) (claim_row now worker ttl) (execs s)"
      using upd_where_key [OF exec_inv_distinct [OF inv] e(1), of "claimable now ws eid"] e(2) i
      by (simp add: db claimable_def)
    show "claimable_retry ws eid q = (rt_ExecutionID q = eid \<and> is_pending q)"
      if "q \<in> set (ai_execution_retries (tables s))" for q
      using rws [OF that] by (auto simp: claimable_retry_def)
    have "retries_ok (claim_row now worker ttl e) (upd_where is_pending (\<lambda>r. r\<lparr>rt_State := RetryClaimed,
        rt_WorkerID := Some worker, rt_Generation := ex_LeaseGeneration (claim_row now worker ttl e),
        rt_ClaimedAt := Some now\<rparr>) (retries_of s eid))"
      using eok p by (intro retries_ok_claimed [of e]) (auto simp: exec_ok_def claim_row_def)
    moreover have "fences_ok (claim_row now worker ttl e) (insert f (fences_of s eid))"
      using eok by (intro fences_ok_issue [of e])
        (auto simp: exec_ok_def row_ok_def claim_row_def f fence_of_def derefString_def)
    ultimately show "exec_ok (claim_row now worker ttl e) (upd_where is_pending (\<lambda>r. r\<lparr>rt_State := RetryClaimed,
        rt_WorkerID := Some worker, rt_Generation := ex_LeaseGeneration e + 1, rt_ClaimedAt := Some now\<rparr>)
        (retries_of s eid)) (dlq_of s eid) ({f} \<union> fences_of s eid)"
      using eok p by (simp add: exec_ok_def row_ok_def claim_row_def)
  qed (simp_all add: db f fence_of_def claim_row_def i)
  then show ?thesis by simp
qed

lemma retries_ok_weaken:
  assumes "retries_ok e R" "ex_WorkspaceID e' = ex_WorkspaceID e" "ex_LeaseGeneration e \<le> ex_LeaseGeneration e'"
    "ex_Status e' = ex_Status e"
  shows "retries_ok e' R"
  using assms by (auto simp: retries_ok_def retry_ok_def)

lemma ReclaimStale_Inr:
  assumes "ReclaimStale db now ws eid worker ttl = Inr (db', f)"
  obtains e rid where "e \<in> set (ai_executions db)" "reclaimable now ws eid e"
    "f = (fence_of (reclaim_row now worker ttl e) rid)\<lparr>fe_LastErrorCode := ex_LastErrorCode e,
            fe_Retryable := ex_Retryable e, fe_NextRetryAt := ex_NextRetryAt e\<rparr>"
    "db' = db\<lparr>ai_executions := upd_where (reclaimable now ws eid) (reclaim_row now worker ttl) (ai_executions db)\<rparr>"
  using assms by (auto simp: ReclaimStale_def Let_def split: option.splits dest!: find_SomeD)

lemma ReclaimStale_inv:
  assumes inv: "exec_inv s" and ok: "ReclaimStale (tables s) now ws eid worker ttl = Inr (db, f)"
  shows "exec_inv (s\<lparr>tables := db, issued := insert f (issued s)\<rparr>)"
proof -
  obtain e rid where e: "e \<in> set (execs s)" "reclaimable now ws eid e"
    and f: "f = (fence_of (reclaim_row now worker ttl e) rid)\<lparr>fe_LastErrorCode := ex_LastErrorCode e,
            fe_Retryable := ex_Retryable e, fe_NextRetryAt := ex_NextRetryAt e\<rparr>"
    and db: "db = (tables s)\<lparr>ai_executions := upd_where (reclaimable now ws eid) (reclaim_row now worker ttl) (execs s)\<rparr>"
    by (rule ReclaimStale_Inr [OF ok]) (rule that, assumption+)
  have i: "ex_ID e = eid" and p: "ex_Status e = StatusRunning"
    using e(2) by (simp_all add: reclaimable_def)
  have eok: "exec_ok e (retries_of s eid) (dlq_of s eid) (fences_of s eid)"
    using exec_invD [OF inv e(1)] i by simp
  have "exec_inv (s\<lparr>tables := db, issued := {f} \<union> issued s\<rparr>)"
  proof (rule local_inv [OF inv e(1) i, where upd = "reclaim_row now worker ttl" and P = "\<lambda>_. False"
        and Q = "\<lambda>_. False" and g = id])
    show "ai_executions db = upd_where (\<lambda>x. ex_ID x = eid) (reclaim_row now worker ttl) (execs s)"
      using upd_where_key [OF exec_inv_distinct [OF inv] e(1), of "reclaimable now ws eid"] e(2) i
      by (simp add: db reclaimable_def)
    have "retries_ok (reclaim_row now worker ttl e) (retries_of s eid)"
      by (rule retries_ok_weaken [of e]) (use eok in \<open>auto simp: exec_ok_def reclaim_row_def\<close>)
    moreover have "fences_ok (reclaim_row now worker ttl e) (insert f (fences_of s eid))"
      using eok by (intro fences_ok_issue [of e])
        (auto simp: exec_ok_def row_ok_def reclaim_row_def f fence_of_def derefString_def)
    ultimately show "exec_ok (reclaim_row now worker ttl e) (upd_where (\<lambda>_. False) id (retries_of s eid)) (dlq_of s eid)
       ({f} \<union> fences_of s eid)"
      using eok p by (simp add: exec_ok_def row_ok_def reclaim_row_def upd_where_none)
  qed (simp_all add: db f fence_of_def reclaim_row_def i upd_where_none)
  then show ?thesis by simp
qed

lemma retries_ok_cancelled:
  assumes "retries_ok e R" "active_status (ex_Status e)" "ex_Status e' = StatusCancelled"
    "ex_WorkspaceID e' = ex_WorkspaceID e" "ex_LeaseGeneration e' = ex_LeaseGeneration e"
  shows "retries_ok e' (upd_where (\<lambda>r. outstanding (rt_State r)) (processed now RetryCancelled) R)"
    (is "retries_ok e' ?R")
proof -
  have "count_where is_pending ?R = 0" "count_where in_flight ?R = 0"
    by (auto simp: count_where_upd count_where_0_iff in_flight_def outstanding_iff)
  then show ?thesis
    using assms by (auto simp: retries_ok_def set_upd_where retry_ok_def)
qed

lemma Cancel_inv:
  assumes inv: "exec_inv s" and ok: "Exec_Cancel (tables s) now ws eid = Inr db"
  shows "exec_inv (s\<lparr>tables := db\<rparr>)"
proof -
  let ?hit = "\<lambda>e :: execution. ex_ID e = eid \<and> ex_WorkspaceID e = ws \<and> active_status (ex_Status e)"
  let ?Q = "\<lambda>r. rt_ExecutionID r = eid \<and> rt_WorkspaceID r = ws \<and> outstanding (rt_State r)"
  let ?upd = "\<lambda>e. e\<lparr>ex_Status := StatusCancelled, ex_LastErrorCode := None, ex_Retryable := None,
       ex_ErrorDetail := None, ex_LeaseOwner := None, ex_LeaseExpiresAt := None, ex_CancelledAt := Some now\<rparr>"
  show ?thesis
  proof (cases "count_where ?hit (execs s) = 0")
    case True
    with ok have "db = tables s"
      by (simp add: Exec_Cancel_def split: if_splits)
    with inv show ?thesis by simp
  next
    case False
    with ok have db: "db = (tables s)\<lparr>ai_executions := upd_where ?hit ?upd (execs s),
        ai_execution_retries := upd_where ?Q (processed now RetryCancelled) (ai_execution_retries (tables s))\<rparr>"
      by (simp add: Exec_Cancel_def)
    from False obtain e where e: "e \<in> set (execs s)" "?hit e"
      by (auto simp: count_where_0_iff)
    then have i: "ex_ID e = eid" by simp
    have eok: "exec_ok e (retries_of s eid) (dlq_of s eid) (fences_of s eid)"
      using exec_invD [OF inv e(1)] i by simp
    have rws: "rt_WorkspaceID q = ws" if "q \<in> set (ai_execution_retries (tables s))" "rt_ExecutionID q = eid" for q
      using eok that e(2) by (auto simp: exec_ok_def retries_ok_def retry_ok_def retries_of_mem)
    have "exec_inv (s\<lparr>tables := db, issued := {} \<union> issued s\<rparr>)"
    proof (rule local_inv [OF inv e(1) i, where upd = ?upd and P = "\<lambda>r. outstanding (rt_State r)" and Q = ?Q])
      show "ai_executions db = upd_where (\<lambda>x. ex_ID x = eid) ?upd (execs s)"
        using upd_where_key [OF exec_inv_distinct [OF inv] e(1), of ?hit] e(2) i by (simp add: db)
      show "?Q q = (rt_ExecutionID q = eid \<and> outstanding (rt_State q))"
        if "q \<in> set (ai_execution_retries (tables s))" for q
        using rws [OF that] by auto
      have "retries_ok (?upd e) (upd_where (\<lambda>r. outstanding (rt_State r)) (processed now RetryCancelled) (retries_of s eid))"
        using eok e(2) by (intro retries_ok_cancelled [of e]) (auto simp: exec_ok_def)
      moreover have "fences_ok (?upd e) (fences_of s eid)"
        by (rule fences_ok_weaken [of e]) (use eok in \<open>auto simp: exec_ok_def\<close>)
      ultimately show "exec_ok (?upd e) (upd_where (\<lambda>r. outstanding (rt_State r)) (processed now RetryCancelled)
          (retries_of s eid)) (dlq_of s eid) ({} \<union> fences_of s eid)"
        using eok e(2) by (auto simp: exec_ok_def row_ok_def active_status_def)
    qed (simp_all add: db)
    then show ?thesis by simp
  qed
qed

lemma retries_only_inv:
  assumes inv: "exec_inv s" and exs: "ai_executions db = execs s" and dlq: "ai_execution_dlq db = ai_execution_dlq (tables s)"
    and rts: "ai_execution_retries db = upd_where Q g (ai_execution_retries (tables s))"
    and key: "\<And>r. rt_ID (g r) = rt_ID r" "\<And>r. rt_ExecutionID (g r) = rt_ExecutionID r"
    and g: "\<And>r. Q r \<Longrightarrow> rt_State (g r) = RetryPending \<longleftrightarrow> rt_State r = RetryPending"
      "\<And>r. Q r \<Longrightarrow> in_flight (g r) \<longleftrightarrow> in_flight r" "\<And>e r. Q r \<Longrightarrow> retry_ok e r \<Longrightarrow> retry_ok e (g r)"
  shows "exec_inv (s\<lparr>tables := db\<rparr>)"
proof -
  have R: "retries_of (s\<lparr>tables := db\<rparr>) i = upd_where Q g (retries_of s i)" for i
    by (simp add: views_tables rts filter_upd_where key retries_of_def)
  have DF: "dlq_of (s\<lparr>tables := db\<rparr>) i = dlq_of s i" "fences_of (s\<lparr>tables := db\<rparr>) i = fences_of s i" for i
    by (simp_all add: views_tables dlq dlq_of_def)
  have ok: "retries_ok e (upd_where Q g L)" if "retries_ok e L" for e L
  proof -
    have "count_where is_pending (upd_where Q g L) = count_where is_pending L"
      "count_where in_flight (upd_where Q g L) = count_where in_flight L"
      using g by (auto simp: count_where_upd intro!: count_where_cong)
    with that g(3) show ?thesis by (auto simp: retries_ok_def set_upd_where)
  qed
  have "map rt_ID (ai_execution_retries db) = map rt_ID (ai_execution_retries (tables s))"
    by (simp add: rts map_upd_where_key key)
  with inv ok show ?thesis
    by (simp add: exec_inv_def exs R DF exec_ok_def)
qed

lemma RecordDispatch_tables:
  fixes db :: execdb
  shows "ai_executions (RecordDispatch db now ws rid worker gen success) = ai_executions db"
    and "ai_execution_dlq (RecordDispatch db now ws rid worker gen success) = ai_execution_dlq db"
    and "ai_employees (RecordDispatch db now ws rid worker gen success) = ai_employees db"
    and "ai_execution_retries (RecordDispatch db now ws rid worker gen success) =
       upd_where (\<lambda>r. success \<and> rt_ID r = rid \<and> rt_WorkspaceID r = ws \<and> rt_State r = RetryClaimed
                      \<and> rt_WorkerID r = Some worker \<and> rt_Generation r = gen)
         (\<lambda>r. r\<lparr>rt_State := RetryDispatched, rt_DispatchedAt := Some now\<rparr>) (ai_execution_retries db)"
proof -
  let ?c = "\<lambda>d. \<exists>r \<in> set (ai_execution_retries d). rt_ID r = rid \<and> rt_WorkspaceID r = ws
       \<and> rt_WorkerID r = Some worker \<and> rt_Generation r = gen
       \<and> (rt_State r = RetryClaimed \<or> rt_State r = RetryDispatched)"
  let ?d = "if success then db\<lparr>ai_execution_retries :=
       upd_where (\<lambda>r. rt_ID r = rid \<and> rt_WorkspaceID r = ws \<and> rt_State r = RetryClaimed
                      \<and> rt_WorkerID r = Some worker \<and> rt_Generation r = gen)
         (\<lambda>r. r\<lparr>rt_State := RetryDispatched, rt_DispatchedAt := Some now\<rparr>) (ai_execution_retries db)\<rparr> else db"
  obtain c l where RD: "RecordDispatch db now ws rid worker gen success =
      (if c then ?d\<lparr>retry_dispatch_log := l\<rparr> else ?d)"
    unfolding RecordDispatch_def Let_def by blast
  show "ai_executions (RecordDispatch db now ws rid worker gen success) = ai_executions db"
    "ai_execution_dlq (RecordDispatch db now ws rid worker gen success) = ai_execution_dlq db"
    "ai_employees (RecordDispatch db now ws rid worker gen success) = ai_employees db"
    by (simp_all add: RD)
  show "ai_execution_retries (RecordDispatch db now ws rid worker gen success) =
       upd_where (\<lambda>r. success \<and> rt_ID r = rid \<and> rt_WorkspaceID r = ws \<and> rt_State r = RetryClaimed
                      \<and> rt_WorkerID r = Some worker \<and> rt_Generation r = gen)
         (\<lambda>r. r\<lparr>rt_State := RetryDispatched, rt_DispatchedAt := Some now\<rparr>) (ai_execution_retries db)"
    unfolding RD by (cases success) (simp_all add: upd_where_none)
qed

lemma RecordDispatch_inv:
  assumes "exec_inv s"
  shows "exec_inv (s\<lparr>tables := RecordDispatch (tables s) now ws rid worker gen success\<rparr>)"
  by (rule retries_only_inv [OF assms RecordDispatch_tables(1,2,4)])
    (auto simp: retry_ok_def in_flight_def)

lemma insert_execution_Inr:
  "insert_execution e db = Inr db' \<Longrightarrow>
   db' = db\<lparr>ai_executions := ai_executions db @ [e]\<rparr> \<and> 0 < ex_MaxAttempts e
   \<and> ex_ID e \<notin> ex_ID ` set (ai_executions db)"
  by (auto simp: insert_execution_def check_violation_def unique_violation_def split: if_splits)

lemma admit_insert_Inr:
  assumes "admit_insert db now eid rid done_at req hash = Inr (db', res)"
  obtains c where "db' = db\<lparr>ai_executions := ai_executions db @ [new_execution eid req hash now],
      ai_execution_retries := ai_execution_retries db @ [pending_retry rid eid (rq_WorkspaceID req) 1 0 None now],
      execution_contexts := c\<rparr>"
    "0 < rq_MaxAttempts req" "eid \<notin> ex_ID ` set (ai_executions db)"
    "rid \<notin> rt_ID ` set (ai_execution_retries db)"
proof -
  let ?e = "new_execution eid req hash now" and ?r = "pending_retry rid eid (rq_WorkspaceID req) 1 0 None now"
  from assms obtain db1 db2 where i: "insert_execution ?e db = Inr db1" and r: "insert_retry ?r db1 = Inr db2"
    and c: "(case rq_Context req of None \<Rightarrow> Inr db2 | Some m \<Rightarrow> insert_context (context_candidate eid m) db2) = Inr db'"
    by (auto simp: admit_insert_def Let_def split: sum.splits)
  have "db' = db2\<lparr>execution_contexts := execution_contexts db'\<rparr>"
    using c by (auto simp: insert_context_def split: option.splits if_splits)
  with insert_execution_Inr [OF i] insert_retry_Inr [OF r] show ?thesis
    by (intro that [of "execution_contexts db'"]) (auto simp: new_execution_def pending_retry_def)
qed

lemma Admit_Inr:
  assumes "AdmissionAdmit db now eid rid done_at req hash = Inr (db', res)"
  obtains "db' = db" | "admit_insert db now eid rid done_at req hash = Inr (db', res)"
    "\<exists>cap. Capacity db (rq_WorkspaceID req) (rq_AIEmployeeID req) = Inr cap
       \<and> int (ActiveCount db (rq_WorkspaceID req) (rq_AIEmployeeID req)) < cap"
  using assms by (auto simp: AdmissionAdmit_def split: option.splits sum.splits if_splits)

lemma exec_inv_grow:
  assumes inv: "exec_inv s" and fresh: "ex_ID e \<notin> ex_ID ` set (execs s)"
    and exs: "ai_executions db = execs s @ [e]"
    and rts: "ai_execution_retries db = ai_execution_retries (tables s) @ [r]" "rt_ExecutionID r = ex_ID e"
      "rt_ID r \<notin> rt_ID ` set (ai_execution_retries (tables s))"
    and dlq: "ai_execution_dlq db = ai_execution_dlq (tables s)"
    and row: "exec_ok e [r] [] {}"
  shows "exec_inv (s\<lparr>tables := db\<rparr>)"
proof -
  have empty: "retries_of s (ex_ID e) = []" "dlq_of s (ex_ID e) = []" "fences_of s (ex_ID e) = {}"
    using inv fresh by (simp_all add: exec_inv_def)
  have views: "retries_of (s\<lparr>tables := db\<rparr>) j = (if j = ex_ID e then [r] else retries_of s j)"
    "dlq_of (s\<lparr>tables := db\<rparr>) j = dlq_of s j" "fences_of (s\<lparr>tables := db\<rparr>) j = fences_of s j" for j
    using empty rts by (auto simp: views_tables dlq dlq_of_def retries_of_def)
  have old: "ex_ID x \<noteq> ex_ID e" if "x \<in> set (execs s)" for x
    using fresh that by (metis imageI)
  show ?thesis
    using inv fresh rts old row by (simp add: exec_inv_def exs views empty)
qed

lemma Admit_inv:
  assumes inv: "exec_inv s" and ok: "AdmissionAdmit (tables s) now eid rid done_at req hash = Inr (db, res)"
  shows "exec_inv (s\<lparr>tables := db\<rparr>)"
  using ok
proof (cases rule: Admit_Inr)
  case 1
  with inv show ?thesis by simp
next
  case 2
  from 2(1) obtain c where db: "db = (tables s)\<lparr>ai_executions := execs s @ [new_execution eid req hash now],
      ai_execution_retries := ai_execution_retries (tables s) @ [pending_retry rid eid (rq_WorkspaceID req) 1 0 None now],
      execution_contexts := c\<rparr>" and pos: "0 < rq_MaxAttempts req"
    and fresh: "eid \<notin> ex_ID ` set (execs s)" "rid \<notin> rt_ID ` set (ai_execution_retries (tables s))"
    by (rule admit_insert_Inr) (rule that, assumption+)
  show ?thesis
  proof (rule exec_inv_grow [OF inv, where e = "new_execution eid req hash now"
        and r = "pending_retry rid eid (rq_WorkspaceID req) 1 0 None now"])
    show "exec_ok (new_execution eid req hash now) [pending_retry rid eid (rq_WorkspaceID req) 1 0 None now] [] {}"
      using pos by (simp add: exec_inv_defs new_execution_def pending_retry_def in_flight_def)
  qed (use fresh in \<open>simp_all add: db new_execution_def pending_retry_def\<close>)
qed

lemma exec_step_inv: "exec_step s t \<Longrightarrow> exec_inv s \<Longrightarrow> exec_inv t"
  by (induction rule: exec_step.induct)
    (auto intro: Admit_inv Claim_inv ReclaimStale_inv Heartbeat_inv PersistError_inv Complete_inv
      FailAndDLQ_inv Reschedule_inv RecordDispatch_inv Cancel_inv)

interpretation exec: invariant initial_runtime exec_step exec_inv
  by unfold_locales (auto intro: exec_inv_initial exec_step_inv)

subsection \<open>What every step keeps of the execution rows\<close>

text \<open>The columns no transaction writes after the insert.\<close>

definition exec_identity :: "execution \<Rightarrow> uuid \<times> uuid \<times> uuid \<times> uuid option \<times> int \<times> string option \<times> string" where
  "exec_identity e =
     (ex_ID e, ex_WorkspaceID e, ex_AIEmployeeID e, ex_TaskID e, ex_MaxAttempts e, ex_IdempotencyKey e,
      ex_RequestHash e)"

text \<open>
  How a row may change: the lease generation and the attempt counter only grow, a terminal
  row does not change at all.
\<close>

definition row_advances :: "execution \<Rightarrow> execution \<Rightarrow> bool" where
  "row_advances e e' \<longleftrightarrow>
     exec_identity e' = exec_identity e \<and> ex_LeaseGeneration e \<le> ex_LeaseGeneration e'
     \<and> ex_Attempt e \<le> ex_Attempt e' \<and> (Terminal (ex_Status e) \<longrightarrow> e' = e)"

definition advances :: "runtime \<Rightarrow> runtime \<Rightarrow> bool" where
  "advances s t \<longleftrightarrow>
     issued s \<subseteq> issued t \<and> ai_employees (tables t) = ai_employees (tables s)
     \<and> (\<exists>L new. execs t = L @ new \<and> list_all2 row_advances (execs s) L)"

lemma row_advances_refl [simp]: "row_advances e e"
  by (simp add: row_advances_def)

lemma row_advances_trans: "row_advances a b \<Longrightarrow> row_advances b c \<Longrightarrow> row_advances a c"
  by (auto simp: row_advances_def)

lemma advances_refl: "advances s s"
  unfolding advances_def
  by (intro conjI subset_refl refl exI [of _ "execs s"] exI [of _ "[]"] list_all2_refl row_advances_refl) simp

lemma advances_trans:
  assumes "advances s t" "advances t u"
  shows "advances s u"
proof -
  from assms obtain L new where L: "execs t = L @ new" "list_all2 row_advances (execs s) L"
    by (auto simp: advances_def)
  from assms obtain M new' where "execs u = M @ new'" "list_all2 row_advances (L @ new) M"
    using L(1) by (auto simp: advances_def)
  then obtain M1 M2 where "execs u = M1 @ M2 @ new'" "list_all2 row_advances L M1"
    by (auto simp: list_all2_append1)
  moreover have "list_all2 row_advances (execs s) M1"
    using row_advances_trans L(2) \<open>list_all2 row_advances L M1\<close> by (rule list_all2_trans)
  moreover have "issued s \<subseteq> issued u" "ai_employees (tables u) = ai_employees (tables s)"
    using assms by (auto simp: advances_def)
  ultimately show ?thesis
    unfolding advances_def by blast
qed

lemma advancesI:
  assumes "issued s \<subseteq> issued t" and "ai_employees (tables t) = ai_employees (tables s)"
    and "execs t = upd_where P g (execs s) @ new" and g: "\<And>e. P e \<Longrightarrow> row_advances e (g e)"
  shows "advances s t"
proof -
  have "list_all2 row_advances L (upd_where P g L)" for L
    using g by (induction L) auto
  with assms(1-3) show ?thesis
    unfolding advances_def by blast
qed

lemma advances_row: "advances s t \<Longrightarrow> e \<in> set (execs s) \<Longrightarrow> \<exists>e' \<in> set (execs t). row_advances e e'"
  unfolding advances_def by (metis in_set_conv_nth in_set_conv_decomp list_all2_conv_all_nth set_append UnI1)

lemma advances_identity:
  assumes "advances s t"
  shows "prefix (map exec_identity (execs s)) (map exec_identity (execs t))"
proof -
  from assms obtain L new where L: "execs t = L @ new" "list_all2 row_advances (execs s) L"
    by (auto simp: advances_def)
  from L(2) have "map exec_identity L = map exec_identity (execs s)"
    by (induction rule: list_all2_induct) (auto simp: row_advances_def)
  with L(1) show ?thesis by (simp add: prefix_def)
qed

lemma fenced_update_rows:
  "fenced_update f upd db = Inr db1 \<Longrightarrow>
   db1 = db\<lparr>ai_executions := upd_where (fence_holds f) upd (ai_executions db)\<rparr>"
  by (auto simp: fenced_update_def split: if_splits)

text \<open>
  The contract of a write under a lease: without exactly one row under the fence it reports
  \<^verbatim>\<open>ErrStaleLease\<close>, and when it succeeds it changes the rows under the fence only.
\<close>

locale fenced_write =
  fixes put :: "execdb \<Rightarrow> fenced \<Rightarrow> (exec_error, execdb) result"
  assumes stale: "count_where (fence_holds f) (ai_executions db) \<noteq> 1 \<Longrightarrow> put db f = Inl ErrStaleLease"
    and written: "put db f = Inr db' \<Longrightarrow>
      \<exists>g. ai_executions db' = upd_where (fence_holds f) g (ai_executions db)
          \<and> ai_employees db' = ai_employees db \<and> (\<forall>e. fence_holds f e \<longrightarrow> row_advances e (g e))"
begin

lemma advances_write: "put (tables s) f = Inr db \<Longrightarrow> advances s (s\<lparr>tables := db\<rparr>)"
  by (drule written, elim exE conjE, rule advancesI [where new = "[]" and P = "fence_holds f"]) auto

text \<open>A fence whose execution has moved on, ended or vanished cannot write.\<close>

lemma superseded:
  assumes "\<And>e. e \<in> set (ai_executions db) \<Longrightarrow> ex_ID e = fe_ExecutionID f \<Longrightarrow>
      ex_LeaseGeneration e \<noteq> fe_LeaseGeneration f \<or> ex_Status e \<noteq> StatusRunning"
  shows "put db f = Inl ErrStaleLease"
proof (rule stale)
  have "count_where (fence_holds f) (ai_executions db) = 0"
    using assms by (auto simp: count_where_0_iff fence_holds_def)
  then show "count_where (fence_holds f) (ai_executions db) \<noteq> 1" by simp
qed

end

lemmas fenced_write_defs = Heartbeat_def PersistError_def Complete_def FailAndDLQ_def Reschedule_def

lemma fenced_update_stale:
  "count_where (fence_holds f) (ai_executions db) \<noteq> 1 \<Longrightarrow> fenced_update f upd db = Inl ErrStaleLease"
  by (simp add: fenced_update_def)

lemma row_advances_running:
  "ex_Status e = StatusRunning \<Longrightarrow> exec_identity e' = exec_identity e \<Longrightarrow> ex_LeaseGeneration e \<le> ex_LeaseGeneration e' \<Longrightarrow>
   ex_Attempt e \<le> ex_Attempt e' \<Longrightarrow> row_advances e e'"
  by (simp add: row_advances_def Terminal_def)

lemma fenced_update_written:
  assumes "fenced_update f upd db = Inr db1" "ai_executions db' = ai_executions db1" "ai_employees db' = ai_employees db1"
    and "\<And>e. exec_identity (upd e) = exec_identity e" "\<And>e. ex_LeaseGeneration (upd e) = ex_LeaseGeneration e"
      "\<And>e. ex_Attempt (upd e) = ex_Attempt e"
  shows "\<exists>g. ai_executions db' = upd_where (fence_holds f) g (ai_executions db)
          \<and> ai_employees db' = ai_employees db \<and> (\<forall>e. fence_holds f e \<longrightarrow> row_advances e (g e))"
  using fenced_update_rows [OF assms(1)] assms(2-)
  by (intro exI [of _ upd]) (auto simp: fence_holds_def intro: row_advances_running)

interpretation heartbeat: fenced_write "\<lambda>db f. Heartbeat db now f ttl" for now ttl
  by unfold_locales
    (auto simp: Heartbeat_def fenced_update_stale exec_identity_def elim!: fenced_update_written)

interpretation persist: fenced_write "\<lambda>db f. PersistError db now f code retryable detail" for now code retryable detail
  by unfold_locales
    (auto simp: PersistError_def fenced_update_stale exec_identity_def elim!: fenced_update_written)

interpretation complete: fenced_write "\<lambda>db f. Complete db now f res" for now res
  by unfold_locales
    (auto simp: Complete_def fenced_update_stale exec_identity_def resolve_retries_def
      split: sum.splits elim!: fenced_update_written)

interpretation fail: fenced_write "\<lambda>db f. FailAndDLQ db now f code detail snapshot" for now code detail snapshot
  by unfold_locales
    (auto simp: FailAndDLQ_def fenced_update_stale exec_identity_def resolve_retries_def Let_def
      split: sum.splits if_splits elim!: fenced_update_written)

interpretation reschedule: fenced_write "\<lambda>db f. Reschedule db now rid f next_at (seq f)" for now rid next_at seq
  by unfold_locales
    (auto simp: Reschedule_def fenced_update_stale exec_identity_def resolve_retries_def
      split: sum.splits dest!: insert_retry_Inr elim!: fenced_update_written)


lemma Claim_advances:
  assumes "Claim (tables s) now ws eid worker ttl = Inr (db, f)"
  shows "advances s (s\<lparr>tables := db, issued := insert f (issued s)\<rparr>)"
  by (rule Claim_Inr [OF assms], rule advancesI [where new = "[]" and P = "claimable now ws eid"])
    (auto simp: claimable_def claim_row_def row_advances_def exec_identity_def Terminal_def)

lemma ReclaimStale_advances:
  assumes "ReclaimStale (tables s) now ws eid worker ttl = Inr (db, f)"
  shows "advances s (s\<lparr>tables := db, issued := insert f (issued s)\<rparr>)"
  by (rule ReclaimStale_Inr [OF assms], rule advancesI [where new = "[]" and P = "reclaimable now ws eid"])
    (auto simp: reclaimable_def reclaim_row_def row_advances_def exec_identity_def Terminal_def)

lemma Admit_advances:
  assumes "AdmissionAdmit (tables s) now eid rid done_at req hash = Inr (db, res)"
  shows "advances s (s\<lparr>tables := db\<rparr>)"
  using assms
proof (cases rule: Admit_Inr)
  case 1
  then show ?thesis by (simp add: advances_refl)
next
  case 2
  show ?thesis
    by (rule admit_insert_Inr [OF 2(1)], rule advancesI [where P = "\<lambda>_. False" and g = id])
      (simp_all add: upd_where_none)
qed

lemma Cancel_advances:
  assumes "Exec_Cancel (tables s) now ws eid = Inr db"
  shows "advances s (s\<lparr>tables := db\<rparr>)"
proof (cases "db = tables s")
  case False
  let ?hit = "\<lambda>e. ex_ID e = eid \<and> ex_WorkspaceID e = ws \<and> active_status (ex_Status e)"
  from False assms show ?thesis
    by (intro advancesI [where new = "[]" and P = ?hit])
      (auto simp: Exec_Cancel_def Let_def row_advances_def exec_identity_def active_status_def Terminal_def
        split: if_splits)
qed (simp add: advances_refl)

lemma RecordDispatch_advances:
  "advances s (s\<lparr>tables := RecordDispatch (tables s) now ws rid worker gen success\<rparr>)"
  by (rule advancesI [where P = "\<lambda>_. False" and g = id and new = "[]"])
    (simp_all add: RecordDispatch_tables upd_where_none)

lemma exec_step_advances: "exec_step s t \<Longrightarrow> advances s t"
  by (induction rule: exec_step.induct)
    (auto intro: Admit_advances Claim_advances ReclaimStale_advances Cancel_advances RecordDispatch_advances
      heartbeat.advances_write persist.advances_write complete.advances_write fail.advances_write
      reschedule.advances_write)

interpretation exec: guarantee initial_runtime exec_step exec_inv advances
  by unfold_locales (auto intro: exec_step_advances advances_refl advances_trans)

end
