(* ===== verification/Execution_Guarantees.thy ===== *)
theory Execution_Guarantees
  imports Execution_Safety
begin

text \<open>
  The promises of the execution runtime, each for every state that any interleaving of
  admissions, claims, recoveries, fenced writes, dispatch records and cancellations can
  reach, with a short concrete history that exercises them.
\<close>

subsection \<open>A concrete history\<close>

text \<open>
  One employee of capacity one: an execution is admitted, claimed by a worker whose lease
  then expires, and reclaimed by a recovery pass.
\<close>

definition demo_request :: admit_request where
  "demo_request =
     \<lparr>rq_WorkspaceID = 1, rq_AIEmployeeID = 2, rq_TaskID = None, rq_MaxAttempts = 3, rq_IdempotencyKey = ''k'',
      rq_Context = None\<rparr>"

definition demo_empty :: runtime where
  "demo_empty =
     \<lparr>tables = \<lparr>ai_executions = [], ai_execution_retries = [], ai_execution_dlq = [], retry_dispatch_log = [],
        execution_contexts = [], ai_employees = [\<lparr>em_ID = 2, em_WorkspaceID = 1, em_MaxConcurrent = 1\<rparr>],
        task_keys = []\<rparr>, issued = {}\<rparr>"

definition "demo_admit = AdmissionAdmit (tables demo_empty) 0 10 20 0 demo_request ''h''"

definition "demo_admitted = demo_empty\<lparr>tables := fst (projr demo_admit)\<rparr>"

definition "demo_claim = Claim (tables demo_admitted) second 1 10 ''w1'' (30 * second)"

definition "demo_claimed =
  demo_admitted\<lparr>tables := fst (projr demo_claim), issued := insert (snd (projr demo_claim)) (issued demo_admitted)\<rparr>"

definition "demo_reclaim = ReclaimStale (tables demo_claimed) (60 * second) 1 10 ''d1'' (30 * second)"

definition "demo_reclaimed =
  demo_claimed\<lparr>tables := fst (projr demo_reclaim), issued := insert (snd (projr demo_reclaim)) (issued demo_claimed)\<rparr>"

lemma demo_ok: "\<not> isl demo_admit" "\<not> isl demo_claim" "\<not> isl demo_reclaim"
  by code_simp+

lemma demo_initial: "initial_runtime demo_empty"
  by (simp add: initial_runtime_def demo_empty_def)

lemma demo_step_admit: "exec_step demo_empty demo_admitted"
  unfolding demo_admitted_def
  by (rule step_admit [where res = "snd (projr demo_admit)"]) (use demo_ok in \<open>simp add: demo_admit_def\<close>)

lemma demo_step_claim: "exec_step demo_admitted demo_claimed"
  unfolding demo_claimed_def
  by (rule step_claim) (use demo_ok in \<open>simp add: demo_claim_def\<close>)

lemma demo_step_reclaim: "exec_step demo_claimed demo_reclaimed"
  unfolding demo_reclaimed_def
  by (rule step_reclaim) (use demo_ok in \<open>simp add: demo_reclaim_def\<close>)

lemma demo_runs:
  "runs exec_step demo_empty demo_admitted" "runs exec_step demo_empty demo_claimed"
  "runs exec_step demo_empty demo_reclaimed" "runs exec_step demo_admitted demo_reclaimed"
  using demo_step_admit demo_step_claim demo_step_reclaim by (meson runs_single runs_step)+

subsection \<open>Fencing\<close>

abbreviation reachable :: "runtime \<Rightarrow> runtime \<Rightarrow> bool" where
  "reachable s0 s \<equiv> initial_runtime s0 \<and> runs exec_step s0 s"

lemma reachable_inv: "reachable s0 s \<Longrightarrow> exec_inv s"
  using exec.inv_reachable by blast

lemma issued_row:
  assumes "exec_inv s" "f \<in> issued s"
  obtains e where "e \<in> set (execs s)" "ex_ID e = fe_ExecutionID f" "fence_ok e f"
proof -
  have "f \<in> fences_of s (fe_ExecutionID f)"
    using assms(2) by (simp add: fences_of_def)
  then obtain e where "e \<in> set (execs s)" "ex_ID e = fe_ExecutionID f"
    using assms(1) unfolding exec_inv_def by (metis empty_iff imageE)
  with exec_invD [OF assms(1), of e] \<open>f \<in> fences_of s (fe_ExecutionID f)\<close> show ?thesis
    by (intro that) (auto simp: exec_ok_def fences_ok_def)
qed

lemma outdated_fence:
  assumes "exec_inv s" "f \<in> issued s" "g \<in> issued s" "fe_ExecutionID f = fe_ExecutionID g"
    "fe_LeaseGeneration f < fe_LeaseGeneration g" "e \<in> set (execs s)" "ex_ID e = fe_ExecutionID f"
  shows "ex_LeaseGeneration e \<noteq> fe_LeaseGeneration f"
proof -
  obtain e' where e': "e' \<in> set (execs s)" "ex_ID e' = fe_ExecutionID g" "fence_ok e' g"
    using assms(1,3) by (rule issued_row)
  have "e' = e"
    using exec_inv_distinct [OF assms(1)] e'(1) assms(6) by (rule distinct_map_keyD) (simp add: e' assms)
  with e'(3) assms(5) show ?thesis by (simp add: fence_ok_def)
qed

text \<open>
  C1. Fencing. Once an execution was leased again (a fence \<open>g\<close> with a later generation was
  handed out), a worker still holding an earlier fence \<open>f\<close> can never write: in every later
  state each of the five fenced writes reports \<^verbatim>\<open>ErrStaleLease\<close> and changes nothing.
\<close>

theorem stale_fence_rejected:
  assumes "initial_runtime s0" "runs exec_step s0 s"
    and "f \<in> issued s" "g \<in> issued s" "fe_ExecutionID f = fe_ExecutionID g"
    and "fe_LeaseGeneration f < fe_LeaseGeneration g"
    and "runs exec_step s t"
  shows "Heartbeat (tables t) now f ttl = Inl ErrStaleLease
    \<and> PersistError (tables t) now f code retryable detail = Inl ErrStaleLease
    \<and> Complete (tables t) now f res = Inl ErrStaleLease
    \<and> FailAndDLQ (tables t) now f code detail snapshot = Inl ErrStaleLease
    \<and> Reschedule (tables t) now rid f next_at seq = Inl ErrStaleLease"
proof -
  have inv: "exec_inv s" "exec_inv t"
    using assms(1,2,7) exec.inv_reachable exec.inv_runs by blast+
  have "advances s t"
    using assms(7) inv(1) by (rule exec.rel_runs)
  then have "f \<in> issued t" "g \<in> issued t"
    using assms(3,4) by (auto simp: advances_def)
  then have old: "ex_LeaseGeneration e \<noteq> fe_LeaseGeneration f \<or> ex_Status e \<noteq> StatusRunning"
    if "e \<in> set (execs t)" "ex_ID e = fe_ExecutionID f" for e
    using outdated_fence [OF inv(2) _ _ assms(5,6) that] by blast
  show ?thesis
    using heartbeat.superseded [OF old] persist.superseded [OF old] complete.superseded [OF old]
      fail.superseded [OF old] reschedule.superseded [OF old, where seq = "\<lambda>_. seq"] by auto
qed

theorem stale_fence_rejected_witness:
  "Complete (tables demo_reclaimed) (61 * second) (snd (projr demo_claim)) ''{}'' = Inl ErrStaleLease"
proof -
  have "fe_ExecutionID (snd (projr demo_claim)) = fe_ExecutionID (snd (projr demo_reclaim))"
    "fe_LeaseGeneration (snd (projr demo_claim)) < fe_LeaseGeneration (snd (projr demo_reclaim))"
    by code_simp+
  then show ?thesis
    using stale_fence_rejected [OF demo_initial demo_runs(3) _ _ _ _ runs_refl,
        of "snd (projr demo_claim)" "snd (projr demo_reclaim)"]
    by (simp add: demo_reclaimed_def demo_claimed_def)
qed

text \<open>
  C2. No split brain. In every reachable state each running execution is held under exactly
  one of all the fences ever handed out.
\<close>

theorem single_lease_holder:
  assumes "initial_runtime s0" "runs exec_step s0 s"
    and "e \<in> set (execs s)" "ex_Status e = StatusRunning"
  shows "\<exists>!f. f \<in> issued s \<and> fence_holds f e"
proof -
  have inv: "exec_inv s"
    using assms(1,2) by (rule exec.inv_reachable)
  from exec_invD [OF inv assms(3)] have fences: "fences_ok e (fences_of s (ex_ID e))"
    by (simp add: exec_ok_def)
  then obtain f where "f \<in> fences_of s (ex_ID e)" "fe_LeaseGeneration f = ex_LeaseGeneration e" "fence_ok e f"
    using assms(4) by (auto simp: fences_ok_def)
  then have "f \<in> issued s \<and> fence_holds f e"
    using assms(4) by (auto simp: fences_of_def fence_ok_def fence_holds_def)
  moreover have "g = f" if "g \<in> issued s \<and> fence_holds g e" for g
    using that \<open>f \<in> issued s \<and> fence_holds f e\<close> fences
    by (auto simp: fences_ok_def fences_of_def fence_holds_def)
  ultimately show ?thesis by blast
qed

theorem single_lease_holder_witness:
  "\<exists>e \<in> set (execs demo_reclaimed). ex_Status e = StatusRunning
     \<and> (\<exists>!f. f \<in> issued demo_reclaimed \<and> fence_holds f e)"
proof -
  have "list_ex (\<lambda>e. ex_Status e = StatusRunning) (execs demo_reclaimed)"
    by code_simp
  then show ?thesis
    unfolding list_ex_iff using single_lease_holder [OF demo_initial demo_runs(3)] by blast
qed


subsection \<open>Outcomes\<close>

text \<open>
  C3. A terminal execution is final. Whatever the other processes do later, its row stays
  exactly as it is, no retry of it is outstanding, and it has one dead letter if it failed
  and none otherwise.
\<close>

theorem terminal_execution_is_final:
  assumes "initial_runtime s0" "runs exec_step s0 s"
    and "e \<in> set (execs s)" "Terminal (ex_Status e)"
    and "runs exec_step s t"
  shows "e \<in> set (execs t)
    \<and> (\<forall>r \<in> set (retries_of t (ex_ID e)). rt_State r = RetryProcessed)
    \<and> length (dlq_of t (ex_ID e)) = (if ex_Status e = StatusFailed then 1 else 0)"
proof -
  have inv: "exec_inv s" "exec_inv t"
    using assms(1,2,5) exec.inv_reachable exec.inv_runs by blast+
  have "advances s t"
    using assms(5) inv(1) by (rule exec.rel_runs)
  then have e: "e \<in> set (execs t)"
    using advances_row [OF _ assms(3)] assms(4) by (auto simp: row_advances_def)
  from exec_invD [OF inv(2) e] have ok: "retries_ok e (retries_of t (ex_ID e))"
    "length (dlq_of t (ex_ID e)) = (if ex_Status e = StatusFailed then 1 else 0)"
    by (simp_all add: exec_ok_def)
  have "rt_State r = RetryProcessed" if "r \<in> set (retries_of t (ex_ID e))" for r
    using ok(1) assms(4) that
    by (cases "rt_State r") (auto simp: retries_ok_def Terminal_def count_where_0_iff in_flight_def)
  with e ok(2) show ?thesis by blast
qed

definition "demo_complete = Complete (tables demo_reclaimed) (62 * second) (snd (projr demo_reclaim)) ''{}''"

definition "demo_completed = demo_reclaimed\<lparr>tables := projr demo_complete\<rparr>"

lemma demo_step_complete: "exec_step demo_reclaimed demo_completed"
proof -
  have "\<not> isl demo_complete" by code_simp
  then show ?thesis
    unfolding demo_completed_def
    by (intro step_complete [where f = "snd (projr demo_reclaim)"])
      (auto simp: demo_complete_def demo_reclaimed_def)
qed

theorem terminal_execution_is_final_witness:
  "\<exists>e \<in> set (execs demo_completed). ex_Status e = StatusCompleted \<and> dlq_of demo_completed (ex_ID e) = []"
proof -
  have "list_ex (\<lambda>e. ex_Status e = StatusCompleted) (execs demo_completed)"
    by code_simp
  then obtain e where e: "e \<in> set (execs demo_completed)" "ex_Status e = StatusCompleted"
    unfolding list_ex_iff by blast
  then have "dlq_of demo_completed (ex_ID e) = []"
    using terminal_execution_is_final [OF demo_initial
        runs_step [OF demo_runs(3) demo_step_complete] e(1) _ runs_refl] by (simp add: Terminal_def)
  with e show ?thesis by blast
qed

text \<open>
  The queue follows the status. In every reachable state a pending execution has exactly
  one pending retry and no retry in flight, a running one exactly one claimed or dispatched
  retry and no pending one, and a terminal one neither; the attempts never exceed the
  maximum, and a pending execution always has an attempt left.
\<close>

theorem retries_follow_status:
  assumes "initial_runtime s0" "runs exec_step s0 s" and "e \<in> set (execs s)"
  shows "count_where is_pending (retries_of s (ex_ID e)) = (if ex_Status e = StatusPending then 1 else 0)
    \<and> count_where in_flight (retries_of s (ex_ID e)) = (if ex_Status e = StatusRunning then 1 else 0)
    \<and> 0 \<le> ex_Attempt e \<and> ex_Attempt e \<le> ex_MaxAttempts e
    \<and> (ex_Status e = StatusPending \<longrightarrow> ex_Attempt e < ex_MaxAttempts e)
    \<and> (ex_LeaseOwner e \<noteq> None \<longleftrightarrow> ex_Status e = StatusRunning)"
  using exec_invD [OF exec.inv_reachable [OF assms(1,2)] assms(3)]
  unfolding exec_ok_def row_ok_def retries_ok_def by blast

theorem retries_follow_status_witness:
  "\<exists>e \<in> set (execs demo_claimed). ex_Status e = StatusRunning
     \<and> count_where in_flight (retries_of demo_claimed (ex_ID e)) = 1"
proof -
  have "list_ex (\<lambda>e. ex_Status e = StatusRunning) (execs demo_claimed)"
    by code_simp
  then obtain e where e: "e \<in> set (execs demo_claimed)" "ex_Status e = StatusRunning"
    unfolding list_ex_iff by blast
  with retries_follow_status [OF demo_initial demo_runs(2) e(1)]
  have "count_where in_flight (retries_of demo_claimed (ex_ID e)) = 1" by simp
  with e show ?thesis by blast
qed

subsection \<open>Progress\<close>

lemma pending_retry_row:
  assumes "exec_inv s" "e \<in> set (execs s)" "ex_Status e = StatusPending"
  obtains r where "r \<in> set (ai_execution_retries (tables s))" "claimable_retry (ex_WorkspaceID e) (ex_ID e) r"
proof -
  have ok: "retries_ok e (retries_of s (ex_ID e))"
    using exec_invD [OF assms(1,2)] by (simp add: exec_ok_def)
  then have "0 < count_where is_pending (retries_of s (ex_ID e))"
    using assms(3) by (simp add: retries_ok_def)
  then obtain r where "r \<in> set (retries_of s (ex_ID e))" "is_pending r"
    by (auto simp: count_where_pos_iff)
  with ok show ?thesis
    by (intro that [of r]) (auto simp: retries_of_mem claimable_retry_def retries_ok_def retry_ok_def)
qed

text \<open>
  C4. No execution is stuck. In every reachable state any worker can claim a pending
  execution that is due, and any recovery pass can take over a running one whose lease has
  expired; both get a fence of the next generation.
\<close>

theorem execution_never_stuck:
  assumes "initial_runtime s0" "runs exec_step s0 s" and "e \<in> set (execs s)"
  shows "(ex_Status e = StatusPending \<and> due now e \<longrightarrow>
      (\<exists>db f. Claim (tables s) now (ex_WorkspaceID e) (ex_ID e) worker ttl = Inr (db, f)
        \<and> fe_LeaseGeneration f = ex_LeaseGeneration e + 1 \<and> fe_Attempt f = ex_Attempt e + 1))
    \<and> (ex_Status e = StatusRunning \<and> lease_expired now e \<longrightarrow>
      (\<exists>db f. ReclaimStale (tables s) now (ex_WorkspaceID e) (ex_ID e) worker ttl = Inr (db, f)
        \<and> fe_LeaseGeneration f = ex_LeaseGeneration e + 1 \<and> fe_Attempt f = ex_Attempt e))"
proof -
  have inv: "exec_inv s"
    using assms(1,2) by (rule exec.inv_reachable)
  note key = distinct_map_keyD [OF exec_inv_distinct [OF inv] _ assms(3)]
  have row: "row_ok e"
    using exec_invD [OF inv assms(3)] by (simp add: exec_ok_def)
  {
    assume p: "ex_Status e = StatusPending" "due now e"
    obtain r where r: "r \<in> set (ai_execution_retries (tables s))" "claimable_retry (ex_WorkspaceID e) (ex_ID e) r"
      using inv assms(3) p(1) by (rule pending_retry_row)
    have "claimable now (ex_WorkspaceID e) (ex_ID e) e"
      using p row by (simp add: claimable_def row_ok_def)
    with assms(3) have "find (claimable now (ex_WorkspaceID e) (ex_ID e)) (execs s) = Some e"
      using key by (metis (no_types, lifting) claimable_def find_exists find_SomeD)
    moreover obtain q where "find (claimable_retry (ex_WorkspaceID e) (ex_ID e)) (ai_execution_retries (tables s)) = Some q"
      using find_exists [of r _ "claimable_retry (ex_WorkspaceID e) (ex_ID e)"] r by blast
    ultimately have "\<exists>db f. Claim (tables s) now (ex_WorkspaceID e) (ex_ID e) worker ttl = Inr (db, f)
        \<and> fe_LeaseGeneration f = ex_LeaseGeneration e + 1 \<and> fe_Attempt f = ex_Attempt e + 1"
      by (simp add: Claim_def Let_def fence_of_def claim_row_def)
  }
  moreover
  {
    assume p: "ex_Status e = StatusRunning" "lease_expired now e"
    then have "reclaimable now (ex_WorkspaceID e) (ex_ID e) e"
      by (simp add: reclaimable_def)
    with assms(3) have "find (reclaimable now (ex_WorkspaceID e) (ex_ID e)) (execs s) = Some e"
      using key by (metis (no_types, lifting) reclaimable_def find_exists find_SomeD)
    then have "\<exists>db f. ReclaimStale (tables s) now (ex_WorkspaceID e) (ex_ID e) worker ttl = Inr (db, f)
        \<and> fe_LeaseGeneration f = ex_LeaseGeneration e + 1 \<and> fe_Attempt f = ex_Attempt e"
      by (simp add: ReclaimStale_def Let_def fence_of_def reclaim_row_def)
  }
  ultimately show ?thesis by blast
qed

theorem execution_never_stuck_witness:
  "\<exists>e \<in> set (execs demo_admitted). \<exists>db f. Claim (tables demo_admitted) second 1 10 ''w2'' second = Inr (db, f)
     \<and> fe_LeaseGeneration f = ex_LeaseGeneration e + 1"
proof -
  have "list_ex (\<lambda>e. ex_Status e = StatusPending \<and> due second e \<and> ex_WorkspaceID e = 1 \<and> ex_ID e = 10) (execs demo_admitted)"
    by code_simp
  then obtain e where "e \<in> set (execs demo_admitted)" "ex_Status e = StatusPending" "due second e"
    "ex_WorkspaceID e = 1" "ex_ID e = 10"
    unfolding list_ex_iff by blast
  with execution_never_stuck [OF demo_initial demo_runs(1), of e second "''w2''" second] show ?thesis
    by auto
qed

lemma fence_count_one:
  assumes "distinct (map ex_ID rows)" "e \<in> set rows" "fence_holds f e"
  shows "count_where (fence_holds f) rows = 1"
proof -
  have "count_where (fence_holds f) rows = count_where (\<lambda>x. ex_ID x = ex_ID e \<and> fence_holds f x) rows"
    using assms(3) by (intro count_where_cong) (auto simp: fence_holds_def)
  then show ?thesis
    using count_where_key_one [of ex_ID rows e "fence_holds f"] assms by simp
qed

lemma insert_retry_resolved:
  assumes pend: "\<And>r. r \<in> set (ai_execution_retries db) \<Longrightarrow> rt_ExecutionID r = fe_ExecutionID f \<Longrightarrow> \<not> is_pending r"
    and rid: "rid \<notin> rt_ID ` set (ai_execution_retries db)" and seq: "0 < seq"
  shows "\<exists>db'. insert_retry (pending_retry rid (fe_ExecutionID f) (fe_WorkspaceID f) seq gen next_at now)
      (resolve_retries f t out db) = Inr db'"
proof -
  let ?rows = "ai_execution_retries (resolve_retries f t out db)"
  have "rt_ID q \<noteq> rid" if "q \<in> set ?rows" for q
    using rid resolve_keys [of f t out db] that by (metis imageI set_map)
  moreover have "\<not> outstanding (rt_State q)"
    if "q \<in> set ?rows" "rt_ExecutionID q = fe_ExecutionID f" "rt_WorkspaceID q = fe_WorkspaceID f" for q
    using pend that by (cases "rt_State q") (auto simp: resolve_retries_def set_upd_where split: if_splits)
  ultimately show ?thesis
    using seq by (auto simp: insert_retry_def pending_retry_def)
qed

lemma holder_writes:
  assumes inv: "exec_inv s"
    and "f \<in> issued s" "e \<in> set (execs s)" "fence_holds f e"
    and "0 \<le> code" "rid \<notin> rt_ID ` set (ai_execution_retries (tables s))"
  shows "(\<exists>db. Heartbeat (tables s) now f ttl = Inr db)
    \<and> (\<exists>db. Complete (tables s) now f res = Inr db)
    \<and> (\<exists>db. FailAndDLQ (tables s) now f code detail snapshot = Inr db)
    \<and> (\<exists>db. Reschedule (tables s) now rid f next_at (fe_Attempt f + 1) = Inr db)"
proof -
  have eok: "exec_ok e (retries_of s (ex_ID e)) (dlq_of s (ex_ID e)) (fences_of s (ex_ID e))"
    using inv assms(3) by (rule exec_invD)
  have h: "ex_ID e = fe_ExecutionID f" "ex_WorkspaceID e = fe_WorkspaceID f" "ex_Status e = StatusRunning"
    "ex_LeaseGeneration e = fe_LeaseGeneration f"
    using assms(4) by (simp_all add: fence_holds_def)
  have "fence_ok e f" "row_ok e"
    using eok assms(2) h(1) by (auto simp: exec_ok_def fences_ok_def fences_of_def)
  then have seq: "0 \<le> fe_Attempt f"
    using h(4) by (simp add: fence_ok_def row_ok_def)
  have one: "count_where (fence_holds f) (execs s) = 1"
    using exec_inv_distinct [OF inv] assms(3,4) by (rule fence_count_one)
  have none: "\<not> is_pending r" if "r \<in> set (ai_execution_retries (tables s))" "rt_ExecutionID r = fe_ExecutionID f" for r
    using eok h that by (auto simp: exec_ok_def retries_ok_def count_where_0_iff retries_of_mem)
  have "\<exists>db. Reschedule (tables s) now rid f next_at (fe_Attempt f + 1) = Inr db"
    unfolding Reschedule_def fenced_update_def using one seq none assms(6)
    by (auto intro!: insert_retry_resolved [simplified])
  then show ?thesis
    using one assms(5) by (auto simp: Heartbeat_def Complete_def FailAndDLQ_def fenced_update_def Let_def)
qed

text \<open>
  The holder can always finish. In every reachable state the worker whose fence holds the
  execution succeeds with a heartbeat, with the completion, with the failure under any valid
  error code, and, when the identifier generated for the new retry is fresh, with the
  reschedule of the next attempt.
\<close>

theorem holder_can_finish:
  assumes "initial_runtime s0" "runs exec_step s0 s"
    and "f \<in> issued s" "e \<in> set (execs s)" "fence_holds f e"
    and "0 \<le> code" "rid \<notin> rt_ID ` set (ai_execution_retries (tables s))"
  shows "(\<exists>db. Heartbeat (tables s) now f ttl = Inr db)
    \<and> (\<exists>db. Complete (tables s) now f res = Inr db)
    \<and> (\<exists>db. FailAndDLQ (tables s) now f code detail snapshot = Inr db)
    \<and> (\<exists>db. Reschedule (tables s) now rid f next_at (fe_Attempt f + 1) = Inr db)"
  using holder_writes [OF exec.inv_reachable [OF assms(1,2)] assms(3-7)] .

theorem holder_can_finish_witness:
  "\<exists>db. Reschedule (tables demo_reclaimed) (61 * second) 21 (snd (projr demo_reclaim)) (70 * second)
          (fe_Attempt (snd (projr demo_reclaim)) + 1) = Inr db"
proof -
  have "list_ex (fence_holds (snd (projr demo_reclaim))) (execs demo_reclaimed)"
    by code_simp
  then obtain e where "e \<in> set (execs demo_reclaimed)" "fence_holds (snd (projr demo_reclaim)) e"
    unfolding list_ex_iff by blast
  moreover have "snd (projr demo_reclaim) \<in> issued demo_reclaimed"
    by (simp add: demo_reclaimed_def)
  moreover have "(21 :: uuid) \<notin> rt_ID ` set (ai_execution_retries (tables demo_reclaimed))"
    by code_simp
  ultimately show ?thesis
    using holder_can_finish [OF demo_initial demo_runs(3), where code = 0] by blast
qed

subsection \<open>Admission\<close>

lemma find_prefix: "prefix xs ys \<Longrightarrow> find P xs = Some x \<Longrightarrow> find P ys = Some x"
  by (auto simp: prefix_def find_append split: option.splits)

text \<open>The columns of an identity: the workspace, the idempotency key and the rest.\<close>

definition keyed :: "uuid \<Rightarrow> string \<Rightarrow> uuid \<times> uuid \<times> uuid \<times> uuid option \<times> int \<times> string option \<times> string \<Rightarrow> bool" where
  "keyed ws key = (\<lambda>(_, w, _, _, _, k, _). w = ws \<and> k = Some key)"

lemma keyed_identity: "keyed ws key (exec_identity e) \<longleftrightarrow> ex_WorkspaceID e = ws \<and> ex_IdempotencyKey e = Some key"
  by (simp add: keyed_def exec_identity_def)

lemma keyed_lookup_stable:
  assumes "advances s t"
    and "find (\<lambda>e. ex_WorkspaceID e = ws \<and> ex_IdempotencyKey e = Some key) (execs s) = Some e"
  shows "\<exists>e'. find (\<lambda>e. ex_WorkspaceID e = ws \<and> ex_IdempotencyKey e = Some key) (execs t) = Some e'
    \<and> exec_identity e' = exec_identity e"
proof -
  have "find (keyed ws key) (map exec_identity (execs s)) = Some (exec_identity e)"
    using assms(2) by (simp add: find_map [symmetric] keyed_identity)
  with advances_identity [OF assms(1)]
  have "find (keyed ws key) (map exec_identity (execs t)) = Some (exec_identity e)"
    by (rule find_prefix)
  then show ?thesis
    by (simp add: find_map [symmetric] keyed_identity)
qed

lemma admitted_found:
  assumes "AdmissionAdmit db now eid rid done_at req hash = Inr (db', res)" "rq_IdempotencyKey req \<noteq> []"
  shows "\<exists>e. find (\<lambda>e. ex_WorkspaceID e = rq_WorkspaceID req \<and> ex_IdempotencyKey e = Some (rq_IdempotencyKey req))
       (ai_executions db') = Some e \<and> exec_identity e = exec_identity (ar_Execution res)"
proof -
  let ?P = "\<lambda>e. ex_WorkspaceID e = rq_WorkspaceID req \<and> ex_IdempotencyKey e = Some (rq_IdempotencyKey req)"
  show ?thesis
  proof (cases "find ?P (ai_executions db)")
    case (Some e)
    with assms show ?thesis by (auto simp: AdmissionAdmit_def)
  next
    case None
    with assms have ins: "admit_insert db now eid rid done_at req hash = Inr (db', res)"
      by (auto simp: AdmissionAdmit_def split: sum.splits if_splits)
    then have "exec_identity (ar_Execution res) = exec_identity (new_execution eid req hash now)"
      by (auto simp: admit_insert_def Let_def new_execution_def exec_identity_def split: sum.splits)
    with None assms(2) show ?thesis
      by (rule_tac admit_insert_Inr [OF ins]) (simp add: find_append new_execution_def nullableString_def)
  qed
qed

lemma admission_replay:
  assumes "exec_inv s"
    and "AdmissionAdmit (tables s) now eid rid done_at req hash = Inr (db, res)" "rq_IdempotencyKey req \<noteq> []"
    and "runs exec_step (s\<lparr>tables := db\<rparr>) t"
    and "rq_WorkspaceID req' = rq_WorkspaceID req" "rq_IdempotencyKey req' = rq_IdempotencyKey req"
  shows "\<exists>res'. AdmissionAdmit (tables t) now' eid' rid' done_at' req' hash' = Inr (tables t, res')
    \<and> exec_identity (ar_Execution res') = exec_identity (ar_Execution res) \<and> \<not> ar_Created res'"
proof -
  have "exec_inv (s\<lparr>tables := db\<rparr>)"
    using assms(1,2) by (rule Admit_inv)
  with assms(4) have adv: "advances (s\<lparr>tables := db\<rparr>) t"
    by (rule exec.rel_runs)
  obtain e where e: "find (\<lambda>e. ex_WorkspaceID e = rq_WorkspaceID req \<and> ex_IdempotencyKey e = Some (rq_IdempotencyKey req))
       (execs (s\<lparr>tables := db\<rparr>)) = Some e" "exec_identity e = exec_identity (ar_Execution res)"
    using admitted_found [OF assms(2,3)] by auto
  obtain e' where "find (\<lambda>e. ex_WorkspaceID e = rq_WorkspaceID req \<and> ex_IdempotencyKey e = Some (rq_IdempotencyKey req))
       (execs t) = Some e'" "exec_identity e' = exec_identity e"
    using keyed_lookup_stable [OF adv e(1)] by blast
  with e(2) assms(3,5,6) show ?thesis
    by (simp add: AdmissionAdmit_def)
qed

text \<open>
  C5. Idempotent admission. After an admission under an idempotency key, a later admission
  with the same workspace and key, from any later state and whatever else it asks for,
  changes nothing and answers with the same execution, marked as not created.
\<close>

theorem admission_idempotent:
  assumes "initial_runtime s0" "runs exec_step s0 s"
    and "AdmissionAdmit (tables s) now eid rid done_at req hash = Inr (db, res)" "rq_IdempotencyKey req \<noteq> []"
    and "runs exec_step (s\<lparr>tables := db\<rparr>) t"
    and "rq_WorkspaceID req' = rq_WorkspaceID req" "rq_IdempotencyKey req' = rq_IdempotencyKey req"
  shows "\<exists>res'. AdmissionAdmit (tables t) now' eid' rid' done_at' req' hash' = Inr (tables t, res')
    \<and> ex_ID (ar_Execution res') = ex_ID (ar_Execution res) \<and> \<not> ar_Created res'"
  using admission_replay [OF exec.inv_reachable [OF assms(1,2)] assms(3-7)] by (fastforce simp: exec_identity_def)

theorem admission_idempotent_witness:
  "\<exists>res'. AdmissionAdmit (tables demo_reclaimed) 0 11 22 0 (demo_request\<lparr>rq_MaxAttempts := 9\<rparr>) ''other'' =
      Inr (tables demo_reclaimed, res') \<and> \<not> ar_Created res'"
proof -
  have "AdmissionAdmit (tables demo_empty) 0 10 20 0 demo_request ''h'' = Inr (fst (projr demo_admit), snd (projr demo_admit))"
    using demo_ok(1) by (simp add: demo_admit_def)
  moreover have "runs exec_step (demo_empty\<lparr>tables := fst (projr demo_admit)\<rparr>) demo_reclaimed"
    using demo_runs(4) by (simp add: demo_admitted_def)
  ultimately show ?thesis
    using admission_idempotent [OF demo_initial runs_refl, where req = demo_request and t = demo_reclaimed
        and req' = "demo_request\<lparr>rq_MaxAttempts := 9\<rparr>" and now = 0 and eid = 10 and rid = 20
        and done_at = 0 and hash = "''h''" and now' = 0 and eid' = 11 and rid' = 22 and done_at' = 0
        and hash' = "''other''"]
    by (fastforce simp: demo_request_def)
qed

text \<open>
  The capacity of an employee bounds its active executions. An employee row may be missing
  (then nothing is admitted) or carry a non-positive bound.
\<close>

definition capacity_inv :: "runtime \<Rightarrow> bool" where
  "capacity_inv s \<longleftrightarrow>
     (\<forall>ws emp. case Capacity (tables s) ws emp of
         Inl _ \<Rightarrow> ActiveCount (tables s) ws emp = 0
       | Inr cap \<Rightarrow> int (ActiveCount (tables s) ws emp) \<le> max 0 cap)"

lemma active_iff_not_terminal: "active_status st \<longleftrightarrow> \<not> Terminal st"
  by (cases st) (auto simp: active_status_def Terminal_def)

lemma advances_active:
  assumes "advances s t" "length (execs t) = length (execs s)"
  shows "ActiveCount (tables t) ws emp \<le> ActiveCount (tables s) ws emp"
proof -
  from assms obtain L new where L: "execs t = L @ new" "list_all2 row_advances (execs s) L"
    by (auto simp: advances_def)
  then have "new = []" using assms(2) by (auto dest: list_all2_lengthD)
  moreover from L(2) have "count_where (\<lambda>e. ex_WorkspaceID e = ws \<and> ex_AIEmployeeID e = emp \<and> active_status (ex_Status e)) L
      \<le> count_where (\<lambda>e. ex_WorkspaceID e = ws \<and> ex_AIEmployeeID e = emp \<and> active_status (ex_Status e)) (execs s)"
    by (induction rule: list_all2_induct) (auto simp: row_advances_def exec_identity_def active_iff_not_terminal)
  ultimately show ?thesis using L(1) by (simp add: ActiveCount_def)
qed

lemma capacity_shrink:
  assumes "capacity_inv s" "advances s t" "length (execs t) = length (execs s)"
  shows "capacity_inv t"
  unfolding capacity_inv_def
proof (intro allI)
  fix ws emp
  have same: "Capacity (tables t) ws emp = Capacity (tables s) ws emp"
    using assms(2) by (simp add: Capacity_def advances_def)
  have le: "ActiveCount (tables t) ws emp \<le> ActiveCount (tables s) ws emp"
    using assms(2,3) by (rule advances_active)
  show "case Capacity (tables t) ws emp of Inl _ \<Rightarrow> ActiveCount (tables t) ws emp = 0
     | Inr cap \<Rightarrow> int (ActiveCount (tables t) ws emp) \<le> max 0 cap"
    using assms(1) le unfolding capacity_inv_def same by (fastforce split: sum.splits)
qed

lemma capacity_admit:
  assumes "capacity_inv s" "AdmissionAdmit (tables s) now eid rid done_at req hash = Inr (db, res)"
  shows "capacity_inv (s\<lparr>tables := db\<rparr>)"
  using assms(2)
proof (cases rule: Admit_Inr)
  case 1
  with assms(1) show ?thesis by simp
next
  case 2
  obtain c where db: "db = (tables s)\<lparr>ai_executions := execs s @ [new_execution eid req hash now],
      ai_execution_retries := ai_execution_retries (tables s) @ [pending_retry rid eid (rq_WorkspaceID req) 1 0 None now],
      execution_contexts := c\<rparr>"
    by (rule admit_insert_Inr [OF 2(1)]) (rule that, assumption)
  have count: "ActiveCount db ws emp = ActiveCount (tables s) ws emp
      + (if ws = rq_WorkspaceID req \<and> emp = rq_AIEmployeeID req then 1 else 0)" for ws emp
    by (auto simp: db ActiveCount_def new_execution_def active_status_def)
  have cap: "Capacity db ws emp = Capacity (tables s) ws emp" for ws emp
    by (simp add: db Capacity_def)
  show ?thesis
    unfolding capacity_inv_def
  proof (intro allI)
    fix ws emp
    show "case Capacity (tables (s\<lparr>tables := db\<rparr>)) ws emp of Inl _ \<Rightarrow> ActiveCount (tables (s\<lparr>tables := db\<rparr>)) ws emp = 0
      | Inr cap \<Rightarrow> int (ActiveCount (tables (s\<lparr>tables := db\<rparr>)) ws emp) \<le> max 0 cap"
      using assms(1) 2(2) unfolding capacity_inv_def by (auto simp: count cap split: sum.splits)
  qed
qed

lemma exec_step_rows:
  assumes "exec_step s t" "capacity_inv s"
  shows "capacity_inv t \<or> length (execs t) = length (execs s)"
  using assms
proof (induction rule: exec_step.induct)
  case (step_admit s now eid rid done_at req hash db res)
  then show ?case using capacity_admit by blast
next
  case (step_claim s now ws eid worker ttl db f)
  show ?case by (rule Claim_Inr [OF step_claim(1)]) simp
next
  case (step_reclaim s now ws eid worker ttl db f)
  show ?case by (rule ReclaimStale_Inr [OF step_reclaim(1)]) simp
next
  case (step_dispatch s now ws rid worker gen success)
  show ?case by (simp add: RecordDispatch_tables)
next
  case (step_cancel s now ws eid db)
  then show ?case by (auto simp: Exec_Cancel_def Let_def split: if_splits)
qed (fastforce dest: heartbeat.written persist.written complete.written fail.written reschedule.written
      [where seq = "\<lambda>f. fe_Attempt f + 1"])+

interpretation capacity: invariant "\<lambda>s. initial_runtime s" exec_step capacity_inv
proof
  show "capacity_inv s" if "initial_runtime s" for s
    using that by (auto simp: initial_runtime_def capacity_inv_def ActiveCount_def split: sum.splits)
  show "capacity_inv t" if "exec_step s t" "capacity_inv s" for s t
    using exec_step_rows [OF that] capacity_shrink [OF that(2) exec_step_advances [OF that(1)]] by blast
qed

text \<open>
  C6. Capacity. In every reachable state the pending and running executions of an employee
  number at most its \<^verbatim>\<open>max_concurrent_executions\<close>.
\<close>

theorem capacity_never_exceeded:
  assumes "initial_runtime s0" "runs exec_step s0 s" and "Capacity (tables s) ws emp = Inr cap"
  shows "int (ActiveCount (tables s) ws emp) \<le> max 0 cap"
  using capacity.inv_reachable [OF assms(1,2)] assms(3) by (auto simp: capacity_inv_def split: sum.splits)

theorem capacity_never_exceeded_witness:
  "Capacity (tables demo_claimed) 1 2 = Inr 1 \<and> int (ActiveCount (tables demo_claimed) 1 2) \<le> 1"
proof -
  have "Capacity (tables demo_claimed) 1 2 = Inr 1" by code_simp
  then show ?thesis
    using capacity_never_exceeded [OF demo_initial demo_runs(2)] by fastforce
qed

text \<open>
  An admission that carries a context snapshot never creates an execution: the insert
  into \<^verbatim>\<open>execution_contexts\<close> leaves out the mandatory \<^verbatim>\<open>workspace_id\<close>, so the
  transaction is rolled back; only the replay of an earlier key can answer.
\<close>

theorem admission_with_context_never_creates:
  assumes "rq_Context req \<noteq> None" "AdmissionAdmit db now eid rid done_at req hash = Inr (db', res)"
  shows "db' = db \<and> \<not> ar_Created res"
  using assms
  by (auto simp: AdmissionAdmit_def admit_insert_def Let_def insert_context_def context_candidate_def
      split: option.splits sum.splits if_splits)

theorem admission_with_context_never_creates_witness:
  "\<not> ar_Created (snd (projr (AdmissionAdmit (tables demo_reclaimed) 0 11 22 0
       (demo_request\<lparr>rq_Context := Some \<lparr>mr_TaskTitle = [], mr_TaskDescription = [], mr_AIEmployeeName = ''a'',
          mr_AIEmployeeRole = ''r'', mr_TeamName = [], mr_DepartmentName = [], mr_Capabilities = []\<rparr>\<rparr>) ''h'')))"
    (is "\<not> ar_Created (snd (projr ?r))")
proof -
  have "\<not> isl ?r" by code_simp
  then have "?r = Inr (fst (projr ?r), snd (projr ?r))" by simp
  then show ?thesis
    by (rule admission_with_context_never_creates [THEN conjunct2, rotated]) simp
qed

end
