(* ===== verification/Execution_Service.thy ===== *)
theory Execution_Service
  imports Execution_Guarantees
begin

text \<open>
  The admission service (\<^verbatim>\<open>internal/execution/service.go\<close>) in front of the store. The
  SHA-256 digest of the canonical JSON payload is a parameter \<open>digest\<close> of the payload.
\<close>

definition DefaultMaxAttempts :: int where
  "DefaultMaxAttempts = 3"

type_synonym canonical = "uuid \<times> uuid option \<times> int"

definition canonical_of :: "admit_request \<Rightarrow> canonical" where
  "canonical_of req = (rq_AIEmployeeID req, rq_TaskID req, rq_MaxAttempts req)"

definition RequestHash :: "(canonical \<Rightarrow> string) \<Rightarrow> admit_request \<Rightarrow> string" where
  "RequestHash digest req = digest (canonical_of req)"

definition Service_Admit ::
  "(canonical \<Rightarrow> string) \<Rightarrow> execdb \<Rightarrow> instant \<Rightarrow> uuid \<Rightarrow> uuid \<Rightarrow> instant \<Rightarrow> admit_request \<Rightarrow>
   (exec_error, execdb \<times> admit_result) result" where
  "Service_Admit digest db now eid rid done_at req0 =
     (if rq_WorkspaceID req0 = uuid_Nil then Inl ErrWorkspaceMismatch
      else if rq_AIEmployeeID req0 = uuid_Nil then Inl ErrInvalidInput
      else
        let req = (if rq_MaxAttempts req0 \<le> 0 then req0\<lparr>rq_MaxAttempts := DefaultMaxAttempts\<rparr> else req0);
            hash = RequestHash digest req
        in case AdmissionAdmit db now eid rid done_at req hash of
             Inl e \<Rightarrow> Inl e
           | Inr (db', res) \<Rightarrow>
               if \<not> ar_Created res
                  \<and> (\<not> sameRequest req (ar_Execution res) \<or> ex_RequestHash (ar_Execution res) \<noteq> hash)
               then Inl ErrIdempotencyKey
               else Inr (db', res))"

definition Service_Cancel :: "execdb \<Rightarrow> instant \<Rightarrow> uuid \<Rightarrow> uuid \<Rightarrow> (exec_error, execdb) result" where
  "Service_Cancel db now ws eid = Exec_Cancel db now ws eid"

definition Service_Get :: "execdb \<Rightarrow> uuid \<Rightarrow> uuid \<Rightarrow> (exec_error, execution) result" where
  "Service_Get db ws eid = Exec_Get db ws eid"

text \<open>The request as the service hands it to the store.\<close>

definition effective :: "admit_request \<Rightarrow> admit_request" where
  "effective req = (if rq_MaxAttempts req \<le> 0 then req\<lparr>rq_MaxAttempts := DefaultMaxAttempts\<rparr> else req)"

lemma effective_simps [simp]:
  "rq_WorkspaceID (effective req) = rq_WorkspaceID req" "rq_IdempotencyKey (effective req) = rq_IdempotencyKey req"
  "rq_AIEmployeeID (effective req) = rq_AIEmployeeID req" "rq_TaskID (effective req) = rq_TaskID req"
  "0 < rq_MaxAttempts (effective req)"
  by (simp_all add: effective_def DefaultMaxAttempts_def)

lemma Service_Admit_Inr:
  assumes "Service_Admit digest db now eid rid done_at req = Inr (db', res)"
  shows "AdmissionAdmit db now eid rid done_at (effective req) (RequestHash digest (effective req)) = Inr (db', res)"
    and "rq_WorkspaceID req \<noteq> uuid_Nil" "rq_AIEmployeeID req \<noteq> uuid_Nil"
    and "\<not> ar_Created res \<Longrightarrow> sameRequest (effective req) (ar_Execution res)
       \<and> ex_RequestHash (ar_Execution res) = RequestHash digest (effective req)"
  using assms
  by (auto simp: Service_Admit_def Let_def effective_def [symmetric] split: if_splits sum.splits)

lemma Service_Admit_step:
  "Service_Admit digest (tables s) now eid rid done_at req = Inr (db', res) \<Longrightarrow> exec_step s (s\<lparr>tables := db'\<rparr>)"
  by (rule step_admit) (rule Service_Admit_Inr)

text \<open>What the answer of a successful admission says about the request it was given.\<close>

lemma Service_Admit_answer:
  assumes "Service_Admit digest db now eid rid done_at req = Inr (db', res)"
  shows "ex_AIEmployeeID (ar_Execution res) = rq_AIEmployeeID req" "ex_TaskID (ar_Execution res) = rq_TaskID req"
    "ex_RequestHash (ar_Execution res) = RequestHash digest (effective req)"
proof -
  note A = Service_Admit_Inr [OF assms]
  have created: "ex_AIEmployeeID (ar_Execution res) = rq_AIEmployeeID req \<and> ex_TaskID (ar_Execution res) = rq_TaskID req
     \<and> ex_RequestHash (ar_Execution res) = RequestHash digest (effective req)" if "ar_Created res"
    using A(1) that
    by (auto simp: AdmissionAdmit_def admit_insert_def Let_def new_execution_def split: option.splits sum.splits if_splits)
  show "ex_AIEmployeeID (ar_Execution res) = rq_AIEmployeeID req" "ex_TaskID (ar_Execution res) = rq_TaskID req"
    "ex_RequestHash (ar_Execution res) = RequestHash digest (effective req)"
    using A(4) created by (cases "ar_Created res"; simp add: sameRequest_iff)+
qed

subsection \<open>Properties\<close>

text \<open>
  Replay or conflict. After the service admitted a request under an idempotency key, a
  second admission with the same workspace and key, from any later state, never creates
  anything: with the same employee, task and attempt budget it answers with the execution of
  the first, and with a payload of another digest it is refused with \<^verbatim>\<open>ErrIdempotencyKey\<close>.
\<close>

theorem service_admit_replay_or_conflict:
  assumes "initial_runtime s0" "runs exec_step s0 s"
    and "Service_Admit digest (tables s) now eid rid done_at req = Inr (db, res)" "rq_IdempotencyKey req \<noteq> []"
    and "runs exec_step (s\<lparr>tables := db\<rparr>) t"
    and "rq_WorkspaceID req' = rq_WorkspaceID req" "rq_IdempotencyKey req' = rq_IdempotencyKey req"
    and "rq_AIEmployeeID req' \<noteq> uuid_Nil"
  shows "if canonical_of (effective req') = canonical_of (effective req)
         then \<exists>res'. Service_Admit digest (tables t) now' eid' rid' done_at' req' = Inr (tables t, res')
                \<and> ex_ID (ar_Execution res') = ex_ID (ar_Execution res) \<and> \<not> ar_Created res'
         else digest (canonical_of (effective req')) \<noteq> digest (canonical_of (effective req)) \<longrightarrow>
                Service_Admit digest (tables t) now' eid' rid' done_at' req' = Inl ErrIdempotencyKey"
proof -
  note A = Service_Admit_Inr [OF assms(3)] and B = Service_Admit_answer [OF assms(3)]
  have keys: "rq_IdempotencyKey (effective req) \<noteq> []" "rq_WorkspaceID (effective req') = rq_WorkspaceID (effective req)"
    "rq_IdempotencyKey (effective req') = rq_IdempotencyKey (effective req)"
    using assms(4,6,7) by simp_all
  obtain res' where r: "AdmissionAdmit (tables t) now' eid' rid' done_at' (effective req') (RequestHash digest (effective req'))
      = Inr (tables t, res')" "exec_identity (ar_Execution res') = exec_identity (ar_Execution res)" "\<not> ar_Created res'"
    using admission_replay [OF exec.inv_reachable [OF assms(1,2)] A(1) keys(1) assms(5) keys(2,3)] by blast
  have same: "sameRequest (effective req') (ar_Execution res') \<longleftrightarrow>
      rq_AIEmployeeID req' = rq_AIEmployeeID req \<and> rq_TaskID req' = rq_TaskID req"
    and hash: "ex_RequestHash (ar_Execution res') = RequestHash digest (effective req)"
    and eid: "ex_ID (ar_Execution res') = ex_ID (ar_Execution res)"
    using r(2) B by (auto simp: exec_identity_def sameRequest_iff)
  have ans: "Service_Admit digest (tables t) now' eid' rid' done_at' req' =
      (if \<not> sameRequest (effective req') (ar_Execution res')
          \<or> ex_RequestHash (ar_Execution res') \<noteq> RequestHash digest (effective req')
       then Inl ErrIdempotencyKey else Inr (tables t, res'))"
    using r(1,3) A(2) assms(6,8) by (simp add: Service_Admit_def effective_def [symmetric])
  show ?thesis
  proof (cases "canonical_of (effective req') = canonical_of (effective req)")
    case True
    then have "Service_Admit digest (tables t) now' eid' rid' done_at' req' = Inr (tables t, res')"
      unfolding ans same hash by (simp add: RequestHash_def canonical_of_def)
    with True eid r(3) show ?thesis by simp
  next
    case False
    then show ?thesis
      unfolding ans hash by (simp add: RequestHash_def)
  qed
qed

text \<open>A digest with no collision on the demonstration payloads: the attempt budget in unary.\<close>

definition demo_digest :: "canonical \<Rightarrow> string" where
  "demo_digest p = replicate (nat (snd (snd p))) CHR ''x''"

theorem service_admit_replay_or_conflict_witness:
  "\<exists>db res. Service_Admit demo_digest (tables demo_empty) 0 10 20 0 demo_request = Inr (db, res)
     \<and> Service_Admit demo_digest db 1 11 21 1 (demo_request\<lparr>rq_MaxAttempts := 5\<rparr>) = Inl ErrIdempotencyKey"
proof -
  have "\<not> isl (Service_Admit demo_digest (tables demo_empty) 0 10 20 0 demo_request)"
    by code_simp
  then obtain db res where a: "Service_Admit demo_digest (tables demo_empty) 0 10 20 0 demo_request = Inr (db, res)"
    by (cases "Service_Admit demo_digest (tables demo_empty) 0 10 20 0 demo_request") auto
  have "demo_digest (canonical_of (effective (demo_request\<lparr>rq_MaxAttempts := 5\<rparr>))) \<noteq>
      demo_digest (canonical_of (effective demo_request))"
    "canonical_of (effective (demo_request\<lparr>rq_MaxAttempts := 5\<rparr>)) \<noteq> canonical_of (effective demo_request)"
    by code_simp+
  then have "Service_Admit demo_digest db 1 11 21 1 (demo_request\<lparr>rq_MaxAttempts := 5\<rparr>) = Inl ErrIdempotencyKey"
    using service_admit_replay_or_conflict [OF demo_initial runs_refl a _ runs_refl,
        of "demo_request\<lparr>rq_MaxAttempts := 5\<rparr>" 1 11 21 1]
    by (simp add: demo_request_def)
  with a show ?thesis by blast
qed

end
