(* ===== verification/Retry_Policy.thy ===== *)
theory Retry_Policy
  imports Go_Prelude
begin

text \<open>
  The retry policy of the execution runtime (\<^verbatim>\<open>internal/execution/retrypolicy.go\<close>):
  the exponential back-off with a hard cap and the shrinking lease window of late attempts.
  Durations are signed 64-bit counts of nanoseconds, so doubling and scaling are written
  with \<open>wrap64\<close>; the lemmas say under which bounds nothing wraps and what the policy
  then computes.
\<close>

subsection \<open>RetryDelay\<close>

text \<open>The loop of \<^verbatim>\<open>RetryDelay\<close>: \<open>n\<close> is the number of iterations left.\<close>

fun RetryDelay_loop :: "nat \<Rightarrow> duration \<Rightarrow> duration \<Rightarrow> duration" where
  "RetryDelay_loop 0 d cap = (if d \<ge> cap then cap else d)"
| "RetryDelay_loop (Suc n) d cap =
     (let d' = wrap64 (d * 2) in if d' \<ge> cap then cap else RetryDelay_loop n d' cap)"

definition RetryDelay :: "int \<Rightarrow> duration \<Rightarrow> duration \<Rightarrow> duration" where
  "RetryDelay attempt base cap =
     (let a = (if attempt < 1 then 1 else attempt) in RetryDelay_loop (nat (a - 1)) base cap)"

lemma RetryDelay_loop_eq:
  assumes "0 \<le> d" "d < 2 ^ 62" "0 \<le> cap" "cap \<le> 2 ^ 62"
  shows "RetryDelay_loop n d cap = min cap (d * 2 ^ n)"
  using assms
proof (induction n arbitrary: d)
  case 0
  then show ?case by auto
next
  case (Suc n)
  have w: "wrap64 (d * 2) = d * 2"
    using Suc.prems by (simp add: int64_def)
  show ?case
  proof (cases "d * 2 \<ge> cap")
    case True
    have "cap \<le> d * 2 * 2 ^ n"
      using True Suc.prems(1) mult_left_mono [of 1 "2 ^ n" "d * 2"] by simp
    with True w show ?thesis by (simp add: Let_def min_def mult.assoc)
  next
    case False
    with Suc.prems have "RetryDelay_loop n (d * 2) cap = min cap (d * 2 * 2 ^ n)"
      by (intro Suc.IH) auto
    with False w show ?thesis by (simp add: Let_def mult.assoc)
  qed
qed

lemma RetryDelay_eq_min:
  assumes "0 \<le> base" "base < 2 ^ 62" "0 \<le> cap" "cap \<le> 2 ^ 62"
  shows "RetryDelay attempt base cap = min cap (base * 2 ^ nat (attempt - 1))"
  using assms by (simp add: RetryDelay_def RetryDelay_loop_eq)

subsection \<open>AttemptWindow\<close>

definition AttemptWindow :: "duration \<Rightarrow> int \<Rightarrow> int \<Rightarrow> duration" where
  "AttemptWindow full attempt maxAttempts =
     (let m = (if maxAttempts < 1 then 1 else maxAttempts);
          a = (if attempt < 1 then 1 else attempt);
          a = (if a > m then m else a)
      in if m = 1 then full
         else let window = quot (wrap64 (full * (m - a + 1))) m
              in if window < second then second else window)"

text \<open>The window of attempt \<open>a\<close> of \<open>m\<close>, both in range and nothing wrapping.\<close>

lemma AttemptWindow_eq:
  assumes "1 < m" "1 \<le> a" "a \<le> m" "0 \<le> full" "full * m < 2 ^ 63"
  shows "AttemptWindow full a m = max second (full * (m - a + 1) div m)"
proof -
  have "full * (m - a + 1) \<le> full * m"
    using assms by (intro mult_left_mono) auto
  moreover have "0 \<le> full * (m - a + 1)"
    using assms by simp
  ultimately have "int64 (full * (m - a + 1))"
    using assms(5) by (simp add: int64_def)
  then show ?thesis
    using assms \<open>0 \<le> full * (m - a + 1)\<close> by (auto simp: AttemptWindow_def Let_def max_def)
qed

lemma AttemptWindow_clamp:
  "AttemptWindow full attempt maxAttempts =
     AttemptWindow full (min (max 1 attempt) (max 1 maxAttempts)) (max 1 maxAttempts)"
  by (auto simp: AttemptWindow_def Let_def max_def min_def)

subsection \<open>Properties\<close>

text \<open>
  C7. For a base delay below and a cap not above \<open>2\<^sup>6\<^sup>2\<close> nanoseconds (146 years),
  \<^verbatim>\<open>RetryDelay\<close> is exactly \<open>min(cap, base * 2^(attempt-1))\<close>: the documented
  exponential sequence under the hard cap, with no wrap-around at any depth of the retry
  budget, and it never decreases from one attempt to the next.
\<close>

theorem retry_delay_exponential_capped:
  assumes "0 \<le> base" "base < 2 ^ 62" "0 \<le> cap" "cap \<le> 2 ^ 62"
  shows "RetryDelay attempt base cap = min cap (base * 2 ^ nat (attempt - 1))
         \<and> 0 \<le> RetryDelay attempt base cap
         \<and> RetryDelay attempt base cap \<le> cap
         \<and> RetryDelay attempt base cap \<le> RetryDelay (attempt + 1) base cap"
proof -
  have "base * 2 ^ nat (attempt - 1) \<le> base * 2 ^ nat (attempt + 1 - 1)"
    using assms(1) by (intro mult_left_mono power_increasing) auto
  then have "min cap (base * 2 ^ nat (attempt - 1)) \<le> min cap (base * 2 ^ nat (attempt + 1 - 1))"
    by (intro min.mono order_refl)
  with assms show ?thesis by (simp only: RetryDelay_eq_min [OF assms]) simp
qed

theorem retry_delay_exponential_capped_witness:
  "RetryDelay 4 (2 * second) (10 * second) = 10 * second
   \<and> RetryDelay 3 (2 * second) (10 * second) = 8 * second"
  using retry_delay_exponential_capped [of "2 * second" "10 * second" 4]
    retry_delay_exponential_capped [of "2 * second" "10 * second" 3]
  by (simp add: second_def)

text \<open>
  The lease window of an attempt lies between one second and the full window, is the
  full window for the first attempt, and shrinks from each attempt to the next, whatever
  (out-of-range) attempt numbers the caller passes, as long as the scaled budget fits 64
  bits.
\<close>

theorem attempt_window_shrinks:
  assumes "second \<le> full" "full * max 1 m < 2 ^ 63"
  shows "second \<le> AttemptWindow full a m \<and> AttemptWindow full a m \<le> full
         \<and> AttemptWindow full 1 m = full
         \<and> AttemptWindow full (a + 1) m \<le> AttemptWindow full a m"
proof -
  define M where "M = max 1 m"
  define A where "A = min (max 1 a) M"
  define B where "B = min (max 1 (a + 1)) M"
  have M: "1 \<le> M" and A: "1 \<le> A" "A \<le> M" and B: "1 \<le> B" "B \<le> M" and AB: "A \<le> B"
    unfolding M_def A_def B_def by auto
  have full: "0 \<le> full" "full * M < 2 ^ 63"
    using assms unfolding M_def second_def by auto
  have eqs: "AttemptWindow full a m = AttemptWindow full A M"
    "AttemptWindow full (a + 1) m = AttemptWindow full B M"
    "AttemptWindow full 1 m = AttemptWindow full 1 M"
    unfolding M_def A_def B_def by (subst AttemptWindow_clamp; simp)+
  show ?thesis
  proof (cases "M = 1")
    case True
    then show ?thesis
      unfolding eqs using assms by (simp add: AttemptWindow_def)
  next
    case False
    with M have M1: "1 < M" by simp
    have le: "full * (M - k + 1) div M \<le> full" if "1 \<le> k" for k
    proof -
      have "full * (M - k + 1) \<le> full * M"
        using that full M1 by (intro mult_left_mono) auto
      then have "full * (M - k + 1) div M \<le> full * M div M"
        using M1 by (intro zdiv_mono1) auto
      with M1 show ?thesis by simp
    qed
    have "full * (M - B + 1) \<le> full * (M - A + 1)"
      using AB full by (intro mult_left_mono) auto
    then have "full * (M - B + 1) div M \<le> full * (M - A + 1) div M"
      using M1 by (intro zdiv_mono1) auto
    then show ?thesis
      unfolding eqs using le [of A] le [of B] A B M1 full assms(1)
      by (auto simp: AttemptWindow_eq)
  qed
qed

theorem attempt_window_shrinks_witness:
  "second \<le> AttemptWindow (30 * second) 2 3 \<and> AttemptWindow (30 * second) 2 3 = 20 * second
   \<and> AttemptWindow (30 * second) 3 3 \<le> AttemptWindow (30 * second) 2 3"
  using attempt_window_shrinks [of "30 * second" 3 2]
  by (simp add: second_def AttemptWindow_def Let_def wrap64_def)

end
