(* ===== verification/Execution_Processes.thy ===== *)
theory Execution_Processes
  imports Execution_Service Retry_Policy
begin

text \<open>
  The processes of the execution runtime: the dispatcher
  (\<^verbatim>\<open>internal/execution/dispatcher.go\<close>) and the worker (\<^verbatim>\<open>internal/execution/worker.go\<close>).
  Each is a sequential program over the store. Between two of its calls the other processes
  may take any number of steps; a call may fail before it reaches the database, and its
  reply may be lost after the commit. All of this is an argument, the oracle: what the
  environment does before the n-th store call, what that call reads from the clocks and
  generates as an identifier, whether it faults, and whether a publish succeeds.
\<close>

subsection \<open>Store calls in an environment\<close>

record PublishMessage =
  pm_WorkspaceID :: uuid
  pm_ExecutionID :: uuid
  pm_AIEmployeeID :: uuid
  pm_TaskID :: "uuid option"
  pm_Attempt :: int
  pm_MaxAttempts :: int
  pm_RetryID :: uuid
  pm_Generation :: int
  pm_LeaseExpiresAt :: instant
  pm_LeaseOwner :: string

datatype fault = NoFault | CallLost | ReplyLost

record env_oracle =
  or_env :: "nat \<Rightarrow> runtime \<Rightarrow> runtime"
  or_db_now :: "nat \<Rightarrow> instant"
  or_now :: "nat \<Rightarrow> instant"
  or_uuid :: "nat \<Rightarrow> uuid"
  or_fault :: "nat \<Rightarrow> fault"
  or_publish :: "nat \<Rightarrow> bool"

record world =
  wo_state :: runtime
  wo_calls :: nat
  wo_sent :: "PublishMessage list"

type_synonym 'a store_op = "instant \<Rightarrow> uuid \<Rightarrow> runtime \<Rightarrow> (exec_error, runtime \<times> 'a) result"

definition call :: "env_oracle \<Rightarrow> 'a store_op \<Rightarrow> world \<Rightarrow> (exec_error, 'a) result \<times> world" where
  "call orc op w =
     (let n = wo_calls w;
          s = or_env orc n (wo_state w);
          r = op (or_db_now orc n) (or_uuid orc n) s;
          t = (case r of Inl _ \<Rightarrow> s | Inr (t, _) \<Rightarrow> t);
          w' = w\<lparr>wo_calls := n + 1\<rparr>
      in case or_fault orc n of
           CallLost \<Rightarrow> (Inl ErrDatabase, w'\<lparr>wo_state := s\<rparr>)
         | ReplyLost \<Rightarrow> (Inl ErrDatabase, w'\<lparr>wo_state := t\<rparr>)
         | NoFault \<Rightarrow> (case r of Inl e \<Rightarrow> (Inl e, w'\<lparr>wo_state := t\<rparr>) | Inr (_, a) \<Rightarrow> (Inr a, w'\<lparr>wo_state := t\<rparr>)))"

definition reading :: "(instant \<Rightarrow> execdb \<Rightarrow> (exec_error, 'a) result) \<Rightarrow> 'a store_op" where
  "reading q now _ s = (case q now (tables s) of Inl e \<Rightarrow> Inl e | Inr a \<Rightarrow> Inr (s, a))"

definition writing :: "(instant \<Rightarrow> uuid \<Rightarrow> execdb \<Rightarrow> (exec_error, execdb) result) \<Rightarrow> unit store_op" where
  "writing q now rid s = (case q now rid (tables s) of Inl e \<Rightarrow> Inl e | Inr db \<Rightarrow> Inr (s\<lparr>tables := db\<rparr>, ()))"

definition leasing :: "(instant \<Rightarrow> execdb \<Rightarrow> (exec_error, execdb \<times> fenced) result) \<Rightarrow> fenced store_op" where
  "leasing q now _ s =
     (case q now (tables s) of
        Inl e \<Rightarrow> Inl e
      | Inr (db, f) \<Rightarrow> Inr (s\<lparr>tables := db, issued := insert f (issued s)\<rparr>, f))"

subsection \<open>Dispatcher\<close>

record dispatcher =
  di_workerID :: string
  di_leaseTTL :: duration
  di_baseDelay :: duration
  di_maxDelay :: duration
  di_sweepLimit :: nat

definition NewDispatcher :: "string \<Rightarrow> duration \<Rightarrow> duration \<Rightarrow> duration \<Rightarrow> dispatcher" where
  "NewDispatcher workerID leaseTTL baseDelay maxDelay =
     \<lparr>di_workerID = workerID, di_leaseTTL = leaseTTL, di_baseDelay = baseDelay, di_maxDelay = maxDelay,
      di_sweepLimit = 100\<rparr>"

definition resolveRecovered :: "env_oracle \<Rightarrow> dispatcher \<Rightarrow> fenced \<Rightarrow> world \<Rightarrow> (exec_error, unit) result \<times> world" where
  "resolveRecovered orc d f w =
     (let code = (case fe_LastErrorCode f of None \<Rightarrow> CodeWorkerLeaseExpired | Some c \<Rightarrow> c);
          retryable = (case fe_Retryable f of None \<Rightarrow> True | Some b \<Rightarrow> b)
      in if \<not> retryable \<or> fe_Attempt f \<ge> fe_MaxAttempts f
         then call orc (writing (\<lambda>now _ db. FailAndDLQ db now f code ''lease expired after non-retryable failure'' [])) w
         else let next_at = or_now orc (wo_calls w) + RetryDelay (fe_Attempt f) (di_baseDelay d) (di_maxDelay d)
              in call orc (writing (\<lambda>now rid db. Reschedule db now rid f next_at (fe_Attempt f + 1))) w)"

fun recover_each ::
  "env_oracle \<Rightarrow> dispatcher \<Rightarrow> uuid \<Rightarrow> uuid list \<Rightarrow> bool \<Rightarrow> world \<Rightarrow> (exec_error, bool) result \<times> world" where
  "recover_each orc d ws [] reclaimed w = (Inr reclaimed, w)"
| "recover_each orc d ws (eid # ids) reclaimed w =
     (case call orc (leasing (\<lambda>now db. ReclaimStale db now ws eid (di_workerID d) (di_leaseTTL d))) w of
        (Inl e, w1) \<Rightarrow> if e = ErrNotFound then recover_each orc d ws ids reclaimed w1 else (Inl e, w1)
      | (Inr f, w1) \<Rightarrow>
          (case resolveRecovered orc d f w1 of
             (Inl e, w2) \<Rightarrow> (Inl e, w2)
           | (Inr _, w2) \<Rightarrow> recover_each orc d ws ids True w2))"

text \<open>
  The endless \<^verbatim>\<open>for\<close> of \<^verbatim>\<open>recoverStale\<close> with fuel: \<open>None\<close> when the fuel ends before the
  loop does.
\<close>

fun recoverStale ::
  "nat \<Rightarrow> env_oracle \<Rightarrow> dispatcher \<Rightarrow> uuid \<Rightarrow> world \<Rightarrow> ((exec_error, unit) result \<times> world) option" where
  "recoverStale 0 orc d ws w = None"
| "recoverStale (Suc fuel) orc d ws w =
     (case call orc (reading (\<lambda>now db. Inr (GetStale db now ws (di_sweepLimit d)))) w of
        (Inl e, w1) \<Rightarrow> Some (Inl e, w1)
      | (Inr ids, w1) \<Rightarrow>
          if ids = [] then Some (Inr (), w1)
          else case recover_each orc d ws ids False w1 of
                 (Inl e, w2) \<Rightarrow> Some (Inl e, w2)
               | (Inr reclaimed, w2) \<Rightarrow>
                   if \<not> reclaimed then Some (Inr (), w2) else recoverStale fuel orc d ws w2)"

definition publish_message :: "dispatcher \<Rightarrow> fenced \<Rightarrow> PublishMessage" where
  "publish_message d f =
     \<lparr>pm_WorkspaceID = fe_WorkspaceID f, pm_ExecutionID = fe_ExecutionID f, pm_AIEmployeeID = fe_AIEmployeeID f,
      pm_TaskID = None, pm_Attempt = fe_Attempt f, pm_MaxAttempts = fe_MaxAttempts f, pm_RetryID = fe_RetryID f,
      pm_Generation = fe_LeaseGeneration f, pm_LeaseExpiresAt = fe_LeaseExpiresAt f, pm_LeaseOwner = di_workerID d\<rparr>"

fun dispatch_each ::
  "env_oracle \<Rightarrow> dispatcher \<Rightarrow> uuid \<Rightarrow> uuid list \<Rightarrow> world \<Rightarrow> (exec_error, unit) result \<times> world" where
  "dispatch_each orc d ws [] w = (Inr (), w)"
| "dispatch_each orc d ws (eid # ids) w =
     (case call orc (leasing (\<lambda>now db. Claim db now ws eid (di_workerID d) (di_leaseTTL d))) w of
        (Inl e, w1) \<Rightarrow> if e = ErrNotFound then dispatch_each orc d ws ids w1 else (Inl e, w1)
      | (Inr f, w1) \<Rightarrow>
          let published = or_publish orc (wo_calls w1);
              w2 = w1\<lparr>wo_sent := wo_sent w1 @ [publish_message d f]\<rparr>
          in case call orc (writing (\<lambda>now _ db. Inr (RecordDispatch db now (fe_WorkspaceID f) (fe_RetryID f)
                                (di_workerID d) (fe_LeaseGeneration f) published))) w2 of
               (Inl e, w3) \<Rightarrow> (Inl e, w3)
             | (Inr _, w3) \<Rightarrow> dispatch_each orc d ws ids w3)"

definition dispatchDue :: "env_oracle \<Rightarrow> dispatcher \<Rightarrow> uuid \<Rightarrow> world \<Rightarrow> (exec_error, unit) result \<times> world" where
  "dispatchDue orc d ws w =
     (case call orc (reading (\<lambda>now db. Inr (GetDue db now ws (di_sweepLimit d)))) w of
        (Inl e, w1) \<Rightarrow> (Inl e, w1)
      | (Inr ids, w1) \<Rightarrow> dispatch_each orc d ws ids w1)"

definition Sweep ::
  "nat \<Rightarrow> env_oracle \<Rightarrow> dispatcher \<Rightarrow> uuid \<Rightarrow> world \<Rightarrow> ((exec_error, unit) result \<times> world) option" where
  "Sweep fuel orc d ws w =
     (case recoverStale fuel orc d ws w of
        None \<Rightarrow> None
      | Some (Inl e, w1) \<Rightarrow> Some (Inl e, w1)
      | Some (Inr _, w1) \<Rightarrow> Some (dispatchDue orc d ws w1))"

text \<open>
  \<^verbatim>\<open>Dispatcher.Run\<close>: a sweep at start and one per tick until the context ends after
  \<open>ticks\<close> ticks; an error of a sweep is logged and the next tick sweeps again.
\<close>

fun Dispatcher_Run :: "nat \<Rightarrow> nat \<Rightarrow> env_oracle \<Rightarrow> dispatcher \<Rightarrow> uuid \<Rightarrow> world \<Rightarrow> world option" where
  "Dispatcher_Run fuel 0 orc d ws w = map_option snd (Sweep fuel orc d ws w)"
| "Dispatcher_Run fuel (Suc ticks) orc d ws w =
     (case Sweep fuel orc d ws w of None \<Rightarrow> None | Some (_, w1) \<Rightarrow> Dispatcher_Run fuel ticks orc d ws w1)"

subsection \<open>Worker\<close>

datatype run_outcome = OutcomeCompleted | OutcomeScheduled | OutcomeDeadLettered | OutcomeAbandoned

record worker =
  wk_workerID :: string
  wk_leaseTTL :: duration
  wk_executionWindow :: duration
  wk_baseDelay :: duration
  wk_maxDelay :: duration

definition fencedFrom :: "PublishMessage \<Rightarrow> string \<Rightarrow> fenced" where
  "fencedFrom msg workerID =
     (let owner = (if pm_LeaseOwner msg = [] then workerID else pm_LeaseOwner msg) in
      \<lparr>fe_ExecutionID = pm_ExecutionID msg, fe_WorkspaceID = pm_WorkspaceID msg, fe_LeaseOwner = owner,
       fe_LeaseGeneration = pm_Generation msg, fe_LeaseExpiresAt = pm_LeaseExpiresAt msg,
       fe_Attempt = pm_Attempt msg, fe_MaxAttempts = pm_MaxAttempts msg, fe_RetryID = pm_RetryID msg,
       fe_AIEmployeeID = pm_AIEmployeeID msg, fe_LastErrorCode = None, fe_Retryable = None, fe_NextRetryAt = None\<rparr>)"

definition join :: "string \<Rightarrow> string list \<Rightarrow> string" where
  "join sep xs = (case xs of [] \<Rightarrow> [] | x # ys \<Rightarrow> x @ concat (map (\<lambda>y. sep @ y) ys))"

definition instruction :: "materialized \<Rightarrow> string" where
  "instruction m =
     ''You are '' @ mr_AIEmployeeName m @ '', '' @ mr_AIEmployeeRole m @ ''.''
     @ (if mr_DepartmentName m \<noteq> [] then '' Department: '' @ mr_DepartmentName m @ ''.'' else [])
     @ (if mr_TeamName m \<noteq> [] then '' Team: '' @ mr_TeamName m @ ''.'' else [])
     @ (if mr_Capabilities m \<noteq> [] then '' Capabilities: '' @ join '', '' (mr_Capabilities m) @ ''.'' else [])
     @ (if mr_TaskTitle m \<noteq> [] then CHR 0x0A # ''Task: '' @ mr_TaskTitle m @ ''.'' else [])
     @ (if mr_TaskDescription m \<noteq> [] then CHR 0x0A # mr_TaskDescription m else [])"

text \<open>
  What the worker reaches outside the store: the provider call under a deadline, with the
  number of heartbeat ticks that elapse while it runs and whether the caller's context is
  cancelled meanwhile; the JSON encoder; the text of an error.
\<close>

record 'r outside =
  ou_complete :: "instant \<Rightarrow> uuid \<Rightarrow> string \<Rightarrow> (go_error, 'r) result"
  ou_ticks :: nat
  ou_cancelled :: bool
  ou_marshal :: "'r \<Rightarrow> (go_error, string) result"
  ou_marshal_request :: "materialized \<Rightarrow> string option"
  ou_error_text :: "go_error \<Rightarrow> string"

definition worker_snapshot :: "'r outside \<Rightarrow> materialized \<Rightarrow> string" where
  "worker_snapshot out m = (case ou_marshal_request out m of None \<Rightarrow> [] | Some raw \<Rightarrow> raw)"

text \<open>
  The heartbeat goroutine: one renewal per tick until one fails, which cancels the run.
  The result says whether the lease was still held.
\<close>

fun heartbeats :: "nat \<Rightarrow> env_oracle \<Rightarrow> worker \<Rightarrow> fenced \<Rightarrow> world \<Rightarrow> bool \<times> world" where
  "heartbeats 0 orc wk f w = (True, w)"
| "heartbeats (Suc n) orc wk f w =
     (case call orc (writing (\<lambda>now _ db. Heartbeat db now f (wk_leaseTTL wk))) w of
        (Inl _, w1) \<Rightarrow> (False, w1)
      | (Inr _, w1) \<Rightarrow> heartbeats n orc wk f w1)"

definition finalizeFailure ::
  "env_oracle \<Rightarrow> worker \<Rightarrow> 'r outside \<Rightarrow> fenced \<Rightarrow> materialized \<Rightarrow> go_error \<Rightarrow> world \<Rightarrow>
   run_outcome \<times> exec_error option \<times> world" where
  "finalizeFailure orc wk out f m cause w =
     (let cl = Classify (Some cause); detail = ou_error_text out cause in
      case call orc (writing (\<lambda>now _ db. PersistError db now f (ce_Code cl) (ce_Retry cl) detail)) w of
        (Inl e, w1) \<Rightarrow> (OutcomeAbandoned, Some e, w1)
      | (Inr _, w1) \<Rightarrow>
          if ce_Retry cl \<and> fe_Attempt f < fe_MaxAttempts f
          then let next_at = or_now orc (wo_calls w1) + RetryDelay (fe_Attempt f) (wk_baseDelay wk) (wk_maxDelay wk)
               in case call orc (writing (\<lambda>now rid db. Reschedule db now rid f next_at (fe_Attempt f + 1))) w1 of
                    (Inl e, w2) \<Rightarrow> (OutcomeAbandoned, Some e, w2)
                  | (Inr _, w2) \<Rightarrow> (OutcomeScheduled, None, w2)
          else case call orc (writing (\<lambda>now _ db. FailAndDLQ db now f (ce_Code cl) detail (worker_snapshot out m))) w1 of
                 (Inl e, w2) \<Rightarrow> (OutcomeAbandoned, Some e, w2)
               | (Inr _, w2) \<Rightarrow> (OutcomeDeadLettered, None, w2))"

definition Worker_Run ::
  "env_oracle \<Rightarrow> worker \<Rightarrow> 'r outside \<Rightarrow> PublishMessage \<Rightarrow> world \<Rightarrow> run_outcome \<times> exec_error option \<times> world" where
  "Worker_Run orc wk out msg w =
     (if pm_WorkspaceID msg = uuid_Nil \<or> pm_ExecutionID msg = uuid_Nil \<or> pm_RetryID msg = uuid_Nil
      then (OutcomeDeadLettered, Some ErrInvalidInput, w)
      else
        let f = fencedFrom msg (wk_workerID wk);
            d2 = or_now orc (wo_calls w) + wk_executionWindow wk;
            deadline = (if d2 < pm_LeaseExpiresAt msg then d2 else pm_LeaseExpiresAt msg)
        in case call orc (reading (\<lambda>_ db. Materialize db (pm_WorkspaceID msg) (pm_ExecutionID msg))) w of
             (Inl e, w1) \<Rightarrow> (OutcomeAbandoned, Some e, w1)
           | (Inr m, w1) \<Rightarrow>
               (let (alive, w2) = heartbeats (ou_ticks out) orc wk f w1;
                    answer = ou_complete out deadline (pm_WorkspaceID msg) (instruction m)
                in if \<not> alive \<or> ou_cancelled out then (OutcomeAbandoned, None, w2)
                   else case answer of
                          Inl callErr \<Rightarrow> finalizeFailure orc wk out f m callErr w2
                        | Inr res \<Rightarrow>
                            (case ou_marshal out res of
                               Inl e \<Rightarrow> finalizeFailure orc wk out f m e w2
                             | Inr payload \<Rightarrow>
                                 (case call orc (writing (\<lambda>now _ db. Complete db now f payload)) w2 of
                                    (Inl e, w3) \<Rightarrow> (OutcomeAbandoned, Some e, w3)
                                  | (Inr _, w3) \<Rightarrow> (OutcomeCompleted, None, w3)))))"

subsection \<open>The processes only take steps of the runtime\<close>

definition honest :: "env_oracle \<Rightarrow> bool" where
  "honest orc \<longleftrightarrow> (\<forall>n s. runs exec_step s (or_env orc n s))"

text \<open>An operation is a step of the runtime for a process that holds the fences \<open>F\<close>.\<close>

definition takes_step :: "fenced set \<Rightarrow> 'a store_op \<Rightarrow> bool" where
  "takes_step F op \<longleftrightarrow>
     (\<forall>now rid s t a. F \<subseteq> issued s \<longrightarrow> op now rid s = Inr (t, a) \<longrightarrow> runs exec_step s t)"

lemma runs_advances: "runs exec_step s t \<Longrightarrow> advances s t"
  by (induction rule: runs.induct) (auto intro: advances_refl advances_trans exec_step_advances)

lemma runs_issued: "runs exec_step s t \<Longrightarrow> issued s \<subseteq> issued t"
  using runs_advances by (auto simp: advances_def)

lemma call_runs:
  assumes "honest orc" "F \<subseteq> issued (wo_state w)" "takes_step F op" "call orc op w = (r, w')"
  shows "runs exec_step (wo_state w) (wo_state w') \<and> wo_sent w' = wo_sent w"
proof -
  define s where "s = or_env orc (wo_calls w) (wo_state w)"
  define q where "q = op (or_db_now orc (wo_calls w)) (or_uuid orc (wo_calls w)) s"
  define t where "t = (case q of Inl _ \<Rightarrow> s | Inr (t, _) \<Rightarrow> t)"
  have env: "runs exec_step (wo_state w) s"
    using assms(1) by (simp add: s_def honest_def)
  then have F: "F \<subseteq> issued s"
    using assms(2) runs_issued by blast
  have "runs exec_step s t"
  proof (cases q)
    case (Inl e)
    then show ?thesis by (simp add: t_def runs_refl)
  next
    case (Inr p)
    then have "q = Inr (t, snd p)" by (simp add: t_def split_beta)
    with F assms(3) show ?thesis unfolding takes_step_def q_def by blast
  qed
  then have "runs exec_step (wo_state w) t"
    using env by (rule runs_trans)
  moreover have "call orc op w = (case or_fault orc (wo_calls w) of
        CallLost \<Rightarrow> (Inl ErrDatabase, w\<lparr>wo_calls := wo_calls w + 1, wo_state := s\<rparr>)
      | ReplyLost \<Rightarrow> (Inl ErrDatabase, w\<lparr>wo_calls := wo_calls w + 1, wo_state := t\<rparr>)
      | NoFault \<Rightarrow> (case q of Inl e \<Rightarrow> Inl e | Inr (_, a) \<Rightarrow> Inr a, w\<lparr>wo_calls := wo_calls w + 1, wo_state := t\<rparr>))"
    by (simp add: call_def Let_def s_def q_def t_def split: fault.split sum.split)
  then have "wo_state w' \<in> {s, t}" "wo_sent w' = wo_sent w"
    using assms(4) by (cases "or_fault orc (wo_calls w)"; auto)+
  ultimately show ?thesis using env by auto
qed

lemma call_at:
  assumes "call orc op w = (Inr a, w')"
  shows "op (or_db_now orc (wo_calls w)) (or_uuid orc (wo_calls w)) (or_env orc (wo_calls w) (wo_state w)) = Inr (wo_state w', a)"
  using assms by (auto simp: call_def Let_def split: fault.splits sum.splits)

lemma call_Inr: "call orc op w = (Inr a, w') \<Longrightarrow> \<exists>now rid s. op now rid s = Inr (wo_state w', a)"
  by (drule call_at) (intro exI)

lemma takes_reading: "takes_step F (reading q)"
  by (auto simp: takes_step_def reading_def split: sum.splits intro: runs_refl)

lemma takes_reclaim: "takes_step F (leasing (\<lambda>now db. ReclaimStale db now ws eid worker ttl))"
  by (auto simp: takes_step_def leasing_def split: sum.splits intro!: runs_single step_reclaim)

lemma takes_claim: "takes_step F (leasing (\<lambda>now db. Claim db now ws eid worker ttl))"
  by (auto simp: takes_step_def leasing_def split: sum.splits intro!: runs_single step_claim)

lemma takes_fail: "takes_step {f} (writing (\<lambda>now _ db. FailAndDLQ db now f code detail snapshot))"
  by (auto simp: takes_step_def writing_def split: sum.splits intro!: runs_single intro: step_fail)

lemma takes_reschedule:
  "fe_Attempt f < fe_MaxAttempts f \<Longrightarrow>
   takes_step {f} (writing (\<lambda>now rid db. Reschedule db now rid f next_at (fe_Attempt f + 1)))"
  by (auto simp: takes_step_def writing_def split: sum.splits intro!: runs_single intro: step_reschedule)

lemma takes_dispatch:
  "takes_step F (writing (\<lambda>now _ db. Inr (RecordDispatch db now ws rid worker gen b)))"
  by (auto simp: takes_step_def writing_def intro!: runs_single step_dispatch)

lemma takes_heartbeat: "takes_step {f} (writing (\<lambda>now _ db. Heartbeat db now f ttl))"
  by (auto simp: takes_step_def writing_def split: sum.splits intro!: runs_single intro: step_heartbeat)

lemma takes_persist: "0 \<le> code \<Longrightarrow> takes_step {f} (writing (\<lambda>now _ db. PersistError db now f code b detail))"
  by (auto simp: takes_step_def writing_def split: sum.splits intro!: runs_single intro: step_persist)

lemma takes_complete: "takes_step {f} (writing (\<lambda>now _ db. Complete db now f res))"
  by (auto simp: takes_step_def writing_def split: sum.splits intro!: runs_single intro: step_complete)

lemma leased:
  assumes "call orc (leasing q) w = (Inr f, w')"
  shows "f \<in> issued (wo_state w')" "\<exists>now db db'. q now db = Inr (db', f)"
proof -
  obtain now rid s where "leasing q now rid s = Inr (wo_state w', f)"
    using call_Inr [OF assms] by blast
  then obtain db' where "q now (tables s) = Inr (db', f)" "wo_state w' = s\<lparr>tables := db', issued := insert f (issued s)\<rparr>"
    by (auto simp: leasing_def split: sum.splits)
  then show "f \<in> issued (wo_state w')" "\<exists>now db db'. q now db = Inr (db', f)"
    by auto
qed

lemma Classify_code_nonneg: "0 \<le> ce_Code (Classify c)"
  by (simp add: Classify_def split: option.splits)

lemma resolveRecovered_runs:
  assumes "honest orc" "f \<in> issued (wo_state w)" "resolveRecovered orc d f w = (r, w')"
  shows "runs exec_step (wo_state w) (wo_state w') \<and> wo_sent w' = wo_sent w"
proof -
  have F: "{f} \<subseteq> issued (wo_state w)" using assms(2) by simp
  show ?thesis
  proof (cases "(case fe_Retryable f of None \<Rightarrow> True | Some b \<Rightarrow> b) \<and> fe_Attempt f < fe_MaxAttempts f")
    case True
    then have "call orc (writing (\<lambda>now rid db. Reschedule db now rid f (or_now orc (wo_calls w) +
        RetryDelay (fe_Attempt f) (di_baseDelay d) (di_maxDelay d)) (fe_Attempt f + 1))) w = (r, w')"
      using assms(3) by (simp add: resolveRecovered_def Let_def)
    with True show ?thesis
      using call_runs [OF assms(1) F takes_reschedule] by blast
  next
    case False
    then have "call orc (writing (\<lambda>now _ db. FailAndDLQ db now f
        (case fe_LastErrorCode f of None \<Rightarrow> CodeWorkerLeaseExpired | Some c \<Rightarrow> c)
        ''lease expired after non-retryable failure'' [])) w = (r, w')"
      using assms(3) by (auto simp: resolveRecovered_def Let_def not_less)
    then show ?thesis
      using call_runs [OF assms(1) F takes_fail] by blast
  qed
qed

lemma recover_each_runs:
  "honest orc \<Longrightarrow> recover_each orc d ws ids b w = (r, w') \<Longrightarrow>
   runs exec_step (wo_state w) (wo_state w') \<and> wo_sent w' = wo_sent w"
proof (induction orc d ws ids b w arbitrary: r w' rule: recover_each.induct)
  case (1 orc d ws reclaimed w)
  then show ?case by (auto intro: runs_refl)
next
  case (2 orc d ws eid ids reclaimed w)
  let ?op = "leasing (\<lambda>now db. ReclaimStale db now ws eid (di_workerID d) (di_leaseTTL d))"
  obtain q w1 where c: "call orc ?op w = (q, w1)" by (cases "call orc ?op w")
  have w1: "runs exec_step (wo_state w) (wo_state w1)" "wo_sent w1 = wo_sent w"
    using call_runs [OF 2(3) _ takes_reclaim c, of "{}"] by auto
  show ?case
  proof (cases q)
    case (Inl e)
    show ?thesis
    proof (cases "e = ErrNotFound")
      case True
      with Inl c 2(4) have "recover_each orc d ws ids reclaimed w1 = (r, w')" by simp
      from 2(1) [OF c [symmetric] Inl True 2(3) this] w1 show ?thesis
        using runs_trans by metis
    next
      case False
      with Inl c 2(4) w1 show ?thesis by simp
    qed
  next
    case (Inr f)
    obtain q2 w2 where c2: "resolveRecovered orc d f w1 = (q2, w2)" by (cases "resolveRecovered orc d f w1")
    have "f \<in> issued (wo_state w1)"
      using leased(1) c Inr by blast
    then have w2: "runs exec_step (wo_state w1) (wo_state w2)" "wo_sent w2 = wo_sent w1"
      using resolveRecovered_runs [OF 2(3) _ c2] by auto
    show ?thesis
    proof (cases q2)
      case (Inl e)
      with Inr c c2 2(4) w1 w2 show ?thesis using runs_trans by force
    next
      case Inr2: (Inr u)
      with Inr c c2 2(4) have "recover_each orc d ws ids True w2 = (r, w')" by simp
      from 2(2) [OF c [symmetric] Inr c2 [symmetric] Inr2 2(3) this] w1 w2 show ?thesis
        using runs_trans by metis
    qed
  qed
qed

lemma recoverStale_runs:
  "honest orc \<Longrightarrow> recoverStale fuel orc d ws w = Some (r, w') \<Longrightarrow>
   runs exec_step (wo_state w) (wo_state w') \<and> wo_sent w' = wo_sent w"
proof (induction fuel orc d ws w arbitrary: r w' rule: recoverStale.induct)
  case (2 fuel orc d ws w)
  let ?op = "reading (\<lambda>now db. Inr (GetStale db now ws (di_sweepLimit d)))"
  obtain q w1 where c: "call orc ?op w = (q, w1)" by (cases "call orc ?op w")
  have w1: "runs exec_step (wo_state w) (wo_state w1)" "wo_sent w1 = wo_sent w"
    using call_runs [OF 2(2) _ takes_reading c, of "{}"] by auto
  show ?case
  proof (cases "\<exists>ids. q = Inr ids \<and> ids \<noteq> []")
    case False
    with 2(3) c w1 show ?thesis by (cases q) auto
  next
    case True
    then obtain ids where q: "q = Inr ids" "ids \<noteq> []" by blast
    obtain q2 w2 where c2: "recover_each orc d ws ids False w1 = (q2, w2)" by (cases "recover_each orc d ws ids False w1")
    have w2: "runs exec_step (wo_state w) (wo_state w2)" "wo_sent w2 = wo_sent w"
      using recover_each_runs [OF 2(2) c2] w1 runs_trans by metis+
    show ?thesis
    proof (cases "q2 = Inr True")
      case False
      with 2(3) c c2 q w2 show ?thesis by (cases q2) auto
    next
      case True
      with 2(3) c c2 q have "recoverStale fuel orc d ws w2 = Some (r, w')" by simp
      from 2(1) [OF c [symmetric] q(1) q(2) c2 [symmetric] True _ 2(2) this] w2 show ?thesis
        using runs_trans by (metis (full_types))
    qed
  qed
qed simp

text \<open>A message carries the fence of its claim: the worker rebuilds exactly that fence.\<close>

lemma fencedFrom_publish:
  assumes "Claim db now ws eid (di_workerID d) ttl = Inr (db', f)" "di_workerID d \<noteq> []"
  shows "fencedFrom (publish_message d f) wid = f"
  by (rule Claim_Inr [OF assms(1)])
    (use assms(2) in \<open>simp add: fencedFrom_def publish_message_def fence_of_def claim_row_def derefString_def\<close>)

definition sent_ok :: "world \<Rightarrow> bool" where
  "sent_ok w \<longleftrightarrow> (\<forall>msg \<in> set (wo_sent w). \<forall>wid. fencedFrom msg wid \<in> issued (wo_state w))"

lemma sent_ok_mono:
  "sent_ok w \<Longrightarrow> runs exec_step (wo_state w) (wo_state w') \<Longrightarrow> wo_sent w' = wo_sent w \<Longrightarrow> sent_ok w'"
  using runs_issued by (fastforce simp: sent_ok_def)

lemma dispatch_each_runs:
  "honest orc \<Longrightarrow> di_workerID d \<noteq> [] \<Longrightarrow> sent_ok w \<Longrightarrow> dispatch_each orc d ws ids w = (r, w') \<Longrightarrow>
   runs exec_step (wo_state w) (wo_state w') \<and> sent_ok w'"
proof (induction orc d ws ids w arbitrary: r w' rule: dispatch_each.induct)
  case (1 orc d ws w)
  then show ?case by (auto intro: runs_refl)
next
  case (2 orc d ws eid ids w)
  let ?op = "leasing (\<lambda>now db. Claim db now ws eid (di_workerID d) (di_leaseTTL d))"
  obtain q w1 where c: "call orc ?op w = (q, w1)" by (cases "call orc ?op w")
  have w1: "runs exec_step (wo_state w) (wo_state w1)" "sent_ok w1"
    using call_runs [OF 2(3) _ takes_claim c, of "{}"] sent_ok_mono [OF 2(5)] by auto
  show ?case
  proof (cases q)
    case (Inl e)
    show ?thesis
    proof (cases "e = ErrNotFound")
      case True
      with Inl c 2(6) have "dispatch_each orc d ws ids w1 = (r, w')" by simp
      from 2(1) [OF c [symmetric] Inl True 2(3,4) w1(2) this] w1(1) show ?thesis
        using runs_trans by metis
    next
      case False
      with Inl c 2(6) w1 show ?thesis by simp
    qed
  next
    case (Inr f)
    define w2 where "w2 = w1\<lparr>wo_sent := wo_sent w1 @ [publish_message d f]\<rparr>"
    let ?rd = "writing (\<lambda>now _ db. Inr (RecordDispatch db now (fe_WorkspaceID f) (fe_RetryID f)
        (di_workerID d) (fe_LeaseGeneration f) (or_publish orc (wo_calls w1))))"
    obtain q3 w3 where c3: "call orc ?rd w2 = (q3, w3)" by (cases "call orc ?rd w2")
    have f: "f \<in> issued (wo_state w1)" and "\<exists>now db db'. Claim db now ws eid (di_workerID d) (di_leaseTTL d) = Inr (db', f)"
      using leased c Inr by blast+
    then have "fencedFrom (publish_message d f) wid = f" for wid
      using fencedFrom_publish 2(4) by blast
    then have "sent_ok w2"
      using w1(2) f by (auto simp: sent_ok_def w2_def)
    have "runs exec_step (wo_state w2) (wo_state w3)" "wo_sent w3 = wo_sent w2"
      using call_runs [OF 2(3) _ takes_dispatch c3, of "{}"] by auto
    with w1(1) \<open>sent_ok w2\<close> have w3: "runs exec_step (wo_state w) (wo_state w3)" "sent_ok w3"
      using runs_trans sent_ok_mono by (auto simp: w2_def)
    show ?thesis
    proof (cases q3)
      case (Inl e)
      with Inr c c3 2(6) w3 show ?thesis by (simp add: w2_def [symmetric])
    next
      case Inr3: (Inr u)
      with Inr c c3 2(6) have "dispatch_each orc d ws ids w3 = (r, w')"
        by (simp add: w2_def [symmetric])
      from 2(2) [OF c [symmetric] Inr refl w2_def c3 [symmetric] Inr3 2(3,4) w3(2) this] w3(1) show ?thesis
        using runs_trans by metis
    qed
  qed
qed

lemma Sweep_runs:
  assumes "honest orc" "di_workerID d \<noteq> []" "sent_ok w" "Sweep fuel orc d ws w = Some (r, w')"
  shows "runs exec_step (wo_state w) (wo_state w') \<and> sent_ok w'"
proof -
  from assms(4) obtain q w1 where c: "recoverStale fuel orc d ws w = Some (q, w1)"
    by (auto simp: Sweep_def split: option.splits)
  have w1: "runs exec_step (wo_state w) (wo_state w1)" "sent_ok w1"
    using recoverStale_runs [OF assms(1) c] sent_ok_mono [OF assms(3)] by auto
  show ?thesis
  proof (cases q)
    case (Inl e)
    with c assms(4) w1 show ?thesis by (simp add: Sweep_def)
  next
    case (Inr u)
    let ?op = "reading (\<lambda>now db. Inr (GetDue db now ws (di_sweepLimit d)))"
    obtain q2 w2 where c2: "call orc ?op w1 = (q2, w2)" by (cases "call orc ?op w1")
    have w2: "runs exec_step (wo_state w1) (wo_state w2)" "sent_ok w2"
      using call_runs [OF assms(1) _ takes_reading c2, of "{}"] sent_ok_mono [OF w1(2)] by auto
    have "runs exec_step (wo_state w2) (wo_state w') \<and> sent_ok w'"
      using assms(4) c Inr c2 w2(2) dispatch_each_runs [OF assms(1,2) w2(2)]
      by (cases q2) (auto simp: Sweep_def dispatchDue_def intro: runs_refl)
    with w1(1) w2(1) show ?thesis using runs_trans by metis
  qed
qed

lemma heartbeats_runs:
  "honest orc \<Longrightarrow> f \<in> issued (wo_state w) \<Longrightarrow> heartbeats n orc wk f w = (b, w') \<Longrightarrow>
   runs exec_step (wo_state w) (wo_state w')"
proof (induction n orc wk f w arbitrary: b w' rule: heartbeats.induct)
  case (1 orc wk f w)
  then show ?case by (auto intro: runs_refl)
next
  case (2 n orc wk f w)
  let ?op = "writing (\<lambda>now _ db. Heartbeat db now f (wk_leaseTTL wk))"
  obtain q w1 where c: "call orc ?op w = (q, w1)" by (cases "call orc ?op w")
  have w1: "runs exec_step (wo_state w) (wo_state w1)"
    using call_runs [OF 2(2) _ takes_heartbeat c] 2(3) by auto
  show ?case
  proof (cases q)
    case (Inl e)
    with c 2(4) w1 show ?thesis by simp
  next
    case (Inr u)
    with c 2(4) have "heartbeats n orc wk f w1 = (b, w')" by simp
    moreover have "f \<in> issued (wo_state w1)"
      using 2(3) runs_issued [OF w1] by blast
    ultimately show ?thesis
      using 2(1) [OF c [symmetric] Inr 2(2)] w1 runs_trans by metis
  qed
qed

lemma finalizeFailure_runs:
  assumes "honest orc" "f \<in> issued (wo_state w)" "finalizeFailure orc wk out f m cause w = (oc, err, w')"
  shows "runs exec_step (wo_state w) (wo_state w')"
proof -
  let ?cl = "Classify (Some cause)"
  let ?p = "writing (\<lambda>now _ db. PersistError db now f (ce_Code ?cl) (ce_Retry ?cl) (ou_error_text out cause))"
  obtain q w1 where c: "call orc ?p w = (q, w1)" by (cases "call orc ?p w")
  have w1: "runs exec_step (wo_state w) (wo_state w1)"
    using call_runs [OF assms(1) _ takes_persist [OF Classify_code_nonneg] c] assms(2) by auto
  have F: "{f} \<subseteq> issued (wo_state w1)"
    using assms(2) runs_issued [OF w1] by blast
  show ?thesis
  proof (cases q)
    case (Inl e)
    with c assms(3) w1 show ?thesis by (simp add: finalizeFailure_def Let_def)
  next
    case (Inr u)
    show ?thesis
    proof (cases "ce_Retry ?cl \<and> fe_Attempt f < fe_MaxAttempts f")
      case True
      let ?r = "writing (\<lambda>now rid db. Reschedule db now rid f (or_now orc (wo_calls w1) +
          RetryDelay (fe_Attempt f) (wk_baseDelay wk) (wk_maxDelay wk)) (fe_Attempt f + 1))"
      obtain q2 w2 where c2: "call orc ?r w1 = (q2, w2)" by (cases "call orc ?r w1")
      have "runs exec_step (wo_state w1) (wo_state w2)"
        using call_runs [OF assms(1) F takes_reschedule c2] True by blast
      moreover have "w' = w2"
        using c Inr True c2 assms(3) by (cases q2) (auto simp: finalizeFailure_def Let_def)
      ultimately show ?thesis using w1 runs_trans by metis
    next
      case False
      let ?r = "writing (\<lambda>now _ db. FailAndDLQ db now f (ce_Code ?cl) (ou_error_text out cause) (worker_snapshot out m))"
      obtain q2 w2 where c2: "call orc ?r w1 = (q2, w2)" by (cases "call orc ?r w1")
      have "runs exec_step (wo_state w1) (wo_state w2)"
        using call_runs [OF assms(1) F takes_fail c2] by blast
      moreover have "w' = w2"
        using c Inr False c2 assms(3) by (cases q2) (auto simp: finalizeFailure_def Let_def)
      ultimately show ?thesis using w1 runs_trans by metis
    qed
  qed
qed

lemma Worker_Run_runs:
  assumes "honest orc" "fencedFrom msg (wk_workerID wk) \<in> issued (wo_state w)" "Worker_Run orc wk out msg w = (oc, err, w')"
  shows "runs exec_step (wo_state w) (wo_state w')"
proof -
  let ?f = "fencedFrom msg (wk_workerID wk)"
  let ?m = "reading (\<lambda>_ db. Materialize db (pm_WorkspaceID msg) (pm_ExecutionID msg))"
  obtain q w1 where c: "call orc ?m w = (q, w1)" by (cases "call orc ?m w")
  obtain alive w2 where h: "heartbeats (ou_ticks out) orc wk ?f w1 = (alive, w2)"
    by (cases "heartbeats (ou_ticks out) orc wk ?f w1")
  have w1: "runs exec_step (wo_state w) (wo_state w1)"
    using call_runs [OF assms(1) _ takes_reading c, of "{}"] by auto
  then have f1: "?f \<in> issued (wo_state w1)"
    using assms(2) runs_issued by blast
  have w12: "runs exec_step (wo_state w1) (wo_state w2)"
    using heartbeats_runs [OF assms(1) f1 h] .
  then have w2: "runs exec_step (wo_state w) (wo_state w2)" "?f \<in> issued (wo_state w2)"
    using runs_trans [OF w12 w1] f1 runs_issued [OF w12] by blast+
  have fin: "runs exec_step (wo_state w) (wo_state w')"
    if "finalizeFailure orc wk out ?f m cause w2 = (oc, err, w')" for m cause
    using finalizeFailure_runs [OF assms(1) w2(2) that] w2(1) by (rule runs_trans)
  have comp: "runs exec_step (wo_state w) (wo_state w3)"
    if "call orc (writing (\<lambda>now _ db. Complete db now ?f payload)) w2 = (q3, w3)" for payload q3 w3
    using call_runs [OF assms(1) _ takes_complete that] w2 by (auto intro: runs_trans [OF _ w2(1)])
  show ?thesis
    using assms(3) c h w1 w2 fin comp
    by (auto simp: Worker_Run_def Let_def runs_refl split: if_splits sum.splits prod.splits)
qed

subsection \<open>Properties\<close>

text \<open>A history in which the dispatcher runs alone: it claims and publishes the admitted execution.\<close>

definition demo_oracle :: env_oracle where
  "demo_oracle = \<lparr>or_env = \<lambda>_ s. s, or_db_now = \<lambda>n. int n * second, or_now = \<lambda>n. int n * second,
     or_uuid = \<lambda>n. word_of_nat (100 + n), or_fault = \<lambda>_. NoFault, or_publish = \<lambda>_. True\<rparr>"

definition demo_dispatcher :: dispatcher where
  "demo_dispatcher = NewDispatcher ''api-1'' (30 * second) second (60 * second)"

definition demo_world :: world where
  "demo_world = \<lparr>wo_state = demo_admitted, wo_calls = 0, wo_sent = []\<rparr>"

lemma demo_honest: "honest demo_oracle"
  by (simp add: honest_def demo_oracle_def runs_refl)

text \<open>
  The dispatcher refines the runtime. Whatever the other processes do between its
  calls and whichever calls fault, a run of any number of sweeps changes the tables only by
  steps of the runtime, and every message it sent rebuilds, in any worker, to a fence that
  was handed out.
\<close>

theorem dispatcher_refines_runtime:
  assumes "honest orc" "di_workerID d \<noteq> []" "sent_ok w"
    and "Dispatcher_Run fuel ticks orc d ws w = Some w'"
  shows "runs exec_step (wo_state w) (wo_state w')
    \<and> (\<forall>msg \<in> set (wo_sent w'). fencedFrom msg wid \<in> issued (wo_state w'))"
proof -
  have "runs exec_step (wo_state w) (wo_state w') \<and> sent_ok w'"
    using assms(3,4)
  proof (induction ticks arbitrary: w)
    case 0
    then obtain r where "Sweep fuel orc d ws w = Some (r, w')" by auto
    with Sweep_runs [OF assms(1,2) 0(1)] show ?case by blast
  next
    case (Suc ticks)
    then obtain r w1 where c: "Sweep fuel orc d ws w = Some (r, w1)" "Dispatcher_Run fuel ticks orc d ws w1 = Some w'"
      by (auto split: option.splits)
    have w1: "runs exec_step (wo_state w) (wo_state w1)" "sent_ok w1"
      using Sweep_runs [OF assms(1,2) Suc(2) c(1)] by auto
    with Suc(1) [OF w1(2) c(2)] show ?case
      by (auto intro: runs_trans)
  qed
  then show ?thesis by (auto simp: sent_ok_def)
qed

theorem dispatcher_refines_runtime_witness:
  "\<exists>w'. Dispatcher_Run 2 1 demo_oracle demo_dispatcher 1 demo_world = Some w' \<and> wo_sent w' \<noteq> []
     \<and> runs exec_step (wo_state demo_world) (wo_state w')"
proof -
  let ?r = "Dispatcher_Run 2 1 demo_oracle demo_dispatcher 1 demo_world"
  have some: "?r \<noteq> None \<and> wo_sent (the ?r) \<noteq> []" by code_simp
  then obtain w' where w': "?r = Some w'" by auto
  have "di_workerID demo_dispatcher \<noteq> []" "sent_ok demo_world"
    by (simp_all add: demo_dispatcher_def NewDispatcher_def demo_world_def sent_ok_def)
  then show ?thesis
    using dispatcher_refines_runtime [OF demo_honest _ _ w'] w' some by simp
qed

lemma fenced_update_hit:
  assumes "fenced_update f upd db = Inr db1" "\<And>e. ex_ID (upd e) = ex_ID e" "\<And>e. P (upd e)"
  shows "\<exists>e \<in> set (ai_executions db1). ex_ID e = fe_ExecutionID f \<and> P e"
proof -
  from assms(1) have "0 < count_where (fence_holds f) (ai_executions db)"
    by (auto simp: fenced_update_def split: if_splits)
  then obtain e where e: "e \<in> set (ai_executions db)" "fence_holds f e"
    by (auto simp: count_where_pos_iff)
  then have "upd e \<in> set (ai_executions db1)"
    using fenced_update_rows [OF assms(1)] by (auto simp: set_upd_where)
  moreover have "ex_ID (upd e) = fe_ExecutionID f"
    using e(2) assms(2) by (simp add: fence_holds_def)
  ultimately show ?thesis using assms(3) by blast
qed

lemma Complete_effect:
  assumes "Complete db now f res = Inr db'"
  shows "\<exists>e \<in> set (ai_executions db'). ex_ID e = fe_ExecutionID f \<and> ex_Status e = StatusCompleted \<and> ex_ResultJSON e = Some res"
proof -
  from assms obtain db1 where u: "fenced_update f (\<lambda>e. e\<lparr>ex_Status := StatusCompleted, ex_ResultJSON := Some res,
      ex_CompletedAt := Some now, ex_LeaseOwner := None, ex_LeaseExpiresAt := None, ex_UpdatedAt := now\<rparr>) db = Inr db1"
    and db': "ai_executions db' = ai_executions db1"
    by (auto simp: Complete_def resolve_retries_def split: sum.splits)
  show ?thesis unfolding db' by (rule fenced_update_hit [OF u]) simp_all
qed

lemma FailAndDLQ_effect:
  assumes "FailAndDLQ db now f code detail snapshot = Inr db'"
  shows "(\<exists>e \<in> set (ai_executions db'). ex_ID e = fe_ExecutionID f \<and> ex_Status e = StatusFailed \<and> ex_LastErrorCode e = Some code)
    \<and> (\<exists>d \<in> set (ai_execution_dlq db'). dq_ExecutionID d = fe_ExecutionID f \<and> dq_ErrorCode d = code)"
proof -
  from assms obtain db1 where u: "fenced_update f (\<lambda>e. e\<lparr>ex_Status := StatusFailed, ex_LastErrorCode := Some code,
      ex_Retryable := Some False, ex_ErrorDetail := nullableString detail, ex_FailedAt := Some now,
      ex_LeaseOwner := None, ex_LeaseExpiresAt := None, ex_UpdatedAt := now\<rparr>) db = Inr db1"
    and db': "ai_executions db' = ai_executions db1"
    and d: "\<exists>d \<in> set (ai_execution_dlq db'). dq_ExecutionID d = fe_ExecutionID f \<and> dq_ErrorCode d = code"
    by (auto simp: FailAndDLQ_def Let_def resolve_retries_def split: sum.splits if_splits)
  show ?thesis unfolding db' by (rule conjI [OF fenced_update_hit [OF u] d]) simp_all
qed

lemma Reschedule_effect:
  assumes "Reschedule db now rid f next_at seq = Inr db'"
  shows "(\<exists>e \<in> set (ai_executions db'). ex_ID e = fe_ExecutionID f \<and> ex_Status e = StatusPending \<and> ex_NextRetryAt e = Some next_at)
    \<and> (\<exists>r \<in> set (ai_execution_retries db'). rt_ExecutionID r = fe_ExecutionID f \<and> rt_State r = RetryPending \<and> rt_RetrySeq r = seq)"
proof -
  from assms obtain db1 where u: "fenced_update f (\<lambda>e. e\<lparr>ex_Status := StatusPending, ex_LeaseOwner := None,
        ex_LeaseExpiresAt := None, ex_NextRetryAt := Some next_at, ex_UpdatedAt := now\<rparr>) db = Inr db1"
    and i: "insert_retry (pending_retry rid (fe_ExecutionID f) (fe_WorkspaceID f) seq (fe_LeaseGeneration f) (Some next_at) now)
        (resolve_retries f now RetryFailed db1) = Inr db'"
    by (auto simp: Reschedule_def split: sum.splits)
  have rows: "ai_executions db' = ai_executions db1"
    and r: "\<exists>r \<in> set (ai_execution_retries db'). rt_ExecutionID r = fe_ExecutionID f \<and> rt_State r = RetryPending \<and> rt_RetrySeq r = seq"
    using insert_retry_Inr [OF i] by (simp_all add: resolve_retries_def pending_retry_def)
  show ?thesis unfolding rows by (rule conjI [OF fenced_update_hit [OF u] r]) simp_all
qed

lemma writing_Inr:
  assumes "call orc (writing q) w = (Inr u, w')"
  shows "\<exists>now rid db. q now rid db = Inr (tables (wo_state w'))"
proof -
  have "q (or_db_now orc (wo_calls w)) (or_uuid orc (wo_calls w)) (tables (or_env orc (wo_calls w) (wo_state w))) =
      Inr (tables (wo_state w'))"
    using call_at [OF assms] by (auto simp: writing_def split: sum.splits dest: sym)
  then show ?thesis by blast
qed

lemma finalizeFailure_effect:
  assumes "finalizeFailure orc wk out f m cause w = (oc, err, w')"
  shows "oc \<noteq> OutcomeCompleted"
    and "oc = OutcomeScheduled \<Longrightarrow> \<exists>db now rid next_at.
      Reschedule db now rid f next_at (fe_Attempt f + 1) = Inr (tables (wo_state w'))"
    and "oc = OutcomeDeadLettered \<Longrightarrow> \<exists>db now detail snapshot.
      FailAndDLQ db now f (ce_Code (Classify (Some cause))) detail snapshot = Inr (tables (wo_state w'))"
  using assms
  by (auto simp: finalizeFailure_def Let_def split: prod.splits sum.splits if_splits dest!: writing_Inr)

text \<open>
  C8. The worker reports the truth. When a run reports completed, scheduled or dead-lettered
  (without an error), the tables its last call left say so: the execution is completed with
  a stored result, pending with the time and the retry of the next attempt, or failed with a
  dead letter. This holds under any interference and any faults, because every other case
  is reported as abandoned or with an error.
\<close>

theorem worker_outcome_truthful:
  assumes "Worker_Run orc wk out msg w = (oc, None, w')"
  shows "(oc = OutcomeCompleted \<longrightarrow>
      (\<exists>e \<in> set (execs (wo_state w')). ex_ID e = pm_ExecutionID msg \<and> ex_Status e = StatusCompleted \<and> ex_ResultJSON e \<noteq> None))
    \<and> (oc = OutcomeScheduled \<longrightarrow>
      (\<exists>e \<in> set (execs (wo_state w')). ex_ID e = pm_ExecutionID msg \<and> ex_Status e = StatusPending \<and> ex_NextRetryAt e \<noteq> None)
      \<and> (\<exists>r \<in> set (ai_execution_retries (tables (wo_state w'))). rt_ExecutionID r = pm_ExecutionID msg
            \<and> rt_State r = RetryPending \<and> rt_RetrySeq r = pm_Attempt msg + 1))
    \<and> (oc = OutcomeDeadLettered \<longrightarrow>
      (\<exists>e \<in> set (execs (wo_state w')). ex_ID e = pm_ExecutionID msg \<and> ex_Status e = StatusFailed)
      \<and> (\<exists>d \<in> set (ai_execution_dlq (tables (wo_state w'))). dq_ExecutionID d = pm_ExecutionID msg))"
proof -
  let ?f = "fencedFrom msg (wk_workerID wk)"
  have f: "fe_ExecutionID ?f = pm_ExecutionID msg" "fe_Attempt ?f = pm_Attempt msg"
    by (simp_all add: fencedFrom_def Let_def)
  have "oc = OutcomeAbandoned
    \<or> oc = OutcomeCompleted \<and> (\<exists>payload w2 u. call orc (writing (\<lambda>now _ db. Complete db now ?f payload)) w2 = (Inr u, w'))
    \<or> (\<exists>m cause w2. finalizeFailure orc wk out ?f m cause w2 = (oc, None, w'))"
    using assms by (auto simp: Worker_Run_def Let_def split: if_splits prod.splits sum.splits)
  then show ?thesis
  proof (elim disjE conjE exE)
    fix payload w2 u
    assume c: "oc = OutcomeCompleted" "call orc (writing (\<lambda>now _ db. Complete db now ?f payload)) w2 = (Inr u, w')"
    obtain now db where "Complete db now ?f payload = Inr (tables (wo_state w'))"
      using writing_Inr [OF c(2)] by blast
    from Complete_effect [OF this] c(1) f show ?thesis by auto
  next
    fix m cause w2
    assume "finalizeFailure orc wk out ?f m cause w2 = (oc, None, w')"
    note e = finalizeFailure_effect [OF this]
    show ?thesis
    proof (cases oc)
      case OutcomeScheduled
      with e(2) f Reschedule_effect show ?thesis by fastforce
    next
      case OutcomeDeadLettered
      with e(3) f FailAndDLQ_effect show ?thesis by fastforce
    qed (use e(1) in auto)
  qed simp
qed

text \<open>A claimed execution with a context row, a provider that answers after one heartbeat.\<close>

definition demo_running :: world where
  "demo_running =
     \<lparr>wo_state = demo_claimed\<lparr>tables := (tables demo_claimed)\<lparr>execution_contexts :=
        [\<lparr>cx_WorkspaceID = Some 1, cx_ExecutionID = 10, cx_TaskTitle = Some ''t'', cx_TaskDescription = None,
          cx_AIEmployeeName = ''Ada'', cx_AIEmployeeRole = ''analyst'', cx_TeamName = None, cx_DepartmentName = None,
          cx_Capabilities = []\<rparr>]\<rparr>\<rparr>,
      wo_calls = 0, wo_sent = []\<rparr>"

definition demo_outside :: "string outside" where
  "demo_outside = \<lparr>ou_complete = \<lambda>_ _ i. Inr i, ou_ticks = 1, ou_cancelled = False, ou_marshal = Inr,
     ou_marshal_request = \<lambda>_. None, ou_error_text = \<lambda>_. []\<rparr>"

definition demo_worker :: worker where
  "demo_worker = \<lparr>wk_workerID = ''worker-7'', wk_leaseTTL = 30 * second, wk_executionWindow = 20 * second,
     wk_baseDelay = second, wk_maxDelay = 60 * second\<rparr>"

definition demo_message :: PublishMessage where
  "demo_message = publish_message (NewDispatcher ''w1'' 0 0 0) (snd (projr demo_claim))"

theorem worker_outcome_truthful_witness:
  "\<exists>w'. Worker_Run demo_oracle demo_worker demo_outside demo_message demo_running = (OutcomeCompleted, None, w')
     \<and> (\<exists>e \<in> set (execs (wo_state w')). ex_ID e = pm_ExecutionID demo_message \<and> ex_Status e = StatusCompleted)"
proof -
  let ?r = "Worker_Run demo_oracle demo_worker demo_outside demo_message demo_running"
  have "fst ?r = OutcomeCompleted \<and> fst (snd ?r) = None" by code_simp
  then obtain w' where "?r = (OutcomeCompleted, None, w')" by (cases ?r) auto
  with worker_outcome_truthful [OF this] show ?thesis by auto
qed

lemma stale_call:
  assumes "honest orc" "exec_inv (wo_state w)" "f \<in> issued (wo_state w)" "g \<in> issued (wo_state w)"
    "fe_ExecutionID f = fe_ExecutionID g" "fe_LeaseGeneration f < fe_LeaseGeneration g"
    "\<And>now rid db. (\<And>e. e \<in> set (ai_executions db) \<Longrightarrow> ex_ID e = fe_ExecutionID f \<Longrightarrow>
        ex_LeaseGeneration e \<noteq> fe_LeaseGeneration f \<or> ex_Status e \<noteq> StatusRunning) \<Longrightarrow> \<exists>e. q now rid db = Inl e"
  shows "\<exists>e. fst (call orc (writing q) w) = Inl e"
proof -
  define s where "s = or_env orc (wo_calls w) (wo_state w)"
  have r: "runs exec_step (wo_state w) s"
    using assms(1) by (simp add: honest_def s_def)
  have "exec_inv s" "f \<in> issued s" "g \<in> issued s"
    using exec.inv_runs [OF r assms(2)] runs_issued [OF r] assms(3,4) by auto
  then have "\<exists>e. q (or_db_now orc (wo_calls w)) (or_uuid orc (wo_calls w)) (tables s) = Inl e"
    using outdated_fence assms(5,6) by (intro assms(7)) blast
  then obtain e where "q (or_db_now orc (wo_calls w)) (or_uuid orc (wo_calls w)) (tables s) = Inl e" ..
  then show ?thesis
    by (simp add: call_def Let_def writing_def s_def split: fault.split)
qed

text \<open>What a process that holds the outdated fence \<open>f\<close> sees from a world on.\<close>

definition outdated :: "fenced \<Rightarrow> world \<Rightarrow> bool" where
  "outdated f w \<longleftrightarrow> exec_inv (wo_state w) \<and> f \<in> issued (wo_state w)
     \<and> (\<exists>g \<in> issued (wo_state w). fe_ExecutionID f = fe_ExecutionID g \<and> fe_LeaseGeneration f < fe_LeaseGeneration g)"

lemma outdated_runs: "outdated f w \<Longrightarrow> runs exec_step (wo_state w) (wo_state w') \<Longrightarrow> outdated f w'"
  unfolding outdated_def using exec.inv_runs runs_issued by blast

lemma outdated_writes:
  assumes "honest orc" "outdated f w"
  shows "\<exists>e. fst (call orc (writing (\<lambda>now _ db. PersistError db now f code b detail)) w) = Inl e"
    and "\<exists>e. fst (call orc (writing (\<lambda>now _ db. Complete db now f res)) w) = Inl e"
proof -
  from assms(2) obtain g where g: "exec_inv (wo_state w)" "f \<in> issued (wo_state w)" "g \<in> issued (wo_state w)"
    "fe_ExecutionID f = fe_ExecutionID g" "fe_LeaseGeneration f < fe_LeaseGeneration g"
    unfolding outdated_def by blast
  show "\<exists>e. fst (call orc (writing (\<lambda>now _ db. PersistError db now f code b detail)) w) = Inl e"
    by (rule stale_call [OF assms(1) g], rule exI, rule persist.superseded) blast
  show "\<exists>e. fst (call orc (writing (\<lambda>now _ db. Complete db now f res)) w) = Inl e"
    by (rule stale_call [OF assms(1) g], rule exI, rule complete.superseded) blast
qed

lemma outdated_failure:
  assumes "honest orc" "outdated f w" "finalizeFailure orc wk out f m cause w = (oc, err, w')"
  shows "oc = OutcomeAbandoned"
proof -
  let ?cl = "Classify (Some cause)"
  let ?c = "call orc (writing (\<lambda>now _ db. PersistError db now f (ce_Code ?cl) (ce_Retry ?cl) (ou_error_text out cause))) w"
  obtain e w1 where "?c = (Inl e, w1)"
    using outdated_writes(1) [OF assms(1,2)] by (metis fst_conv prod.exhaust)
  with assms(3) show ?thesis by (simp add: finalizeFailure_def Let_def)
qed

text \<open>
  A worker that lost its lease abandons. When the runtime has leased the execution of a
  message again, the worker that still runs on the old message ends every run as abandoned,
  whatever the provider answers and whatever happens meanwhile: it never reports a result.
\<close>

theorem outdated_worker_abandons:
  assumes "initial_runtime s0" "runs exec_step s0 (wo_state w)" "honest orc"
    and "fencedFrom msg (wk_workerID wk) \<in> issued (wo_state w)" "g \<in> issued (wo_state w)"
    and "fe_ExecutionID g = pm_ExecutionID msg" "pm_Generation msg < fe_LeaseGeneration g"
    and "pm_WorkspaceID msg \<noteq> uuid_Nil" "pm_ExecutionID msg \<noteq> uuid_Nil" "pm_RetryID msg \<noteq> uuid_Nil"
  shows "fst (Worker_Run orc wk out msg w) = OutcomeAbandoned"
proof -
  let ?f = "fencedFrom msg (wk_workerID wk)"
  let ?m = "reading (\<lambda>_ db. Materialize db (pm_WorkspaceID msg) (pm_ExecutionID msg))"
  have "fe_ExecutionID ?f = pm_ExecutionID msg" "fe_LeaseGeneration ?f = pm_Generation msg"
    by (simp_all add: fencedFrom_def Let_def)
  with assms(4-7) have "outdated ?f w"
    unfolding outdated_def using exec.inv_reachable [OF assms(1,2)] by (intro conjI bexI [of _ g]) simp_all
  obtain q w1 where c: "call orc ?m w = (q, w1)" by (cases "call orc ?m w")
  obtain alive w2 where h: "heartbeats (ou_ticks out) orc wk ?f w1 = (alive, w2)"
    by (cases "heartbeats (ou_ticks out) orc wk ?f w1")
  have "outdated ?f w1"
    using outdated_runs [OF \<open>outdated ?f w\<close>] call_runs [OF assms(3) _ takes_reading c, of "{}"] by blast
  then have "?f \<in> issued (wo_state w1)"
    by (simp add: outdated_def)
  then have "outdated ?f w2"
    using heartbeats_runs [OF assms(3) _ h] by (intro outdated_runs [OF \<open>outdated ?f w1\<close>])
  then have fin: "fst (finalizeFailure orc wk out ?f m cause w2) = OutcomeAbandoned" for m cause
    using outdated_failure [OF assms(3)] by (metis prod.collapse)
  have "\<exists>e w3. call orc (writing (\<lambda>now _ db. Complete db now ?f payload)) w2 = (Inl e, w3)" for payload
    using outdated_writes(2) [OF assms(3) \<open>outdated ?f w2\<close>] by (metis fst_conv prod.exhaust)
  then obtain E W where comp: "\<And>payload. call orc (writing (\<lambda>now _ db. Complete db now ?f payload)) w2 = (Inl (E payload), W payload)"
    by metis
  show ?thesis
    using assms(8-10) by (simp add: Worker_Run_def Let_def c h fin comp split: sum.split)
qed

theorem outdated_worker_abandons_witness:
  "fst (Worker_Run demo_oracle demo_worker demo_outside demo_message \<lparr>wo_state = demo_reclaimed, wo_calls = 0, wo_sent = []\<rparr>)
     = OutcomeAbandoned"
proof -
  have "fencedFrom demo_message (wk_workerID demo_worker) = snd (projr demo_claim)"
    "fe_ExecutionID (snd (projr demo_reclaim)) = pm_ExecutionID demo_message"
    "pm_Generation demo_message < fe_LeaseGeneration (snd (projr demo_reclaim))"
    "pm_WorkspaceID demo_message \<noteq> uuid_Nil" "pm_ExecutionID demo_message \<noteq> uuid_Nil" "pm_RetryID demo_message \<noteq> uuid_Nil"
    by code_simp+
  then show ?thesis
    by (intro outdated_worker_abandons [OF demo_initial _ demo_honest, where g = "snd (projr demo_reclaim)"])
      (simp_all add: demo_runs, simp_all add: demo_reclaimed_def demo_claimed_def)
qed

subsection \<open>Recovery with the store to itself\<close>

text \<open>
  No other process writes, no call faults, the database clock does not go back, and the
  identifiers generated in the first \<open>N\<close> calls differ from each other and from the stored ones.
\<close>

definition quiet :: "nat \<Rightarrow> env_oracle \<Rightarrow> bool" where
  "quiet N orc \<longleftrightarrow> (\<forall>n s. or_env orc n s = s) \<and> (\<forall>n. or_fault orc n = NoFault) \<and> mono (or_db_now orc) \<and> inj_on (or_uuid orc) {..<N}"

definition fresh_ids :: "nat \<Rightarrow> env_oracle \<Rightarrow> world \<Rightarrow> bool" where
  "fresh_ids N orc w \<longleftrightarrow>
     (\<forall>n. wo_calls w \<le> n \<and> n < N \<longrightarrow> or_uuid orc n \<notin> rt_ID ` set (ai_execution_retries (tables (wo_state w))))"

abbreviation good :: "nat \<Rightarrow> env_oracle \<Rightarrow> world \<Rightarrow> bool" where
  "good N orc w \<equiv> exec_inv (wo_state w) \<and> fresh_ids N orc w"

definition running_rows :: "runtime \<Rightarrow> nat" where
  "running_rows s = count_where (\<lambda>e. ex_Status e = StatusRunning) (execs s)"

lemma quiet_call:
  "quiet N orc \<Longrightarrow> call orc op w =
     (case op (or_db_now orc (wo_calls w)) (or_uuid orc (wo_calls w)) (wo_state w) of
        Inl e \<Rightarrow> (Inl e, w\<lparr>wo_calls := wo_calls w + 1\<rparr>)
      | Inr (t, a) \<Rightarrow> (Inr a, w\<lparr>wo_calls := wo_calls w + 1, wo_state := t\<rparr>))"
  by (simp add: quiet_def call_def Let_def split: sum.split)

lemma running_rows_released:
  assumes "fenced_update f upd db = Inr db1" "\<And>e. ex_Status (upd e) \<noteq> StatusRunning"
  shows "Suc (count_where (\<lambda>e. ex_Status e = StatusRunning) (ai_executions db1)) =
     count_where (\<lambda>e. ex_Status e = StatusRunning) (ai_executions db)"
proof -
  let ?R = "\<lambda>e :: execution. ex_Status e = StatusRunning"
  have one: "count_where (fence_holds f) (ai_executions db) = 1"
    using assms(1) by (auto simp: fenced_update_def split: if_splits)
  have "count_where ?R (ai_executions db1) = count_where (\<lambda>e. ?R e \<and> \<not> fence_holds f e) (ai_executions db)"
    using assms(2) unfolding fenced_update_rows [OF assms(1)] by (simp add: count_where_upd if_distrib cong: if_cong) (rule count_where_cong, auto)
  moreover have "count_where ?R xs = count_where (\<lambda>e. ?R e \<and> \<not> fence_holds f e) xs + count_where (fence_holds f) xs" for xs
    by (induction xs) (auto simp: fence_holds_def)
  ultimately show ?thesis using one by simp
qed

text \<open>One reclaim: refused without a trace, or a fence that holds the row.\<close>

lemma quiet_reclaim:
  assumes "quiet N orc" "good N orc w"
    and op: "op = leasing (\<lambda>now db. ReclaimStale db now ws eid worker ttl)"
  shows "if \<exists>e \<in> set (execs (wo_state w)). reclaimable (or_db_now orc (wo_calls w)) ws eid e
     then \<exists>f e w1. call orc op w = (Inr f, w1) \<and> good N orc w1 \<and> running_rows (wo_state w1) = running_rows (wo_state w)
        \<and> wo_calls w1 = wo_calls w + 1 \<and> f \<in> issued (wo_state w1) \<and> e \<in> set (execs (wo_state w1)) \<and> fence_holds f e
        \<and> (\<forall>c. fe_LastErrorCode f = Some c \<longrightarrow> 0 \<le> c)
     else call orc op w = (Inl ErrNotFound, w\<lparr>wo_calls := wo_calls w + 1\<rparr>)"
proof (cases "find (reclaimable (or_db_now orc (wo_calls w)) ws eid) (execs (wo_state w))")
  case None
  then have "\<not> (\<exists>e \<in> set (execs (wo_state w)). reclaimable (or_db_now orc (wo_calls w)) ws eid e)"
    by (auto simp: find_None_iff)
  with None show ?thesis
    by (simp add: quiet_call [OF assms(1)] op leasing_def ReclaimStale_def)
next
  case (Some e0)
  let ?now = "or_db_now orc (wo_calls w)"
  have ex: "\<exists>e \<in> set (execs (wo_state w)). reclaimable ?now ws eid e"
    using find_SomeD [OF Some] by blast
  obtain db f where R: "ReclaimStale (tables (wo_state w)) ?now ws eid worker ttl = Inr (db, f)"
    using Some by (simp add: ReclaimStale_def Let_def)
  obtain e rid where e: "e \<in> set (execs (wo_state w))" "reclaimable ?now ws eid e"
    and f: "f = (fence_of (reclaim_row ?now worker ttl e) rid)\<lparr>fe_LastErrorCode := ex_LastErrorCode e,
            fe_Retryable := ex_Retryable e, fe_NextRetryAt := ex_NextRetryAt e\<rparr>"
    and db: "db = (tables (wo_state w))\<lparr>ai_executions :=
        upd_where (reclaimable ?now ws eid) (reclaim_row ?now worker ttl) (execs (wo_state w))\<rparr>"
    by (rule ReclaimStale_Inr [OF R]) (rule that, assumption+)
  define w1 where "w1 = w\<lparr>wo_calls := wo_calls w + 1,
      wo_state := (wo_state w)\<lparr>tables := db, issued := insert f (issued (wo_state w))\<rparr>\<rparr>"
  have "call orc op w = (Inr f, w1)"
    by (simp add: quiet_call [OF assms(1)] op leasing_def R w1_def)
  moreover have "exec_inv (wo_state w1)"
    using ReclaimStale_inv [OF _ R] assms(2) by (simp add: w1_def)
  moreover have "fresh_ids N orc w1"
    using assms(2) by (simp add: fresh_ids_def w1_def db)
  moreover have "running_rows (wo_state w1) = running_rows (wo_state w)"
    by (simp add: running_rows_def w1_def db count_where_upd)
      (rule count_where_cong, auto simp: reclaim_row_def reclaimable_def)
  moreover have "reclaim_row ?now worker ttl e \<in> set (execs (wo_state w1))"
    using e by (auto simp: w1_def db set_upd_where)
  moreover have "fence_holds f (reclaim_row ?now worker ttl e)"
    using e(2) by (simp add: f fence_holds_def fence_of_def reclaim_row_def derefString_def reclaimable_def)
  moreover have "\<forall>c. fe_LastErrorCode f = Some c \<longrightarrow> 0 \<le> c"
    using exec_invD [OF _ e(1)] assms(2) by (simp add: f exec_ok_def row_ok_def)
  ultimately show ?thesis
    using ex by (auto simp: w1_def)
qed

lemma Reschedule_keys:
  assumes "Reschedule db now rid f next_at seq = Inr db'"
  shows "map rt_ID (ai_execution_retries db') = map rt_ID (ai_execution_retries db) @ [rid]"
proof -
  from assms obtain db1 upd where u: "fenced_update f upd db = Inr db1"
    and i: "insert_retry (pending_retry rid (fe_ExecutionID f) (fe_WorkspaceID f) seq (fe_LeaseGeneration f) (Some next_at) now)
        (resolve_retries f now RetryFailed db1) = Inr db'"
    by (auto simp: Reschedule_def split: sum.splits)
  show ?thesis
    using insert_retry_Inr [OF i] resolve_keys [of f now RetryFailed db1] fenced_update_rows [OF u]
    by (simp add: pending_retry_def)
qed

lemma FailAndDLQ_keys:
  assumes "FailAndDLQ db now f code detail snapshot = Inr db'"
  shows "map rt_ID (ai_execution_retries db') = map rt_ID (ai_execution_retries db)"
proof -
  from assms obtain db1 upd where u: "fenced_update f upd db = Inr db1"
    and i: "ai_execution_retries db' = ai_execution_retries (resolve_retries f now RetryFailed db1)"
    by (auto simp: FailAndDLQ_def Let_def split: sum.splits if_splits)
  show ?thesis
    using i resolve_keys [of f now RetryFailed db1] fenced_update_rows [OF u] by simp
qed

lemma releases:
  "Reschedule db now rid f next_at seq = Inr db' \<Longrightarrow>
   Suc (count_where (\<lambda>e. ex_Status e = StatusRunning) (ai_executions db')) =
     count_where (\<lambda>e. ex_Status e = StatusRunning) (ai_executions db)"
  "FailAndDLQ db now f code detail snapshot = Inr db' \<Longrightarrow>
   Suc (count_where (\<lambda>e. ex_Status e = StatusRunning) (ai_executions db')) =
     count_where (\<lambda>e. ex_Status e = StatusRunning) (ai_executions db)"
proof -
  assume R: "Reschedule db now rid f next_at seq = Inr db'"
  then obtain db1 where u: "fenced_update f (\<lambda>e. e\<lparr>ex_Status := StatusPending, ex_LeaseOwner := None,
        ex_LeaseExpiresAt := None, ex_NextRetryAt := Some next_at, ex_UpdatedAt := now\<rparr>) db = Inr db1"
    and rows: "ai_executions db' = ai_executions db1"
    by (auto simp: Reschedule_def resolve_retries_def split: sum.splits dest!: insert_retry_Inr)
  show "Suc (count_where (\<lambda>e. ex_Status e = StatusRunning) (ai_executions db')) =
     count_where (\<lambda>e. ex_Status e = StatusRunning) (ai_executions db)"
    unfolding rows by (rule running_rows_released [OF u]) simp
next
  assume "FailAndDLQ db now f code detail snapshot = Inr db'"
  then obtain db1 where u: "fenced_update f (\<lambda>e. e\<lparr>ex_Status := StatusFailed, ex_LastErrorCode := Some code,
      ex_Retryable := Some False, ex_ErrorDetail := nullableString detail, ex_FailedAt := Some now,
      ex_LeaseOwner := None, ex_LeaseExpiresAt := None, ex_UpdatedAt := now\<rparr>) db = Inr db1"
    and rows: "ai_executions db' = ai_executions db1"
    by (auto simp: FailAndDLQ_def Let_def resolve_retries_def split: sum.splits if_splits)
  show "Suc (count_where (\<lambda>e. ex_Status e = StatusRunning) (ai_executions db')) =
     count_where (\<lambda>e. ex_Status e = StatusRunning) (ai_executions db)"
    unfolding rows by (rule running_rows_released [OF u]) simp
qed

text \<open>The resolution of a reclaimed row: always succeeds and releases exactly that row.\<close>

lemma quiet_resolve:
  assumes "wo_calls w < N" and "quiet N orc" "good N orc w" "f \<in> issued (wo_state w)" "e \<in> set (execs (wo_state w))" "fence_holds f e"
    "\<forall>c. fe_LastErrorCode f = Some c \<longrightarrow> 0 \<le> c"
  shows "\<exists>w2. resolveRecovered orc d f w = (Inr (), w2) \<and> good N orc w2 \<and> wo_calls w2 = wo_calls w + 1
     \<and> Suc (running_rows (wo_state w2)) = running_rows (wo_state w)"
proof -
  let ?s = "wo_state w" and ?n = "wo_calls w"
  let ?code = "case fe_LastErrorCode f of None \<Rightarrow> CodeWorkerLeaseExpired | Some c \<Rightarrow> c"
  have code: "0 \<le> ?code" using assms(7) by (auto split: option.split)
  have uuid: "or_uuid orc ?n \<notin> rt_ID ` set (ai_execution_retries (tables ?s))"
    using assms(1,3) by (simp add: fresh_ids_def)
  note W = holder_writes [OF conjunct1 [OF assms(3)] assms(4-6) code uuid]
  show ?thesis
  proof (cases "(case fe_Retryable f of None \<Rightarrow> True | Some b \<Rightarrow> b) \<and> fe_Attempt f < fe_MaxAttempts f")
    case True
    define next_at where "next_at = or_now orc ?n + RetryDelay (fe_Attempt f) (di_baseDelay d) (di_maxDelay d)"
    obtain db where R: "Reschedule (tables ?s) (or_db_now orc ?n) (or_uuid orc ?n) f next_at (fe_Attempt f + 1) = Inr db"
      using W by blast
    define w2 where "w2 = w\<lparr>wo_calls := ?n + 1, wo_state := ?s\<lparr>tables := db\<rparr>\<rparr>"
    have "resolveRecovered orc d f w = (Inr (), w2)"
      using True R by (simp add: resolveRecovered_def Let_def quiet_call [OF assms(2)] writing_def w2_def next_at_def)
    moreover have "exec_inv (wo_state w2)"
      using Reschedule_inv [OF _ assms(4) _ R] True assms(3) by (simp add: w2_def)
    moreover have "fresh_ids N orc w2"
    proof -
      have "rt_ID ` set (ai_execution_retries db) = insert (or_uuid orc ?n) (rt_ID ` set (ai_execution_retries (tables ?s)))"
        using Reschedule_keys [OF R] by (metis Un_insert_right list.set(1) list.simps(15) set_append set_map sup_bot_right)
      moreover have "or_uuid orc k \<noteq> or_uuid orc ?n" if "?n + 1 \<le> k" "k < N" for k
        using assms(1,2) that by (auto simp: quiet_def dest: inj_onD)
      ultimately show ?thesis
        using assms(3) by (simp add: fresh_ids_def w2_def)
    qed
    moreover have "Suc (running_rows (wo_state w2)) = running_rows ?s"
      using releases(1) [OF R] by (simp add: w2_def running_rows_def)
    ultimately show ?thesis by (auto simp: w2_def)
  next
    case False
    obtain db where R: "FailAndDLQ (tables ?s) (or_db_now orc ?n) f ?code ''lease expired after non-retryable failure'' [] = Inr db"
      using W by blast
    define w2 where "w2 = w\<lparr>wo_calls := ?n + 1, wo_state := ?s\<lparr>tables := db\<rparr>\<rparr>"
    have "resolveRecovered orc d f w = (Inr (), w2)"
      using False R by (simp add: resolveRecovered_def Let_def quiet_call [OF assms(2)] writing_def w2_def not_less)
    moreover have "exec_inv (wo_state w2)"
      using FailAndDLQ_inv [OF _ R] assms(3) by (simp add: w2_def)
    moreover have "rt_ID ` set (ai_execution_retries db) = rt_ID ` set (ai_execution_retries (tables ?s))"
      using FailAndDLQ_keys [OF R] by (metis set_map)
    then have "fresh_ids N orc w2"
      using assms(3) by (simp add: fresh_ids_def w2_def)
    moreover have "Suc (running_rows (wo_state w2)) = running_rows ?s"
      using releases(2) [OF R] by (simp add: w2_def running_rows_def)
    ultimately show ?thesis by (auto simp: w2_def)
  qed
qed

lemma quiet_recover_each:
  "quiet N orc \<Longrightarrow> good N orc w \<Longrightarrow> wo_calls w + 2 * length ids \<le> N \<Longrightarrow>
   \<exists>b' w'. recover_each orc d ws ids b w = (Inr b', w') \<and> good N orc w' \<and> wo_calls w \<le> wo_calls w'
     \<and> wo_calls w' \<le> wo_calls w + 2 * length ids
     \<and> running_rows (wo_state w') \<le> running_rows (wo_state w) \<and> (b \<longrightarrow> b')
     \<and> (b' \<longrightarrow> b \<or> running_rows (wo_state w') < running_rows (wo_state w))
     \<and> ((\<exists>eid ids' e. ids = eid # ids' \<and> e \<in> set (execs (wo_state w)) \<and> reclaimable (or_db_now orc (wo_calls w)) ws eid e) \<longrightarrow> b')"
proof (induction ids arbitrary: b w)
  case Nil
  then show ?case by simp
next
  case (Cons eid ids)
  let ?op = "leasing (\<lambda>now db. ReclaimStale db now ws eid (di_workerID d) (di_leaseTTL d))"
  note r = quiet_reclaim [OF Cons(2,3) refl, of ws eid "di_workerID d" "di_leaseTTL d"]
  show ?case
  proof (cases "\<exists>e \<in> set (execs (wo_state w)). reclaimable (or_db_now orc (wo_calls w)) ws eid e")
    case False
    with r have c: "call orc ?op w = (Inl ErrNotFound, w\<lparr>wo_calls := wo_calls w + 1\<rparr>)" by simp
    have "good N orc (w\<lparr>wo_calls := wo_calls w + 1\<rparr>)"
      using Cons(3) by (simp add: fresh_ids_def)
    from Cons(1) [OF Cons(2) this, of b] Cons(4) obtain b' w' where
      "recover_each orc d ws ids b (w\<lparr>wo_calls := wo_calls w + 1\<rparr>) = (Inr b', w')" "good N orc w'" "wo_calls w < wo_calls w'"
      "wo_calls w' \<le> wo_calls w + 1 + 2 * length ids"
      "running_rows (wo_state w') \<le> running_rows (wo_state w)" "b \<longrightarrow> b'"
      "b' \<longrightarrow> b \<or> running_rows (wo_state w') < running_rows (wo_state w)" by auto
    with False show ?thesis
      by (intro exI [of _ b'] exI [of _ w']) (auto simp: c)
  next
    case True
    with r obtain f e w1 where c: "call orc ?op w = (Inr f, w1)" "good N orc w1" "wo_calls w1 = wo_calls w + 1"
      "running_rows (wo_state w1) = running_rows (wo_state w)"
      "f \<in> issued (wo_state w1)" "e \<in> set (execs (wo_state w1))" "fence_holds f e"
      "\<forall>c. fe_LastErrorCode f = Some c \<longrightarrow> 0 \<le> c" by auto
    obtain w2 where w2: "resolveRecovered orc d f w1 = (Inr (), w2)" "good N orc w2" "wo_calls w2 = wo_calls w1 + 1"
      "Suc (running_rows (wo_state w2)) = running_rows (wo_state w1)"
      using quiet_resolve [OF _ Cons(2) c(2,5-8)] c(3) Cons(4) by auto
    from Cons(1) [OF Cons(2) w2(2), of True] c w2 Cons(4) show ?thesis
      by fastforce
  qed
qed

lemma GetStale_mem:
  assumes "GetStale db now ws limit = eid # ids"
  shows "\<exists>e \<in> set (ai_executions db). reclaimable now ws eid e"
proof -
  let ?P = "\<lambda>e. ex_WorkspaceID e = ws \<and> ex_Status e = StatusRunning \<and> lease_expired now e"
  have "eid \<in> set (GetStale db now ws limit)"
    using assms by simp
  then obtain e where "e \<in> set (sort_key (\<lambda>e. the (ex_LeaseExpiresAt e)) (filter ?P (ai_executions db)))" "ex_ID e = eid"
    by (auto simp: GetStale_def dest: in_set_takeD)
  then show ?thesis by (auto simp: reclaimable_def)
qed

lemma GetStale_empty:
  assumes "GetStale db now ws limit = []" "0 < limit"
  shows "\<not> (\<exists>e \<in> set (ai_executions db). ex_WorkspaceID e = ws \<and> ex_Status e = StatusRunning \<and> lease_expired now e)"
  using assms by (auto simp: GetStale_def filter_empty_conv dest: arg_cong [where f = set])

lemma GetStale_length: "length (GetStale (tables s) now ws limit) \<le> running_rows s"
proof -
  have "length (GetStale (tables s) now ws limit)
      \<le> count_where (\<lambda>e. ex_WorkspaceID e = ws \<and> ex_Status e = StatusRunning \<and> lease_expired now e) (execs s)"
    by (simp add: GetStale_def count_where_def)
  also have "\<dots> \<le> running_rows s"
    unfolding running_rows_def by (rule count_where_mono) simp
  finally show ?thesis .
qed

text \<open>The calls of the remaining iterations fit what the first left of the budget.\<close>

lemma call_budget:
  fixes c c' l r r' N :: nat
  assumes "c' \<le> c + 1 + 2 * l" "l \<le> r" "r' < r" "c + (r + 1) * (2 * r + 1) \<le> N"
  shows "c' + (r' + 1) * (2 * r' + 1) \<le> N"
proof -
  have "(r' + 1) * (2 * r' + 1) \<le> r * (2 * r - 1)"
    using assms(3) by (intro mult_le_mono) auto
  moreover have "c + 1 + 2 * r + r * (2 * r - 1) \<le> c + (r + 1) * (2 * r + 1)"
    by (cases r) (simp_all add: algebra_simps)
  ultimately show ?thesis using assms(1,2,4) by linarith
qed

text \<open>
  C9. A recovery pass ends and leaves nothing behind. With the store to itself (no other
  writer, no fault, a database clock that does not go back, fresh identifiers), from every
  reachable state the loop of \<^verbatim>\<open>recoverStale\<close> returns without error after at most one
  iteration per running execution and one more, and when it does no execution of the
  workspace is left running on a lease that has expired by the clock of its last query.
\<close>

theorem recovery_pass_completes:
  assumes "initial_runtime s0" "runs exec_step s0 (wo_state w)" "quiet N orc" "fresh_ids N orc w"
    and "0 < di_sweepLimit d" "running_rows (wo_state w) < fuel"
    and "wo_calls w + (running_rows (wo_state w) + 1) * (2 * running_rows (wo_state w) + 1) \<le> N"
  shows "\<exists>w' n. recoverStale fuel orc d ws w = Some (Inr (), w') \<and> wo_calls w \<le> n \<and> n < wo_calls w'
     \<and> (\<nexists>e. e \<in> set (execs (wo_state w')) \<and> ex_WorkspaceID e = ws \<and> ex_Status e = StatusRunning
           \<and> lease_expired (or_db_now orc n) e)"
proof -
  have "good N orc w"
    using exec.inv_reachable [OF assms(1,2)] assms(4) by blast
  from this assms(6,7) show ?thesis
  proof (induction fuel arbitrary: w)
    case 0
    then show ?case by simp
  next
    case (Suc fuel)
    let ?ids = "GetStale (tables (wo_state w)) (or_db_now orc (wo_calls w)) ws (di_sweepLimit d)"
    let ?w1 = "w\<lparr>wo_calls := wo_calls w + 1\<rparr>"
    have c: "call orc (reading (\<lambda>now db. Inr (GetStale db now ws (di_sweepLimit d)))) w = (Inr ?ids, ?w1)"
      by (simp add: quiet_call [OF assms(3)] reading_def)
    show ?case
    proof (cases ?ids)
      case Nil
      with GetStale_empty [OF Nil assms(5)] show ?thesis
        using c by (intro exI [of _ ?w1] exI [of _ "wo_calls w"]) auto
    next
      case (Cons eid ids)
      have good1: "good N orc ?w1" using Suc(2) by (simp add: fresh_ids_def)
      have le: "or_db_now orc (wo_calls w) \<le> or_db_now orc (wo_calls ?w1)"
        using assms(3) by (simp add: quiet_def monoD)
      have stale: "\<exists>eid ids' e. ?ids = eid # ids' \<and> e \<in> set (execs (wo_state ?w1))
          \<and> reclaimable (or_db_now orc (wo_calls ?w1)) ws eid e"
        using GetStale_mem [OF Cons] le Cons by (force simp: reclaimable_def lease_expired_def split: option.splits)
      have budget: "wo_calls ?w1 + 2 * length ?ids \<le> N"
        using Suc(4) GetStale_length [of "wo_state w" "or_db_now orc (wo_calls w)" ws "di_sweepLimit d"] by (simp add: algebra_simps)
      obtain b' w2 where rec: "recover_each orc d ws ?ids False ?w1 = (Inr b', w2)" "good N orc w2"
        "wo_calls ?w1 \<le> wo_calls w2" "wo_calls w2 \<le> wo_calls ?w1 + 2 * length ?ids"
        "b' \<longrightarrow> False \<or> running_rows (wo_state w2) < running_rows (wo_state ?w1)" "b'"
        using quiet_recover_each [OF assms(3) good1 budget, of d ws False] stale by (elim exE conjE) blast
      then have w2: "recover_each orc d ws ?ids False ?w1 = (Inr True, w2)" "good N orc w2"
        "wo_calls ?w1 \<le> wo_calls w2" "running_rows (wo_state w2) < running_rows (wo_state w)"
        "wo_calls w2 \<le> wo_calls ?w1 + 2 * length ?ids" by simp_all
      have "wo_calls w2 + (running_rows (wo_state w2) + 1) * (2 * running_rows (wo_state w2) + 1) \<le> N"
        by (rule call_budget [OF _ GetStale_length w2(4) Suc(4)]) (use w2(5) in simp)
      moreover
      from w2(4) have "running_rows (wo_state w2) < fuel" using Suc(3) by simp
      ultimately obtain w' n where "recoverStale fuel orc d ws w2 = Some (Inr (), w')"
        "wo_calls w2 \<le> n" "n < wo_calls w'"
        "\<nexists>e. e \<in> set (execs (wo_state w')) \<and> ex_WorkspaceID e = ws \<and> ex_Status e = StatusRunning
           \<and> lease_expired (or_db_now orc n) e" using Suc(1) [OF w2(2)] by blast
      with c w2(1,3) Cons show ?thesis
        by (intro exI [of _ w'] exI [of _ n]) auto
    qed
  qed
qed

definition demo_late :: env_oracle where
  "demo_late = demo_oracle\<lparr>or_db_now := \<lambda>n. int (n + 60) * second\<rparr>"

lemma demo_late_quiet: "quiet 6 demo_late"
proof -
  have "mono (or_db_now demo_late)"
    by (auto simp: demo_late_def demo_oracle_def second_def mono_def)
  moreover have "inj_on (or_uuid demo_late) {..<6}"
    by (simp add: demo_late_def demo_oracle_def lessThan_nat_numeral lessThan_Suc)
  ultimately show ?thesis
    by (simp add: quiet_def demo_late_def demo_oracle_def)
qed

theorem recovery_pass_completes_witness:
  "\<exists>w'. recoverStale 2 demo_late demo_dispatcher 1 \<lparr>wo_state = demo_claimed, wo_calls = 0, wo_sent = []\<rparr> = Some (Inr (), w')"
proof -
  let ?w = "\<lparr>wo_state = demo_claimed, wo_calls = 0, wo_sent = []\<rparr>"
  have one: "running_rows demo_claimed = 1" by code_simp
  have "list_all (\<lambda>n. or_uuid demo_late n \<notin> set (map rt_ID (ai_execution_retries (tables demo_claimed)))) [0..<6]"
    by code_simp
  then have "fresh_ids 6 demo_late ?w"
    by (auto simp: fresh_ids_def list_all_iff)
  moreover have "0 < di_sweepLimit demo_dispatcher" by code_simp
  ultimately show ?thesis
    using recovery_pass_completes [OF demo_initial _ demo_late_quiet, of ?w demo_dispatcher 2 1] demo_runs(2) one by auto
qed

end
