(* ===== verification/Go_Text.thy ===== *)
theory Go_Text
  imports Go_Prelude
begin

text \<open>
  Texts as the request handlers and cursors use them: decimal numbers
  (\<^verbatim>\<open>strconv.Itoa\<close>, \<^verbatim>\<open>strconv.FormatInt\<close>, \<^verbatim>\<open>strconv.ParseInt\<close> in base 10), the count of runes of a byte
  string, \<^verbatim>\<open>strings.Cut\<close> at a byte, and the values of a query string.
\<close>

subsection \<open>Decimal numbers\<close>

text \<open>\<^verbatim>\<open>strconv.Itoa\<close>: the decimal digits of a number.\<close>

definition digit :: "nat \<Rightarrow> char" where
  "digit d = ''0123456789'' ! (d mod 10)"

fun Itoa :: "nat \<Rightarrow> string" where
  "Itoa n = (if n < 10 then [digit n] else Itoa (n div 10) @ [digit n])"

declare Itoa.simps [simp del]

definition digits_value :: "string \<Rightarrow> nat" where
  "digits_value s = foldl (\<lambda>v c. 10 * v + (of_char c - 48)) 0 s"

lemma of_char_digit: "of_char (digit d) = 48 + d mod 10"
proof -
  have "list_all (\<lambda>k. of_char (''0123456789'' ! k) = 48 + k) [0..<10]" by code_simp
  then show ?thesis by (simp add: list_all_iff digit_def)
qed

lemma digits_value_Itoa [simp]: "digits_value (Itoa n) = n"
proof (induction n rule: Itoa.induct)
  case (1 n)
  then show ?case by (subst Itoa.simps) (auto simp: digits_value_def of_char_digit)
qed

lemma Itoa_inject [simp]: "Itoa m = Itoa n \<longleftrightarrow> m = n"
  using digits_value_Itoa by metis

lemma colon_notin_Itoa: "CHR '':'' \<notin> set (Itoa n)"
proof (induction n rule: Itoa.induct)
  case (1 n)
  have "digit d \<noteq> CHR '':''" for d
  proof
    assume "digit d = CHR '':''"
    then have "48 + d mod 10 = (58 :: nat)" using of_char_digit [of d] by simp
    moreover have "d mod 10 < 10" by simp
    ultimately show False by linarith
  qed
  then have "CHR '':'' \<noteq> digit d" for d by metis
  with 1 show ?case by (subst Itoa.simps) simp
qed

lemma Itoa_not_Nil: "Itoa n \<noteq> []"
  by (subst Itoa.simps) simp

definition is_digit :: "char \<Rightarrow> bool" where
  "is_digit c \<longleftrightarrow> (48 :: nat) \<le> of_char c \<and> (of_char c :: nat) \<le> 57"

definition FormatInt :: "int \<Rightarrow> string" where
  "FormatInt n = (if n < 0 then CHR ''-'' # Itoa (nat (- n)) else Itoa (nat n))"

fun cut_sign :: "string \<Rightarrow> bool \<times> string" where
  "cut_sign [] = (False, [])"
| "cut_sign (c # s) = (if c = CHR ''-'' then (True, s) else if c = CHR ''+'' then (False, s) else (False, c # s))"

text \<open>A syntax error and a value outside 64 bits are both \<open>None\<close>.\<close>

definition ParseInt :: "string \<Rightarrow> int option" where
  "ParseInt s =
     (let (neg, ds) = cut_sign s in
      if ds = [] \<or> \<not> list_all is_digit ds then None
      else let n = int (digits_value ds); v = (if neg then - n else n)
           in if int64 v then Some v else None)"

lemma is_digit_digit [simp]: "is_digit (digit d)"
  by (simp add: is_digit_def of_char_digit)

lemma Itoa_digits: "list_all is_digit (Itoa n)"
proof (induction n rule: Itoa.induct)
  case (1 n)
  then show ?case by (subst Itoa.simps) simp
qed

lemma cut_sign_digits: "list_all is_digit s \<Longrightarrow> cut_sign s = (False, s)"
  by (cases s) (auto simp: is_digit_def)

lemma ParseInt_FormatInt [simp]: "int64 n \<Longrightarrow> ParseInt (FormatInt n) = Some n"
  by (cases "n < 0") (simp_all add: ParseInt_def FormatInt_def cut_sign_digits Itoa_digits Itoa_not_Nil)

lemma FormatInt_not_Nil [simp]: "FormatInt n \<noteq> []"
  by (simp add: FormatInt_def Itoa_not_Nil)

subsection \<open>Runes\<close>

text \<open>
  The width of the first rune of a byte string, as the decoder of the language reads UTF-8:
  an invalid sequence is one rune of width 1.
\<close>

definition byte_in :: "nat \<Rightarrow> nat \<Rightarrow> char \<Rightarrow> bool" where
  "byte_in lo hi c \<longleftrightarrow> lo \<le> of_char c \<and> of_char c \<le> hi"

definition continuation :: "char \<Rightarrow> bool" where
  "continuation = byte_in 0x80 0xBF"

definition second_byte :: "char \<Rightarrow> char \<Rightarrow> bool" where
  "second_byte b c =
     (if of_char b = (0xE0 :: nat) then byte_in 0xA0 0xBF c
      else if of_char b = (0xED :: nat) then byte_in 0x80 0x9F c
      else if of_char b = (0xF0 :: nat) then byte_in 0x90 0xBF c
      else if of_char b = (0xF4 :: nat) then byte_in 0x80 0x8F c
      else continuation c)"

fun rune_width :: "string \<Rightarrow> nat" where
  "rune_width (b # c # d # e # s) =
     (if byte_in 0xC2 0xDF b \<and> continuation c then 2
      else if byte_in 0xE0 0xEF b \<and> second_byte b c \<and> continuation d then 3
      else if byte_in 0xF0 0xF4 b \<and> second_byte b c \<and> continuation d \<and> continuation e then 4
      else 1)"
| "rune_width [b, c, d] =
     (if byte_in 0xC2 0xDF b \<and> continuation c then 2
      else if byte_in 0xE0 0xEF b \<and> second_byte b c \<and> continuation d then 3
      else 1)"
| "rune_width [b, c] = (if byte_in 0xC2 0xDF b \<and> continuation c then 2 else 1)"
| "rune_width [b] = 1"
| "rune_width [] = 1"

lemma rune_width_pos: "0 < rune_width s"
  by (cases s rule: rune_width.cases) auto

function RuneCount :: "string \<Rightarrow> nat" where
  "RuneCount [] = 0"
| "RuneCount (b # s) = Suc (RuneCount (drop (rune_width (b # s)) (b # s)))"
  by pat_completeness auto
termination
proof (relation "measure length")
  fix b :: char and s :: string
  show "(drop (rune_width (b # s)) (b # s), b # s) \<in> measure length"
    using rune_width_pos [of "b # s"] by simp
qed simp

lemma RuneCount_le: "RuneCount s \<le> length s"
proof (induction s rule: RuneCount.induct)
  case (2 b s)
  then show ?case using rune_width_pos [of "b # s"] by simp
qed simp

subsection \<open>Splitting and query strings\<close>

definition Cut :: "char \<Rightarrow> string \<Rightarrow> (string \<times> string) option" where
  "Cut c s = (if c \<in> set s then Some (takeWhile (\<lambda>x. x \<noteq> c) s, tl (dropWhile (\<lambda>x. x \<noteq> c) s)) else None)"

lemma Cut_append [simp]: "c \<notin> set s \<Longrightarrow> Cut c (s @ c # t) = Some (s, t)"
  by (simp add: Cut_def takeWhile_tail dropWhile_append)

definition TrimSuffix :: "string \<Rightarrow> string \<Rightarrow> string" where
  "TrimSuffix s t = (if suffix t s then take (length s - length t) s else s)"

lemma TrimSuffix_append [simp]: "TrimSuffix (s @ t) t = s"
  by (auto simp: TrimSuffix_def suffix_def)

text \<open>\<^verbatim>\<open>url.Values\<close>: the values of every key in order; \<^verbatim>\<open>Get\<close> is the first or the empty string.\<close>

type_synonym url_values = "(string \<times> string list) list"

definition values_Get :: "url_values \<Rightarrow> string \<Rightarrow> string" where
  "values_Get vs k = (case map_of vs k of Some (v # _) \<Rightarrow> v | _ \<Rightarrow> [])"

end
