(* ===== verification/Go_Json.thy ===== *)
theory Go_Json
  imports Go_Prelude
begin

text \<open>
  \<^verbatim>\<open>encoding/json\<close> as the message queue uses it, above the text: a document is the value its text
  denotes, and \<open>None\<close> a text that is not a document. A struct is decoded member by member;
  a member that does not fit makes the whole decoding fail, and members the struct does not have are
  skipped.
\<close>

subsection \<open>Documents\<close>

datatype json =
    JNull | JBool bool | JInt int
  | JNumber string \<comment> \<open>a number that is not an integer literal\<close>
  | JString string | JArray "json list" | JObject "(string \<times> json) list"

type_synonym document = "json option"

text \<open>
  A member belongs to the field of its name, or to the first field whose name it equals up to
  case; the long s and the Kelvin sign fold to ASCII letters.
\<close>

definition lower :: "char \<Rightarrow> char" where
  "lower c = (if 65 \<le> (of_char c :: nat) \<and> (of_char c :: nat) \<le> 90 then char_of (of_char c + 32 :: nat) else c)"

fun fold_name :: "string \<Rightarrow> string" where
  "fold_name [] = []"
| "fold_name (c # s) =
     (if c = CHR 0xC5 \<and> take 1 s = [CHR 0xBF] then CHR ''s'' # fold_name (drop 1 s)
      else if c = CHR 0xE2 \<and> take 2 s = [CHR 0x84, CHR 0xAA] then CHR ''k'' # fold_name (drop 2 s)
      else lower c # fold_name s)"

type_synonym 'a fields = "(string \<times> (json \<Rightarrow> 'a \<Rightarrow> 'a option)) list"

definition struct_field :: "'a fields \<Rightarrow> string \<Rightarrow> (json \<Rightarrow> 'a \<Rightarrow> 'a option) option" where
  "struct_field fs key =
     (case map_of fs key of Some d \<Rightarrow> Some d | None \<Rightarrow> map_of (map (apfst fold_name) fs) (fold_name key))"

text \<open>Decoding goes on after a member that does not fit; only whether there was one counts.\<close>

fun decode_members :: "'a fields \<Rightarrow> (string \<times> json) list \<Rightarrow> 'a \<Rightarrow> bool \<times> 'a" where
  "decode_members fs [] a = (True, a)"
| "decode_members fs ((key, v) # ms) a =
     (case struct_field fs key of
        None \<Rightarrow> decode_members fs ms a
      | Some dec \<Rightarrow>
          (case dec v a of
             None \<Rightarrow> (False, snd (decode_members fs ms a))
           | Some b \<Rightarrow> decode_members fs ms b))"

definition Unmarshal :: "'a fields \<Rightarrow> document \<Rightarrow> 'a \<Rightarrow> 'a option" where
  "Unmarshal fs doc a =
     (case doc of
        Some JNull \<Rightarrow> Some a
      | Some (JObject ms) \<Rightarrow> (case decode_members fs ms a of (ok, b) \<Rightarrow> if ok then Some b else None)
      | _ \<Rightarrow> None)"

subsection \<open>Fields\<close>

definition string_field :: "(string \<Rightarrow> 'a \<Rightarrow> 'a) \<Rightarrow> json \<Rightarrow> 'a \<Rightarrow> 'a option" where
  "string_field upd v a = (case v of JNull \<Rightarrow> Some a | JString s \<Rightarrow> Some (upd s a) | _ \<Rightarrow> None)"

definition int_field :: "(int \<Rightarrow> 'a \<Rightarrow> 'a) \<Rightarrow> json \<Rightarrow> 'a \<Rightarrow> 'a option" where
  "int_field upd v a = (case v of JNull \<Rightarrow> Some a | JInt n \<Rightarrow> if int64 n then Some (upd n a) else None | _ \<Rightarrow> None)"

definition bool_field :: "(bool \<Rightarrow> 'a \<Rightarrow> 'a) \<Rightarrow> json \<Rightarrow> 'a \<Rightarrow> 'a option" where
  "bool_field upd v a = (case v of JNull \<Rightarrow> Some a | JBool b \<Rightarrow> Some (upd b a) | _ \<Rightarrow> None)"

text \<open>A type that parses its own text, and a pointer to one, which \<^verbatim>\<open>null\<close> makes nil.\<close>

definition text_field :: "(string \<Rightarrow> 'v option) \<Rightarrow> ('v \<Rightarrow> 'a \<Rightarrow> 'a) \<Rightarrow> json \<Rightarrow> 'a \<Rightarrow> 'a option" where
  "text_field parse upd v a =
     (case v of JNull \<Rightarrow> Some a | JString s \<Rightarrow> (case parse s of None \<Rightarrow> None | Some x \<Rightarrow> Some (upd x a)) | _ \<Rightarrow> None)"

definition pointer_field :: "(string \<Rightarrow> 'v option) \<Rightarrow> ('v option \<Rightarrow> 'a \<Rightarrow> 'a) \<Rightarrow> json \<Rightarrow> 'a \<Rightarrow> 'a option" where
  "pointer_field parse upd v a =
     (case v of JNull \<Rightarrow> Some (upd None a)
      | JString s \<Rightarrow> (case parse s of None \<Rightarrow> None | Some x \<Rightarrow> Some (upd (Some x) a)) | _ \<Rightarrow> None)"

text \<open>\<^verbatim>\<open>json.RawMessage\<close> keeps whatever is there.\<close>

definition raw_field :: "(document \<Rightarrow> 'a \<Rightarrow> 'a) \<Rightarrow> json \<Rightarrow> 'a \<Rightarrow> 'a option" where
  "raw_field upd v a = Some (upd (Some v) a)"

text \<open>A map from strings to booleans, as the list of its entries; members are added to the map there is.\<close>

fun bool_members :: "(string \<times> json) list \<Rightarrow> (string \<times> bool) list option" where
  "bool_members [] = Some []"
| "bool_members ((k, v) # ms) =
     (case bool_members ms of
        None \<Rightarrow> None
      | Some bs \<Rightarrow>
          let add = (\<lambda>b. Some (if k \<in> fst ` set bs then bs else (k, b) # bs))
          in case v of JBool b \<Rightarrow> add b | JNull \<Rightarrow> add False | _ \<Rightarrow> None)"

definition bool_map_field ::
  "('a \<Rightarrow> (string \<times> bool) list) \<Rightarrow> ((string \<times> bool) list \<Rightarrow> 'a \<Rightarrow> 'a) \<Rightarrow> json \<Rightarrow> 'a \<Rightarrow> 'a option" where
  "bool_map_field sel upd v a =
     (case v of
        JNull \<Rightarrow> Some (upd [] a)
      | JObject ms \<Rightarrow>
          (case bool_members ms of
             None \<Rightarrow> None
           | Some bs \<Rightarrow> Some (upd (bs @ filter (\<lambda>x. fst x \<notin> fst ` set bs) (sel a)) a))
      | _ \<Rightarrow> None)"

lemmas field_defs = string_field_def int_field_def bool_field_def text_field_def pointer_field_def raw_field_def
  bool_map_field_def

lemma struct_field_exact: "map_of fs key = Some d \<Longrightarrow> struct_field fs key = Some d"
  by (simp add: struct_field_def)

lemma decode_members_append:
  "decode_members fs (xs @ ys) a =
     (case decode_members fs xs a of (ok, b) \<Rightarrow> (case decode_members fs ys b of (ok', c) \<Rightarrow> (ok \<and> ok', c)))"
  by (induction fs xs a rule: decode_members.induct) (auto split: option.split prod.split)

text \<open>A member whose name is that of a field and whose value fits is decoded into that field.\<close>

lemma decode_member [simp]:
  "map_of fs key = Some dec \<Longrightarrow> dec v a = Some b \<Longrightarrow> decode_members fs ((key, v) # ms) a = decode_members fs ms b"
  by (simp add: struct_field_def)

end
