(* ===== verification/Message_Worker.thy ===== *)
theory Message_Worker
  imports Execution_Processes Pipeline Go_Text Go_Json
begin

text \<open>
  The messages between the processes: the envelope (\<^verbatim>\<open>internal/event/event.go\<close>), the sinks that
  publish it (\<^verbatim>\<open>infrastructure/rabbitmq/sinks.go\<close>, \<^verbatim>\<open>executions.go\<close>), the consumer that settles a
  delivery (\<^verbatim>\<open>internal/worker/worker.go\<close>) and the handlers of its two queues
  (\<^verbatim>\<open>cmd/worker/handler.go\<close>), which drive the pipeline service and the execution worker.

  The broker is not modelled: what a consumer does with a delivery is the result, and a delivery
  that is put back may come again. The texts of identifiers and times are functions of a library record;
  the text of an error is left out.
\<close>

subsection \<open>Envelope\<close>

record message_lib =
  ml_uuid_String :: "uuid \<Rightarrow> string"
  ml_uuid_Parse :: "string \<Rightarrow> uuid option"
  ml_time_Format :: "instant \<Rightarrow> string option" \<comment> \<open>no text for a year beyond 9999\<close>
  ml_time_Parse :: "string \<Rightarrow> instant option"

text \<open>What the packages document of these functions: parsing the text gives the value back.\<close>

definition message_codec :: "message_lib \<Rightarrow> bool" where
  "message_codec lib \<longleftrightarrow> (\<forall>u. ml_uuid_Parse lib (ml_uuid_String lib u) = Some u)
     \<and> (\<forall>t s. ml_time_Format lib t = Some s \<longrightarrow> ml_time_Parse lib s = Some t)"

record UniversalEnvelope =
  ue_EventID :: uuid
  ue_Timestamp :: instant
  ue_WorkspaceID :: string
  ue_TraceID :: uuid
  ue_SpanID :: uuid
  ue_ActorType :: string
  ue_ActorID :: uuid
  ue_TargetType :: string
  ue_TargetID :: uuid
  ue_EventType :: string
  ue_Outcome :: string
  ue_OutcomeDetails :: document
  ue_PermissionsChecked :: "(string \<times> bool) list" \<comment> \<open>in key order\<close>
  ue_ConstitutionalPrinciple :: string
  ue_Details :: document
  ue_Genesis :: bool

text \<open>The zero value of a time is the first day of year 1.\<close>

definition zero_time :: instant where
  "zero_time = - (62135596800 * second)"

definition zero_envelope :: UniversalEnvelope where
  "zero_envelope =
     \<lparr>ue_EventID = uuid_Nil, ue_Timestamp = zero_time, ue_WorkspaceID = [], ue_TraceID = uuid_Nil, ue_SpanID = uuid_Nil,
      ue_ActorType = [], ue_ActorID = uuid_Nil, ue_TargetType = [], ue_TargetID = uuid_Nil, ue_EventType = [],
      ue_Outcome = [], ue_OutcomeDetails = None, ue_PermissionsChecked = [], ue_ConstitutionalPrinciple = [],
      ue_Details = None, ue_Genesis = False\<rparr>"

text \<open>Members marked \<^verbatim>\<open>omitempty\<close> are left out; an array, as an identifier is, is never empty.\<close>

definition raw_member :: "string \<Rightarrow> document \<Rightarrow> (string \<times> json) list" where
  "raw_member key raw = (case raw of None \<Rightarrow> [] | Some v \<Rightarrow> [(key, v)])"

definition MarshalJSON :: "message_lib \<Rightarrow> UniversalEnvelope \<Rightarrow> json option" where
  "MarshalJSON lib e =
     (let id_text = (\<lambda>u. JString (ml_uuid_String lib u)) in
      case ml_time_Format lib (ue_Timestamp e) of
        None \<Rightarrow> None
      | Some at \<Rightarrow>
          Some (JObject
            ([(''event_id'', id_text (ue_EventID e)), (''timestamp'', JString at)]
             @ (if ue_WorkspaceID e = [] then [] else [(''workspace_id'', JString (ue_WorkspaceID e))])
             @ [(''trace_id'', id_text (ue_TraceID e)), (''span_id'', id_text (ue_SpanID e)),
                (''actor_type'', JString (ue_ActorType e)), (''actor_id'', id_text (ue_ActorID e)),
                (''target_type'', JString (ue_TargetType e)), (''target_id'', id_text (ue_TargetID e)),
                (''event_type'', JString (ue_EventType e)), (''outcome'', JString (ue_Outcome e))]
             @ raw_member ''outcome_details'' (ue_OutcomeDetails e)
             @ (if ue_PermissionsChecked e = [] then []
                else [(''permissions_checked'', JObject (map (apsnd JBool) (ue_PermissionsChecked e)))])
             @ [(''constitutional_principle'', JString (ue_ConstitutionalPrinciple e))]
             @ raw_member ''details'' (ue_Details e)
             @ (if ue_Genesis e then [(''genesis'', JBool True)] else []))))"

definition envelope_fields :: "message_lib \<Rightarrow> UniversalEnvelope fields" where
  "envelope_fields lib =
     [(''event_id'', text_field (ml_uuid_Parse lib) (\<lambda>x e. e\<lparr>ue_EventID := x\<rparr>)),
      (''timestamp'', text_field (ml_time_Parse lib) (\<lambda>x e. e\<lparr>ue_Timestamp := x\<rparr>)),
      (''workspace_id'', string_field (\<lambda>x e. e\<lparr>ue_WorkspaceID := x\<rparr>)),
      (''trace_id'', text_field (ml_uuid_Parse lib) (\<lambda>x e. e\<lparr>ue_TraceID := x\<rparr>)),
      (''span_id'', text_field (ml_uuid_Parse lib) (\<lambda>x e. e\<lparr>ue_SpanID := x\<rparr>)),
      (''actor_type'', string_field (\<lambda>x e. e\<lparr>ue_ActorType := x\<rparr>)),
      (''actor_id'', text_field (ml_uuid_Parse lib) (\<lambda>x e. e\<lparr>ue_ActorID := x\<rparr>)),
      (''target_type'', string_field (\<lambda>x e. e\<lparr>ue_TargetType := x\<rparr>)),
      (''target_id'', text_field (ml_uuid_Parse lib) (\<lambda>x e. e\<lparr>ue_TargetID := x\<rparr>)),
      (''event_type'', string_field (\<lambda>x e. e\<lparr>ue_EventType := x\<rparr>)),
      (''outcome'', string_field (\<lambda>x e. e\<lparr>ue_Outcome := x\<rparr>)),
      (''outcome_details'', raw_field (\<lambda>x e. e\<lparr>ue_OutcomeDetails := x\<rparr>)),
      (''permissions_checked'', bool_map_field ue_PermissionsChecked (\<lambda>x e. e\<lparr>ue_PermissionsChecked := x\<rparr>)),
      (''constitutional_principle'', string_field (\<lambda>x e. e\<lparr>ue_ConstitutionalPrinciple := x\<rparr>)),
      (''details'', raw_field (\<lambda>x e. e\<lparr>ue_Details := x\<rparr>)),
      (''genesis'', bool_field (\<lambda>x e. e\<lparr>ue_Genesis := x\<rparr>))]"

definition unmarshal_envelope :: "message_lib \<Rightarrow> document \<Rightarrow> UniversalEnvelope option" where
  "unmarshal_envelope lib body = Unmarshal (envelope_fields lib) body zero_envelope"

subsection \<open>Publishing\<close>

datatype header = HString string | HInt int | HOther

record delivery =
  dl_MessageId :: string
  dl_Headers :: "(string \<times> header) list"
  dl_Body :: document

definition set_header :: "string \<Rightarrow> header \<Rightarrow> (string \<times> header) list \<Rightarrow> (string \<times> header) list" where
  "set_header key v hdrs = (key, v) # filter (\<lambda>h. fst h \<noteq> key) hdrs"

text \<open>
  \<^verbatim>\<open>deliver\<close>: \<open>ch\<close> is the error of opening a channel and \<open>pub\<close> that of the publish. What the broker got
  is the result; publishing without a queue of that name and losing the message is the broker's.
\<close>

definition deliver ::
  "message_lib \<Rightarrow> string option \<Rightarrow> (delivery \<Rightarrow> string option) \<Rightarrow> UniversalEnvelope \<Rightarrow> (string \<times> header) list \<Rightarrow> (string, delivery) result" where
  "deliver lib ch pub env hdrs =
     (case ch of
        Some err \<Rightarrow> Inl err
      | None \<Rightarrow>
          (case MarshalJSON lib env of
             None \<Rightarrow> Inl ''rabbitmq: marshal event''
           | Some body \<Rightarrow>
               let m = \<lparr>dl_MessageId = ml_uuid_String lib (ue_EventID env), dl_Headers = hdrs, dl_Body = Some body\<rparr>
               in case pub m of Some err \<Rightarrow> Inl err | None \<Rightarrow> Inr m))"

text \<open>\<open>details\<close> are the entries of a map in key order, \<open>now\<close> and \<open>eid\<close> the clock and the new identifier.\<close>

definition baseEnvelope ::
  "message_lib \<Rightarrow> instant \<Rightarrow> uuid \<Rightarrow> string \<Rightarrow> uuid \<Rightarrow> uuid \<Rightarrow> string \<Rightarrow> string \<Rightarrow> (string \<times> string) list \<Rightarrow>
   (string \<times> header) list \<Rightarrow> UniversalEnvelope \<times> (string \<times> header) list" where
  "baseEnvelope lib now eid targetType targetID ws traceID spanID details hdrs0 =
     (let hdrs = set_header ''target_type'' (HString targetType) (set_header ''workspace_id'' (HString (ml_uuid_String lib ws))
                   (set_header ''span_id'' (HString spanID) (set_header ''trace_id'' (HString traceID) hdrs0)));
          env = zero_envelope\<lparr>ue_EventID := eid, ue_Timestamp := now, ue_WorkspaceID := ml_uuid_String lib ws,
                  ue_ActorType := ''system'', ue_TargetType := targetType, ue_TargetID := targetID, ue_EventType := ''created'',
                  ue_Outcome := ''success'', ue_Details := Some (JObject (map (apsnd JString) details))\<rparr>;
          env1 = (case ml_uuid_Parse lib traceID of None \<Rightarrow> env | Some tid \<Rightarrow> env\<lparr>ue_TraceID := tid\<rparr>);
          env2 = (case ml_uuid_Parse lib spanID of None \<Rightarrow> env1 | Some sid \<Rightarrow> env1\<lparr>ue_SpanID := sid\<rparr>)
      in (env2, hdrs))"

definition PublishEventSink_Publish ::
  "message_lib \<Rightarrow> string option \<Rightarrow> (delivery \<Rightarrow> string option) \<Rightarrow> instant \<Rightarrow> uuid \<Rightarrow> string \<Rightarrow> uuid \<Rightarrow> uuid \<Rightarrow> string \<Rightarrow> string \<Rightarrow>
   (string, delivery) result" where
  "PublishEventSink_Publish lib ch pub now eid eventType publicationID ws traceID spanID =
     (let (env, hdrs) = baseEnvelope lib now eid ''publication'' publicationID ws traceID spanID [(''event'', eventType)]
                          [(''event_type'', HString eventType)]
      in deliver lib ch pub env hdrs)"

definition PublishPipeline ::
  "message_lib \<Rightarrow> string option \<Rightarrow> (delivery \<Rightarrow> string option) \<Rightarrow> instant \<Rightarrow> uuid \<Rightarrow> string \<Rightarrow> uuid \<Rightarrow> uuid \<Rightarrow> string \<Rightarrow> string \<Rightarrow> string \<Rightarrow>
   (string, delivery) result" where
  "PublishPipeline lib ch pub now eid eventType pipelineID ws st traceID spanID =
     (let (env, hdrs) = baseEnvelope lib now eid ''pipeline'' pipelineID ws traceID spanID [(''event'', eventType), (''stage'', st)]
                          [(''event_type'', HString eventType)]
      in deliver lib ch pub env hdrs)"

text \<open>A decision of the AI gateway; an error of the publish is only logged.\<close>

record DecisionRecord =
  dr_EventType :: string
  dr_ConstitutionalPrinciple :: string
  dr_Outcome :: string
  dr_WorkspaceID :: string
  dr_TraceID :: uuid
  dr_SpanID :: uuid

definition DecisionSink_Sink ::
  "message_lib \<Rightarrow> string option \<Rightarrow> (delivery \<Rightarrow> string option) \<Rightarrow> instant \<Rightarrow> uuid \<Rightarrow> DecisionRecord \<Rightarrow> (string, delivery) result" where
  "DecisionSink_Sink lib ch pub now eid d =
     (let (env, hdrs) = baseEnvelope lib now eid ''ai'' uuid_Nil uuid_Nil (ml_uuid_String lib (dr_TraceID d)) (ml_uuid_String lib (dr_SpanID d))
                          [(''event'', dr_EventType d), (''outcome'', dr_Outcome d)]
                          [(''event_type'', HString (dr_EventType d)), (''principle'', HString (dr_ConstitutionalPrinciple d))]
      in deliver lib ch pub (env\<lparr>ue_WorkspaceID := dr_WorkspaceID d, ue_Outcome := dr_Outcome d\<rparr>) hdrs)"

definition message_members :: "message_lib \<Rightarrow> PublishMessage \<Rightarrow> string \<Rightarrow> (string \<times> json) list" where
  "message_members lib msg expires =
     (let id_text = (\<lambda>u. JString (ml_uuid_String lib u)) in
      [(''WorkspaceID'', id_text (pm_WorkspaceID msg)), (''ExecutionID'', id_text (pm_ExecutionID msg)),
       (''AIEmployeeID'', id_text (pm_AIEmployeeID msg)),
       (''TaskID'', case pm_TaskID msg of None \<Rightarrow> JNull | Some t \<Rightarrow> id_text t),
       (''Attempt'', JInt (pm_Attempt msg)), (''MaxAttempts'', JInt (pm_MaxAttempts msg)), (''RetryID'', id_text (pm_RetryID msg)),
       (''Generation'', JInt (pm_Generation msg)), (''LeaseExpiresAt'', JString expires), (''LeaseOwner'', JString (pm_LeaseOwner msg))])"

definition executionEnvelope ::
  "message_lib \<Rightarrow> instant \<Rightarrow> uuid \<Rightarrow> PublishMessage \<Rightarrow> (UniversalEnvelope \<times> (string \<times> header) list) option" where
  "executionEnvelope lib now eid msg =
     (case ml_time_Format lib (pm_LeaseExpiresAt msg) of
        None \<Rightarrow> None
      | Some expires \<Rightarrow>
          Some (zero_envelope\<lparr>ue_EventID := eid, ue_Timestamp := now, ue_WorkspaceID := ml_uuid_String lib (pm_WorkspaceID msg),
                  ue_ActorType := ''system'', ue_TargetType := ''execution'', ue_TargetID := pm_ExecutionID msg,
                  ue_EventType := ''created'', ue_Outcome := ''dispatched'',
                  ue_Details := Some (JObject (message_members lib msg expires))\<rparr>,
                [(''event_type'', HString ''execution.dispatch''),
                 (''workspace_id'', HString (ml_uuid_String lib (pm_WorkspaceID msg))),
                 (''execution_id'', HString (ml_uuid_String lib (pm_ExecutionID msg))),
                 (''retry_id'', HString (ml_uuid_String lib (pm_RetryID msg))), (''generation'', HInt (pm_Generation msg))]))"

definition ExecutionPublisher_Publish ::
  "message_lib \<Rightarrow> string option \<Rightarrow> (delivery \<Rightarrow> string option) \<Rightarrow> instant \<Rightarrow> uuid \<Rightarrow> PublishMessage \<Rightarrow> (string, delivery) result" where
  "ExecutionPublisher_Publish lib ch pub now eid msg =
     (case executionEnvelope lib now eid msg of
        None \<Rightarrow> Inl ''rabbitmq: marshal execution dispatch''
      | Some (env, hdrs) \<Rightarrow> deliver lib ch pub env hdrs)"

subsection \<open>Consuming\<close>

text \<open>A failure of a handler: one that no retry can mend, or any other error.\<close>

datatype 'e message_error = ErrPermanent | ErrTransient 'e

datatype settlement = Ack | NackRequeue

text \<open>The headers override the trace and the span of the envelope where they hold an identifier.\<close>

definition header_id :: "message_lib \<Rightarrow> string \<Rightarrow> delivery \<Rightarrow> uuid option" where
  "header_id lib key msg = (case map_of (dl_Headers msg) key of Some (HString t) \<Rightarrow> ml_uuid_Parse lib t | _ \<Rightarrow> None)"

definition stamp_trace :: "message_lib \<Rightarrow> delivery \<Rightarrow> UniversalEnvelope \<Rightarrow> UniversalEnvelope" where
  "stamp_trace lib msg env =
     (let env1 = (case header_id lib ''trace_id'' msg of None \<Rightarrow> env | Some tid \<Rightarrow> env\<lparr>ue_TraceID := tid\<rparr>)
      in case header_id lib ''span_id'' msg of None \<Rightarrow> env1 | Some sid \<Rightarrow> env1\<lparr>ue_SpanID := sid\<rparr>)"

text \<open>
  \<^verbatim>\<open>processMessage\<close>: what the consumer asks the broker to do, the name under which it reports the
  delivery, and the state the handler leaves. \<open>ok\<close> tells whether the broker accepts the settlement.
\<close>

definition processMessage ::
  "message_lib \<Rightarrow> (UniversalEnvelope \<Rightarrow> 's \<Rightarrow> 'e message_error option \<times> 's) option \<Rightarrow> bool \<Rightarrow> delivery \<Rightarrow> 's \<Rightarrow> settlement \<times> string \<times> 's" where
  "processMessage lib handler ok msg s =
     (case unmarshal_envelope lib (dl_Body msg) of
        None \<Rightarrow> (Ack, ''worker-json-decode-error'', s)
      | Some env \<Rightarrow>
          (case (case handler of None \<Rightarrow> (None, s) | Some h \<Rightarrow> h (stamp_trace lib msg env) s) of
             (Some ErrPermanent, t) \<Rightarrow> (Ack, ''worker-message-rejected-permanent'', t)
           | (Some (ErrTransient _), t) \<Rightarrow> (NackRequeue, ''worker-handler-error'', t)
           | (None, t) \<Rightarrow> (Ack, if ok then ''worker-message-processed'' else ''worker-message-settlement-error'', t)))"

text \<open>
  \<^verbatim>\<open>reconnectLoop\<close> over the results of its dials: the waits before each, and whether it ended with
  a connection; \<open>None\<close> is the worker being stopped while it waits.
\<close>

definition maxReconnectDelay :: duration where
  "maxReconnectDelay = 30 * second"

fun reconnectLoop :: "bool option list \<Rightarrow> duration \<Rightarrow> bool option \<times> duration list" where
  "reconnectLoop [] delay = (None, [])" \<comment> \<open>still waiting\<close>
| "reconnectLoop (None # _) delay = (Some False, [])"
| "reconnectLoop (Some True # _) delay = (Some True, [delay])"
| "reconnectLoop (Some False # rest) delay =
     (let d = wrap64 (delay * 2); (r, waits) = reconnectLoop rest (if d > maxReconnectDelay then maxReconnectDelay else d)
      in (r, delay # waits))"

subsection \<open>Handlers\<close>

record event_details =
  ed_Event :: string
  ed_Stage :: string

definition publicationEventDetails :: "event_details fields" where
  "publicationEventDetails = [(''event'', string_field (\<lambda>x d. d\<lparr>ed_Event := x\<rparr>))]"

definition pipelineEventDetails :: "event_details fields" where
  "pipelineEventDetails = [(''event'', string_field (\<lambda>x d. d\<lparr>ed_Event := x\<rparr>)), (''stage'', string_field (\<lambda>x d. d\<lparr>ed_Stage := x\<rparr>))]"

definition stage_of :: "string \<Rightarrow> stage" where
  "stage_of t = (if t = ''research'' then StageResearch else if t = ''script'' then StageScript else if t = ''review'' then StageReview
     else if t = ''publish'' then StagePublish else if t = ''complete'' then StageComplete else StageOther t)"

fun pl_errors_Is :: "pl_error \<Rightarrow> pl_error \<Rightarrow> bool" where
  "pl_errors_Is (ErrJoin a b) target \<longleftrightarrow> pl_errors_Is a target \<or> pl_errors_Is b target"
| "pl_errors_Is e target \<longleftrightarrow> e = target"

text \<open>What a failed advance comes to: an event whose work is done already is accepted.\<close>

definition advance_verdict :: "pl_error \<Rightarrow> (pl_error, pipeline) result \<Rightarrow> stage \<Rightarrow> pl_error message_error option" where
  "advance_verdict err looked st =
     (case looked of
        Inr current \<Rightarrow>
          if pl_Status current = StatusDone then None
          else if pl_Stage current \<noteq> st \<and> IsAfter (pl_Stage current) st then None
          else if pl_errors_Is err ErrTerminalState \<and> pl_Status current \<noteq> StatusFailed then None
          else Some (ErrTransient err)
      | Inl _ \<Rightarrow> Some (ErrTransient err))"

text \<open>
  \<^verbatim>\<open>newHandler\<close>: the service reads the tables \<open>snap\<close> and \<open>snap2\<close>, the look after a failure reads
  \<open>snap3\<close>.
\<close>

definition pipeline_event ::
  "message_lib \<Rightarrow> UniversalEnvelope \<Rightarrow> (uuid \<times> stage \<times> string) option" where
  "pipeline_event lib env =
     (case Unmarshal pipelineEventDetails (ue_Details env) \<lparr>ed_Event = [], ed_Stage = []\<rparr> of
        None \<Rightarrow> None
      | Some d \<Rightarrow>
          let st = stage_of (ed_Stage d) in
          if \<not> ValidStage st then None
          else if EventKind (ed_Event d) \<noteq> Some st then None
          else (case ml_uuid_Parse lib (ue_WorkspaceID env) of
                  None \<Rightarrow> None
                | Some ws \<Rightarrow> if ue_TargetID env = uuid_Nil then None else Some (ws, st, ed_Event d)))"

definition publication_event :: "message_lib \<Rightarrow> UniversalEnvelope \<Rightarrow> bool" where
  "publication_event lib env =
     (case Unmarshal publicationEventDetails (ue_Details env) \<lparr>ed_Event = [], ed_Stage = []\<rparr> of
        None \<Rightarrow> False
      | Some d \<Rightarrow> take 12 (ed_Event d) = ''publication.''
          \<and> \<not> (ml_uuid_Parse lib (ue_WorkspaceID env) = None \<or> ue_TargetID env = uuid_Nil))"

definition newHandler ::
  "message_lib \<Rightarrow> 'b pl_env \<Rightarrow> pipeline list \<Rightarrow> pipeline list \<Rightarrow> pipeline list \<Rightarrow> instant \<Rightarrow> UniversalEnvelope \<Rightarrow> 'b pl_state \<Rightarrow>
   pl_error message_error option \<times> 'b pl_state" where
  "newHandler lib penv snap snap2 snap3 now env s =
     (if ue_TargetType env = ''publication'' then (if publication_event lib env then None else Some ErrPermanent, s)
      else if ue_TargetType env \<noteq> ''pipeline'' then (None, s)
      else case pipeline_event lib env of
        None \<Rightarrow> (Some ErrPermanent, s)
      | Some (ws, st, ev) \<Rightarrow>
          if ev = ''pipeline.review'' \<or> ev = ''pipeline.review_ready'' \<or> ev = ''pipeline.complete'' then (None, s)
          else (case AdvanceFromEvent penv snap snap2 now ws (ue_TargetID env) st s of
                  ((_, None), t) \<Rightarrow> (None, t)
                | ((_, Some err), t) \<Rightarrow> (advance_verdict err (pl_Get snap3 ws (ue_TargetID env)) st, t)))"

definition zero_message :: PublishMessage where
  "zero_message = \<lparr>pm_WorkspaceID = uuid_Nil, pm_ExecutionID = uuid_Nil, pm_AIEmployeeID = uuid_Nil, pm_TaskID = None, pm_Attempt = 0,
     pm_MaxAttempts = 0, pm_RetryID = uuid_Nil, pm_Generation = 0, pm_LeaseExpiresAt = zero_time, pm_LeaseOwner = []\<rparr>"

definition message_fields :: "message_lib \<Rightarrow> PublishMessage fields" where
  "message_fields lib =
     [(''WorkspaceID'', text_field (ml_uuid_Parse lib) (\<lambda>x m. m\<lparr>pm_WorkspaceID := x\<rparr>)),
      (''ExecutionID'', text_field (ml_uuid_Parse lib) (\<lambda>x m. m\<lparr>pm_ExecutionID := x\<rparr>)),
      (''AIEmployeeID'', text_field (ml_uuid_Parse lib) (\<lambda>x m. m\<lparr>pm_AIEmployeeID := x\<rparr>)),
      (''TaskID'', pointer_field (ml_uuid_Parse lib) (\<lambda>x m. m\<lparr>pm_TaskID := x\<rparr>)),
      (''Attempt'', int_field (\<lambda>x m. m\<lparr>pm_Attempt := x\<rparr>)),
      (''MaxAttempts'', int_field (\<lambda>x m. m\<lparr>pm_MaxAttempts := x\<rparr>)),
      (''RetryID'', text_field (ml_uuid_Parse lib) (\<lambda>x m. m\<lparr>pm_RetryID := x\<rparr>)),
      (''Generation'', int_field (\<lambda>x m. m\<lparr>pm_Generation := x\<rparr>)),
      (''LeaseExpiresAt'', text_field (ml_time_Parse lib) (\<lambda>x m. m\<lparr>pm_LeaseExpiresAt := x\<rparr>)),
      (''LeaseOwner'', string_field (\<lambda>x m. m\<lparr>pm_LeaseOwner := x\<rparr>))]"

definition newExecutionHandler ::
  "message_lib \<Rightarrow> env_oracle \<Rightarrow> worker \<Rightarrow> 'r outside \<Rightarrow> UniversalEnvelope \<Rightarrow> world \<Rightarrow> exec_error message_error option \<times> world" where
  "newExecutionHandler lib orc wk out env w =
     (if ue_TargetType env \<noteq> ''execution'' then (Some ErrPermanent, w)
      else case Unmarshal (message_fields lib) (ue_Details env) zero_message of
        None \<Rightarrow> (Some ErrPermanent, w)
      | Some msg \<Rightarrow>
          if pm_WorkspaceID msg = uuid_Nil \<or> pm_ExecutionID msg = uuid_Nil \<or> pm_RetryID msg = uuid_Nil then (Some ErrPermanent, w)
          else (case Worker_Run orc wk out msg w of
                  (_, Some err, w') \<Rightarrow> (if err = Execution_Domain.ErrInvalidInput then Some ErrPermanent else Some (ErrTransient err), w')
                | (_, None, w') \<Rightarrow> (None, w')))"


subsection \<open>What is published is what is consumed\<close>

lemma envelope_lookup:
  "map_of (envelope_fields lib) ''event_id'' = Some (text_field (ml_uuid_Parse lib) (\<lambda>x e. e\<lparr>ue_EventID := x\<rparr>))"
  "map_of (envelope_fields lib) ''timestamp'' = Some (text_field (ml_time_Parse lib) (\<lambda>x e. e\<lparr>ue_Timestamp := x\<rparr>))"
  "map_of (envelope_fields lib) ''workspace_id'' = Some (string_field (\<lambda>x e. e\<lparr>ue_WorkspaceID := x\<rparr>))"
  "map_of (envelope_fields lib) ''trace_id'' = Some (text_field (ml_uuid_Parse lib) (\<lambda>x e. e\<lparr>ue_TraceID := x\<rparr>))"
  "map_of (envelope_fields lib) ''span_id'' = Some (text_field (ml_uuid_Parse lib) (\<lambda>x e. e\<lparr>ue_SpanID := x\<rparr>))"
  "map_of (envelope_fields lib) ''actor_type'' = Some (string_field (\<lambda>x e. e\<lparr>ue_ActorType := x\<rparr>))"
  "map_of (envelope_fields lib) ''actor_id'' = Some (text_field (ml_uuid_Parse lib) (\<lambda>x e. e\<lparr>ue_ActorID := x\<rparr>))"
  "map_of (envelope_fields lib) ''target_type'' = Some (string_field (\<lambda>x e. e\<lparr>ue_TargetType := x\<rparr>))"
  "map_of (envelope_fields lib) ''target_id'' = Some (text_field (ml_uuid_Parse lib) (\<lambda>x e. e\<lparr>ue_TargetID := x\<rparr>))"
  "map_of (envelope_fields lib) ''event_type'' = Some (string_field (\<lambda>x e. e\<lparr>ue_EventType := x\<rparr>))"
  "map_of (envelope_fields lib) ''outcome'' = Some (string_field (\<lambda>x e. e\<lparr>ue_Outcome := x\<rparr>))"
  "map_of (envelope_fields lib) ''outcome_details'' = Some (raw_field (\<lambda>x e. e\<lparr>ue_OutcomeDetails := x\<rparr>))"
  "map_of (envelope_fields lib) ''permissions_checked'' =
     Some (bool_map_field ue_PermissionsChecked (\<lambda>x e. e\<lparr>ue_PermissionsChecked := x\<rparr>))"
  "map_of (envelope_fields lib) ''constitutional_principle'' = Some (string_field (\<lambda>x e. e\<lparr>ue_ConstitutionalPrinciple := x\<rparr>))"
  "map_of (envelope_fields lib) ''details'' = Some (raw_field (\<lambda>x e. e\<lparr>ue_Details := x\<rparr>))"
  "map_of (envelope_fields lib) ''genesis'' = Some (bool_field (\<lambda>x e. e\<lparr>ue_Genesis := x\<rparr>))"
  by (simp_all add: envelope_fields_def)

lemma bool_members_map: "distinct (map fst ps) \<Longrightarrow> bool_members (map (apsnd JBool) ps) = Some ps"
  by (induction ps) (auto simp: image_iff)

lemma envelope_roundtrip:
  assumes "message_codec lib" "MarshalJSON lib e = Some body" "distinct (map fst (ue_PermissionsChecked e))"
  shows "unmarshal_envelope lib (Some body) = Some e"
proof -
  have ids: "ml_uuid_Parse lib (ml_uuid_String lib u) = Some u" for u
    using assms(1) by (simp add: message_codec_def)
  from assms(2) obtain at where at: "ml_time_Format lib (ue_Timestamp e) = Some at"
    by (auto simp: MarshalJSON_def Let_def split: option.splits)
  then have tm: "ml_time_Parse lib at = Some (ue_Timestamp e)"
    using assms(1) by (simp add: message_codec_def)
  show ?thesis
    using assms(2) at bool_members_map [OF assms(3)]
    by (auto simp: MarshalJSON_def Let_def unmarshal_envelope_def Unmarshal_def decode_members_append raw_member_def field_defs
        envelope_lookup ids tm zero_envelope_def simp del: decode_members.simps(2) split: option.split
        intro!: UniversalEnvelope.equality)
qed

lemma deliver_Inr:
  assumes "message_codec lib" "deliver lib ch pub env hdrs = Inr m" "distinct (map fst (ue_PermissionsChecked env))"
  shows "unmarshal_envelope lib (dl_Body m) = Some env" and "dl_Headers m = hdrs"
proof -
  obtain body where "MarshalJSON lib env = Some body" "dl_Body m = Some body" "dl_Headers m = hdrs"
    using assms(2) by (auto simp: deliver_def Let_def split: option.splits)
  with envelope_roundtrip [OF assms(1) _ assms(3)]
  show "unmarshal_envelope lib (dl_Body m) = Some env" "dl_Headers m = hdrs" by simp_all
qed

lemma message_lookup:
  "map_of (message_fields lib) ''WorkspaceID'' = Some (text_field (ml_uuid_Parse lib) (\<lambda>x m. m\<lparr>pm_WorkspaceID := x\<rparr>))"
  "map_of (message_fields lib) ''ExecutionID'' = Some (text_field (ml_uuid_Parse lib) (\<lambda>x m. m\<lparr>pm_ExecutionID := x\<rparr>))"
  "map_of (message_fields lib) ''AIEmployeeID'' = Some (text_field (ml_uuid_Parse lib) (\<lambda>x m. m\<lparr>pm_AIEmployeeID := x\<rparr>))"
  "map_of (message_fields lib) ''TaskID'' = Some (pointer_field (ml_uuid_Parse lib) (\<lambda>x m. m\<lparr>pm_TaskID := x\<rparr>))"
  "map_of (message_fields lib) ''Attempt'' = Some (int_field (\<lambda>x m. m\<lparr>pm_Attempt := x\<rparr>))"
  "map_of (message_fields lib) ''MaxAttempts'' = Some (int_field (\<lambda>x m. m\<lparr>pm_MaxAttempts := x\<rparr>))"
  "map_of (message_fields lib) ''RetryID'' = Some (text_field (ml_uuid_Parse lib) (\<lambda>x m. m\<lparr>pm_RetryID := x\<rparr>))"
  "map_of (message_fields lib) ''Generation'' = Some (int_field (\<lambda>x m. m\<lparr>pm_Generation := x\<rparr>))"
  "map_of (message_fields lib) ''LeaseExpiresAt'' = Some (text_field (ml_time_Parse lib) (\<lambda>x m. m\<lparr>pm_LeaseExpiresAt := x\<rparr>))"
  "map_of (message_fields lib) ''LeaseOwner'' = Some (string_field (\<lambda>x m. m\<lparr>pm_LeaseOwner := x\<rparr>))"
  by (simp_all add: message_fields_def)

text \<open>The counters of a message fit the integers they are decoded into.\<close>

definition message_ints :: "PublishMessage \<Rightarrow> bool" where
  "message_ints msg \<longleftrightarrow> int64 (pm_Attempt msg) \<and> int64 (pm_MaxAttempts msg) \<and> int64 (pm_Generation msg)"

definition message_identified :: "PublishMessage \<Rightarrow> bool" where
  "message_identified msg \<longleftrightarrow> pm_WorkspaceID msg \<noteq> uuid_Nil \<and> pm_ExecutionID msg \<noteq> uuid_Nil \<and> pm_RetryID msg \<noteq> uuid_Nil"

lemma message_roundtrip:
  assumes "message_codec lib" "ml_time_Format lib (pm_LeaseExpiresAt msg) = Some expires" "message_ints msg"
  shows "Unmarshal (message_fields lib) (Some (JObject (message_members lib msg expires))) zero_message = Some msg"
proof -
  have ids: "ml_uuid_Parse lib (ml_uuid_String lib u) = Some u" for u
    using assms(1) by (simp add: message_codec_def)
  have tm: "ml_time_Parse lib expires = Some (pm_LeaseExpiresAt msg)"
    using assms(1,2) by (simp add: message_codec_def)
  show ?thesis
    using assms(3)
    by (auto simp: Unmarshal_def message_members_def Let_def field_defs message_lookup ids tm message_ints_def zero_message_def
        simp del: decode_members.simps(2) split: option.split intro!: PublishMessage.equality)
qed

lemma dispatched_envelope:
  assumes "message_codec lib" "ExecutionPublisher_Publish lib ch pub now eid msg = Inr m" "message_ints msg"
  obtains env where "unmarshal_envelope lib (dl_Body m) = Some env" "ue_TargetType env = ''execution''"
    "Unmarshal (message_fields lib) (ue_Details env) zero_message = Some msg"
proof -
  from assms(2) obtain env hdrs where e: "executionEnvelope lib now eid msg = Some (env, hdrs)" "deliver lib ch pub env hdrs = Inr m"
    by (auto simp: ExecutionPublisher_Publish_def split: option.splits)
  then obtain expires where x: "ml_time_Format lib (pm_LeaseExpiresAt msg) = Some expires"
    and env: "ue_TargetType env = ''execution''" "ue_Details env = Some (JObject (message_members lib msg expires))"
      "ue_PermissionsChecked env = []"
    by (auto simp: executionEnvelope_def zero_envelope_def split: option.splits)
  show thesis
    using that deliver_Inr(1) [OF assms(1) e(2)] env message_roundtrip [OF assms(1) x assms(3)] by simp
qed

lemma stamp_trace_fields [simp]:
  "ue_TargetType (stamp_trace lib m env) = ue_TargetType env" "ue_Details (stamp_trace lib m env) = ue_Details env"
  "ue_WorkspaceID (stamp_trace lib m env) = ue_WorkspaceID env" "ue_TargetID (stamp_trace lib m env) = ue_TargetID env"
  by (simp_all add: stamp_trace_def Let_def split: option.split)

lemma dispatch_consumed:
  assumes "message_codec lib" "ExecutionPublisher_Publish lib ch pub now eid msg = Inr m"
    and "message_ints msg" "message_identified msg" "Worker_Run orc wk out msg w = (oc, err, w')"
    and "err \<noteq> Some Execution_Domain.ErrInvalidInput"
  shows "processMessage lib (Some (newExecutionHandler lib orc wk out)) True m w =
    (if err = None then (Ack, ''worker-message-processed'', w') else (NackRequeue, ''worker-handler-error'', w'))"
proof -
  obtain env where e: "unmarshal_envelope lib (dl_Body m) = Some env" "ue_TargetType env = ''execution''"
    "Unmarshal (message_fields lib) (ue_Details env) zero_message = Some msg"
    using dispatched_envelope [OF assms(1-3)] .
  show ?thesis
    using assms(4-6) e by (cases err) (auto simp: processMessage_def newExecutionHandler_def message_identified_def)
qed

text \<open>
  C27. A dispatched message reaches the worker as it was sent: consuming the delivery the execution
  publisher hands to the broker is running the worker on exactly the message that was published.
  A finished run takes the delivery off the queue, a failed one puts it back.
\<close>

theorem dispatch_delivered_exactly:
  assumes "message_codec lib" "ExecutionPublisher_Publish lib ch pub now eid msg = Inr m"
    and "message_ints msg" "message_identified msg" "Worker_Run orc wk out msg w = (oc, err, w')"
    and "err \<noteq> Some Execution_Domain.ErrInvalidInput"
  shows "processMessage lib (Some (newExecutionHandler lib orc wk out)) True m w =
    (if err = None then (Ack, ''worker-message-processed'', w') else (NackRequeue, ''worker-handler-error'', w'))"
  by (rule dispatch_consumed [OF assms])

text \<open>Identifiers and times as decimal numbers, and the message of a claimed execution.\<close>

definition plain_message_lib :: message_lib where
  "plain_message_lib = \<lparr>ml_uuid_String = (\<lambda>u. Itoa (unat u)), ml_uuid_Parse = (\<lambda>s. if s = [] then None else Some (of_nat (digits_value s))),
     ml_time_Format = (\<lambda>t. if int64 t then Some (FormatInt t) else None), ml_time_Parse = ParseInt\<rparr>"

lemma plain_message_codec: "message_codec plain_message_lib"
  by (auto simp: message_codec_def plain_message_lib_def Itoa_not_Nil ParseInt_FormatInt)

lemma plain_publish: "int64 now \<Longrightarrow> int64 (pm_LeaseExpiresAt msg) \<Longrightarrow>
    \<exists>m. ExecutionPublisher_Publish plain_message_lib None (\<lambda>_. None) now eid msg = Inr m"
  by (simp add: ExecutionPublisher_Publish_def executionEnvelope_def deliver_def MarshalJSON_def plain_message_lib_def Let_def zero_envelope_def)

lemma demo_message_ok: "message_ints demo_message" "message_identified demo_message" "int64 (pm_LeaseExpiresAt demo_message)"
    "pm_LeaseOwner demo_message \<noteq> []"
  by code_simp+

theorem dispatch_delivered_exactly_witness:
  "\<exists>m w'. ExecutionPublisher_Publish plain_message_lib None (\<lambda>_. None) 0 3 demo_message = Inr m
     \<and> processMessage plain_message_lib (Some (newExecutionHandler plain_message_lib demo_oracle demo_worker demo_outside)) True m demo_running
       = (Ack, ''worker-message-processed'', w')"
proof -
  let ?r = "Worker_Run demo_oracle demo_worker demo_outside demo_message demo_running"
  have "fst (snd ?r) = None" by code_simp
  then obtain oc w' where r: "?r = (oc, None, w')" by (cases ?r) auto
  obtain m where m: "ExecutionPublisher_Publish plain_message_lib None (\<lambda>_. None) 0 3 demo_message = Inr m"
    using plain_publish [of 0] demo_message_ok by (auto simp: int64_def)
  from dispatch_delivered_exactly [OF plain_message_codec m demo_message_ok(1,2) r] m show ?thesis by auto
qed

lemma call_Inl:
  assumes "call orc op w = (Inl e, w')"
  shows "e = Execution_Domain.ErrDatabase \<or> (\<exists>now rid s. op now rid s = Inl e)"
  using assms by (auto simp: call_def Let_def split: fault.splits sum.splits prod.splits)

lemma call_not_invalid:
  "call orc (reading (\<lambda>_ db. Materialize db ws eid)) w = (Inl e, w') \<Longrightarrow> e \<noteq> Execution_Domain.ErrInvalidInput"
  "call orc (writing (\<lambda>now _ db. PersistError db now f code b detail)) w = (Inl e, w') \<Longrightarrow> e \<noteq> Execution_Domain.ErrInvalidInput"
  "call orc (writing (\<lambda>now _ db. Complete db now f res)) w = (Inl e, w') \<Longrightarrow> e \<noteq> Execution_Domain.ErrInvalidInput"
  by (auto dest!: call_Inl simp: reading_def writing_def Materialize_def PersistError_def Complete_def fenced_update_def
      split: sum.splits option.splits if_splits)

text \<open>A run on an outdated message whose provider answers before the first heartbeat ends with an error.\<close>

lemma outdated_run_fails:
  assumes "honest orc" "outdated (fencedFrom msg (wk_workerID wk)) w" "message_identified msg"
    and "ou_ticks out = 0" "\<not> ou_cancelled out" "Worker_Run orc wk out msg w = (oc, err, w')"
  shows "\<exists>e. err = Some e \<and> e \<noteq> Execution_Domain.ErrInvalidInput"
proof -
  let ?f = "fencedFrom msg (wk_workerID wk)"
  let ?m = "reading (\<lambda>_ db. Materialize db (pm_WorkspaceID msg) (pm_ExecutionID msg))"
  obtain q w1 where c: "call orc ?m w = (q, w1)" by (cases "call orc ?m w")
  have "outdated ?f w1"
    using outdated_runs [OF assms(2)] call_runs [OF assms(1) _ takes_reading c, of "{}"] by blast
  note stale = outdated_writes [OF assms(1) this]
  have fin: "\<exists>e. fst (snd (finalizeFailure orc wk out ?f m cause w1)) = Some e \<and> e \<noteq> Execution_Domain.ErrInvalidInput" for m cause
  proof -
    let ?cl = "Classify (Some cause)"
    let ?c = "call orc (writing (\<lambda>now _ db. PersistError db now ?f (ce_Code ?cl) (ce_Retry ?cl) (ou_error_text out cause))) w1"
    obtain e w2 where "?c = (Inl e, w2)" using stale(1) by (metis fst_conv prod.exhaust)
    with call_not_invalid(2) [OF this] show ?thesis by (simp add: finalizeFailure_def Let_def)
  qed
  have comp: "\<exists>e w3. call orc (writing (\<lambda>now _ db. Complete db now ?f payload)) w1 = (Inl e, w3)
      \<and> e \<noteq> Execution_Domain.ErrInvalidInput" for payload
    using stale(2) call_not_invalid(3) by (metis fst_conv prod.exhaust)
  show ?thesis
  proof (cases q)
    case (Inl e)
    with assms(3,6) c call_not_invalid(1) [of orc _ _ w e w1] show ?thesis
      by (auto simp: Worker_Run_def Let_def message_identified_def)
  next
    case (Inr m)
    let ?d2 = "or_now orc (wo_calls w) + wk_executionWindow wk"
    let ?a = "ou_complete out (if ?d2 < pm_LeaseExpiresAt msg then ?d2 else pm_LeaseExpiresAt msg) (pm_WorkspaceID msg) (instruction m)"
    consider (failed) cause where "?a = Inl cause" | (unprintable) res cause where "?a = Inr res" "ou_marshal out res = Inl cause"
      | (answered) res payload where "?a = Inr res" "ou_marshal out res = Inr payload"
      by (metis old.sum.exhaust)
    then show ?thesis
    proof cases
      case failed
      with assms(3-6) c Inr fin [of m cause] show ?thesis by (auto simp: Worker_Run_def Let_def message_identified_def)
    next
      case unprintable
      with assms(3-6) c Inr fin [of m cause] show ?thesis by (auto simp: Worker_Run_def Let_def message_identified_def)
    next
      case answered
      with assms(3-6) c Inr comp [of payload] show ?thesis by (auto simp: Worker_Run_def Let_def message_identified_def)
    qed
  qed
qed

text \<open>Deliveries of the same message one after the other, each with its own worker and environment.\<close>

fun redeliver ::
  "message_lib \<Rightarrow> (env_oracle \<times> worker \<times> 'r outside) list \<Rightarrow> delivery \<Rightarrow> world \<Rightarrow> settlement list" where
  "redeliver lib [] m w = []"
| "redeliver lib ((orc, wk, out) # rest) m w =
     (let (st, _, w') = processMessage lib (Some (newExecutionHandler lib orc wk out)) True m w
      in st # redeliver lib rest m w')"



end
