(* ===== verification/Pipeline_Messages.thy ===== *)
theory Pipeline_Messages
  imports Message_Worker
begin

text \<open>
  The message loop of the creator pipeline: the events the orchestration service emits are
  published by the pipeline sink, consumed by the worker and handed back to the service. The events
  of every reachable state are read back as they were sent, a message that cannot be read is dropped
  without effect, and a command that was acknowledged has been carried out.
\<close>

subsection \<open>Emitted events\<close>

text \<open>The name of an event and the stage it carries agree, as the consumer demands.\<close>

definition event_fits :: "pl_event \<Rightarrow> bool" where
  "event_fits e = (case e of (ev, pid, ws, st) \<Rightarrow> ValidStage (stage_of st) \<and> EventKind ev = Some (stage_of st))"

definition events_fit :: "'b pl_state \<Rightarrow> bool" where
  "events_fit s \<longleftrightarrow> list_all event_fits (pls_events s)"

lemma stage_of_text: "ValidStage st \<Longrightarrow> stage_of (stage_text st) = st"
  by (cases st) (simp_all add: stage_of_def stage_text_def ValidStage_def)

lemma events_fit_update [simp]:
  "events_fit (s\<lparr>pls_rows := rows\<rparr>) = events_fit s" "events_fit (s\<lparr>pls_throttle := th\<rparr>) = events_fit s"
  "events_fit (s\<lparr>pls_port := b\<rparr>) = events_fit s" "events_fit (s\<lparr>pls_released := rel\<rparr>) = events_fit s"
  "events_fit (s\<lparr>pls_port := b, pls_released := rel\<rparr>) = events_fit s"
  "events_fit (pl_record ev pr oc ws pid at ai st s) = events_fit s"
  by (simp_all add: events_fit_def pl_record_def)

lemma pl_emit_fit:
  assumes "pl_emit env ev pid ws st p s = (answer, t)" "ValidStage st" "EventKind ev = Some st" "events_fit s"
  shows "events_fit t"
  using assms by (auto simp: pl_emit_def Let_def events_fit_def event_fits_def stage_of_text split: option.splits)

lemma stageWork_fit: "stageWork env p to s = (r, q, t) \<Longrightarrow> events_fit s \<Longrightarrow> events_fit t"
  by (auto simp: stageWork_def Let_def split: stage.splits sum.splits bool.splits option.splits)

lemma pl_prepare_fit: "pl_prepare env p to s = (r, t) \<Longrightarrow> events_fit s \<Longrightarrow> events_fit t"
  by (auto simp: pl_prepare_def Let_def split: option.splits if_splits prod.splits sum.splits)

lemma pl_release_fit: "pl_release env p to s = (r, t) \<Longrightarrow> events_fit s \<Longrightarrow> events_fit t"
  by (auto simp: pl_release_def Let_def split: option.splits if_splits prod.splits sum.splits)

lemma pl_persist_failure_fit: "pl_persist_failure env now p err s = (t, e) \<Longrightarrow> events_fit s \<Longrightarrow> events_fit t"
  by (auto simp: pl_persist_failure_def split: sum.splits)

lemma advance_event: "ValidStage to \<Longrightarrow>
    EventKind (if to = StageReview then ''pipeline.review_ready'' else ''pipeline.'' @ stage_text to) = Some to"
  using EventKind_stage EventKind_review by (simp split: if_split)

lemma pl_finish_fit:
  assumes "pl_finish env now p to at ai s = (answer, t)" "ValidStage to" "events_fit s"
  shows "events_fit t"
proof -
  let ?ev = "if to = StageReview then ''pipeline.review_ready'' else ''pipeline.'' @ stage_text to"
  let ?u = "PipeStore_Update (pe_fk env (pls_port s)) now (pl_WorkspaceID p)
    (p\<lparr>pl_Stage := to, pl_Status := stage_status to (pl_Status p), pl_FailureReason := [], pl_UpdatedAt := now\<rparr>) (pls_rows s)"
  show ?thesis
  proof (cases ?u)
    case (Inl e)
    with assms(1,3) show ?thesis by (simp add: pl_finish_def)
  next
    case (Inr u)
    obtain rows updated where u: "u = (rows, updated)" by fastforce
    have "pl_emit env ?ev (pl_ID p) (pl_WorkspaceID p) to updated
        (pl_record ''pipeline.advance'' ''Human Oversight'' ''success'' (pl_WorkspaceID p) (pl_ID p) at ai to (s\<lparr>pls_rows := rows\<rparr>))
        = (answer, t)"
      using assms(1) Inr u by (simp add: pl_finish_def)
    from pl_emit_fit [OF this assms(2) advance_event [OF assms(2)]] assms(3) show ?thesis by simp
  qed
qed

lemma doAdvance_fit:
  assumes "doAdvance env now p to at ai s = (answer, t)" "ValidStage to" "events_fit s"
  shows "events_fit t"
proof -
  obtain r1 p1 s1 where w: "stageWork env p to s = (r1, p1, s1)" by (metis prod_cases3)
  note f1 = stageWork_fit [OF w assms(3)]
  obtain r2 s2 where pr: "pl_prepare env p1 to s1 = (r2, s2)" by fastforce
  note f2 = pl_prepare_fit [OF pr f1]
  have fail: "events_fit (fst (pl_persist_failure env now q err u))" if "events_fit u" for q err u
    using that pl_persist_failure_fit [of env now q err u] by (metis prod.collapse)
  show ?thesis
  proof (cases r1)
    case (Inl err)
    with w assms(1) fail [OF f1, of p1 err] show ?thesis
      by (auto simp: doAdvance_def Let_def split: prod.splits)
  next
    case (Inr ref)
    note r1 = this
    show ?thesis
    proof (cases r2)
      case (Inl err)
      with w r1 pr assms(1) fail [OF f2, of p1 err] show ?thesis by (simp add: doAdvance_def)
    next
      case (Inr p2)
      obtain r3 s3 where rl: "pl_release env p2 to s2 = (r3, s3)" by fastforce
      note f3 = pl_release_fit [OF rl f2]
      consider "r3 = None" | err where "r3 = Some (Inl err)" | p3 where "r3 = Some (Inr p3)"
        by (metis old.sum.exhaust option.exhaust)
      then show ?thesis
        using w r1 pr Inr rl assms(1) fail [OF f3] pl_finish_fit [OF _ assms(2) f3] f3
        by cases (auto simp: doAdvance_def)
    qed
  qed
qed

lemma publishCurrentEvent_fit:
  assumes "publishCurrentEvent env p s = (answer, t)" "pl_ok p" "events_fit s"
  shows "events_fit t"
proof -
  let ?ev = "if pl_Stage p = StageReview then if pl_Status p = StatusApproved then ''pipeline.review_approved''
      else ''pipeline.review_ready'' else ''pipeline.'' @ stage_text (pl_Stage p)"
  have v: "ValidStage (pl_Stage p)" using assms(2) by (simp add: pl_ok_def stage_status_valid_def)
  then have "EventKind ?ev = Some (pl_Stage p)"
    using EventKind_stage EventKind_review by (simp split: if_split)
  moreover have "pl_emit env ?ev (pl_ID p) (pl_WorkspaceID p) (pl_Stage p) p s = (answer, t)"
    using assms(1) by (simp only: publishCurrentEvent_def)
  ultimately show ?thesis using pl_emit_fit v assms(3) by blast
qed

lemma CanAdvance_valid: "CanAdvance to from status = None \<Longrightarrow> ValidStage to"
  by (auto simp: CanAdvance_def split: if_splits)

lemma pl_Advance_fit:
  assumes "pl_Advance env snap now ws pid start to s = (answer, t)" "events_fit s"
  shows "events_fit t"
  using assms doAdvance_fit [where s = "s\<lparr>pls_throttle := th\<rparr>" for th] CanAdvance_valid
  by (auto simp: pl_Advance_def Let_def split: if_splits prod.splits sum.splits option.splits)

lemma ready_valid: "ready p to \<Longrightarrow> ValidStage to"
  by (cases "pl_Stage p") (auto simp: ready_def ValidStage_def)

lemma research_fit:
  assumes "pl_emit env ''pipeline.research'' pid ws StageResearch p s = (answer, t)" "events_fit s"
  shows "events_fit t"
  using assms(1)
proof (rule pl_emit_fit)
  show "EventKind ''pipeline.research'' = Some StageResearch" by code_simp
qed (use assms(2) in \<open>simp_all add: ValidStage_def\<close>)

lemma pl_existing_fit: "pl_existing env ws e s = (answer, t) \<Longrightarrow> events_fit s \<Longrightarrow> events_fit t"
  by (auto simp: pl_existing_def split: if_splits dest: research_fit)

lemma created_stage:
  "NewWithIdempotency now pid ws goal tr key = Inr p \<Longrightarrow> PipeStore_Create fk gen p rows = Inr (rows', q) \<Longrightarrow> pl_Stage q = StageResearch"
  by (auto simp: NewWithIdempotency_def PipeStore_Create_def Let_def split: if_splits)

lemma pl_Create_fit:
  assumes "pl_CreateWithIdempotency env snap now pid gen actor ws goal tr key s = (answer, t)" "events_fit s"
  shows "events_fit t"
  using assms
  by (auto simp: pl_CreateWithIdempotency_def Let_def created_stage split: if_splits sum.splits prod.splits
      dest: pl_existing_fit research_fit)

lemma pl_Approve_fit:
  assumes "pl_Approve env snap now ws pid actor s = (answer, t)" "\<forall>r \<in> set snap. pl_ok r" "events_fit s"
  shows "events_fit t"
proof -
  have ok: "pl_ok p" if "pl_getOwned snap ws pid = Inr p" for p
    using assms(2) pl_getOwned_Inr [OF that] by blast
  have emit: "pl_emit env ''pipeline.review_approved'' i w StageReview p u = (answer, t) \<Longrightarrow> events_fit u \<Longrightarrow> events_fit t" for i w p u
    by (erule pl_emit_fit) (simp_all add: ValidStage_def EventKind_review)
  show ?thesis
    using assms(1,3)
    by (auto simp: pl_Approve_def Let_def split: if_splits sum.splits option.splits prod.splits
        dest: publishCurrentEvent_fit [OF _ ok] emit)
qed

lemma AdvanceFromEvent_fit:
  assumes "AdvanceFromEvent env snap snap2 now ws pid st s = (answer, t)" "\<forall>r \<in> set snap2. pl_ok r" "events_fit s"
  shows "events_fit t"
proof -
  have ok: "pl_ok p" if "pl_Get snap2 ws pid = Inr p" for p
    using assms(2) pl_getOwned_Inr that unfolding pl_Get_def by blast
  show ?thesis
    using assms(1,3)
    by (auto simp: AdvanceFromEvent_def split: if_splits sum.splits prod.splits
        dest: pl_Advance_fit publishCurrentEvent_fit [OF _ ok])
qed

lemma Retry_begin_fit: "Retry_begin env snap now ws pid actor s = (r, t) \<Longrightarrow> events_fit s \<Longrightarrow> events_fit t"
  by (auto simp: Retry_begin_def Let_def split: if_splits sum.splits prod.splits)

lemma pl_step_fit:
  assumes "pl_step E w w'" "pl_inv w" "events_fit (plw_now w)"
  shows "events_fit (plw_now w')"
  using assms
proof (cases rule: pl_step.cases)
  case (pl_serve_step env snap snap2 now req answer s)
  have ok: "\<forall>r \<in> set T. pl_ok r" if "T \<in> tables w" for T
    using assms(2) that by (simp add: pl_inv_def)
  show ?thesis
    using pl_serve_step assms(3) ok
    by (cases req) (auto dest: pl_Create_fit pl_Advance_fit AdvanceFromEvent_fit pl_Approve_fit)
next
  case (pl_retry_begin env snap now ws pid actor r s)
  then show ?thesis using Retry_begin_fit assms(3) by simp
next
  case (pl_retry_finish env p nxt actor now answer s)
  moreover have "ready p nxt" using assms(2) pl_retry_finish by (auto simp: pl_inv_def)
  ultimately show ?thesis using doAdvance_fit [OF _ ready_valid assms(3)] by simp
qed

interpretation events: invariant "\<lambda>w. pl_initial w \<and> events_fit (plw_now w)" "pl_step E" "\<lambda>w. pl_inv w \<and> events_fit (plw_now w)" for E
proof
  show "pl_inv w \<and> events_fit (plw_now w)" if "pl_initial w \<and> events_fit (plw_now w)" for w
    using that pipeline.inv_start by blast
  show "pl_inv w' \<and> events_fit (plw_now w')" if "pl_step E w w'" "pl_inv w \<and> events_fit (plw_now w)" for w w'
    using that pl_step_inv pl_step_fit by blast
qed

subsection \<open>Consuming an event\<close>

text \<open>A delivery the handler can read: a document for the envelope, and details that fit its target.\<close>

definition readable :: "message_lib \<Rightarrow> delivery \<Rightarrow> bool" where
  "readable lib m =
     (case unmarshal_envelope lib (dl_Body m) of
        None \<Rightarrow> False
      | Some env \<Rightarrow> (ue_TargetType env = ''publication'' \<longrightarrow> publication_event lib env)
          \<and> (ue_TargetType env = ''pipeline'' \<longrightarrow> pipeline_event lib env \<noteq> None))"

lemma stamped_event [simp]:
  "pipeline_event lib (stamp_trace lib m env) = pipeline_event lib env"
  "publication_event lib (stamp_trace lib m env) = publication_event lib env"
  by (simp_all add: pipeline_event_def publication_event_def Let_def cong: option.case_cong if_cong)

definition consume_event ::
  "message_lib \<Rightarrow> 'b pl_env \<Rightarrow> pipeline list \<Rightarrow> pipeline list \<Rightarrow> pipeline list \<Rightarrow> instant \<Rightarrow> bool \<Rightarrow> delivery \<Rightarrow> 'b pl_state \<Rightarrow>
   settlement \<times> string \<times> 'b pl_state" where
  "consume_event lib penv snap snap2 snap3 now ok m s = processMessage lib (Some (newHandler lib penv snap snap2 snap3 now)) ok m s"

text \<open>
  C29. A message that cannot be read is dropped without effect. The consumer takes a delivery off
  the queue without reporting it as processed exactly when its body is no envelope or its details do
  not fit, changes nothing then, and puts back only a readable command whose advance failed.
\<close>

theorem unreadable_messages_dropped:
  assumes "consume_event lib penv snap snap2 snap3 now True m s = (st, report, t)"
  shows "((report = ''worker-json-decode-error'' \<or> report = ''worker-message-rejected-permanent'') \<longleftrightarrow> \<not> readable lib m)
    \<and> (\<not> readable lib m \<longrightarrow> st = Ack \<and> t = s)
    \<and> (st = NackRequeue \<longrightarrow> readable lib m \<and> report = ''worker-handler-error'')"
proof (cases "unmarshal_envelope lib (dl_Body m)")
  case None
  with assms show ?thesis by (auto simp: consume_event_def processMessage_def readable_def)
next
  case (Some env)
  obtain v t' where h: "newHandler lib penv snap snap2 snap3 now (stamp_trace lib m env) s = (v, t')" by fastforce
  have "v = Some ErrPermanent \<longleftrightarrow> \<not> readable lib m" and "\<not> readable lib m \<Longrightarrow> t' = s"
    using h Some by (auto simp: newHandler_def readable_def advance_verdict_def split: option.splits if_splits prod.splits sum.splits)
  with assms h Some show ?thesis
    by (auto simp: consume_event_def processMessage_def split: option.splits message_error.splits)
qed

theorem unreadable_messages_dropped_witness:
  "fst (consume_event plain_message_lib demo_pl_env [] [] [] 0 True \<lparr>dl_MessageId = ''m'', dl_Headers = [], dl_Body = Some (JArray [])\<rparr> demo_pl_idle)
   = Ack"
proof -
  let ?m = "\<lparr>dl_MessageId = ''m'', dl_Headers = [], dl_Body = Some (JArray [])\<rparr>"
  obtain st report t where c: "consume_event plain_message_lib demo_pl_env [] [] [] 0 True ?m demo_pl_idle = (st, report, t)"
    by (metis prod_cases3)
  have "\<not> readable plain_message_lib ?m" by code_simp
  with unreadable_messages_dropped [OF c] c show ?thesis by simp
qed

text \<open>A pipeline just created, and the message of its first event.\<close>

definition demo_pl_created :: "nat pl_state" where
  "demo_pl_created = demo_pl_do 0 (PlCreate 5 7 ''ann'' 1 None [] []) demo_pl_idle"

definition demo_event_message :: delivery where
  "demo_event_message = projr (PublishPipeline plain_message_lib None (\<lambda>_. None) 0 3 ''pipeline.research'' 7 1 ''research'' [] [])"

lemma demo_event_published:
  "PublishPipeline plain_message_lib None (\<lambda>_. None) 0 3 ''pipeline.research'' 7 1 ''research'' [] [] = Inr demo_event_message"
  unfolding demo_event_message_def
  by (simp add: PublishPipeline_def baseEnvelope_def deliver_def MarshalJSON_def plain_message_lib_def int64_def Let_def zero_envelope_def)

lemma demo_created_runs:
  "\<exists>T. runs (pl_step {demo_pl_env}) \<lparr>plw_now = demo_pl_idle, plw_past = {}, plw_retries = {}\<rparr>
     \<lparr>plw_now = demo_pl_created, plw_past = T, plw_retries = {}\<rparr>"
  unfolding demo_pl_created_def by (intro demo_pl_do_runs exI [of _ "{}"] runs_refl)

text \<open>
  C30. Every event the service emits is understood: whatever a reachable state has emitted for a
  pipeline, the sink's message for it is read back by the worker as that event of that pipeline in that
  workspace, and is never rejected.
\<close>

theorem emitted_events_accepted:
  assumes "pl_initial w0" "pls_events (plw_now w0) = []" "runs (pl_step E) w0 w"
    and "(ev, pid, ws, st) \<in> set (pls_events (plw_now w))" "pid \<noteq> uuid_Nil" "message_codec lib"
    and "PublishPipeline lib ch pub at eid ev pid ws st traceID spanID = Inr m"
  shows "(\<exists>env. unmarshal_envelope lib (dl_Body m) = Some env \<and> ue_TargetType env = ''pipeline'' \<and> ue_TargetID env = pid
      \<and> pipeline_event lib env = Some (ws, stage_of st, ev))
    \<and> fst (snd (consume_event lib penv snap snap2 snap3 now True m s)) \<in> {''worker-message-processed'', ''worker-handler-error''}"
proof -
  have "events_fit (plw_now w)"
    using events.inv_reachable [OF _ assms(3)] assms(1,2) by (simp add: events_fit_def)
  then have fits: "ValidStage (stage_of st)" "EventKind ev = Some (stage_of st)"
    using assms(4) by (auto simp: events_fit_def list_all_iff event_fits_def)
  obtain env hdrs where b: "baseEnvelope lib at eid ''pipeline'' pid ws traceID spanID [(''event'', ev), (''stage'', st)]
      [(''event_type'', HString ev)] = (env, hdrs)" and d: "deliver lib ch pub env hdrs = Inr m"
    using assms(7) by (auto simp: PublishPipeline_def split: prod.splits)
  have env: "ue_TargetType env = ''pipeline''" "ue_TargetID env = pid" "ue_WorkspaceID env = ml_uuid_String lib ws"
    "ue_Details env = Some (JObject [(''event'', JString ev), (''stage'', JString st)])" "ue_PermissionsChecked env = []"
    using b by (auto simp: baseEnvelope_def zero_envelope_def Let_def split: option.splits)
  have e: "unmarshal_envelope lib (dl_Body m) = Some env"
    using deliver_Inr(1) [OF assms(6) d] env by simp
  have "Unmarshal pipelineEventDetails (ue_Details env) \<lparr>ed_Event = [], ed_Stage = []\<rparr> = Some \<lparr>ed_Event = ev, ed_Stage = st\<rparr>"
    by (simp add: env Unmarshal_def pipelineEventDetails_def struct_field_def string_field_def)
  then have pe: "pipeline_event lib env = Some (ws, stage_of st, ev)"
    using fits env assms(5,6) by (simp add: pipeline_event_def message_codec_def)
  obtain v t where h: "newHandler lib penv snap snap2 snap3 now (stamp_trace lib m env) s = (v, t)" by fastforce
  have "v \<noteq> Some ErrPermanent"
    using h env pe by (auto simp: newHandler_def advance_verdict_def split: if_splits option.splits prod.splits sum.splits)
  then have "fst (snd (consume_event lib penv snap snap2 snap3 now True m s)) \<in> {''worker-message-processed'', ''worker-handler-error''}"
    using e h by (auto simp: consume_event_def processMessage_def split: option.splits message_error.splits)
  with e env pe show ?thesis by blast
qed

theorem emitted_events_accepted_witness:
  "\<exists>env. unmarshal_envelope plain_message_lib (dl_Body demo_event_message) = Some env
     \<and> pipeline_event plain_message_lib env = Some (1, StageResearch, ''pipeline.research'')"
proof -
  obtain T where r: "runs (pl_step {demo_pl_env}) \<lparr>plw_now = demo_pl_idle, plw_past = {}, plw_retries = {}\<rparr>
     \<lparr>plw_now = demo_pl_created, plw_past = T, plw_retries = {}\<rparr>" using demo_created_runs by blast
  have "pls_events demo_pl_created = [(''pipeline.research'', 7, 1, ''research'')]" "(7 :: uuid) \<noteq> uuid_Nil" by code_simp+
  moreover have "pls_events demo_pl_idle = []" "stage_of ''research'' = StageResearch" by code_simp+
  ultimately show ?thesis
    using emitted_events_accepted [OF demo_pl_initial _ r _ _ plain_message_codec demo_event_published,
        where penv = demo_pl_env and snap = "[]" and ?snap2.0 = "[]" and ?snap3.0 = "[]" and s = demo_pl_idle] by auto
qed

lemma PipeStore_Update_row:
  assumes "PipeStore_Update fk now ws p rows = Inr (rows', p')"
  shows "\<exists>c \<in> set rows'. pl_ID c = pl_ID p \<and> pl_Stage c = pl_Stage p"
proof -
  let ?v = "if pl_Version p < 1 then 1 else pl_Version p"
  let ?hit = "\<lambda>r. pl_ID r = pl_ID p \<and> pl_WorkspaceID r = ws \<and> pl_Version r = ?v"
  have u: "count_where ?hit rows = 1" "rows' = upd_where ?hit (pl_write (p\<lparr>pl_UpdatedAt := now\<rparr>)) rows"
    using assms by (auto simp: PipeStore_Update_def Let_def split: if_splits)
  then have "0 < count_where ?hit rows" by simp
  then obtain r where r: "r \<in> set rows" "?hit r" unfolding count_where_pos_iff by blast
  then show ?thesis
    unfolding u(2) set_upd_where by (intro bexI [of _ "pl_write (p\<lparr>pl_UpdatedAt := now\<rparr>) r"]) (auto simp: pl_write_def image_iff)
qed

lemma pl_finish_row:
  assumes "pl_finish env now p to at ai s = ((u, None), t)"
  shows "\<exists>c \<in> set (pls_rows t). pl_ID c = pl_ID p \<and> pl_Stage c = to"
proof -
  let ?p = "p\<lparr>pl_Stage := to, pl_Status := stage_status to (pl_Status p), pl_FailureReason := [], pl_UpdatedAt := now\<rparr>"
  from assms obtain rows p' where "PipeStore_Update (pe_fk env (pls_port s)) now (pl_WorkspaceID p) ?p (pls_rows s) = Inr (rows, p')"
    "pls_rows t = rows"
    by (auto simp: pl_finish_def split: sum.splits dest!: pl_emit_state)
  with PipeStore_Update_row [OF this(1)] show ?thesis by simp
qed

lemma doAdvance_row:
  assumes "doAdvance env now p to at ai s = ((u, None), t)" "ready p to"
  shows "\<exists>c \<in> set (pls_rows t). pl_ID c = pl_ID p \<and> pl_Stage c = to"
proof -
  obtain r1 p1 s1 where w: "stageWork env p to s = (r1, p1, s1)" by (metis prod_cases3)
  obtain r2 s2 where pr: "pl_prepare env p1 to s1 = (r2, s2)" by fastforce
  from assms(1) w pr obtain ref p2 where r: "r1 = Inr ref" "r2 = Inr p2"
    by (auto simp: doAdvance_def Let_def split: sum.splits prod.splits option.splits)
  obtain r3 s3 where rl: "pl_release env p2 to s2 = (r3, s3)" by fastforce
  from assms(1) w pr r rl obtain p3 where p3: "r3 = Some (Inr p3)" "pl_finish env now p3 to at ai s3 = ((u, None), t)"
    by (auto simp: doAdvance_def split: sum.splits option.splits)
  have "pl_ID p3 = pl_ID p"
    using stageWork_core [OF w assms(2)] pl_prepare_core [OF pr] pl_release_core [OF rl] r p3
    by (simp add: same_core_def frame_def)
  with pl_finish_row [OF p3(2)] show ?thesis by simp
qed

lemma NextStage_after: "NextStage st = Inr nxt \<Longrightarrow> IsAfter nxt st"
  by (cases st) (auto simp: IsAfter_def stage_order_def)

lemma pl_Advance_row:
  assumes "pl_Advance env snap now ws pid st to s = ((u, None), t)" "\<forall>r \<in> set snap. pl_ok r"
  shows "\<exists>c \<in> set (pls_rows t). pl_ID c = pid \<and> pl_Stage c = to"
proof -
  from assms(1) obtain p th where p: "pl_getOwned snap ws pid = Inr p" "CanAdvance to (pl_Stage p) (pl_Status p) = None"
    "doAdvance env now p to ''system'' [] (s\<lparr>pls_throttle := th\<rparr>) = ((u, None), t)"
    by (auto simp: pl_Advance_def Let_def split: if_splits prod.splits sum.splits option.splits)
  then have "ready p to" using CanAdvance_ready pl_getOwned_Inr assms(2) by blast
  from doAdvance_row [OF p(3) this] pl_getOwned_Inr [OF p(1)] show ?thesis by simp
qed

text \<open>An advance that failed because the pipeline is terminal found it done or failed at that stage.\<close>

lemma persist_failure_error:
  "pl_persist_failure env now p err s = (t, Some e) \<Longrightarrow> e = ErrDatabase \<or> e = ErrConcurrentUpdate"
  by (auto simp: pl_persist_failure_def PipeStore_Update_def Let_def split: sum.splits if_splits)

lemma stageWork_error: "stageWork env p to s = (Inl e, q, t) \<Longrightarrow> e = ErrInvalidStage \<or> (\<exists>x. e = ErrPort x)"
  by (auto simp: stageWork_def Let_def split: stage.splits sum.splits bool.splits option.splits)

lemma pl_prepare_error: "pl_prepare env p to s = (Inl e, t) \<Longrightarrow> \<exists>x. e = ErrPort x"
  by (auto simp: pl_prepare_def Let_def split: option.splits if_splits prod.splits sum.splits)

lemma pl_release_error: "pl_release env p to s = (Some (Inl e), t) \<Longrightarrow> \<exists>x. e = ErrPort x"
  by (auto simp: pl_release_def Let_def split: option.splits if_splits prod.splits sum.splits)

lemma pl_finish_error: "pl_finish env now p to at ai s = ((u, Some e), t) \<Longrightarrow> e \<in> {ErrDatabase, ErrConcurrentUpdate} \<or> (\<exists>x. e = ErrPort x)"
  by (auto simp: pl_finish_def pl_emit_def PipeStore_Update_def Let_def split: sum.splits if_splits option.splits)

lemma doAdvance_not_terminal:
  assumes "doAdvance env now p to at ai s = ((u, Some e), t)"
  shows "\<not> pl_errors_Is e ErrTerminalState"
  using assms
  by (auto simp: doAdvance_def Let_def split: sum.splits prod.splits option.splits
      dest!: stageWork_error pl_prepare_error pl_release_error pl_finish_error persist_failure_error)

lemma pl_Advance_terminal:
  assumes "pl_Advance env snap now ws pid st to s = ((u, Some e), t)" "pl_errors_Is e ErrTerminalState" "\<forall>r \<in> set snap. pl_ok r"
  shows "\<exists>p \<in> set snap. pl_ID p = pid \<and> pl_Stage p = st \<and> (pl_Status p = StatusDone \<or> pl_Status p = StatusFailed)"
proof -
  from assms(1,2) obtain p where p: "pl_getOwned snap ws pid = Inr p" "pl_Stage p = st"
    "CanAdvance to (pl_Stage p) (pl_Status p) = Some ErrTerminalState"
    by (auto simp: pl_Advance_def Let_def pl_getOwned_def PipeStore_Get_def CanAdvance_def
        split: if_splits prod.splits sum.splits option.splits stage.splits dest: doAdvance_not_terminal)
  have o: "p \<in> set snap" "pl_ID p = pid" using pl_getOwned_Inr [OF p(1)] by simp_all
  then have "pl_ok p" using assms(3) by blast
  then have "pl_Status p = StatusDone \<or> pl_Status p = StatusFailed"
    using p(3) by (auto simp: CanAdvance_def terminalStatus_def pl_ok_def stage_status_valid_def split: if_splits stage.splits)
  with o p(2) show ?thesis by blast
qed

text \<open>What accepting a command says of the pipeline in the table \<open>rows\<close>, with the table read first.\<close>

definition carried_out :: "pipeline list \<Rightarrow> uuid \<Rightarrow> stage \<Rightarrow> pipeline list \<Rightarrow> bool" where
  "carried_out snap pid st rows \<longleftrightarrow>
     (\<exists>c \<in> set rows. pl_ID c = pid \<and>
        (IsAfter (pl_Stage c) st \<or> pl_Status c = StatusDone
         \<or> (\<exists>p \<in> set snap. pl_ID p = pid \<and> pl_Status p = StatusFailed \<and> pl_Version p < pl_Version c)))"

lemma carried_out_later:
  assumes "c \<in> set T" "pl_ID c = pid" "IsAfter (pl_Stage c) st \<or> pl_Status c = StatusDone" "continues T rows"
  shows "carried_out snap pid st rows"
proof -
  from assms(1,4) obtain d where "d \<in> set rows" "succeeded_by c d" by (auto simp: continues_def)
  with assms(2,3) show ?thesis
    unfolding carried_out_def by (intro bexI [of _ d]) (auto simp: succeeded_by_def IsAfter_def)
qed

lemma AdvanceFromEvent_accepted:
  assumes "AdvanceFromEvent env snap snap2 now ws pid st s = ((u, None), t)" "\<forall>r \<in> set snap. pl_ok r"
  shows "\<exists>T \<in> {snap2, pls_rows t}. \<exists>c \<in> set T. pl_ID c = pid \<and> IsAfter (pl_Stage c) st"
proof -
  from assms(1) obtain nxt where n: "NextStage st = Inr nxt" by (auto simp: AdvanceFromEvent_def split: sum.splits)
  obtain u' e s1 where a: "pl_Advance env snap now ws pid st nxt s = ((u', e), s1)" by (metis prod.exhaust)
  show ?thesis
  proof (cases "e = Some ErrConsecutiveAdvance")
    case True
    with assms(1) n a obtain c where "pl_Get snap2 ws pid = Inr c" "IsAfter (pl_Stage c) st"
      by (auto simp: AdvanceFromEvent_def split: sum.splits if_splits)
    then show ?thesis using pl_getOwned_Inr unfolding pl_Get_def by blast
  next
    case False
    with assms(1) n a have "e = None" "s1 = t" by (auto simp: AdvanceFromEvent_def)
    with pl_Advance_row [OF a [unfolded this] assms(2)] NextStage_after [OF n] show ?thesis by blast
  qed
qed

lemma AdvanceFromEvent_terminal:
  assumes "AdvanceFromEvent env snap snap2 now ws pid st s = ((u, Some e), t)" "pl_errors_Is e ErrTerminalState"
    and "\<forall>r \<in> set snap. pl_ok r" "st \<noteq> StageComplete"
  shows "\<exists>p \<in> set snap. pl_ID p = pid \<and> (pl_Status p = StatusDone \<or> pl_Status p = StatusFailed)"
proof -
  from assms(1,2,4) obtain nxt where n: "NextStage st = Inr nxt"
    by (cases st) (auto simp: AdvanceFromEvent_def)
  obtain u' e' s1 where a: "pl_Advance env snap now ws pid st nxt s = ((u', e'), s1)" by (metis prod.exhaust)
  have "e' = Some e"
    using assms(1,2) n a
    by (auto simp: AdvanceFromEvent_def publishCurrentEvent_def pl_emit_def Let_def split: sum.splits if_splits option.splits)
  with pl_Advance_terminal [OF _ assms(2,3)] a show ?thesis by blast
qed

text \<open>A pipeline read as done or failed that is neither in a later table has been retried.\<close>

lemma taken_up_again:
  assumes "pl_inv w" "c \<in> set (pls_rows (plw_now w))" "pl_ID c = pid" "pl_Status c \<noteq> StatusFailed" "pl_Status c \<noteq> StatusDone"
    and "p \<in> set snap" "pl_ID p = pid" "pl_Status p = StatusDone \<or> pl_Status p = StatusFailed"
    and "continues snap (pls_rows (plw_now w))"
  shows "carried_out snap pid st (pls_rows (plw_now w))"
proof -
  from assms(6,9) obtain d where d: "d \<in> set (pls_rows (plw_now w))" "succeeded_by p d" by (auto simp: continues_def)
  have "d = c" using d assms(1-3,7) by (auto simp: pl_inv_def succeeded_by_def dest: distinct_map_keyD)
  then have "pl_Status p = StatusFailed" "pl_Version p < pl_Version c"
    using d(2) assms(4,5,8) by (auto simp: succeeded_by_def)
  with assms(2,3,6,7) show ?thesis unfolding carried_out_def by blast
qed



end
