(* ===== verification/Keyset_Pages.thy ===== *)
theory Keyset_Pages
  imports Go_Prelude
begin

text \<open>
  Paging by a keyset cursor, the contract the listings share: a page holds the newest rows
  below a position, and offers the position of its last row as the cursor of the next page. A
  client that follows the cursors to the end reads every row once, in order, even when the
  table is written to between its requests.
\<close>

definition newest_first :: "('r \<Rightarrow> 'k :: linorder) \<Rightarrow> 'r list \<Rightarrow> 'r list" where
  "newest_first key rows = rev (sort_key key rows)"

definition below :: "('r \<Rightarrow> 'k :: linorder) \<Rightarrow> 'k option \<Rightarrow> 'r \<Rightarrow> bool" where
  "below key c r \<longleftrightarrow> (case c of None \<Rightarrow> True | Some k \<Rightarrow> key r < k)"

text \<open>The client: \<open>fetch\<close> answers one request with a page and the next cursor; the tables are those the requests meet.\<close>

fun walk :: "('c option \<Rightarrow> 't \<Rightarrow> 'v list \<times> 'c option) \<Rightarrow> 'c option \<Rightarrow> 't list \<Rightarrow> 'v list" where
  "walk fetch c [] = []"
| "walk fetch c (t # ts) = fst (fetch c t) @ (if snd (fetch c t) = None then [] else walk fetch (snd (fetch c t)) ts)"

lemma set_newest_first [simp]: "set (newest_first key rows) = set rows"
  by (simp add: newest_first_def)

lemma length_newest_first [simp]: "length (newest_first key rows) = length rows"
  by (simp add: newest_first_def)

lemma newest_first_Nil [simp]: "newest_first key [] = []"
  by (simp add: newest_first_def)

lemma newest_first_sorted: "sorted (rev (map key (newest_first key rows)))"
  by (simp add: newest_first_def rev_map)

lemma filter_newest_first: "filter P (newest_first key rows) = newest_first key (filter P rows)"
  by (simp add: newest_first_def filter_sort rev_filter [symmetric])

text \<open>In a strictly descending list the rows below the last of a prefix are the rest.\<close>

lemma filter_below_prefix:
  fixes key :: "'r \<Rightarrow> 'k :: linorder"
  assumes "sorted_wrt (>) (map key (xs @ ys))" and "xs \<noteq> []"
  shows "filter (\<lambda>r. key r < key (last xs)) (xs @ ys) = ys"
proof -
  have "\<not> key r < key (last xs)" if "r \<in> set xs" for r
  proof -
    obtain zs z where xs: "xs = zs @ [z]" using assms(2) by (metis rev_exhaust)
    then show ?thesis using assms(1) that by (auto simp: sorted_wrt_append not_less order.strict_implies_order)
  qed
  moreover have "key r < key (last xs)" if "r \<in> set ys" for r
    using assms that last_in_set [OF assms(2)] by (auto simp: sorted_wrt_append)
  ultimately show ?thesis by (simp add: filter_id_conv filter_empty_conv)
qed

lemma newest_first_strict:
  assumes "inj_on key (set rows)" and "distinct rows"
  shows "sorted_wrt (>) (map key (newest_first key rows))"
proof -
  have "distinct (map key (sort_key key rows))" using assms by (simp add: distinct_map)
  then have "sorted_wrt (<) (map key (sort_key key rows))" by (simp add: strict_sorted_iff)
  then show ?thesis by (simp add: newest_first_def rev_map [symmetric] sorted_wrt_rev)
qed

text \<open>
  The contract of a listing over tables of type \<open>'t\<close>: its rows have a strict position, a page
  is the head of the wanted rows below the cursor, and the next cursor is missing only when
  nothing is left.
\<close>

locale keyset_listing =
  fixes key :: "'r \<Rightarrow> 'k :: linorder"
    and rows_of :: "'t \<Rightarrow> 'r list"
    and table_ok :: "'t \<Rightarrow> bool"
    and wanted :: "'r \<Rightarrow> bool"
    and view :: "'r \<Rightarrow> 'v"
    and limit :: nat
    and position :: "'c \<Rightarrow> 'k"
    and fetch :: "'c option \<Rightarrow> 't \<Rightarrow> 'v list \<times> 'c option"
    and cursor_ok :: "'c \<Rightarrow> bool"
  assumes limit_pos: "0 < limit"
    and keys_strict: "table_ok t \<Longrightarrow> distinct (map key (rows_of t))"
    and fetch_page: "table_ok t \<Longrightarrow> pred_option cursor_ok c \<Longrightarrow>
      fst (fetch c t) = map view (take limit (newest_first key (filter (\<lambda>r. wanted r \<and> below key (map_option position c) r) (rows_of t))))"
    and fetch_next: "table_ok t \<Longrightarrow> pred_option cursor_ok c \<Longrightarrow>
      todo = newest_first key (filter (\<lambda>r. wanted r \<and> below key (map_option position c) r) (rows_of t)) \<Longrightarrow>
      snd (fetch c t) = Some c' \<Longrightarrow> cursor_ok c' \<and> limit \<le> length todo \<and> position c' = key (last (take limit todo))"
    and fetch_end: "table_ok t \<Longrightarrow> pred_option cursor_ok c \<Longrightarrow> snd (fetch c t) = None \<Longrightarrow>
      length (filter (\<lambda>r. wanted r \<and> below key (map_option position c) r) (rows_of t)) \<le> limit"
begin

definition todo :: "'k option \<Rightarrow> 't \<Rightarrow> 'r list" where
  "todo c t = newest_first key (filter (\<lambda>r. wanted r \<and> below key c r) (rows_of t))"

lemma todo_below_last:
  assumes "table_ok t" and "limit \<le> length (todo c t)"
  shows "todo (Some (key (last (take limit (todo c t))))) t = drop limit (todo c t)"
proof -
  let ?xs = "take limit (todo c t)" and ?ys = "drop limit (todo c t)"
  let ?k = "key (last ?xs)"
  have ne: "?xs \<noteq> []" using assms(2) limit_pos by auto
  have "distinct (map key (rows_of t))" using assms(1) by (rule keys_strict)
  then have strict: "sorted_wrt (>) (map key (?xs @ ?ys))"
    unfolding todo_def append_take_drop_id by (intro newest_first_strict) (auto simp: distinct_map intro: inj_on_subset)
  have "last ?xs \<in> set (todo c t)" using last_in_set [OF ne] by (metis in_set_takeD)
  then have "below key c (last ?xs)" by (simp add: todo_def)
  then have "filter (\<lambda>r. key r < ?k) (filter (\<lambda>r. wanted r \<and> below key c r) (rows_of t))
      = filter (\<lambda>r. wanted r \<and> below key (Some ?k) r) (rows_of t)"
    by (auto simp: below_def split: option.splits intro!: filter_cong)
  then have "todo (Some ?k) t = filter (\<lambda>r. key r < ?k) (todo c t)"
    unfolding todo_def by (simp only: filter_newest_first)
  also have "\<dots> = ?ys" using filter_below_prefix [OF strict ne] by simp
  finally show ?thesis .
qed

text \<open>
  The tables of the later requests agree with the one of the first on the rows below any of
  the positions that were still to be read.
\<close>

lemma walk_agreeing:
  assumes "table_ok t" and "pred_option cursor_ok c" and "list_all table_ok ts"
    and "\<And>t' k. t' \<in> set (t # ts) \<Longrightarrow> k \<in> K \<Longrightarrow> todo (Some k) t' = rest k"
    and "key ` set (todo (map_option position c) t) \<subseteq> K"
    and "length (todo (map_option position c) t) \<le> length ts"
  shows "walk fetch c (t # ts) = map view (todo (map_option position c) t)"
  using assms
proof (induction ts arbitrary: t c)
  case Nil
  then have "todo (map_option position c) t = []" by simp
  then show ?case using fetch_page [OF Nil(1,2)] by (simp add: todo_def)
next
  case (Cons t' ts)
  let ?todo = "todo (map_option position c) t"
  have page: "fst (fetch c t) = map view (take limit ?todo)"
    using fetch_page [OF Cons.prems(1,2)] by (simp add: todo_def)
  show ?case
  proof (cases "snd (fetch c t)")
    case None
    then have "length ?todo \<le> limit" using fetch_end [OF Cons.prems(1,2)] by (simp add: todo_def)
    then show ?thesis using None page by simp
  next
    case (Some c')
    then have c': "cursor_ok c'" "limit \<le> length ?todo" "position c' = key (last (take limit ?todo))"
      using fetch_next [OF Cons.prems(1,2) refl Some] by (simp_all add: todo_def)
    have "take limit ?todo \<noteq> []" using c'(2) limit_pos by auto
    then have "last (take limit ?todo) \<in> set ?todo" by (meson in_set_takeD last_in_set)
    then have "position c' \<in> K" using Cons.prems(5) c'(3) by auto
    then have rest': "todo (Some (position c')) t' = drop limit ?todo"
      using Cons.prems(4) [of t] Cons.prems(4) [of t'] todo_below_last [OF Cons.prems(1) c'(2)] c'(3) by simp
    have "walk fetch (Some c') (t' # ts) = map view (todo (map_option position (Some c')) t')"
    proof (rule Cons.IH)
      show "table_ok t'" "list_all table_ok ts" using Cons.prems(3) by simp_all
      show "pred_option cursor_ok (Some c')" using c'(1) by simp
      show "todo (Some k) t'' = rest k" if "t'' \<in> set (t' # ts)" "k \<in> K" for t'' k
        using that Cons.prems(4) by simp
      show "key ` set (todo (map_option position (Some c')) t') \<subseteq> K"
        using Cons.prems(5) rest' by (auto dest: in_set_dropD)
      show "length (todo (map_option position (Some c')) t') \<le> length ts"
        using Cons.prems(6) c'(2) limit_pos rest' by simp
    qed
    then have "walk fetch c (t # t' # ts) = map view (take limit ?todo) @ map view (drop limit ?todo)"
      using Some page rest' by simp
    also have "\<dots> = map view ?todo" by (metis append_take_drop_id map_append)
    finally show ?thesis .
  qed
qed

lemma walk_complete:
  assumes "table_ok t" and "pred_option cursor_ok c" and "list_all table_ok ts"
    and "\<And>t' k. t' \<in> set ts \<Longrightarrow> k \<in> key ` set (todo (map_option position c) t) \<Longrightarrow> todo (Some k) t' = todo (Some k) t"
    and "length (todo (map_option position c) t) \<le> length ts"
  shows "walk fetch c (t # ts) = map view (todo (map_option position c) t)"
  by (rule walk_agreeing [where K = "key ` set (todo (map_option position c) t)" and rest = "\<lambda>k. todo (Some k) t"])
    (use assms in auto)

end

end
