(* ===== verification/Tasks.thy ===== *)
theory Tasks
  imports Go_Text Keyset_Pages "HOL-Library.Product_Lexorder"
begin

text \<open>
  Task management: the task and its lifecycle (\<^verbatim>\<open>internal/task/task.go\<close>), the bounded listing and
  its cursor (\<^verbatim>\<open>list.go\<close>), the service (\<^verbatim>\<open>service.go\<close>) and the PostgreSQL store
  (\<^verbatim>\<open>infrastructure/postgres/tasks.go\<close>).

  A status, a priority and an assignee type are texts, as in the code. The row of a task is the
  task: the columns that may be NULL are read back as they were written. A timestamp column
  keeps microseconds. Every method of the store is one transaction confined to a workspace;
  a method of the service that reads and then writes takes the table it read, \<open>snap\<close>, apart
  from the table it writes to.
\<close>

subsection \<open>The task and its lifecycle\<close>

datatype task_error =
    ErrInvalidInput | ErrNotFound | ErrWorkspaceMismatch | ErrInvalidTransition | ErrTerminalState
  | ErrPriority | ErrStatus | ErrAssigneeType | ErrInvalidCursor
  | ErrDatabase \<comment> \<open>any other error of the database\<close>

abbreviation StatusBacklog :: string where "StatusBacklog \<equiv> ''backlog''"
abbreviation StatusPlanned :: string where "StatusPlanned \<equiv> ''planned''"
abbreviation StatusInProgress :: string where "StatusInProgress \<equiv> ''in_progress''"
abbreviation StatusInReview :: string where "StatusInReview \<equiv> ''in_review''"
abbreviation StatusCompleted :: string where "StatusCompleted \<equiv> ''completed''"
abbreviation StatusCancelled :: string where "StatusCancelled \<equiv> ''cancelled''"
abbreviation StatusRejected :: string where "StatusRejected \<equiv> ''rejected''"
abbreviation StatusFailed :: string where "StatusFailed \<equiv> ''failed''"
abbreviation PriorityNormal :: string where "PriorityNormal \<equiv> ''normal''"
abbreviation AssigneeAI :: string where "AssigneeAI \<equiv> ''ai_employee''"
abbreviation AssigneeHuman :: string where "AssigneeHuman \<equiv> ''human''"

record Task =
  tk_ID :: uuid
  tk_WorkspaceID :: uuid
  tk_GoalID :: "uuid option"
  tk_ParentTaskID :: "uuid option"
  tk_Title :: string
  tk_Description :: string
  tk_Status :: string
  tk_Priority :: string
  tk_AssigneeType :: string
  tk_AssigneeID :: "uuid option"
  tk_Deadline :: "instant option"
  tk_CreatedAt :: instant
  tk_UpdatedAt :: instant

definition all_statuses :: "string list" where
  "all_statuses = [StatusBacklog, StatusPlanned, StatusInProgress, StatusInReview, StatusCompleted, StatusCancelled, StatusRejected, StatusFailed]"

definition ValidStatus :: "string \<Rightarrow> bool" where
  "ValidStatus s \<longleftrightarrow> s \<in> set all_statuses"

definition ValidPriority :: "string \<Rightarrow> bool" where
  "ValidPriority p \<longleftrightarrow> p \<in> {''low'', PriorityNormal, ''high'', ''urgent''}"

definition ValidAssigneeType :: "string \<Rightarrow> bool" where
  "ValidAssigneeType t \<longleftrightarrow> t \<in> {AssigneeAI, AssigneeHuman}"

definition terminal :: "string \<Rightarrow> bool" where
  "terminal s \<longleftrightarrow> s \<in> {StatusCompleted, StatusCancelled, StatusFailed, StatusRejected}"

definition allowedTransition :: "string \<Rightarrow> string \<Rightarrow> bool" where
  "allowedTransition from to =
     (if from = StatusBacklog then to = StatusPlanned \<or> to = StatusCancelled \<or> to = StatusFailed
      else if from = StatusPlanned then to = StatusInProgress \<or> to = StatusCancelled \<or> to = StatusFailed
      else if from = StatusInProgress then to = StatusInReview \<or> to = StatusCancelled \<or> to = StatusFailed
      else if from = StatusInReview then to = StatusCompleted \<or> to = StatusRejected \<or> to = StatusCancelled \<or> to = StatusFailed
      else False)"

definition CanTransition :: "string \<Rightarrow> string \<Rightarrow> task_error option" where
  "CanTransition from to =
     (if \<not> ValidStatus from \<or> \<not> ValidStatus to then Some ErrStatus
      else if terminal from then Some ErrTerminalState
      else if from = to then Some ErrInvalidTransition
      else if \<not> allowedTransition from to then Some ErrInvalidTransition
      else None)"

definition task_New :: "instant \<Rightarrow> uuid \<Rightarrow> uuid \<Rightarrow> string \<Rightarrow> string \<Rightarrow> string \<Rightarrow> (task_error, Task) result" where
  "task_New now gen ws title p description =
     (if ws = uuid_Nil then Inl ErrWorkspaceMismatch
      else if title = [] then Inl ErrInvalidInput
      else if \<not> ValidPriority p then Inl ErrPriority
      else Inr \<lparr>tk_ID = gen, tk_WorkspaceID = ws, tk_GoalID = None, tk_ParentTaskID = None, tk_Title = title,
                tk_Description = description, tk_Status = StatusBacklog, tk_Priority = p, tk_AssigneeType = [],
                tk_AssigneeID = None, tk_Deadline = None, tk_CreatedAt = now, tk_UpdatedAt = now\<rparr>)"

subsection \<open>Listing and cursors\<close>

definition DefaultPageSize :: int where "DefaultPageSize = 50"
definition MaxPageSize :: int where "MaxPageSize = 200"

record Cursor =
  cu_CreatedAt :: instant
  cu_ID :: uuid

text \<open>The zero cursor, whose field \<^verbatim>\<open>Set\<close> is false, is \<open>None\<close>.\<close>

record ListQuery =
  lq_Status :: "string option"
  lq_Limit :: int
  lq_Before :: "Cursor option"

definition Normalize :: "ListQuery \<Rightarrow> ListQuery" where
  "Normalize q0 =
     (let q = (if lq_Limit q0 \<le> 0 then q0\<lparr>lq_Limit := DefaultPageSize\<rparr> else q0)
      in if lq_Limit q > MaxPageSize then q\<lparr>lq_Limit := MaxPageSize\<rparr> else q)"

text \<open>\<^verbatim>\<open>UnixNano\<close> is a 64-bit count.\<close>

definition EncodeCursor :: "(uuid \<Rightarrow> string) \<Rightarrow> Task \<Rightarrow> string" where
  "EncodeCursor uuid_String t = FormatInt (wrap64 (tk_CreatedAt t)) @ ''.'' @ uuid_String (tk_ID t)"

definition DecodeCursor :: "(string \<Rightarrow> uuid option) \<Rightarrow> string \<Rightarrow> (task_error, Cursor option) result" where
  "DecodeCursor uuid_Parse s =
     (if s = [] then Inr None
      else case Cut CHR ''.'' s of
             None \<Rightarrow> Inl ErrInvalidCursor
           | Some (ts, i) \<Rightarrow>
               (case ParseInt ts of
                  None \<Rightarrow> Inl ErrInvalidCursor
                | Some nano \<Rightarrow>
                    if nano < - 6795364578871345152 \<or> nano > 2534023007999999999 then Inl ErrInvalidCursor
                    else case uuid_Parse i of
                           None \<Rightarrow> Inl ErrInvalidCursor
                         | Some idv \<Rightarrow> Inr (Some \<lparr>cu_CreatedAt = nano, cu_ID = idv\<rparr>)))"

record Page =
  pa_Tasks :: "Task list"
  pa_NextCursor :: string
  pa_Limit :: int

subsection \<open>The PostgreSQL store\<close>

record task_db =
  td_workspaces :: "uuid list"
  td_tasks :: "Task list"

definition to_micro :: "instant \<Rightarrow> instant" where
  "to_micro t = t - t mod 1000"

text \<open>The constraints of the table; \<^verbatim>\<open>trim\<close> of SQL removes spaces.\<close>

definition task_check :: "Task \<Rightarrow> bool" where
  "task_check t \<longleftrightarrow> ValidStatus (tk_Status t) \<and> ValidPriority (tk_Priority t) \<and> ValidAssigneeType (tk_AssigneeType t)
     \<and> list_ex (\<lambda>c. c \<noteq> CHR '' '') (tk_Title t)"

definition TaskStore_Create :: "uuid \<Rightarrow> Task \<Rightarrow> task_db \<Rightarrow> (task_error, task_db \<times> Task) result" where
  "TaskStore_Create gen t db =
     (let assigneeType = (if tk_AssigneeType t = [] then AssigneeAI else tk_AssigneeType t);
          row = t\<lparr>tk_ID := gen, tk_GoalID := None, tk_ParentTaskID := None, tk_AssigneeType := assigneeType,
                  tk_Deadline := map_option to_micro (tk_Deadline t),
                  tk_CreatedAt := to_micro (tk_CreatedAt t), tk_UpdatedAt := to_micro (tk_UpdatedAt t)\<rparr>
      in if \<not> task_check row \<or> tk_WorkspaceID t \<notin> set (td_workspaces db) \<or> gen \<in> tk_ID ` set (td_tasks db)
         then Inl ErrDatabase
         else Inr (db\<lparr>td_tasks := td_tasks db @ [row]\<rparr>,
                   t\<lparr>tk_ID := gen, tk_AssigneeType := assigneeType, tk_CreatedAt := tk_CreatedAt row, tk_UpdatedAt := tk_UpdatedAt row\<rparr>))"

definition owned :: "uuid \<Rightarrow> uuid \<Rightarrow> Task \<Rightarrow> bool" where
  "owned ws i t \<longleftrightarrow> tk_ID t = i \<and> tk_WorkspaceID t = ws"

definition TaskStore_Get :: "uuid \<Rightarrow> uuid \<Rightarrow> task_db \<Rightarrow> (task_error, Task) result" where
  "TaskStore_Get ws i db = (case find (owned ws i) (td_tasks db) of None \<Rightarrow> Inl ErrNotFound | Some t \<Rightarrow> Inr t)"

definition TaskStore_List :: "uuid \<Rightarrow> string option \<Rightarrow> task_db \<Rightarrow> Task list" where
  "TaskStore_List ws status db =
     filter (\<lambda>t. tk_WorkspaceID t = ws \<and> (case status of None \<Rightarrow> True | Some s \<Rightarrow> tk_Status t = s)) (td_tasks db)"

definition task_key :: "Task \<Rightarrow> instant \<times> uuid" where
  "task_key t = (tk_CreatedAt t, tk_ID t)"

text \<open>
  \<^verbatim>\<open>ORDER BY created_at DESC, id DESC LIMIT q.Limit+1\<close>; the row comparison is lexicographic. The
  limit is a 64-bit integer that was clamped, so the sum does not wrap.
\<close>

definition TaskStore_ListPage :: "(uuid \<Rightarrow> string) \<Rightarrow> uuid \<Rightarrow> ListQuery \<Rightarrow> task_db \<Rightarrow> Page" where
  "TaskStore_ListPage uuid_String ws q0 db =
     (let q = Normalize q0;
          found = take (nat (lq_Limit q + 1))
            (rev (sort_key task_key
               (filter (\<lambda>t. tk_WorkspaceID t = ws
                    \<and> (case lq_Status q of None \<Rightarrow> True | Some s \<Rightarrow> tk_Status t = s)
                    \<and> (case lq_Before q of None \<Rightarrow> True | Some c \<Rightarrow> task_key t < (to_micro (cu_CreatedAt c), cu_ID c)))
                  (td_tasks db))))
      in if int (length found) > lq_Limit q
         then let page = take (nat (lq_Limit q)) found
              in \<lparr>pa_Tasks = page, pa_NextCursor = EncodeCursor uuid_String (last page), pa_Limit = lq_Limit q\<rparr>
         else \<lparr>pa_Tasks = found, pa_NextCursor = [], pa_Limit = lq_Limit q\<rparr>)"

definition task_write :: "instant \<Rightarrow> Task \<Rightarrow> Task \<Rightarrow> Task" where
  "task_write now t row =
     row\<lparr>tk_Title := tk_Title t, tk_Description := tk_Description t, tk_Status := tk_Status t, tk_Priority := tk_Priority t,
         tk_AssigneeType := tk_AssigneeType t, tk_AssigneeID := tk_AssigneeID t,
         tk_Deadline := map_option to_micro (tk_Deadline t), tk_UpdatedAt := to_micro now\<rparr>"

definition TaskStore_Update :: "instant \<Rightarrow> uuid \<Rightarrow> Task \<Rightarrow> task_db \<Rightarrow> (task_error, task_db \<times> Task) result" where
  "TaskStore_Update now ws t db =
     (case find (owned ws (tk_ID t)) (td_tasks db) of
        None \<Rightarrow> Inl ErrNotFound
      | Some row \<Rightarrow>
          let row' = task_write now t row in
          if \<not> task_check row' then Inl ErrDatabase
          else Inr (db\<lparr>td_tasks := upd_where (owned ws (tk_ID t)) (task_write now t) (td_tasks db)\<rparr>, row'))"

definition TaskStore_Delete :: "uuid \<Rightarrow> uuid \<Rightarrow> task_db \<Rightarrow> (task_error, task_db) result" where
  "TaskStore_Delete ws i db =
     (if count_where (owned ws i) (td_tasks db) = 0 then Inl ErrNotFound
      else Inr (db\<lparr>td_tasks := filter (\<lambda>t. \<not> owned ws i t) (td_tasks db)\<rparr>))"

subsection \<open>The service\<close>

record TaskAudit =
  ta_EventType :: string
  ta_Principle :: string
  ta_Outcome :: string
  ta_WorkspaceID :: uuid
  ta_TaskID :: "uuid option"

record task_state =
  ts_db :: task_db
  ts_audit :: "TaskAudit list"
  ts_events :: "(string \<times> uuid \<times> uuid) list"

definition task_record :: "string \<Rightarrow> string \<Rightarrow> string \<Rightarrow> uuid \<Rightarrow> uuid option \<Rightarrow> task_state \<Rightarrow> task_state" where
  "task_record et principle oc ws i s = s\<lparr>ts_audit := ts_audit s @
     [\<lparr>ta_EventType = et, ta_Principle = principle, ta_Outcome = oc, ta_WorkspaceID = ws, ta_TaskID = i\<rparr>]\<rparr>"

definition task_publish :: "string \<Rightarrow> uuid \<Rightarrow> uuid \<Rightarrow> task_state \<Rightarrow> task_state" where
  "task_publish et i ws s = s\<lparr>ts_events := ts_events s @ [(et, i, ws)]\<rparr>"

text \<open>\<open>gen\<close> are the identifiers \<^verbatim>\<open>uuid.New\<close> and \<^verbatim>\<open>gen_random_uuid()\<close> draw.\<close>

definition task_Create ::
  "instant \<Rightarrow> uuid \<times> uuid \<Rightarrow> uuid \<Rightarrow> string \<Rightarrow> string \<Rightarrow> string \<Rightarrow> task_state \<Rightarrow> (task_error, Task) result \<times> task_state" where
  "task_Create now gen ws title priority description s =
     (if ws = uuid_Nil then (Inl ErrWorkspaceMismatch, s)
      else case task_New now (fst gen) ws (TrimSpace title) priority description of
             Inl e \<Rightarrow> (Inl e, task_record ''task.create'' ''Vision First'' ''failed'' ws None s)
           | Inr t \<Rightarrow>
               (case TaskStore_Create (snd gen) t (ts_db s) of
                  Inl e \<Rightarrow> (Inl e, task_record ''task.create'' ''Vision First'' ''failed'' ws (Some (tk_ID t)) s)
                | Inr (db, t') \<Rightarrow>
                    (Inr t',
                     task_publish ''task.created'' (tk_ID t') ws
                       (task_record ''task.create'' ''Vision First'' ''success'' ws (Some (tk_ID t')) (s\<lparr>ts_db := db\<rparr>)))))"

definition task_getOwned :: "task_db \<Rightarrow> uuid \<Rightarrow> uuid \<Rightarrow> (task_error, Task) result" where
  "task_getOwned snap ws i =
     (case TaskStore_Get ws i snap of
        Inl e \<Rightarrow> Inl e
      | Inr t \<Rightarrow> if tk_WorkspaceID t \<noteq> ws then Inl ErrWorkspaceMismatch else Inr t)"

definition task_Get :: "task_db \<Rightarrow> uuid \<Rightarrow> uuid \<Rightarrow> (task_error, Task) result" where
  "task_Get snap ws i = task_getOwned snap ws i"

definition task_List :: "task_db \<Rightarrow> uuid \<Rightarrow> string option \<Rightarrow> Task list" where
  "task_List snap ws status = TaskStore_List ws status snap"

definition task_ListPage :: "(uuid \<Rightarrow> string) \<Rightarrow> task_db \<Rightarrow> uuid \<Rightarrow> ListQuery \<Rightarrow> (task_error, Page) result" where
  "task_ListPage uuid_String snap ws q =
     (if ws = uuid_Nil then Inl ErrWorkspaceMismatch
      else if (case lq_Status q of None \<Rightarrow> False | Some st \<Rightarrow> \<not> ValidStatus st) then Inl ErrStatus
      else Inr (TaskStore_ListPage uuid_String ws (Normalize q) snap))"

definition task_Transition :: "instant \<Rightarrow> task_db \<Rightarrow> uuid \<Rightarrow> uuid \<Rightarrow> string \<Rightarrow> task_state \<Rightarrow> (task_error, Task) result \<times> task_state" where
  "task_Transition now snap ws i to s =
     (if \<not> ValidStatus to then (Inl ErrStatus, s)
      else case task_getOwned snap ws i of
             Inl e \<Rightarrow> (Inl e, s)
           | Inr t \<Rightarrow>
               (case CanTransition (tk_Status t) to of
                  Some e \<Rightarrow> (Inl e, task_record ''task.transition'' ''Human Oversight'' ''failed'' ws (Some i) s)
                | None \<Rightarrow>
                    (case TaskStore_Update now ws (t\<lparr>tk_Status := to\<rparr>) (ts_db s) of
                       Inl e \<Rightarrow> (Inl e, s)
                     | Inr (db, t') \<Rightarrow>
                         (Inr t',
                          task_publish ''task.transitioned'' i ws
                            (task_record ''task.transition'' ''Human Oversight'' ''success'' ws (Some i) (s\<lparr>ts_db := db\<rparr>))))))"

record task_patch =
  tp_Title :: string
  tp_Priority :: string
  tp_Description :: "string option"
  tp_AssigneeType :: string
  tp_AssigneeID :: "uuid option"
  tp_Deadline :: "instant option"

definition apply_patch :: "task_patch \<Rightarrow> Task \<Rightarrow> (task_error, Task) result" where
  "apply_patch p t0 =
     (let t1 = (if TrimSpace (tp_Title p) \<noteq> [] then t0\<lparr>tk_Title := TrimSpace (tp_Title p)\<rparr> else t0) in
      if tp_Priority p \<noteq> [] \<and> \<not> ValidPriority (tp_Priority p) then Inl ErrPriority
      else let t2 = (if tp_Priority p \<noteq> [] then t1\<lparr>tk_Priority := tp_Priority p\<rparr> else t1);
               t3 = (case tp_Description p of None \<Rightarrow> t2 | Some d \<Rightarrow> t2\<lparr>tk_Description := d\<rparr>)
           in if tp_AssigneeType p \<noteq> [] \<and> \<not> ValidAssigneeType (tp_AssigneeType p) then Inl ErrAssigneeType
              else let t4 = (if tp_AssigneeType p \<noteq> [] then t3\<lparr>tk_AssigneeType := tp_AssigneeType p\<rparr> else t3);
                       t5 = (case tp_AssigneeID p of None \<Rightarrow> t4 | Some a \<Rightarrow> t4\<lparr>tk_AssigneeID := Some a\<rparr>);
                       t6 = (case tp_Deadline p of None \<Rightarrow> t5 | Some d \<Rightarrow> t5\<lparr>tk_Deadline := Some d\<rparr>)
                   in Inr t6)"

definition task_Update :: "instant \<Rightarrow> task_db \<Rightarrow> uuid \<Rightarrow> uuid \<Rightarrow> task_patch \<Rightarrow> task_state \<Rightarrow> (task_error, Task) result \<times> task_state" where
  "task_Update now snap ws i p s =
     (case task_getOwned snap ws i of
        Inl e \<Rightarrow> (Inl e, s)
      | Inr t0 \<Rightarrow>
          (case apply_patch p t0 of
             Inl e \<Rightarrow> (Inl e, s)
           | Inr t \<Rightarrow>
               (case TaskStore_Update now ws t (ts_db s) of
                  Inl e \<Rightarrow> (Inl e, s)
                | Inr (db, t') \<Rightarrow>
                    (Inr t', task_record ''task.update'' ''Quality Over Speed'' ''success'' ws (Some i) (s\<lparr>ts_db := db\<rparr>)))))"

definition task_Delete :: "uuid \<Rightarrow> uuid \<Rightarrow> task_state \<Rightarrow> task_error option \<times> task_state" where
  "task_Delete ws i s =
     (case TaskStore_Delete ws i (ts_db s) of Inl e \<Rightarrow> (Some e, s) | Inr db \<Rightarrow> (None, s\<lparr>ts_db := db\<rparr>))"

subsection \<open>Invariants of the table\<close>

definition task_inv :: "task_db \<Rightarrow> bool" where
  "task_inv db \<longleftrightarrow> distinct (map tk_ID (td_tasks db)) \<and> list_all task_check (td_tasks db)
     \<and> list_all (\<lambda>t. tk_WorkspaceID t \<in> set (td_workspaces db)) (td_tasks db)"

text \<open>What may become of a task: its identity stays, its status moves along the lifecycle.\<close>

definition task_evolves :: "Task \<Rightarrow> Task \<Rightarrow> bool" where
  "task_evolves t t' \<longleftrightarrow> tk_ID t' = tk_ID t \<and> tk_WorkspaceID t' = tk_WorkspaceID t \<and> tk_CreatedAt t' = tk_CreatedAt t
     \<and> allowedTransition\<^sup>*\<^sup>* (tk_Status t) (tk_Status t')"

definition tasks_evolve :: "task_db \<Rightarrow> task_db \<Rightarrow> bool" where
  "tasks_evolve db db' \<longleftrightarrow> td_workspaces db' = td_workspaces db \<and> (\<forall>t \<in> set (td_tasks db). \<exists>t' \<in> set (td_tasks db'). task_evolves t t')"

text \<open>The requests of the API that change tasks, one after the other.\<close>

inductive task_step :: "task_db \<Rightarrow> task_db \<Rightarrow> bool" where
  create: "task_step db (ts_db (snd (task_Create now gen ws title p d \<lparr>ts_db = db, ts_audit = au, ts_events = ev\<rparr>)))"
| transition: "task_step db (ts_db (snd (task_Transition now db ws i to \<lparr>ts_db = db, ts_audit = au, ts_events = ev\<rparr>)))"
| update: "task_step db (ts_db (snd (task_Update now db ws i patch \<lparr>ts_db = db, ts_audit = au, ts_events = ev\<rparr>)))"

lemma ts_db_task_record [simp]: "ts_db (task_record et pr oc ws i s) = ts_db s"
  by (simp add: task_record_def)

lemma ts_db_task_publish [simp]: "ts_db (task_publish et i ws s) = ts_db s"
  by (simp add: task_publish_def)

lemma task_evolves_refl [simp]: "task_evolves t t"
  by (simp add: task_evolves_def)

lemma task_evolves_trans: "task_evolves t u \<Longrightarrow> task_evolves u v \<Longrightarrow> task_evolves t v"
  by (auto simp: task_evolves_def)

lemma tasks_evolve_refl [simp]: "tasks_evolve db db"
  unfolding tasks_evolve_def using task_evolves_refl by blast

lemma tasks_evolve_append: "tasks_evolve db (db\<lparr>td_tasks := td_tasks db @ new\<rparr>)"
  unfolding tasks_evolve_def using task_evolves_refl by fastforce

lemma CanTransition_None: "CanTransition from to = None \<longleftrightarrow>
    ValidStatus from \<and> ValidStatus to \<and> \<not> terminal from \<and> from \<noteq> to \<and> allowedTransition from to"
  by (auto simp: CanTransition_def)

lemma allowed_not_terminal: "allowedTransition from to \<Longrightarrow> \<not> terminal from"
  by (auto simp: allowedTransition_def terminal_def split: if_splits)

lemma terminal_stays: "allowedTransition\<^sup>*\<^sup>* from to \<Longrightarrow> terminal from \<Longrightarrow> to = from"
  by (induction rule: converse_rtranclp_induct) (auto dest: allowed_not_terminal)

lemma task_getOwned_Inr:
  "task_getOwned db ws i = Inr t \<Longrightarrow> t \<in> set (td_tasks db) \<and> tk_ID t = i \<and> tk_WorkspaceID t = ws"
  by (auto simp: task_getOwned_def TaskStore_Get_def owned_def split: option.splits if_splits dest: find_SomeD)

text \<open>A successful write, of a task that was read from the same table with at most its status moved on.\<close>

lemma TaskStore_Update_Inr:
  assumes "TaskStore_Update now ws t db = Inr (db', t')"
  obtains row where "row \<in> set (td_tasks db)" "owned ws (tk_ID t) row" "t' = task_write now t row" "task_check t'"
    "db' = db\<lparr>td_tasks := upd_where (owned ws (tk_ID t)) (task_write now t) (td_tasks db)\<rparr>"
  using assms by (auto simp: TaskStore_Update_def Let_def split: option.splits if_splits dest: find_SomeD)

lemma task_write_fields [simp]:
  "tk_ID (task_write now t row) = tk_ID row" "tk_WorkspaceID (task_write now t row) = tk_WorkspaceID row"
  "tk_CreatedAt (task_write now t row) = tk_CreatedAt row" "tk_Status (task_write now t row) = tk_Status t"
  by (simp_all add: task_write_def)

lemma TaskStore_Update_keeps:
  assumes "TaskStore_Update now ws t db = Inr (db', t')" and "task_inv db"
    and "t0 \<in> set (td_tasks db)" and "tk_ID t = tk_ID t0" and "allowedTransition\<^sup>*\<^sup>* (tk_Status t0) (tk_Status t)"
  shows "task_inv db' \<and> tasks_evolve db db'"
proof -
  obtain row where row: "row \<in> set (td_tasks db)" "owned ws (tk_ID t) row" "t' = task_write now t row" "task_check t'"
    and db': "db' = db\<lparr>td_tasks := upd_where (owned ws (tk_ID t)) (task_write now t) (td_tasks db)\<rparr>"
    using assms(1) by (rule TaskStore_Update_Inr)
  have same: "r = t0" if "r \<in> set (td_tasks db)" "owned ws (tk_ID t) r" for r
    using that assms(2-4) by (auto simp: task_inv_def owned_def dest: distinct_map_keyD)
  have "task_check (task_write now t r)" for r
    using row(3,4) by (simp add: task_write_def task_check_def)
  then have "task_inv db'"
    using assms(2) by (auto simp: task_inv_def db' list_all_iff set_upd_where map_upd_where_key)
  moreover have "\<exists>r' \<in> set (td_tasks db'). task_evolves r r'" if r: "r \<in> set (td_tasks db)" for r
    using assms(5) same [OF r] r
    by (intro bexI [of _ "if owned ws (tk_ID t) r then task_write now t r else r"]) (auto simp: db' set_upd_where task_evolves_def)
  ultimately show ?thesis by (simp add: tasks_evolve_def db')
qed

lemma apply_patch_Inr: "apply_patch p t0 = Inr t \<Longrightarrow> tk_ID t = tk_ID t0 \<and> tk_WorkspaceID t = tk_WorkspaceID t0 \<and> tk_Status t = tk_Status t0"
  by (auto simp: apply_patch_def Let_def split: if_splits option.splits)

lemma task_Create_db:
  "ts_db (snd (task_Create now gen ws title p d s)) = ts_db s \<or>
   (\<exists>t row. ts_db (snd (task_Create now gen ws title p d s)) = (ts_db s)\<lparr>td_tasks := td_tasks (ts_db s) @ [row]\<rparr> \<and> task_check row
      \<and> tk_WorkspaceID row \<in> set (td_workspaces (ts_db s)) \<and> tk_ID row \<notin> tk_ID ` set (td_tasks (ts_db s)))"
  by (auto simp: task_Create_def TaskStore_Create_def Let_def split: sum.split if_split)

lemma task_step_keeps: "task_step db db' \<Longrightarrow> task_inv db \<Longrightarrow> task_inv db' \<and> tasks_evolve db db'"
proof (induction rule: task_step.induct)
  case (create db now gen ws title p d au ev)
  then show ?case
    using task_Create_db [of now gen ws title p d "\<lparr>ts_db = db, ts_audit = au, ts_events = ev\<rparr>"]
    by (auto simp: task_inv_def tasks_evolve_append)
next
  case (transition db now ws i to au ev)
  show ?case
  proof (cases "task_getOwned db ws i")
    case (Inr t)
    then have t: "t \<in> set (td_tasks db)" "tk_ID t = i" "tk_WorkspaceID t = ws" using task_getOwned_Inr by blast+
    show ?thesis
    proof (cases "CanTransition (tk_Status t) to")
      case None
      then have "allowedTransition (tk_Status t) to" by (simp add: CanTransition_None)
      then have "task_inv db1 \<and> tasks_evolve db db1" if "TaskStore_Update now ws (t\<lparr>tk_Status := to\<rparr>) db = Inr (db1, t1)" for db1 t1
        using TaskStore_Update_keeps [OF that transition t(1)] by auto
      then show ?thesis using transition None Inr by (auto simp: task_Transition_def split: sum.split)
    qed (use transition Inr in \<open>simp add: task_Transition_def\<close>)
  qed (use transition in \<open>simp add: task_Transition_def\<close>)
next
  case (update db now ws i patch au ev)
  show ?case
  proof (cases "task_getOwned db ws i")
    case (Inr t0)
    then have t0: "t0 \<in> set (td_tasks db)" using task_getOwned_Inr by blast
    show ?thesis
    proof (cases "apply_patch patch t0")
      case (Inr t)
      then have "task_inv db1 \<and> tasks_evolve db db1" if "TaskStore_Update now ws t db = Inr (db1, t1)" for db1 t1
        using TaskStore_Update_keeps [OF that update t0] apply_patch_Inr [OF Inr] by auto
      then show ?thesis using update \<open>task_getOwned db ws i = Inr t0\<close> Inr by (auto simp: task_Update_def split: sum.split)
    qed (use update Inr in \<open>simp add: task_Update_def\<close>)
  qed (use update in \<open>simp add: task_Update_def\<close>)
qed

interpretation tasks: guarantee "\<lambda>db. td_tasks db = []" task_step task_inv tasks_evolve
proof
  show "td_tasks s = [] \<Longrightarrow> task_inv s" for s by (simp add: task_inv_def)
  show "task_step s t \<Longrightarrow> task_inv s \<Longrightarrow> task_inv t" for s t using task_step_keeps by blast
  show "tasks_evolve s s" for s by simp
  show "tasks_evolve s t \<Longrightarrow> tasks_evolve t u \<Longrightarrow> tasks_evolve s u" for s t u
    unfolding tasks_evolve_def using task_evolves_trans by metis
  show "task_step s t \<Longrightarrow> task_inv s \<Longrightarrow> tasks_evolve s t" for s t using task_step_keeps by blast
qed

text \<open>
  C23. The lifecycle is enforced. When requests do not overlap, a task keeps its identity, its
  workspace and its creation time for good, its status only ever moves along the edges of the
  lifecycle, and a completed, cancelled, rejected or failed task stays as it is; every row
  satisfies the constraints of its table.
\<close>

theorem task_lifecycle:
  assumes "td_tasks db0 = []" and "runs task_step db0 db" and "runs task_step db db'" and "t \<in> set (td_tasks db)"
  shows "\<exists>t' \<in> set (td_tasks db'). tk_ID t' = tk_ID t \<and> tk_WorkspaceID t' = tk_WorkspaceID t \<and> tk_CreatedAt t' = tk_CreatedAt t
      \<and> allowedTransition\<^sup>*\<^sup>* (tk_Status t) (tk_Status t') \<and> (if terminal (tk_Status t) then tk_Status t' = tk_Status t else True)
      \<and> task_check t'"
proof -
  have "task_inv db" using assms(1,2) by (rule tasks.inv_reachable)
  then have "task_inv db'" "tasks_evolve db db'" using assms(3) tasks.inv_runs tasks.rel_runs by blast+
  then obtain t' where "t' \<in> set (td_tasks db')" "task_evolves t t'" "task_check t'"
    using assms(4) by (auto simp: tasks_evolve_def task_inv_def list_all_iff)
  then show ?thesis by (intro bexI [of _ t']) (auto simp: task_evolves_def dest: terminal_stays)
qed

definition demo_task_db :: task_db where
  "demo_task_db = \<lparr>td_workspaces = [1], td_tasks = []\<rparr>"

definition with_db :: "task_db \<Rightarrow> task_state" where
  "with_db db = \<lparr>ts_db = db, ts_audit = [], ts_events = []\<rparr>"

definition demo_created :: task_db where
  "demo_created = ts_db (snd (task_Create 5 (2, 3) 1 ''write'' PriorityNormal [] (with_db demo_task_db)))"

definition demo_cancelled :: task_db where
  "demo_cancelled = ts_db (snd (task_Transition 6 demo_created 1 3 StatusCancelled (with_db demo_created)))"

definition demo_task :: Task where
  "demo_task = \<lparr>tk_ID = 3, tk_WorkspaceID = 1, tk_GoalID = None, tk_ParentTaskID = None, tk_Title = ''write'', tk_Description = [],
     tk_Status = StatusBacklog, tk_Priority = PriorityNormal, tk_AssigneeType = AssigneeAI, tk_AssigneeID = None, tk_Deadline = None,
     tk_CreatedAt = 0, tk_UpdatedAt = 0\<rparr>"

lemma demo_created_eq: "demo_created = \<lparr>td_workspaces = [1], td_tasks = [demo_task]\<rparr>"
  by code_simp

lemma demo_cancelled_eq: "demo_cancelled = \<lparr>td_workspaces = [1], td_tasks = [demo_task\<lparr>tk_Status := StatusCancelled, tk_UpdatedAt := 0\<rparr>]\<rparr>"
  by code_simp

lemma demo_task_runs: "runs task_step demo_task_db demo_created" "runs task_step demo_created demo_cancelled"
  unfolding demo_created_def demo_cancelled_def with_db_def by (intro runs_single task_step.intros)+

theorem task_lifecycle_witness:
  "\<exists>t' \<in> set (td_tasks demo_cancelled). tk_ID t' = 3 \<and> allowedTransition\<^sup>*\<^sup>* StatusBacklog (tk_Status t') \<and> tk_Status t' = StatusCancelled"
proof -
  have "demo_task \<in> set (td_tasks demo_created)" "td_tasks demo_task_db = []"
    by (simp_all add: demo_created_eq demo_task_db_def)
  from task_lifecycle [OF this(2) demo_task_runs this(1)] obtain t' where
    t': "t' \<in> set (td_tasks demo_cancelled)" "allowedTransition\<^sup>*\<^sup>* (tk_Status demo_task) (tk_Status t')" by blast
  then have "tk_ID t' = 3" "tk_Status t' = StatusCancelled" by (simp_all add: demo_cancelled_eq demo_task_def)
  moreover have "tk_Status demo_task = StatusBacklog" by (simp add: demo_task_def)
  ultimately show ?thesis using t' by metis
qed

lemma find_owned:
  assumes "task_inv db" and "t \<in> set (td_tasks db)"
  shows "find (owned (tk_WorkspaceID t) (tk_ID t)) (td_tasks db) = Some t"
proof -
  have "owned (tk_WorkspaceID t) (tk_ID t) t" by (simp add: owned_def)
  then obtain u where u: "find (owned (tk_WorkspaceID t) (tk_ID t)) (td_tasks db) = Some u"
    using find_exists [OF assms(2)] by blast
  then have "u \<in> set (td_tasks db)" "tk_ID u = tk_ID t" by (auto simp: owned_def dest: find_SomeD)
  then show ?thesis using u assms by (auto simp: task_inv_def dest: distinct_map_keyD)
qed

lemma TaskStore_Update_ok:
  assumes "task_inv db" and "t \<in> set (td_tasks db)" and "tk_ID u = tk_ID t" and "task_check (task_write now u t)"
  obtains db' where "TaskStore_Update now (tk_WorkspaceID t) u db = Inr (db', task_write now u t)" "task_write now u t \<in> set (td_tasks db')"
proof
  let ?db = "db\<lparr>td_tasks := upd_where (owned (tk_WorkspaceID t) (tk_ID t)) (task_write now u) (td_tasks db)\<rparr>"
  show "TaskStore_Update now (tk_WorkspaceID t) u db = Inr (?db, task_write now u t)"
    using find_owned [OF assms(1,2)] assms(3,4) by (simp add: TaskStore_Update_def)
  show "task_write now u t \<in> set (td_tasks ?db)" using assms(2) by (auto simp: set_upd_where owned_def image_iff intro!: bexI [of _ t])
qed

lemma task_check_write: "task_check (u\<lparr>tk_Status := st\<rparr>) \<Longrightarrow> task_check (task_write now (u\<lparr>tk_Status := st\<rparr>) row)"
  by (simp add: task_check_def task_write_def)

definition no_patch :: task_patch where
  "no_patch = \<lparr>tp_Title = [], tp_Priority = [], tp_Description = None, tp_AssigneeType = [], tp_AssigneeID = None, tp_Deadline = None\<rparr>"

text \<open>
  C24. A service method reads the task in one transaction and writes it in another, and nothing
  checks that the task is still what was read. Two requests that overlap on a task in review
  both succeed: after one completed it, the other cancels it, or, if it only changes fields,
  puts it back in review. A terminal task is left again.
\<close>

theorem task_overlap_leaves_terminal:
  assumes "task_inv (ts_db s)" and "t \<in> set (td_tasks (ts_db s))" and "tk_Status t = StatusInReview"
  shows "\<exists>t1 s1. task_Transition now (ts_db s) (tk_WorkspaceID t) (tk_ID t) StatusCompleted s = (Inr t1, s1) \<and> tk_Status t1 = StatusCompleted
      \<and> (\<exists>t2 s2. task_Transition later (ts_db s) (tk_WorkspaceID t) (tk_ID t) StatusCancelled s1 = (Inr t2, s2) \<and> tk_Status t2 = StatusCancelled)
      \<and> (\<exists>t3 s3. task_Update later (ts_db s) (tk_WorkspaceID t) (tk_ID t) no_patch s1 = (Inr t3, s3) \<and> tk_Status t3 = StatusInReview)"
proof -
  let ?ws = "tk_WorkspaceID t" and ?i = "tk_ID t"
  have chk: "task_check (t\<lparr>tk_Status := st\<rparr>)" if "ValidStatus st" for st
    using assms(1,2) that by (auto simp: task_inv_def list_all_iff task_check_def)
  have valid: "ValidStatus StatusCompleted" "ValidStatus StatusCancelled" "ValidStatus StatusInReview"
    by (simp_all add: ValidStatus_def all_statuses_def)
  have get: "task_getOwned (ts_db s) ?ws ?i = Inr t"
    using find_owned [OF assms(1,2)] by (simp add: task_getOwned_def TaskStore_Get_def)
  have can: "CanTransition StatusInReview StatusCompleted = None" "CanTransition StatusInReview StatusCancelled = None"
    by code_simp+
  let ?t1 = "task_write now (t\<lparr>tk_Status := StatusCompleted\<rparr>) t"
  obtain db1 where up1: "TaskStore_Update now ?ws (t\<lparr>tk_Status := StatusCompleted\<rparr>) (ts_db s) = Inr (db1, ?t1)" and t1: "?t1 \<in> set (td_tasks db1)"
    using TaskStore_Update_ok [OF assms(1,2) _ task_check_write [OF chk [OF valid(1)]], of now] by auto
  have "allowedTransition (tk_Status t) StatusCompleted" using assms(3) by (simp add: allowedTransition_def)
  then have inv1: "task_inv db1" using TaskStore_Update_keeps [OF up1 assms(1,2)] by auto
  have up: "\<exists>db2. TaskStore_Update later ?ws (t\<lparr>tk_Status := st\<rparr>) db1 = Inr (db2, task_write later (t\<lparr>tk_Status := st\<rparr>) ?t1)" if "ValidStatus st" for st
    using TaskStore_Update_ok [OF inv1 t1 _ task_check_write [OF chk [OF that]], of later] by auto
  have "apply_patch no_patch t = Inr (t\<lparr>tk_Status := StatusInReview\<rparr>)"
    using assms(3) by (simp add: apply_patch_def no_patch_def TrimSpace_plain)
  then show ?thesis
    using get can valid up1 up [OF valid(2)] up [OF valid(3)] assms(3)
    by (auto simp: task_Transition_def task_Update_def)
qed

definition demo_review :: Task where
  "demo_review = demo_task\<lparr>tk_Status := StatusInReview\<rparr>"

theorem task_overlap_leaves_terminal_witness:
  "\<exists>t1 s1. task_Transition 7000 \<lparr>td_workspaces = [1], td_tasks = [demo_review]\<rparr> 1 3 StatusCompleted
        (with_db \<lparr>td_workspaces = [1], td_tasks = [demo_review]\<rparr>) = (Inr t1, s1) \<and> tk_Status t1 = StatusCompleted
      \<and> (\<exists>t2 s2. task_Transition 8000 \<lparr>td_workspaces = [1], td_tasks = [demo_review]\<rparr> 1 3 StatusCancelled s1 = (Inr t2, s2) \<and> tk_Status t2 = StatusCancelled)"
proof -
  let ?db = "\<lparr>td_workspaces = [1], td_tasks = [demo_review]\<rparr>"
  have "task_inv (ts_db (with_db ?db))" by code_simp
  moreover have "demo_review \<in> set (td_tasks (ts_db (with_db ?db)))" "tk_Status demo_review = StatusInReview"
    "tk_WorkspaceID demo_review = 1" "tk_ID demo_review = 3" "ts_db (with_db ?db) = ?db"
    by (simp_all add: with_db_def demo_review_def demo_task_def)
  ultimately show ?thesis using task_overlap_leaves_terminal [of "with_db ?db" demo_review 7000 8000] by auto
qed

subsection \<open>Pages\<close>

lemma Normalize_limit: "0 < lq_Limit (Normalize q) \<and> lq_Limit (Normalize q) \<le> 200"
  by (simp add: Normalize_def DefaultPageSize_def MaxPageSize_def Let_def)

lemma Normalize_idem [simp]: "Normalize (Normalize q) = Normalize q"
  by (simp add: Normalize_def DefaultPageSize_def MaxPageSize_def Let_def)

lemma Normalize_fields [simp]: "lq_Status (Normalize q) = lq_Status q" "lq_Before (Normalize q) = lq_Before q"
  by (simp_all add: Normalize_def Let_def)

definition task_todo :: "uuid \<Rightarrow> ListQuery \<Rightarrow> task_db \<Rightarrow> Task list" where
  "task_todo ws q db = newest_first task_key
     (filter (\<lambda>t. tk_WorkspaceID t = ws \<and> (case lq_Status q of None \<Rightarrow> True | Some s \<Rightarrow> tk_Status t = s)
        \<and> below task_key (map_option (\<lambda>c. (to_micro (cu_CreatedAt c), cu_ID c)) (lq_Before q)) t) (td_tasks db))"

text \<open>The look-ahead row decides whether there is a next page; it is not part of this one.\<close>

lemma TaskStore_ListPage_eq:
  assumes "Normalize q = q"
  shows "TaskStore_ListPage us ws q db =
    \<lparr>pa_Tasks = take (nat (lq_Limit q)) (task_todo ws q db),
     pa_NextCursor = (if length (task_todo ws q db) > nat (lq_Limit q) then EncodeCursor us (last (take (nat (lq_Limit q)) (task_todo ws q db))) else []),
     pa_Limit = lq_Limit q\<rparr>"
proof -
  have lim: "0 < lq_Limit q" using Normalize_limit [of q] assms by simp
  have "(case lq_Before q of None \<Rightarrow> True | Some c \<Rightarrow> task_key t < (to_micro (cu_CreatedAt c), cu_ID c))
      = below task_key (map_option (\<lambda>c. (to_micro (cu_CreatedAt c), cu_ID c)) (lq_Before q)) t" for t
    by (cases "lq_Before q") (simp_all add: below_def)
  then have "TaskStore_ListPage us ws q db =
     (let found = take (nat (lq_Limit q + 1)) (task_todo ws q db)
      in if int (length found) > lq_Limit q
         then let page = take (nat (lq_Limit q)) found
              in \<lparr>pa_Tasks = page, pa_NextCursor = EncodeCursor us (last page), pa_Limit = lq_Limit q\<rparr>
         else \<lparr>pa_Tasks = found, pa_NextCursor = [], pa_Limit = lq_Limit q\<rparr>)"
    by (simp add: TaskStore_ListPage_def assms Let_def task_todo_def newest_first_def)
  then show ?thesis using lim by (auto simp: Let_def min_def nat_add_distrib)
qed

lemma TaskStore_ListPage_bounded:
  assumes "p = TaskStore_ListPage us ws (Normalize q) db"
  shows "length (pa_Tasks p) \<le> 200 \<and> list_all (\<lambda>t. t \<in> set (td_tasks db) \<and> tk_WorkspaceID t = ws) (pa_Tasks p)"
proof
  have p: "pa_Tasks p = take (nat (lq_Limit (Normalize q))) (task_todo ws (Normalize q) db)"
    by (simp add: assms TaskStore_ListPage_eq)
  have "length (pa_Tasks p) \<le> nat (lq_Limit (Normalize q))" by (simp add: p)
  also have "\<dots> \<le> 200" using Normalize_limit [of q] by (simp add: nat_le_iff)
  finally show "length (pa_Tasks p) \<le> 200" .
  show "list_all (\<lambda>t. t \<in> set (td_tasks db) \<and> tk_WorkspaceID t = ws) (pa_Tasks p)"
    by (auto simp: p list_all_iff task_todo_def dest: in_set_takeD)
qed

subsection \<open>Cursors\<close>

lemma is_digit_notin: "\<not> is_digit c \<Longrightarrow> c \<notin> set (Itoa n)"
  using Itoa_digits [of n] by (auto simp: list_all_iff)

lemma dot_notin_FormatInt: "CHR ''.'' \<notin> set (FormatInt n)"
  by (simp add: FormatInt_def is_digit_notin is_digit_def)

text \<open>
  Cursors. The cursor a page offers is read back as the position of the page's last task,
  for every creation time up to 2534023007999999999 ns (19 April 2050, 23:16:47 UTC), and is
  refused for every later one that 64 bits can hold, although the comment of the bound speaks
  of the range the database accepts: from then on a listing cannot be paged past its first page.
\<close>

theorem task_cursor_roundtrip:
  assumes "\<And>i. uuid_Parse (uuid_String i) = Some i" and "0 \<le> tk_CreatedAt t" and "tk_CreatedAt t < 2 ^ 63"
  shows "DecodeCursor uuid_Parse (EncodeCursor uuid_String t) =
    (if tk_CreatedAt t \<le> 2534023007999999999 then Inr (Some \<lparr>cu_CreatedAt = tk_CreatedAt t, cu_ID = tk_ID t\<rparr>) else Inl ErrInvalidCursor)"
proof -
  have "int64 (tk_CreatedAt t)" using assms(2,3) by (simp add: int64_def)
  moreover have "Cut CHR ''.'' (EncodeCursor uuid_String t) = Some (FormatInt (wrap64 (tk_CreatedAt t)), uuid_String (tk_ID t))"
    by (simp add: EncodeCursor_def dot_notin_FormatInt)
  moreover have "EncodeCursor uuid_String t \<noteq> []" by (simp add: EncodeCursor_def)
  ultimately show ?thesis using assms by (simp add: DecodeCursor_def)
qed

definition unary_uuid :: "uuid \<Rightarrow> string" where
  "unary_uuid i = replicate (unat i) CHR ''i''"

definition unary_parse :: "string \<Rightarrow> uuid option" where
  "unary_parse s = Some (of_nat (length s))"

theorem task_cursor_roundtrip_witness:
  "DecodeCursor unary_parse (EncodeCursor unary_uuid demo_task) = Inr (Some \<lparr>cu_CreatedAt = 0, cu_ID = 3\<rparr>)
   \<and> DecodeCursor unary_parse (EncodeCursor unary_uuid (demo_task\<lparr>tk_CreatedAt := 2534023008000000000\<rparr>)) = Inl ErrInvalidCursor"
proof
  have law: "unary_parse (unary_uuid i) = Some i" for i by (simp add: unary_parse_def unary_uuid_def)
  show "DecodeCursor unary_parse (EncodeCursor unary_uuid demo_task) = Inr (Some \<lparr>cu_CreatedAt = 0, cu_ID = 3\<rparr>)"
    using task_cursor_roundtrip [of unary_parse unary_uuid demo_task, OF law] by (simp add: demo_task_def)
  show "DecodeCursor unary_parse (EncodeCursor unary_uuid (demo_task\<lparr>tk_CreatedAt := 2534023008000000000\<rparr>)) = Inl ErrInvalidCursor"
    using task_cursor_roundtrip [of unary_parse unary_uuid "demo_task\<lparr>tk_CreatedAt := 2534023008000000000\<rparr>", OF law] by simp
qed

end
