(* ===== verification/Knowledge.thy ===== *)
theory Knowledge
  imports Tasks
begin

text \<open>
  Company knowledge: documents with an embedding of their content
  (\<^verbatim>\<open>internal/knowledge\<close>: \<^verbatim>\<open>knowledge.go\<close>, \<^verbatim>\<open>list.go\<close>, \<^verbatim>\<open>service.go\<close>, \<^verbatim>\<open>embedder.go\<close>) and their
  PostgreSQL adapter (\<^verbatim>\<open>infrastructure/postgres/knowledge.go\<close>) with the constraints of the table.

  The components of a vector are of a type \<open>'f\<close> whose texts are parameters; the vector column
  holds the literal that was written. The embedding provider and the nearest-neighbour search of the
  vector extension are parameters. A method that reads and then writes does so in two
  transactions: it reads one table and writes another.
\<close>

subsection \<open>Domain\<close>

datatype kn_error =
    ErrInvalidInput | ErrNotFound | ErrWorkspaceMismatch | ErrInvalidKind | ErrTooLarge | ErrInvalidCursor
  | ErrProvider \<comment> \<open>an error of the embedding provider\<close>
  | ErrDatabase \<comment> \<open>an error of PostgreSQL without a sentinel\<close>

definition MaxContentLength :: int where "MaxContentLength = 64 * 1024"

definition DefaultEmbeddingDimensions :: int where "DefaultEmbeddingDimensions = 10"

definition KindDocument :: string where "KindDocument = ''document''"
definition KindCampaignRule :: string where "KindCampaignRule = ''campaign_rule''"
definition KindStyleGuide :: string where "KindStyleGuide = ''style_guide''"

definition ValidKind :: "string \<Rightarrow> bool" where
  "ValidKind k \<longleftrightarrow> k = KindDocument \<or> k = KindCampaignRule \<or> k = KindStyleGuide"

record 'f Document =
  kd_ID :: uuid
  kd_WorkspaceID :: uuid
  kd_Kind :: string
  kd_Title :: string
  kd_Content :: string
  kd_Embedding :: "'f list"
  kd_CreatedAt :: instant
  kd_UpdatedAt :: instant

definition kn_New :: "instant \<Rightarrow> uuid \<Rightarrow> uuid \<Rightarrow> string \<Rightarrow> string \<Rightarrow> string \<Rightarrow> (kn_error, 'f Document) result" where
  "kn_New now gen ws kind title content =
     (if ws = uuid_Nil then Inl ErrWorkspaceMismatch
      else if \<not> ValidKind kind then Inl ErrInvalidKind
      else if TrimSpace title = [] then Inl ErrInvalidInput
      else if TrimSpace content = [] then Inl ErrInvalidInput
      else if int (length content) > MaxContentLength then Inl ErrTooLarge
      else Inr \<lparr>kd_ID = gen, kd_WorkspaceID = ws, kd_Kind = kind, kd_Title = TrimSpace title, kd_Content = content,
                kd_Embedding = [], kd_CreatedAt = now, kd_UpdatedAt = now\<rparr>)"

subsection \<open>Listing\<close>

definition kn_DefaultPageSize :: int where "kn_DefaultPageSize = 50"
definition kn_MaxPageSize :: int where "kn_MaxPageSize = 200"
definition MaxSearchResults :: int where "MaxSearchResults = 50"

text \<open>The zero cursor, whose field \<^verbatim>\<open>Set\<close> is false, is \<open>None\<close>; a set one is a position in the order.\<close>

record kn_query =
  kq_Kind :: "string option"
  kq_Limit :: int
  kq_Before :: "(instant \<times> uuid) option"

definition kn_Normalize :: "kn_query \<Rightarrow> kn_query" where
  "kn_Normalize q0 =
     (let q = (if kq_Limit q0 \<le> 0 then q0\<lparr>kq_Limit := kn_DefaultPageSize\<rparr> else q0)
      in if kq_Limit q > kn_MaxPageSize then q\<lparr>kq_Limit := kn_MaxPageSize\<rparr> else q)"

definition kn_EncodeCursor :: "(uuid \<Rightarrow> string) \<Rightarrow> 'f Document \<Rightarrow> string" where
  "kn_EncodeCursor uuid_String d = FormatInt (wrap64 (kd_CreatedAt d)) @ ''.'' @ uuid_String (kd_ID d)"

definition kn_DecodeCursor :: "(string \<Rightarrow> uuid option) \<Rightarrow> string \<Rightarrow> (kn_error, (instant \<times> uuid) option) result" where
  "kn_DecodeCursor uuid_Parse s =
     (if s = [] then Inr None
      else case Cut CHR ''.'' s of
             None \<Rightarrow> Inl ErrInvalidCursor
           | Some (ts, i) \<Rightarrow>
               (case ParseInt ts of
                  None \<Rightarrow> Inl ErrInvalidCursor
                | Some nano \<Rightarrow>
                    if nano < - 6795364578871345152 \<or> nano > 2534023007999999999 then Inl ErrInvalidCursor
                    else case uuid_Parse i of None \<Rightarrow> Inl ErrInvalidCursor | Some idv \<Rightarrow> Inr (Some (nano, idv))))"

record 'f kn_page =
  kp_Documents :: "'f Document list"
  kp_NextCursor :: string
  kp_Limit :: int

definition ValidateKind :: "string \<Rightarrow> string option" where
  "ValidateKind s = (if \<not> ValidKind s then None else Some s)"

definition NormalizeSearchLimit :: "int \<Rightarrow> int" where
  "NormalizeSearchLimit limit = (if limit \<le> 0 then 10 else if limit > MaxSearchResults then MaxSearchResults else limit)"

subsection \<open>Vectors as texts\<close>

record 'f vector_lib =
  vl_format :: "'f \<Rightarrow> string" \<comment> \<open>the verb \<^verbatim>\<open>%g\<close>\<close>
  vl_scan :: "string \<Rightarrow> 'f option" \<comment> \<open>\<^verbatim>\<open>Sscanf\<close> with \<^verbatim>\<open>%f\<close>\<close>

text \<open>What is relied on of them: the text of a number is read back, and is made of digits, a point, signs and an exponent.\<close>

definition number_char :: "char \<Rightarrow> bool" where
  "number_char c \<longleftrightarrow> is_digit c \<or> c \<in> set ''+-.e''"

definition number_texts :: "'f vector_lib \<Rightarrow> bool" where
  "number_texts vl \<longleftrightarrow> (\<forall>v. vl_scan vl (vl_format vl v) = Some v \<and> vl_format vl v \<noteq> [] \<and> list_all number_char (vl_format vl v))"

fun Join :: "string \<Rightarrow> string list \<Rightarrow> string" where
  "Join sep [] = []"
| "Join sep [x] = x"
| "Join sep (x # y # ys) = x @ sep @ Join sep (y # ys)"

fun Split :: "char \<Rightarrow> string \<Rightarrow> string list" where
  "Split c [] = [[]]"
| "Split c (x # xs) = (if x = c then [] # Split c xs else (x # hd (Split c xs)) # tl (Split c xs))"

definition Trim :: "string \<Rightarrow> string \<Rightarrow> string" where
  "Trim s cutset = rev (dropWhile (\<lambda>c. c \<in> set cutset) (rev (dropWhile (\<lambda>c. c \<in> set cutset) s)))"

definition vectorLiteral :: "'f vector_lib \<Rightarrow> 'f list \<Rightarrow> string" where
  "vectorLiteral vl v = ''['' @ Join '','' (map (vl_format vl) v) @ '']''"

fun scan_all :: "'f vector_lib \<Rightarrow> string list \<Rightarrow> 'f list option" where
  "scan_all vl [] = Some []"
| "scan_all vl (p # ps) =
     (case vl_scan vl (TrimSpace p) of
        None \<Rightarrow> None
      | Some f \<Rightarrow> (case scan_all vl ps of None \<Rightarrow> None | Some fs \<Rightarrow> Some (f # fs)))"

text \<open>A component that does not scan makes the whole vector nil, which is an empty one.\<close>

definition parseVector :: "'f vector_lib \<Rightarrow> string \<Rightarrow> 'f list" where
  "parseVector vl s =
     (let trimmed = Trim (TrimSpace s) ''[]'' in
      if trimmed = [] then [] else case scan_all vl (Split CHR '','' trimmed) of None \<Rightarrow> [] | Some fs \<Rightarrow> fs)"

subsection \<open>The PostgreSQL store\<close>

record kn_row =
  kr_id :: uuid
  kr_workspace_id :: uuid
  kr_kind :: string
  kr_title :: string
  kr_content :: string
  kr_embedding :: string
  kr_created_at :: instant
  kr_updated_at :: instant

definition scanDocument :: "'f vector_lib \<Rightarrow> kn_row \<Rightarrow> 'f Document" where
  "scanDocument vl r =
     \<lparr>kd_ID = kr_id r, kd_WorkspaceID = kr_workspace_id r, kd_Kind = kr_kind r, kd_Title = kr_title r, kd_Content = kr_content r,
      kd_Embedding = parseVector vl (kr_embedding r), kd_CreatedAt = kr_created_at r, kd_UpdatedAt = kr_updated_at r\<rparr>"

text \<open>The constraints of the table: the kinds, titles and contents that are not blank, and ten components.\<close>

definition kn_check :: "'f Document \<Rightarrow> bool" where
  "kn_check d \<longleftrightarrow> ValidKind (kd_Kind d) \<and> list_ex (\<lambda>c. c \<noteq> CHR '' '') (kd_Title d) \<and> list_ex (\<lambda>c. c \<noteq> CHR '' '') (kd_Content d)
     \<and> length (kd_Embedding d) = 10"

definition kn_owned :: "uuid \<Rightarrow> uuid \<Rightarrow> kn_row \<Rightarrow> bool" where
  "kn_owned ws i r \<longleftrightarrow> kr_id r = i \<and> kr_workspace_id r = ws"

text \<open>The columns both writes set.\<close>

definition kn_write :: "'f vector_lib \<Rightarrow> instant \<Rightarrow> 'f Document \<Rightarrow> kn_row \<Rightarrow> kn_row" where
  "kn_write vl now d r =
     r\<lparr>kr_kind := kd_Kind d, kr_title := kd_Title d, kr_content := kd_Content d, kr_embedding := vectorLiteral vl (kd_Embedding d),
       kr_updated_at := to_micro now\<rparr>"

text \<open>
  \<^verbatim>\<open>INSERT ... ON CONFLICT (id) DO UPDATE\<close>: the statement leaves the identifier to the database, so the
  conflict is that the one it draws is taken; the row must be of the workspace then.
\<close>

definition KnowledgeStore_Upsert ::
  "'f vector_lib \<Rightarrow> instant \<Rightarrow> uuid \<Rightarrow> uuid list \<Rightarrow> 'f Document \<Rightarrow> kn_row list \<Rightarrow> (kn_error, kn_row list \<times> 'f Document) result" where
  "KnowledgeStore_Upsert vl now gen workspaces d rows =
     (if \<not> kn_check d \<or> kd_WorkspaceID d \<notin> set workspaces then Inl ErrDatabase
      else case find (\<lambda>r. kr_id r = gen) rows of
             None \<Rightarrow>
               let r = \<lparr>kr_id = gen, kr_workspace_id = kd_WorkspaceID d, kr_kind = kd_Kind d, kr_title = kd_Title d,
                        kr_content = kd_Content d, kr_embedding = vectorLiteral vl (kd_Embedding d),
                        kr_created_at = to_micro (kd_CreatedAt d), kr_updated_at = to_micro now\<rparr>
               in Inr (rows @ [r], d\<lparr>kd_ID := gen, kd_CreatedAt := kr_created_at r, kd_UpdatedAt := kr_updated_at r\<rparr>)
           | Some r \<Rightarrow>
               if kr_workspace_id r \<noteq> kd_WorkspaceID d then Inl ErrDatabase
               else Inr (upd_where (\<lambda>x. kr_id x = gen) (kn_write vl now d) rows,
                         d\<lparr>kd_ID := gen, kd_CreatedAt := kr_created_at r, kd_UpdatedAt := to_micro now\<rparr>))"

definition KnowledgeStore_Update ::
  "'f vector_lib \<Rightarrow> instant \<Rightarrow> 'f Document \<Rightarrow> kn_row list \<Rightarrow> (kn_error, kn_row list \<times> 'f Document) result" where
  "KnowledgeStore_Update vl now d rows =
     (case find (kn_owned (kd_WorkspaceID d) (kd_ID d)) rows of
        None \<Rightarrow> Inl ErrNotFound
      | Some r \<Rightarrow>
          if \<not> kn_check d then Inl ErrDatabase
          else Inr (upd_where (kn_owned (kd_WorkspaceID d) (kd_ID d)) (kn_write vl now d) rows,
                    d\<lparr>kd_CreatedAt := kr_created_at r, kd_UpdatedAt := to_micro now\<rparr>))"

definition KnowledgeStore_Get :: "'f vector_lib \<Rightarrow> uuid \<Rightarrow> uuid \<Rightarrow> kn_row list \<Rightarrow> (kn_error, 'f Document) result" where
  "KnowledgeStore_Get vl ws i rows = (case find (kn_owned ws i) rows of None \<Rightarrow> Inl ErrNotFound | Some r \<Rightarrow> Inr (scanDocument vl r))"

definition kn_matches :: "uuid \<Rightarrow> string option \<Rightarrow> kn_row \<Rightarrow> bool" where
  "kn_matches ws kind r \<longleftrightarrow> kr_workspace_id r = ws \<and> (case kind of None \<Rightarrow> True | Some k \<Rightarrow> kr_kind r = k)"

definition KnowledgeStore_List :: "'f vector_lib \<Rightarrow> uuid \<Rightarrow> string option \<Rightarrow> kn_row list \<Rightarrow> 'f Document list" where
  "KnowledgeStore_List vl ws kind rows = map (scanDocument vl) (filter (kn_matches ws kind) rows)"

definition kn_key :: "kn_row \<Rightarrow> instant \<times> uuid" where
  "kn_key r = (kr_created_at r, kr_id r)"

definition KnowledgeStore_ListPage ::
  "'f vector_lib \<Rightarrow> (uuid \<Rightarrow> string) \<Rightarrow> uuid \<Rightarrow> kn_query \<Rightarrow> kn_row list \<Rightarrow> 'f kn_page" where
  "KnowledgeStore_ListPage vl uuid_String ws q0 rows =
     (let q = kn_Normalize q0;
          found = map (scanDocument vl) (take (nat (kq_Limit q + 1))
            (rev (sort_key kn_key
               (filter (\<lambda>r. kn_matches ws (kq_Kind q) r
                    \<and> (case kq_Before q of None \<Rightarrow> True | Some (at, i) \<Rightarrow> kn_key r < (to_micro at, i))) rows))))
      in if int (length found) > kq_Limit q
         then let page = take (nat (kq_Limit q)) found
              in \<lparr>kp_Documents = page, kp_NextCursor = kn_EncodeCursor uuid_String (last page), kp_Limit = kq_Limit q\<rparr>
         else \<lparr>kp_Documents = found, kp_NextCursor = [], kp_Limit = kq_Limit q\<rparr>)"

text \<open>
  \<^verbatim>\<open>ORDER BY embedding <=> ... LIMIT\<close>: the vector extension orders the rows by distance, which its index
  approximates; \<open>nearest\<close> is what it returns of the rows that match.
\<close>

definition KnowledgeStore_Search ::
  "'f vector_lib \<Rightarrow> (string \<Rightarrow> nat \<Rightarrow> kn_row list \<Rightarrow> kn_row list) \<Rightarrow> uuid \<Rightarrow> 'f list \<Rightarrow> string option \<Rightarrow> int \<Rightarrow> kn_row list \<Rightarrow> 'f Document list" where
  "KnowledgeStore_Search vl nearest ws query kind limit rows =
     map (scanDocument vl) (nearest (vectorLiteral vl query) (nat limit) (filter (kn_matches ws kind) rows))"

definition KnowledgeStore_Delete :: "uuid \<Rightarrow> uuid \<Rightarrow> kn_row list \<Rightarrow> (kn_error, kn_row list) result" where
  "KnowledgeStore_Delete ws i rows =
     (if count_where (kn_owned ws i) rows = 0 then Inl ErrNotFound else Inr (filter (\<lambda>r. \<not> kn_owned ws i r) rows))"

subsection \<open>The service\<close>

record kn_audit =
  ka_EventType :: string
  ka_Principle :: string
  ka_Outcome :: string
  ka_WorkspaceID :: uuid
  ka_DocumentID :: "uuid option"

text \<open>\<open>ks_embedded\<close> records the answers of the embedding provider.\<close>

record 'f kn_state =
  ks_workspaces :: "uuid list"
  ks_rows :: "kn_row list"
  ks_audit :: "kn_audit list"
  ks_events :: "(string \<times> uuid \<times> uuid) list"
  ks_embedded :: "(uuid \<times> string \<times> 'f list) list"

text \<open>The provider and the configured dimension; a provider error carries no sentinel of the domain.\<close>

record 'f embedder =
  eb_provider :: "uuid \<Rightarrow> string \<Rightarrow> int \<Rightarrow> 'f list option"
  eb_dim :: int

definition GatewayEmbedder_Embed ::
  "'f embedder \<Rightarrow> uuid \<Rightarrow> string \<Rightarrow> 'f kn_state \<Rightarrow> (kn_error, 'f list) result \<times> 'f kn_state" where
  "GatewayEmbedder_Embed eb ws content s =
     (if ws = uuid_Nil then (Inl ErrWorkspaceMismatch, s)
      else case eb_provider eb ws content (if eb_dim eb \<le> 0 then DefaultEmbeddingDimensions else eb_dim eb) of
             None \<Rightarrow> (Inl ErrProvider, s)
           | Some v \<Rightarrow> (Inr v, s\<lparr>ks_embedded := ks_embedded s @ [(ws, content, v)]\<rparr>))"

definition kn_record :: "string \<Rightarrow> string \<Rightarrow> string \<Rightarrow> uuid \<Rightarrow> uuid option \<Rightarrow> 'f kn_state \<Rightarrow> 'f kn_state" where
  "kn_record et principle oc ws i s = s\<lparr>ks_audit := ks_audit s @
     [\<lparr>ka_EventType = et, ka_Principle = principle, ka_Outcome = oc, ka_WorkspaceID = ws, ka_DocumentID = i\<rparr>]\<rparr>"

definition kn_publish :: "string \<Rightarrow> uuid \<Rightarrow> uuid \<Rightarrow> 'f kn_state \<Rightarrow> 'f kn_state" where
  "kn_publish et i ws s = s\<lparr>ks_events := ks_events s @ [(et, i, ws)]\<rparr>"

definition kn_Create ::
  "'f vector_lib \<Rightarrow> 'f embedder \<Rightarrow> instant \<Rightarrow> uuid \<times> uuid \<Rightarrow> uuid \<Rightarrow> string \<Rightarrow> string \<Rightarrow> string \<Rightarrow> 'f kn_state \<Rightarrow>
   (kn_error, 'f Document) result \<times> 'f kn_state" where
  "kn_Create vl eb now gen ws kind title content s =
     (case kn_New now (fst gen) ws kind title content of
        Inl e \<Rightarrow> (Inl e, kn_record ''knowledge.create'' ''Vision First'' ''failed'' ws None s)
      | Inr d \<Rightarrow>
          (case GatewayEmbedder_Embed eb ws (kd_Content d) s of
             (Inl e, s1) \<Rightarrow> (Inl e, kn_record ''knowledge.create'' ''AI Independence'' ''failed'' ws (Some (kd_ID d)) s1)
           | (Inr vec, s1) \<Rightarrow>
               (case KnowledgeStore_Upsert vl now (snd gen) (ks_workspaces s1) (d\<lparr>kd_Embedding := vec\<rparr>) (ks_rows s1) of
                  Inl e \<Rightarrow> (Inl e, kn_record ''knowledge.create'' ''Vision First'' ''failed'' ws (Some (kd_ID d)) s1)
                | Inr (rows, stored) \<Rightarrow>
                    (Inr stored,
                     kn_publish ''knowledge.created'' (kd_ID stored) ws
                       (kn_record ''knowledge.create'' ''Vision First'' ''success'' ws (Some (kd_ID stored)) (s1\<lparr>ks_rows := rows\<rparr>))))))"

definition kn_Get :: "'f vector_lib \<Rightarrow> uuid \<Rightarrow> uuid \<Rightarrow> kn_row list \<Rightarrow> (kn_error, 'f Document) result" where
  "kn_Get vl ws i snap =
     (case KnowledgeStore_Get vl ws i snap of
        Inl e \<Rightarrow> Inl e
      | Inr d \<Rightarrow> if kd_WorkspaceID d \<noteq> ws then Inl ErrWorkspaceMismatch else Inr d)"

definition kn_List :: "'f vector_lib \<Rightarrow> uuid \<Rightarrow> string option \<Rightarrow> kn_row list \<Rightarrow> 'f Document list" where
  "kn_List vl ws kind snap = KnowledgeStore_List vl ws kind snap"

definition kn_Search ::
  "'f vector_lib \<Rightarrow> (string \<Rightarrow> nat \<Rightarrow> kn_row list \<Rightarrow> kn_row list) \<Rightarrow> 'f embedder \<Rightarrow> uuid \<Rightarrow> string \<Rightarrow> string option \<Rightarrow> int \<Rightarrow> 'f kn_state \<Rightarrow>
   (kn_error, 'f Document list) result \<times> 'f kn_state" where
  "kn_Search vl nearest eb ws query kind limit s =
     (if ws = uuid_Nil then (Inl ErrWorkspaceMismatch, s)
      else if TrimSpace query = [] then (Inl ErrInvalidInput, s)
      else case GatewayEmbedder_Embed eb ws (TrimSpace query) s of
             (Inl e, s1) \<Rightarrow> (Inl e, s1)
           | (Inr qv, s1) \<Rightarrow>
               (Inr (KnowledgeStore_Search vl nearest ws qv kind (if limit \<le> 0 \<or> limit > 50 then 10 else limit) (ks_rows s1)),
                kn_record ''knowledge.search'' ''Privacy by Design'' ''success'' ws None s1))"

definition kn_Delete :: "uuid \<Rightarrow> uuid \<Rightarrow> 'f kn_state \<Rightarrow> kn_error option \<times> 'f kn_state" where
  "kn_Delete ws i s =
     (case KnowledgeStore_Delete ws i (ks_rows s) of
        Inl e \<Rightarrow> (Some e, s)
      | Inr rows \<Rightarrow> (None, kn_record ''knowledge.delete'' ''Security by Design'' ''success'' ws (Some i) (s\<lparr>ks_rows := rows\<rparr>)))"

text \<open>The fields of a patch, validated one after the other; the second component tells whether the content changes.\<close>

record kn_patch =
  kt_Title :: "string option"
  kt_Content :: "string option"
  kt_Kind :: "string option"

definition kn_apply :: "kn_patch \<Rightarrow> 'f Document \<Rightarrow> (kn_error, 'f Document \<times> bool) result" where
  "kn_apply p existing =
     (if (case kt_Kind p of None \<Rightarrow> False | Some k \<Rightarrow> \<not> ValidKind k) then Inl ErrInvalidKind
      else if (case kt_Title p of None \<Rightarrow> False | Some t \<Rightarrow> TrimSpace t = []) then Inl ErrInvalidInput
      else if (case kt_Content p of None \<Rightarrow> False | Some c \<Rightarrow> TrimSpace c = []) then Inl ErrInvalidInput
      else if (case kt_Content p of None \<Rightarrow> False | Some c \<Rightarrow> int (length c) > MaxContentLength) then Inl ErrTooLarge
      else Inr (existing\<lparr>kd_Kind := (case kt_Kind p of None \<Rightarrow> kd_Kind existing | Some k \<Rightarrow> k),
                         kd_Title := (case kt_Title p of None \<Rightarrow> kd_Title existing | Some t \<Rightarrow> TrimSpace t),
                         kd_Content := (case kt_Content p of None \<Rightarrow> kd_Content existing | Some c \<Rightarrow> c)\<rparr>,
                case kt_Content p of None \<Rightarrow> False | Some c \<Rightarrow> c \<noteq> kd_Content existing))"

definition kn_Update ::
  "'f vector_lib \<Rightarrow> 'f embedder \<Rightarrow> instant \<Rightarrow> kn_row list \<Rightarrow> uuid \<Rightarrow> uuid \<Rightarrow> kn_patch \<Rightarrow> 'f kn_state \<Rightarrow>
   (kn_error, 'f Document) result \<times> 'f kn_state" where
  "kn_Update vl eb now snap ws i p s =
     (if ws = uuid_Nil then (Inl ErrWorkspaceMismatch, s)
      else case KnowledgeStore_Get vl ws i snap of
        Inl e \<Rightarrow> (Inl e, s)
      | Inr existing \<Rightarrow>
          if kd_WorkspaceID existing \<noteq> ws then (Inl ErrWorkspaceMismatch, s)
          else (case kn_apply p existing of
             Inl e \<Rightarrow> (Inl e, kn_record ''knowledge.update'' ''Vision First'' ''failed'' ws (Some i) s)
           | Inr (next, contentChanged) \<Rightarrow>
               (case (if contentChanged then GatewayEmbedder_Embed eb ws (kd_Content next) s else (Inr (kd_Embedding next), s)) of
                  (Inl e, s1) \<Rightarrow> (Inl e, kn_record ''knowledge.update'' ''AI Independence'' ''failed'' ws (Some i) s1)
                | (Inr vec, s1) \<Rightarrow>
                    (case KnowledgeStore_Update vl now (next\<lparr>kd_UpdatedAt := now, kd_Embedding := vec\<rparr>) (ks_rows s1) of
                       Inl e \<Rightarrow> (Inl e, kn_record ''knowledge.update'' ''Vision First'' ''failed'' ws (Some i) s1)
                     | Inr (rows, stored) \<Rightarrow>
                         (Inr stored,
                          kn_publish ''knowledge.updated'' (kd_ID stored) ws
                            (kn_record ''knowledge.update'' ''Vision First'' ''success'' ws (Some (kd_ID stored)) (s1\<lparr>ks_rows := rows\<rparr>)))))))"

definition kn_ListPage ::
  "'f vector_lib \<Rightarrow> (uuid \<Rightarrow> string) \<Rightarrow> uuid \<Rightarrow> kn_query \<Rightarrow> kn_row list \<Rightarrow> (kn_error, 'f kn_page) result" where
  "kn_ListPage vl uuid_String ws q snap =
     (if ws = uuid_Nil then Inl ErrWorkspaceMismatch else Inr (KnowledgeStore_ListPage vl uuid_String ws (kn_Normalize q) snap))"

subsection \<open>Vectors are read back as they were written\<close>

lemma TrimSpace_number: "s \<noteq> [] \<Longrightarrow> list_all number_char s \<Longrightarrow> TrimSpace s = s"
proof (rule TrimSpace_plain)
  assume s: "s \<noteq> []" "list_all number_char s"
  have plain: "c \<notin> hd ` (set go_spaces - {[]})" "c \<notin> hd ` (set (map rev go_spaces) - {[]})" if "number_char c" for c
  proof -
    have "list_all (\<lambda>c. \<not> number_char c) (map hd (filter (\<lambda>p. p \<noteq> []) go_spaces))"
      "list_all (\<lambda>c. \<not> number_char c) (map hd (filter (\<lambda>p. p \<noteq> []) (map rev go_spaces)))" by code_simp+
    with that show "c \<notin> hd ` (set go_spaces - {[]})" "c \<notin> hd ` (set (map rev go_spaces) - {[]})"
      unfolding list_all_iff by fastforce+
  qed
  have "number_char (hd s)" "number_char (last s)" using s by (auto simp: list_all_iff)
  then show "hd s \<notin> hd ` (set go_spaces - {[]})" "last s \<notin> hd ` (set (map rev go_spaces) - {[]})" using plain by blast+
qed

lemma TrimSpace_brackets: "TrimSpace (CHR ''['' # s @ '']'') = CHR ''['' # s @ '']''"
proof (rule TrimSpace_plain)
  have "list_all (\<lambda>c. c \<noteq> CHR ''['') (map hd (filter (\<lambda>p. p \<noteq> []) go_spaces))"
    "list_all (\<lambda>c. c \<noteq> CHR '']'') (map hd (filter (\<lambda>p. p \<noteq> []) (map rev go_spaces)))" by code_simp+
  then show "hd (CHR ''['' # s @ '']'') \<notin> hd ` (set go_spaces - {[]})"
    "last (CHR ''['' # s @ '']'') \<notin> hd ` (set (map rev go_spaces) - {[]})"
    unfolding list_all_iff by fastforce+
qed simp

lemma Split_no_sep: "c \<notin> set x \<Longrightarrow> Split c x = [x]"
  by (induction x) auto

lemma Split_append: "c \<notin> set x \<Longrightarrow> Split c (x @ c # ys) = x # Split c ys"
  by (induction x) auto

lemma Split_Join: "xs \<noteq> [] \<Longrightarrow> list_all (\<lambda>x. c \<notin> set x) xs \<Longrightarrow> Split c (Join [c] xs) = xs"
  by (induction "[c]" xs rule: Join.induct) (simp_all add: Split_no_sep Split_append)

lemma Join_chars: "list_all (list_all P) xs \<Longrightarrow> list_all P sep \<Longrightarrow> list_all P (Join sep xs)"
  by (induction sep xs rule: Join.induct) simp_all

lemma Join_Nil_iff: "list_all (\<lambda>x. x \<noteq> []) xs \<Longrightarrow> Join sep xs = [] \<longleftrightarrow> xs = []"
  by (induction sep xs rule: Join.induct) auto

lemma Trim_brackets: "list_all (\<lambda>c. c \<notin> set ''[]'') s \<Longrightarrow> Trim (CHR ''['' # s @ '']'') ''[]'' = s"
proof -
  assume s: "list_all (\<lambda>c. c \<notin> set ''[]'') s"
  have keep: "dropWhile (\<lambda>c. c \<in> set ''[]'') t = t" if "list_all (\<lambda>c. c \<notin> set ''[]'') t" for t :: string
    using that by (cases t) auto
  have "dropWhile (\<lambda>c. c \<in> set ''[]'') (CHR ''['' # s @ '']'') = dropWhile (\<lambda>c. c \<in> set ''[]'') (s @ '']'')" by simp
  also have "\<dots> = (if s = [] then [] else s @ '']'')" using s by (cases s) auto
  finally show ?thesis using s keep [of "rev s"] by (auto simp: Trim_def)
qed

text \<open>What the store writes of a vector is what it reads of it.\<close>

lemma vector_roundtrip:
  assumes "number_texts vl"
  shows "parseVector vl (vectorLiteral vl v) = v"
proof (cases "v = []")
  case True
  have "TrimSpace ''[]'' = ''[]''" "Trim ''[]'' ''[]'' = []" by code_simp+
  then show ?thesis using True by (simp add: parseVector_def vectorLiteral_def)
next
  case False
  let ?xs = "map (vl_format vl) v"
  have law: "vl_scan vl (vl_format vl f) = Some f" "vl_format vl f \<noteq> []" "list_all number_char (vl_format vl f)" for f
    using assms by (auto simp: number_texts_def)
  have sep: "\<not> number_char CHR '',''" "\<not> number_char CHR ''[''" "\<not> number_char CHR '']''" by code_simp+
  have "list_all (list_all (\<lambda>c. c \<notin> set ''[]'')) ?xs"
    using law(3) sep by (auto simp: list_all_iff)
  then have body: "list_all (\<lambda>c. c \<notin> set ''[]'') (Join '','' ?xs)" by (rule Join_chars) simp
  have "list_all (\<lambda>x. CHR '','' \<notin> set x) ?xs" using law(3) sep by (auto simp: list_all_iff)
  then have "Split CHR '','' (Join '','' ?xs) = ?xs" using False by (intro Split_Join) simp_all
  moreover have "scan_all vl (map (vl_format vl) fs) = Some fs" for fs
    by (induction fs) (simp_all add: TrimSpace_number law)
  moreover have "Join '','' ?xs \<noteq> []"
    using False law(2) Join_Nil_iff [of ?xs] by (auto simp: list_all_iff)
  ultimately show ?thesis
    using Trim_brackets [OF body] TrimSpace_brackets [of "Join '','' ?xs"] by (simp add: parseVector_def vectorLiteral_def Let_def)
qed

subsection \<open>Interleaved requests\<close>

record 'f kn_world =
  kw_now :: "'f kn_state"
  kw_past :: "kn_row list set"

definition kn_tables :: "'f kn_world \<Rightarrow> kn_row list set" where
  "kn_tables w = insert (ks_rows (kw_now w)) (kw_past w)"

text \<open>A request works on the table as it is or, where it has read before, as it once was.\<close>

inductive kn_step :: "'f vector_lib \<Rightarrow> 'f kn_world \<Rightarrow> 'f kn_world \<Rightarrow> bool" for vl where
  kn_create: "kn_Create vl eb now gen ws kind title content (kw_now w) = (r, s) \<Longrightarrow> kn_step vl w \<lparr>kw_now = s, kw_past = kn_tables w\<rparr>"
| kn_update: "snap \<in> kn_tables w \<Longrightarrow> kn_Update vl eb now snap ws i p (kw_now w) = (r, s) \<Longrightarrow>
    kn_step vl w \<lparr>kw_now = s, kw_past = kn_tables w\<rparr>"
| kn_delete: "kn_Delete ws i (kw_now w) = (e, s) \<Longrightarrow> kn_step vl w \<lparr>kw_now = s, kw_past = kn_tables w\<rparr>"
| kn_search: "kn_Search vl nearest eb ws query kind limit (kw_now w) = (found, s) \<Longrightarrow> kn_step vl w \<lparr>kw_now = s, kw_past = kn_tables w\<rparr>"

definition kn_initial :: "'f kn_world \<Rightarrow> bool" where
  "kn_initial w \<longleftrightarrow> ks_rows (kw_now w) = [] \<and> kw_past w = {}"

text \<open>A document creation would accept, with a vector the provider gave for its content.\<close>

definition kn_fields :: "uuid \<Rightarrow> string \<Rightarrow> string \<Rightarrow> string \<Rightarrow> bool" where
  "kn_fields ws kind title content \<longleftrightarrow> ws \<noteq> uuid_Nil \<and> ValidKind kind \<and> title \<noteq> [] \<and> TrimSpace title = title
     \<and> TrimSpace content \<noteq> [] \<and> int (length content) \<le> MaxContentLength"

definition kn_row_ok :: "'f vector_lib \<Rightarrow> (uuid \<times> string \<times> 'f list) list \<Rightarrow> kn_row \<Rightarrow> bool" where
  "kn_row_ok vl E r \<longleftrightarrow> kn_fields (kr_workspace_id r) (kr_kind r) (kr_title r) (kr_content r)
     \<and> (\<exists>v. (kr_workspace_id r, kr_content r, v) \<in> set E \<and> kr_embedding r = vectorLiteral vl v)"

definition kn_inv :: "'f vector_lib \<Rightarrow> 'f kn_world \<Rightarrow> bool" where
  "kn_inv vl w \<longleftrightarrow> number_texts vl \<and> distinct (map kr_id (ks_rows (kw_now w)))
     \<and> (\<forall>T \<in> kn_tables w. \<forall>r \<in> set T. kn_row_ok vl (ks_embedded (kw_now w)) r)"

text \<open>What one request does to the rows and to the answers of the provider.\<close>

definition kn_advances :: "'f vector_lib \<Rightarrow> 'f kn_state \<Rightarrow> 'f kn_state \<Rightarrow> bool" where
  "kn_advances vl s t \<longleftrightarrow> set (ks_embedded s) \<subseteq> set (ks_embedded t) \<and> distinct (map kr_id (ks_rows t))
     \<and> (\<forall>r \<in> set (ks_rows t). r \<in> set (ks_rows s) \<or> kn_row_ok vl (ks_embedded t) r)"

lemma kn_frame [simp]:
  "ks_rows (kn_record et pr oc ws i s) = ks_rows s" "ks_embedded (kn_record et pr oc ws i s) = ks_embedded s"
  "ks_rows (kn_publish et j ws s) = ks_rows s" "ks_embedded (kn_publish et j ws s) = ks_embedded s"
  "ks_workspaces (kn_record et pr oc ws i s) = ks_workspaces s" "ks_workspaces (kn_publish et j ws s) = ks_workspaces s"
  by (simp_all add: kn_record_def kn_publish_def)

lemma Embed_rows:
  "GatewayEmbedder_Embed eb ws c s = (r, t) \<Longrightarrow>
   ks_rows t = ks_rows s \<and> set (ks_embedded s) \<subseteq> set (ks_embedded t) \<and> (\<forall>v. r = Inr v \<longrightarrow> (ws, c, v) \<in> set (ks_embedded t))"
  by (auto simp: GatewayEmbedder_Embed_def split: if_splits option.splits)

lemma kn_New_Inr:
  "kn_New now gen ws kind title content = Inr d \<Longrightarrow>
   kn_fields ws kind (kd_Title d) content \<and> kd_WorkspaceID d = ws \<and> kd_Kind d = kind \<and> kd_Content d = content \<and> kd_ID d = gen"
  by (auto simp: kn_New_def kn_fields_def TrimSpace_idem split: if_splits)

lemma kn_fields_New:
  "kn_fields ws kind title content \<Longrightarrow> \<exists>d :: 'f Document. kn_New now gen ws kind title content = Inr d \<and> kd_Title d = title"
  by (auto simp: kn_New_def kn_fields_def)

lemma kn_write_fields [simp]:
  "kr_id (kn_write vl now d r) = kr_id r" "kr_workspace_id (kn_write vl now d r) = kr_workspace_id r"
  "kr_created_at (kn_write vl now d r) = kr_created_at r"
  by (simp_all add: kn_write_def)

lemma kn_written:
  assumes "kn_fields (kr_workspace_id r) (kd_Kind d) (kd_Title d) (kd_Content d)"
    "(kr_workspace_id r, kd_Content d, kd_Embedding d) \<in> set E"
  shows "kn_row_ok vl E (kn_write vl now d r)"
  using assms by (auto simp: kn_row_ok_def kn_write_def)

lemma Upsert_advances:
  assumes "KnowledgeStore_Upsert vl now gen wss d (ks_rows s) = Inr (rows, stored)" "distinct (map kr_id (ks_rows s))"
    and "kn_fields (kd_WorkspaceID d) (kd_Kind d) (kd_Title d) (kd_Content d)"
    and "(kd_WorkspaceID d, kd_Content d, kd_Embedding d) \<in> set E"
  shows "distinct (map kr_id rows) \<and> (\<forall>r \<in> set rows. r \<in> set (ks_rows s) \<or> kn_row_ok vl E r)"
proof (cases "find (\<lambda>r. kr_id r = gen) (ks_rows s)")
  case None
  then have "gen \<notin> kr_id ` set (ks_rows s)" by (auto dest: find_NoneD)
  moreover obtain r where r: "rows = ks_rows s @ [r]" "kr_id r = gen" "kr_workspace_id r = kd_WorkspaceID d" "kr_kind r = kd_Kind d"
    "kr_title r = kd_Title d" "kr_content r = kd_Content d" "kr_embedding r = vectorLiteral vl (kd_Embedding d)"
    using assms(1) None by (auto simp: KnowledgeStore_Upsert_def Let_def split: if_splits)
  moreover have "kn_row_ok vl E r" unfolding kn_row_ok_def using r assms(3,4) by auto
  ultimately show ?thesis using assms(2) by auto
next
  case (Some r)
  then have r: "r \<in> set (ks_rows s)" "kr_id r = gen" by (auto dest: find_SomeD)
  have u: "rows = upd_where (\<lambda>x. kr_id x = gen) (kn_write vl now d) (ks_rows s)" "kr_workspace_id r = kd_WorkspaceID d"
    using assms(1) Some by (auto simp: KnowledgeStore_Upsert_def split: if_splits)
  have "x = r" if "x \<in> set (ks_rows s)" "kr_id x = gen" for x
    using distinct_map_keyD [OF assms(2)] that r by blast
  then have "kn_row_ok vl E (kn_write vl now d x)" if "x \<in> set (ks_rows s)" "kr_id x = gen" for x
    using that u(2) assms(3,4) by (intro kn_written) auto
  then show ?thesis
    using assms(2) by (auto simp: u(1) set_upd_where map_upd_where_key kn_write_def)
qed

lemma Update_advances:
  assumes "KnowledgeStore_Update vl now d (ks_rows s) = Inr (rows, stored)" "distinct (map kr_id (ks_rows s))"
    and "kn_fields (kd_WorkspaceID d) (kd_Kind d) (kd_Title d) (kd_Content d)"
    and "(kd_WorkspaceID d, kd_Content d, kd_Embedding d) \<in> set E"
  shows "distinct (map kr_id rows) \<and> (\<forall>r \<in> set rows. r \<in> set (ks_rows s) \<or> kn_row_ok vl E r)"
proof -
  have u: "rows = upd_where (kn_owned (kd_WorkspaceID d) (kd_ID d)) (kn_write vl now d) (ks_rows s)"
    using assms(1) by (auto simp: KnowledgeStore_Update_def split: option.splits if_splits)
  have "kn_row_ok vl E (kn_write vl now d x)" if "kn_owned (kd_WorkspaceID d) (kd_ID d) x" for x
    using that assms(3,4) by (intro kn_written) (auto simp: kn_owned_def)
  then show ?thesis
    using assms(2) by (auto simp: u set_upd_where map_upd_where_key kn_write_def)
qed

lemma kn_apply_Inr:
  assumes "kn_apply p d = Inr (next, changed)" "kn_fields ws (kd_Kind d) (kd_Title d) (kd_Content d)"
  shows "kn_fields ws (kd_Kind next) (kd_Title next) (kd_Content next) \<and> kd_WorkspaceID next = kd_WorkspaceID d \<and> kd_ID next = kd_ID d
    \<and> kd_Embedding next = kd_Embedding d \<and> (\<not> changed \<longrightarrow> kd_Content next = kd_Content d)"
  using assms by (auto simp: kn_apply_def kn_fields_def TrimSpace_idem split: if_splits option.splits)

lemma kn_advances_same: "ks_rows t = ks_rows s \<Longrightarrow> set (ks_embedded s) \<subseteq> set (ks_embedded t) \<Longrightarrow>
    distinct (map kr_id (ks_rows s)) \<Longrightarrow> kn_advances vl s t"
  by (simp add: kn_advances_def)

lemma kn_Create_advances:
  assumes "kn_Create vl eb now gen ws kind title content s = (r, t)" "distinct (map kr_id (ks_rows s))"
  shows "kn_advances vl s t"
proof (cases "kn_New now (fst gen) ws kind title content :: (kn_error, 'a Document) result")
  case (Inl e)
  with assms show ?thesis by (auto simp: kn_Create_def kn_advances_def)
next
  case (Inr d)
  note d = kn_New_Inr [OF this]
  obtain a s1 where e: "GatewayEmbedder_Embed eb ws (kd_Content d) s = (a, s1)" by fastforce
  note s1 = Embed_rows [OF e]
  show ?thesis
  proof (cases a)
    case (Inl e')
    with assms Inr e s1 show ?thesis by (auto simp: kn_Create_def kn_advances_def)
  next
    case (Inr vec)
    let ?d = "d\<lparr>kd_Embedding := vec\<rparr>"
    show ?thesis
    proof (cases "KnowledgeStore_Upsert vl now (snd gen) (ks_workspaces s1) ?d (ks_rows s1)")
      case (Inl e')
      with assms \<open>kn_New now (fst gen) ws kind title content = Inr d\<close> e Inr s1 show ?thesis
        by (auto simp: kn_Create_def kn_advances_def)
    next
      case (Inr u)
      obtain rows stored where u: "u = (rows, stored)" by fastforce
      have "distinct (map kr_id rows) \<and> (\<forall>r \<in> set rows. r \<in> set (ks_rows s1) \<or> kn_row_ok vl (ks_embedded s1) r)"
        using Upsert_advances [OF Inr [unfolded u], of "ks_embedded s1"] d s1 \<open>a = Inr vec\<close> assms(2) by simp
      moreover have "ks_rows t = rows" "ks_embedded t = ks_embedded s1"
        using assms(1) \<open>kn_New now (fst gen) ws kind title content = Inr d\<close> e \<open>a = Inr vec\<close> Inr u by (auto simp: kn_Create_def)
      ultimately show ?thesis using s1 by (auto simp: kn_advances_def)
    qed
  qed
qed

lemma kn_Update_advances:
  assumes "kn_Update vl eb now snap ws i p s = (r, t)" "distinct (map kr_id (ks_rows s))" "number_texts vl"
    and "\<forall>x \<in> set snap. kn_row_ok vl (ks_embedded s) x"
  shows "kn_advances vl s t"
proof -
  have same: "kn_advances vl s s'" if "ks_rows s' = ks_rows s" "set (ks_embedded s) \<subseteq> set (ks_embedded s')" for s'
    using that assms(2) by (rule kn_advances_same)
  show ?thesis
  proof (cases "ws \<noteq> uuid_Nil \<and> (\<exists>d next c. KnowledgeStore_Get vl ws i snap = Inr d \<and> kn_apply p d = Inr (next, c))")
    case False
    then have "ks_rows t = ks_rows s \<and> ks_embedded t = ks_embedded s"
      using assms(1) by (auto simp: kn_Update_def split: if_splits sum.splits)
    then show ?thesis by (intro same) simp_all
  next
    case True
    then obtain d "next" c where g: "ws \<noteq> uuid_Nil" "KnowledgeStore_Get vl ws i snap = Inr d" "kn_apply p d = Inr (next, c)" by blast
    then obtain x where x: "x \<in> set snap" "kn_owned ws i x" "d = scanDocument vl x"
      by (auto simp: KnowledgeStore_Get_def split: option.splits dest: find_SomeD)
    then have ok: "kn_row_ok vl (ks_embedded s) x" and dx: "kd_WorkspaceID d = ws" "kd_ID d = i"
      using assms(4) by (auto simp: kn_owned_def scanDocument_def)
    then obtain v where v: "(ws, kr_content x, v) \<in> set (ks_embedded s)" "kr_embedding x = vectorLiteral vl v"
      using x(2) by (auto simp: kn_row_ok_def kn_owned_def)
    have f: "kn_fields ws (kd_Kind d) (kd_Title d) (kd_Content d)" "(ws, kd_Content d, kd_Embedding d) \<in> set (ks_embedded s)"
      using ok x v vector_roundtrip [OF assms(3)] by (auto simp: kn_row_ok_def scanDocument_def kn_owned_def)
    note n = kn_apply_Inr [OF g(3) f(1)]
    obtain a s1 where e: "(if c then GatewayEmbedder_Embed eb ws (kd_Content next) s else (Inr (kd_Embedding next), s)) = (a, s1)" by fastforce
    have s1: "ks_rows s1 = ks_rows s" "set (ks_embedded s) \<subseteq> set (ks_embedded s1)"
      and vec: "\<And>vec. a = Inr vec \<Longrightarrow> (ws, kd_Content next, vec) \<in> set (ks_embedded s1)"
      using e Embed_rows n f(2) by (auto split: if_splits dest!: Embed_rows)
    let ?d = "\<lambda>vec. next\<lparr>kd_UpdatedAt := now, kd_Embedding := vec\<rparr>"
    have "(\<exists>e'. ks_rows t = ks_rows s1) \<and> ks_embedded t = ks_embedded s1
        \<or> (\<exists>vec rows stored. a = Inr vec \<and> KnowledgeStore_Update vl now (?d vec) (ks_rows s1) = Inr (rows, stored)
             \<and> ks_rows t = rows \<and> ks_embedded t = ks_embedded s1)"
      using assms(1) g dx e by (auto simp: kn_Update_def split: sum.splits if_splits prod.splits)
    then show ?thesis
    proof (elim disjE exE conjE)
      fix vec rows stored
      assume u: "a = Inr vec" "KnowledgeStore_Update vl now (?d vec) (ks_rows s1) = Inr (rows, stored)"
        "ks_rows t = rows" "ks_embedded t = ks_embedded s1"
      have "distinct (map kr_id rows) \<and> (\<forall>r \<in> set rows. r \<in> set (ks_rows s1) \<or> kn_row_ok vl (ks_embedded s1) r)"
        using Update_advances [OF u(2), of "ks_embedded s1"] n vec [OF u(1)] s1 assms(2) dx by simp
      then show ?thesis using u s1 by (auto simp: kn_advances_def)
    qed (use same s1 in auto)
  qed
qed

lemma kn_Delete_advances: "kn_Delete ws i s = (e, t) \<Longrightarrow> distinct (map kr_id (ks_rows s)) \<Longrightarrow> kn_advances vl s t"
  by (auto simp: kn_Delete_def KnowledgeStore_Delete_def kn_advances_def distinct_map_filter split: sum.splits if_splits)

lemma kn_Search_advances: "kn_Search vl nearest eb ws query kind limit s = (r, t) \<Longrightarrow> distinct (map kr_id (ks_rows s)) \<Longrightarrow> kn_advances vl s t"
  by (auto simp: kn_Search_def split: if_splits sum.splits prod.splits dest!: Embed_rows intro!: kn_advances_same)

lemma kn_row_ok_mono: "kn_row_ok vl E r \<Longrightarrow> set E \<subseteq> set F \<Longrightarrow> kn_row_ok vl F r"
  by (auto simp: kn_row_ok_def)

lemma kn_step_inv: "kn_step vl w w' \<Longrightarrow> kn_inv vl w \<Longrightarrow> kn_inv vl w'"
proof -
  assume inv: "kn_inv vl w"
  then have d: "distinct (map kr_id (ks_rows (kw_now w)))" "number_texts vl"
    and ok: "\<And>T. T \<in> kn_tables w \<Longrightarrow> \<forall>x \<in> set T. kn_row_ok vl (ks_embedded (kw_now w)) x" by (auto simp: kn_inv_def)
  assume "kn_step vl w w'"
  then have "kn_advances vl (kw_now w) (kw_now w') \<and> kw_past w' = kn_tables w"
    by cases (use d ok kn_Create_advances kn_Update_advances kn_Delete_advances kn_Search_advances in \<open>fastforce+\<close>)
  moreover from this have "kn_row_ok vl (ks_embedded (kw_now w')) x" if "T \<in> kn_tables w" "x \<in> set T" for T x
    using ok [OF that(1)] that(2) kn_row_ok_mono unfolding kn_advances_def by blast
  ultimately show "kn_inv vl w'"
    using d(2) unfolding kn_inv_def kn_advances_def by (auto simp: kn_tables_def)
qed

interpretation knowledge: invariant "\<lambda>w. number_texts vl \<and> kn_initial w" "kn_step vl" "kn_inv vl" for vl
proof
  show "kn_inv vl w" if "number_texts vl \<and> kn_initial w" for w
    using that by (simp add: kn_inv_def kn_initial_def kn_tables_def)
qed (rule kn_step_inv)

text \<open>
  C32. Search ranks what is stored. Whatever requests interleave, however stale the documents their
  updates start from, every stored document is one that creation would accept as it stands, and its vector
  is an answer of the embedding provider for exactly its content in its workspace.
\<close>

theorem knowledge_vectors_track_content:
  assumes "number_texts (vl :: 'f vector_lib)" "kn_initial w0" "runs (kn_step vl) w0 w" "r \<in> set (ks_rows (kw_now w))"
  shows "(kr_workspace_id r, kr_content r, kd_Embedding (scanDocument vl r)) \<in> set (ks_embedded (kw_now w))
    \<and> (\<exists>d :: 'f Document. kn_New now gen (kr_workspace_id r) (kr_kind r) (kr_title r) (kr_content r) = Inr d \<and> kd_Title d = kr_title r)"
proof -
  have "kn_inv vl w" using knowledge.inv_reachable [OF _ assms(3)] assms(1,2) by blast
  then have ok: "kn_row_ok vl (ks_embedded (kw_now w)) r" using assms(4) by (auto simp: kn_inv_def kn_tables_def)
  then obtain v where v: "(kr_workspace_id r, kr_content r, v) \<in> set (ks_embedded (kw_now w))" "kr_embedding r = vectorLiteral vl v"
    by (auto simp: kn_row_ok_def)
  have "kd_Embedding (scanDocument vl r) = v"
    using v(2) vector_roundtrip [OF assms(1), of v] by (simp add: scanDocument_def)
  with v(1) ok kn_fields_New show ?thesis by (auto simp: kn_row_ok_def)
qed

text \<open>A document created and then given another content, with whole numbers for components and lengths for a provider.\<close>

definition whole_numbers :: "nat vector_lib" where
  "whole_numbers = \<lparr>vl_format = Itoa, vl_scan = (\<lambda>s. if s \<noteq> [] \<and> list_all is_digit s then Some (digits_value s) else None)\<rparr>"

lemma whole_numbers_texts: "number_texts whole_numbers"
  using Itoa_digits Itoa_not_Nil by (auto simp: number_texts_def whole_numbers_def number_char_def list_all_iff)

definition length_embedder :: "nat embedder" where
  "length_embedder = \<lparr>eb_provider = (\<lambda>ws c dim. Some (replicate (nat dim) (length c))), eb_dim = 0\<rparr>"

definition kn_empty :: "nat kn_state" where
  "kn_empty = \<lparr>ks_workspaces = [1], ks_rows = [], ks_audit = [], ks_events = [], ks_embedded = []\<rparr>"

definition kn_created :: "nat kn_state" where
  "kn_created = snd (kn_Create whole_numbers length_embedder 7000 (2, 3) 1 KindDocument '' tone '' ''be brief'' kn_empty)"

definition kn_edited :: "nat kn_state" where
  "kn_edited = snd (kn_Update whole_numbers length_embedder 9000 (ks_rows kn_created) 1 3
     \<lparr>kt_Title = None, kt_Content = Some ''be brief, be kind'', kt_Kind = None\<rparr> kn_created)"

definition kn_edited_row :: kn_row where
  "kn_edited_row = \<lparr>kr_id = 3, kr_workspace_id = 1, kr_kind = ''document'', kr_title = ''tone'', kr_content = ''be brief, be kind'',
     kr_embedding = ''[17,17,17,17,17,17,17,17,17,17]'', kr_created_at = 7000, kr_updated_at = 9000\<rparr>"

lemma kn_edited_rows: "ks_rows kn_edited = [kn_edited_row]"
  by code_simp

lemma kn_edited_runs: "\<exists>past. runs (kn_step whole_numbers) \<lparr>kw_now = kn_empty, kw_past = {}\<rparr> \<lparr>kw_now = kn_edited, kw_past = past\<rparr>"
proof -
  let ?w0 = "\<lparr>kw_now = kn_empty, kw_past = {}\<rparr>"
  let ?w1 = "\<lparr>kw_now = kn_created, kw_past = kn_tables ?w0\<rparr>"
  have "kn_step whole_numbers ?w0 ?w1"
    by (rule kn_create [of _ length_embedder 7000 "(2, 3)" 1 KindDocument "'' tone ''" "''be brief''"]) (simp add: kn_created_def prod_eq_iff)
  moreover have "kn_step whole_numbers ?w1 \<lparr>kw_now = kn_edited, kw_past = kn_tables ?w1\<rparr>"
    by (rule kn_update [of "ks_rows kn_created" _ _ length_embedder 9000 1 3
          "\<lparr>kt_Title = None, kt_Content = Some ''be brief, be kind'', kt_Kind = None\<rparr>"])
      (simp_all add: kn_edited_def kn_tables_def prod_eq_iff)
  ultimately show ?thesis by (blast intro: runs_refl runs_step)
qed

theorem knowledge_vectors_track_content_witness:
  "(1, ''be brief, be kind'', kd_Embedding (scanDocument whole_numbers kn_edited_row)) \<in> set (ks_embedded kn_edited)"
proof -
  obtain past where "runs (kn_step whole_numbers) \<lparr>kw_now = kn_empty, kw_past = {}\<rparr> \<lparr>kw_now = kn_edited, kw_past = past\<rparr>"
    using kn_edited_runs by blast
  from knowledge_vectors_track_content [OF whole_numbers_texts _ this, of kn_edited_row 0 0]
  have "(kr_workspace_id kn_edited_row, kr_content kn_edited_row, kd_Embedding (scanDocument whole_numbers kn_edited_row)) \<in> set (ks_embedded kn_edited)"
    by (simp add: kn_initial_def kn_empty_def kn_edited_rows)
  moreover have "kr_workspace_id kn_edited_row = 1" "kr_content kn_edited_row = ''be brief, be kind''"
    by (simp_all add: kn_edited_row_def)
  ultimately show ?thesis by metis
qed

end
