(* ===== verification/Audit_Chain.thy ===== *)
theory Audit_Chain
  imports Go_Text
begin

text \<open>
  The tamper-evident audit log: the hash chain (\<^verbatim>\<open>internal/audit/audit.go\<close>), redaction
  (\<^verbatim>\<open>internal/audit/store.go\<close>) and the persistent writer
  (\<^verbatim>\<open>infrastructure/auditstore/store.go\<close>).

  SHA-256, the keyed HMAC, the text of a UUID, the RFC 3339 text of a time and its parser,
  and the JSON codecs are parameters, the fields of \<open>audit_lib\<close>. The table holds its columns
  as the insert statement writes them, with the identity sequence of \<^verbatim>\<open>seq\<close>; an append holds
  the advisory lock of the chain for its whole transaction, so it is one step.
\<close>

subsection \<open>Pre-images\<close>

record audit_lib =
  al_sha256 :: "string \<Rightarrow> string"
  al_hmac :: "string \<Rightarrow> string"
  al_uuid_String :: "uuid \<Rightarrow> string"
  al_format :: "instant \<Rightarrow> string"
  al_parse :: "string \<Rightarrow> instant option"
  al_json_bytes :: "string \<Rightarrow> string"
  al_unjson_bytes :: "string \<Rightarrow> string option"
  al_json_details :: "(string \<times> string) list \<Rightarrow> string option"

record AuditEvent =
  ae_ID :: uuid
  ae_EventID :: uuid
  ae_Timestamp :: instant
  ae_TraceID :: uuid
  ae_SpanID :: uuid
  ae_ActorType :: string
  ae_ActorID :: uuid
  ae_TargetType :: string
  ae_TargetID :: uuid
  ae_EventType :: string
  ae_Outcome :: string
  ae_HashParent :: uuid
  ae_HashValue :: string
  ae_HashGeneratedAt :: instant
  ae_DigitalSignature :: string
  ae_SignatureGeneratedAt :: instant
  ae_Genesis :: bool
  ae_ConstitutionalPrinciple :: string

definition GENESIS_HASH :: string where
  "GENESIS_HASH = replicate 64 CHR ''0''"

definition writeField :: "string \<Rightarrow> string" where
  "writeField s = Itoa (length s) @ '':'' @ s @ '',''"

definition hex_digit :: "nat \<Rightarrow> char" where
  "hex_digit d = ''0123456789abcdef'' ! (d mod 16)"

definition EncodeToString :: "string \<Rightarrow> string" where
  "EncodeToString bs = concat (map (\<lambda>c. [hex_digit (of_char c div 16), hex_digit (of_char c)]) bs)"

definition FormatBool :: "bool \<Rightarrow> string" where
  "FormatBool b = (if b then ''true'' else ''false'')"

definition GenesisPreimage :: "audit_lib \<Rightarrow> AuditEvent \<Rightarrow> string" where
  "GenesisPreimage lib ev =
     writeField GENESIS_HASH
     @ writeField (al_format lib (ae_Timestamp ev))
     @ writeField (ae_Outcome ev)
     @ writeField (ae_ConstitutionalPrinciple ev)"

definition ChainPreimage :: "audit_lib \<Rightarrow> AuditEvent \<Rightarrow> AuditEvent \<Rightarrow> string" where
  "ChainPreimage lib prev ev =
     writeField (al_uuid_String lib (ae_EventID prev))
     @ writeField (EncodeToString (ae_HashValue prev))
     @ writeField (al_format lib (ae_Timestamp prev))
     @ writeField (FormatBool (ae_Genesis prev))
     @ writeField (al_uuid_String lib (ae_EventID ev))
     @ writeField (al_format lib (ae_Timestamp ev))
     @ writeField (ae_EventType ev)
     @ writeField (ae_ActorType ev)
     @ writeField (al_uuid_String lib (ae_ActorID ev))
     @ writeField (ae_TargetType ev)
     @ writeField (al_uuid_String lib (ae_TargetID ev))
     @ writeField (ae_Outcome ev)
     @ writeField (ae_ConstitutionalPrinciple ev)"

subsection \<open>Events\<close>

definition signHash :: "audit_lib \<Rightarrow> string \<Rightarrow> string" where
  "signHash lib h = al_hmac lib h"

definition sealed :: "audit_lib \<Rightarrow> instant \<Rightarrow> string \<Rightarrow> AuditEvent \<Rightarrow> AuditEvent" where
  "sealed lib now h ev = ev\<lparr>ae_HashValue := h, ae_DigitalSignature := signHash lib h, ae_SignatureGeneratedAt := now\<rparr>"

text \<open>The identifiers are those \<^verbatim>\<open>uuid.New\<close> generates.\<close>

definition GenesisEvent :: "audit_lib \<Rightarrow> instant \<Rightarrow> uuid \<times> uuid \<Rightarrow> string \<Rightarrow> AuditEvent" where
  "GenesisEvent lib now ids principle =
     (let ev = \<lparr>ae_ID = fst ids, ae_EventID = snd ids, ae_Timestamp = now, ae_TraceID = uuid_Nil, ae_SpanID = uuid_Nil,
                ae_ActorType = [], ae_ActorID = uuid_Nil, ae_TargetType = [], ae_TargetID = uuid_Nil, ae_EventType = [],
                ae_Outcome = ''genesis'', ae_HashParent = uuid_Nil, ae_HashValue = [], ae_HashGeneratedAt = now,
                ae_DigitalSignature = [], ae_SignatureGeneratedAt = 0, ae_Genesis = True, ae_ConstitutionalPrinciple = principle\<rparr>
      in sealed lib now (al_sha256 lib (GenesisPreimage lib ev)) ev)"

definition AppendEvent ::
  "audit_lib \<Rightarrow> instant \<Rightarrow> uuid \<times> uuid \<Rightarrow> AuditEvent \<Rightarrow> string \<Rightarrow> string \<Rightarrow> uuid \<Rightarrow> string \<Rightarrow> uuid \<Rightarrow> string \<Rightarrow> string \<Rightarrow> AuditEvent" where
  "AppendEvent lib now ids prev eventType actorType actorID targetType targetID outcome principle =
     (let parentUUID = (if ae_ID prev \<noteq> uuid_Nil then ae_ID prev else uuid_Nil);
          ev = \<lparr>ae_ID = fst ids, ae_EventID = snd ids, ae_Timestamp = now, ae_TraceID = uuid_Nil, ae_SpanID = uuid_Nil,
                ae_ActorType = actorType, ae_ActorID = actorID, ae_TargetType = targetType, ae_TargetID = targetID,
                ae_EventType = eventType, ae_Outcome = outcome, ae_HashParent = parentUUID, ae_HashValue = [],
                ae_HashGeneratedAt = now, ae_DigitalSignature = [], ae_SignatureGeneratedAt = 0, ae_Genesis = False,
                ae_ConstitutionalPrinciple = principle\<rparr>
      in sealed lib now (al_sha256 lib (ChainPreimage lib prev ev)) ev)"

text \<open>The loop of \<^verbatim>\<open>VerifyHashChain\<close>: the predecessor is \<open>None\<close> at index 0; an event may be nil.\<close>

fun verify_loop :: "audit_lib \<Rightarrow> AuditEvent option \<Rightarrow> AuditEvent option list \<Rightarrow> bool" where
  "verify_loop lib prev [] = True"
| "verify_loop lib prev (None # events) = False"
| "verify_loop lib prev (Some event # events) =
     (case prev of
        None \<Rightarrow>
          if \<not> ae_Genesis event then False
          else if ae_HashValue event \<noteq> al_sha256 lib (GenesisPreimage lib event) then False
          else if ae_DigitalSignature event \<noteq> signHash lib (ae_HashValue event) then False
          else verify_loop lib (Some event) events
      | Some p \<Rightarrow>
          if ae_HashValue event \<noteq> al_sha256 lib (ChainPreimage lib p event) then False
          else if ae_DigitalSignature event \<noteq> signHash lib (ae_HashValue event) then False
          else verify_loop lib (Some event) events)"

definition VerifyHashChain :: "audit_lib \<Rightarrow> AuditEvent option list \<Rightarrow> bool" where
  "VerifyHashChain lib events = (if events = [] then False else verify_loop lib None events)"

subsection \<open>Records and redaction\<close>

definition secretKeys :: "string list" where
  "secretKeys = [''password'', ''passwd'', ''pwd'', ''secret'', ''token'', ''jwt'', ''credential'', ''authorization'', ''auth_header'',
     ''cookie'', ''session'', ''api_key'', ''apikey'', ''access_key'', ''private_key'', ''refresh'', ''signature'', ''hash'']"

text \<open>\<^verbatim>\<open>strings.ToLower\<close>, as far as the ASCII substrings it is searched for need it.\<close>

definition ascii_lower :: "char \<Rightarrow> char" where
  "ascii_lower c = (if 65 \<le> (of_char c :: nat) \<and> (of_char c :: nat) \<le> 90 then char_of ((of_char c :: nat) + 32) else c)"

fun Contains :: "string \<Rightarrow> string \<Rightarrow> bool" where
  "Contains [] sub = (sub = [])"
| "Contains (c # s) sub = (take (length sub) (c # s) = sub \<or> Contains s sub)"

definition RedactDetails :: "(string \<times> string) list \<Rightarrow> (string \<times> string) list" where
  "RedactDetails details =
     map (\<lambda>(k, v). (k, if list_ex (Contains (map ascii_lower k)) secretKeys then ''[redacted]'' else v)) details"

record audit_record =
  rc_EventType :: string
  rc_ActorType :: string
  rc_ActorID :: uuid
  rc_TargetType :: string
  rc_TargetID :: uuid
  rc_Outcome :: string
  rc_Principle :: string
  rc_WorkspaceID :: "uuid option"
  rc_TraceID :: uuid
  rc_SpanID :: uuid
  rc_Details :: "(string \<times> string) list"

subsection \<open>The persistent writer\<close>

record audit_row =
  aw_id :: uuid
  aw_event_id :: uuid
  aw_seq :: int
  aw_workspace_id :: "uuid option"
  aw_timestamp :: instant
  aw_timestamp_canonical :: "string option"
  aw_trace_id :: "uuid option"
  aw_span_id :: "uuid option"
  aw_actor_type :: string
  aw_actor_id :: "uuid option"
  aw_target_type :: string
  aw_target_id :: "uuid option"
  aw_event_type :: string
  aw_outcome :: string
  aw_outcome_details :: "string option"
  aw_constitutional_principle :: string
  aw_digital_signature :: "string option"
  aw_hash_chain_parent :: "uuid option"
  aw_hash_chain_value :: string
  aw_genesis :: bool

text \<open>The table and the next value of the identity sequence of its column \<^verbatim>\<open>seq\<close>.\<close>

record audit_table =
  at_rows :: "audit_row list"
  at_nextval :: int

datatype audit_error =
  ErrRecordIncomplete | ErrNoGenesis | ErrInsert | ErrDetails | ErrNoCanonical | ErrCanonical | ErrSignature | ErrFilter

definition nullUUID :: "uuid \<Rightarrow> uuid option" where
  "nullUUID u = (if u = uuid_Nil then None else Some u)"

definition valid_or_Nil :: "uuid option \<Rightarrow> uuid" where
  "valid_or_Nil u = (case u of None \<Rightarrow> uuid_Nil | Some v \<Rightarrow> v)"

definition workspaceArg :: "audit_record option \<Rightarrow> uuid option" where
  "workspaceArg rec = (case rec of None \<Rightarrow> None | Some r \<Rightarrow> rc_WorkspaceID r)"

definition audit_columns :: "audit_lib \<Rightarrow> AuditEvent \<Rightarrow> audit_record option \<Rightarrow> string option \<Rightarrow> int \<Rightarrow> audit_row" where
  "audit_columns lib ev rec details seq =
     \<lparr>aw_id = ae_ID ev, aw_event_id = ae_EventID ev, aw_seq = seq,
      aw_workspace_id = workspaceArg rec,
      aw_timestamp = ae_Timestamp ev - ae_Timestamp ev mod 1000,
      aw_timestamp_canonical = Some (al_format lib (ae_Timestamp ev)),
      aw_trace_id = nullUUID (ae_TraceID ev), aw_span_id = nullUUID (ae_SpanID ev),
      aw_actor_type = ae_ActorType ev, aw_actor_id = nullUUID (ae_ActorID ev),
      aw_target_type = ae_TargetType ev, aw_target_id = nullUUID (ae_TargetID ev),
      aw_event_type = ae_EventType ev, aw_outcome = ae_Outcome ev, aw_outcome_details = details,
      aw_constitutional_principle = ae_ConstitutionalPrinciple ev,
      aw_digital_signature = Some (al_json_bytes lib (ae_DigitalSignature ev)),
      aw_hash_chain_parent = nullUUID (ae_HashParent ev), aw_hash_chain_value = ae_HashValue ev,
      aw_genesis = ae_Genesis ev\<rparr>"

definition marshal_details :: "audit_lib \<Rightarrow> audit_record option \<Rightarrow> (audit_error, string option) result" where
  "marshal_details lib rec =
     (case rec of
        None \<Rightarrow> Inr None
      | Some r \<Rightarrow>
          let redacted = RedactDetails (rc_Details r) in
          if redacted = [] then Inr None
          else case al_json_details lib redacted of None \<Rightarrow> Inl ErrDetails | Some b \<Rightarrow> Inr (Some b))"

text \<open>
  The insert draws a value of the sequence even when a unique constraint then refuses the
  row; the sequence is not rolled back with the transaction.
\<close>

definition insertTx :: "audit_lib \<Rightarrow> AuditEvent \<Rightarrow> audit_record option \<Rightarrow> audit_table \<Rightarrow> audit_table \<times> (audit_error, unit) result" where
  "insertTx lib ev rec tbl =
     (case marshal_details lib rec of
        Inl e \<Rightarrow> (tbl, Inl e)
      | Inr details \<Rightarrow>
          let row = audit_columns lib ev rec details (at_nextval tbl);
              tbl' = tbl\<lparr>at_nextval := at_nextval tbl + 1\<rparr>
          in if list_ex (\<lambda>r. aw_id r = aw_id row \<or> aw_event_id r = aw_event_id row \<or> aw_seq r = aw_seq row) (at_rows tbl)
             then (tbl', Inl ErrInsert)
             else (tbl'\<lparr>at_rows := at_rows tbl @ [row]\<rparr>, Inr ()))"

definition scanRow :: "audit_lib \<Rightarrow> audit_row \<Rightarrow> (audit_error, AuditEvent) result" where
  "scanRow lib r =
     (case aw_timestamp_canonical r of
        None \<Rightarrow> Inl ErrNoCanonical
      | Some canonical \<Rightarrow>
          if canonical = [] then Inl ErrNoCanonical
          else case al_parse lib canonical of
                 None \<Rightarrow> Inl ErrCanonical
               | Some ts \<Rightarrow>
                   let ev = (\<lambda>sig. \<lparr>ae_ID = aw_id r, ae_EventID = aw_event_id r, ae_Timestamp = ts,
                              ae_TraceID = valid_or_Nil (aw_trace_id r), ae_SpanID = valid_or_Nil (aw_span_id r),
                              ae_ActorType = aw_actor_type r, ae_ActorID = valid_or_Nil (aw_actor_id r),
                              ae_TargetType = aw_target_type r, ae_TargetID = valid_or_Nil (aw_target_id r),
                              ae_EventType = aw_event_type r, ae_Outcome = aw_outcome r,
                              ae_HashParent = valid_or_Nil (aw_hash_chain_parent r), ae_HashValue = aw_hash_chain_value r,
                              ae_HashGeneratedAt = ts, ae_DigitalSignature = sig, ae_SignatureGeneratedAt = ts,
                              ae_Genesis = aw_genesis r, ae_ConstitutionalPrinciple = aw_constitutional_principle r\<rparr>)
                   in case aw_digital_signature r of
                        None \<Rightarrow> Inr (ev [])
                      | Some sigJSON \<Rightarrow>
                          if sigJSON = [] then Inr (ev [])
                          else case al_unjson_bytes lib sigJSON of None \<Rightarrow> Inl ErrSignature | Some sig \<Rightarrow> Inr (ev sig))"

text \<open>\<^verbatim>\<open>ORDER BY seq DESC LIMIT 1\<close>.\<close>

definition loadHeadTx :: "audit_lib \<Rightarrow> audit_table \<Rightarrow> (audit_error, AuditEvent option) result" where
  "loadHeadTx lib tbl =
     (case rev (sort_key aw_seq (at_rows tbl)) of
        [] \<Rightarrow> Inr None
      | r # _ \<Rightarrow> (case scanRow lib r of Inl e \<Rightarrow> Inl e | Inr ev \<Rightarrow> Inr (Some ev)))"

text \<open>
  \<^verbatim>\<open>New\<close> looks for the head in one transaction and writes a genesis event in another:
  \<open>seen\<close> is what the first found, \<open>tbl\<close> the table the second meets. The result is the head the
  store keeps in memory.
\<close>

definition auditstore_New ::
  "audit_lib \<Rightarrow> instant \<Rightarrow> uuid \<times> uuid \<Rightarrow> (audit_error, AuditEvent option) result \<Rightarrow> audit_table \<Rightarrow> audit_table \<times> (audit_error, AuditEvent) result" where
  "auditstore_New lib now ids seen tbl =
     (case seen of
        Inl e \<Rightarrow> (tbl, Inl e)
      | Inr (Some head) \<Rightarrow> (tbl, Inr head)
      | Inr None \<Rightarrow>
          let genesis = GenesisEvent lib now ids ''Security by Design'' in
          case insertTx lib genesis None tbl of
            (tbl', Inl e) \<Rightarrow> (tbl', Inl e)
          | (tbl', Inr _) \<Rightarrow> (tbl', Inr genesis))"

text \<open>The first component of the state is the head that the store caches, which \<^verbatim>\<open>Append\<close> refreshes.\<close>

definition auditstore_Append ::
  "audit_lib \<Rightarrow> instant \<Rightarrow> uuid \<times> uuid \<Rightarrow> audit_record \<Rightarrow> AuditEvent \<times> audit_table
     \<Rightarrow> (AuditEvent \<times> audit_table) \<times> (audit_error, AuditEvent) result" where
  "auditstore_Append lib now ids rec st =
     (if rc_EventType rec = [] \<or> rc_Outcome rec = [] \<or> rc_Principle rec = [] then (st, Inl ErrRecordIncomplete)
      else case loadHeadTx lib (snd st) of
             Inl e \<Rightarrow> (st, Inl e)
           | Inr None \<Rightarrow> (st, Inl ErrNoGenesis)
           | Inr (Some head) \<Rightarrow>
               let ev = AppendEvent lib now ids head (rc_EventType rec) (rc_ActorType rec) (rc_ActorID rec)
                          (rc_TargetType rec) (rc_TargetID rec) (rc_Outcome rec) (rc_Principle rec)
               in (case insertTx lib ev (Some rec) (snd st) of
                     (tbl', Inl e) \<Rightarrow> ((head, tbl'), Inl e)
                   | (tbl', Inr _) \<Rightarrow> ((ev, tbl'), Inr ev)))"

fun scan_rows :: "audit_lib \<Rightarrow> audit_row list \<Rightarrow> (audit_error, AuditEvent list) result" where
  "scan_rows lib [] = Inr []"
| "scan_rows lib (r # rows) =
     (case scanRow lib r of
        Inl e \<Rightarrow> Inl e
      | Inr ev \<Rightarrow> (case scan_rows lib rows of Inl e \<Rightarrow> Inl e | Inr out \<Rightarrow> Inr (ev # out)))"

definition auditstore_Chain :: "audit_lib \<Rightarrow> audit_table \<Rightarrow> (audit_error, AuditEvent list) result" where
  "auditstore_Chain lib tbl = scan_rows lib (sort_key aw_seq (at_rows tbl))"

definition auditstore_Verify :: "audit_lib \<Rightarrow> audit_table \<Rightarrow> (audit_error, bool) result" where
  "auditstore_Verify lib tbl =
     (case auditstore_Chain lib tbl of Inl e \<Rightarrow> Inl e | Inr events \<Rightarrow> Inr (VerifyHashChain lib (map Some events)))"

definition auditstore_Head :: "AuditEvent \<times> audit_table \<Rightarrow> AuditEvent" where
  "auditstore_Head st = fst st"

subsection \<open>The pre-image encoding is injective\<close>

lemma takeWhile_writeField:
  "takeWhile (\<lambda>c. c \<noteq> CHR '':'') (writeField x @ r) = Itoa (length x)"
proof -
  have "takeWhile (\<lambda>c. c \<noteq> CHR '':'') (Itoa (length x) @ CHR '':'' # x @ '','' @ r) = Itoa (length x)"
    using colon_notin_Itoa [of "length x"] by (subst takeWhile_append2) auto
  then show ?thesis by (simp add: writeField_def)
qed

lemma writeField_append_inject:
  assumes "writeField x @ r = writeField y @ r'"
  shows "x = y \<and> r = r'"
proof -
  have "Itoa (length x) = Itoa (length y)"
    using arg_cong [OF assms, of "takeWhile (\<lambda>c. c \<noteq> CHR '':'')"] by (simp only: takeWhile_writeField)
  then have len: "length x = length y" by simp
  then have "x @ '','' @ r = y @ '','' @ r'"
    using assms by (simp add: writeField_def)
  with len show ?thesis by simp
qed

text \<open>A pre-image is the concatenation of its fields, and determines them.\<close>

definition fields :: "string list \<Rightarrow> string" where
  "fields xs = concat (map writeField xs)"

lemma fields_simps [simp]: "fields [] = []" "fields (x # xs) = writeField x @ fields xs"
  by (simp_all add: fields_def)

lemma writeField_not_Nil [simp]: "writeField x \<noteq> []"
  by (simp add: writeField_def)

lemma fields_inject: "fields xs = fields ys \<longleftrightarrow> xs = ys"
proof (induction xs arbitrary: ys)
  case Nil
  then show ?case by (cases ys) auto
next
  case (Cons x xs)
  then show ?case
    by (cases ys) (auto dest: writeField_append_inject)
qed

lemma hex_digit_inject: "m < 16 \<Longrightarrow> n < 16 \<Longrightarrow> hex_digit m = hex_digit n \<Longrightarrow> m = n"
proof -
  have "distinct ''0123456789abcdef''" by simp
  moreover assume "m < 16" "n < 16" "hex_digit m = hex_digit n"
  ultimately show ?thesis
    unfolding hex_digit_def using nth_eq_iff_index_eq [of "''0123456789abcdef''" m n] by simp
qed

lemma EncodeToString_Cons:
  "EncodeToString (c # s) = hex_digit (of_char c div 16) # hex_digit (of_char c mod 16) # EncodeToString s"
  by (simp add: EncodeToString_def hex_digit_def)

lemma EncodeToString_inject [simp]: "EncodeToString s = EncodeToString t \<longleftrightarrow> s = t"
proof (induction s arbitrary: t)
  case Nil
  then show ?case by (cases t) (simp_all add: EncodeToString_def)
next
  case (Cons c s)
  show ?case
  proof (cases t)
    case Nil
    then show ?thesis by (simp add: EncodeToString_def)
  next
    case (Cons d t')
    have "c = d" if "hex_digit (of_char c div 16) = hex_digit (of_char d div 16)"
      "hex_digit (of_char c mod 16) = hex_digit (of_char d mod 16)"
    proof -
      have b: "(of_char x :: nat) < 256" for x :: char by simp
      have "(of_char c :: nat) div 16 < 16" "(of_char d :: nat) div 16 < 16"
        using b [of c] b [of d] by (simp_all add: less_mult_imp_div_less)
      then have "(of_char c :: nat) div 16 = of_char d div 16" "(of_char c :: nat) mod 16 = of_char d mod 16"
        using that hex_digit_inject by simp_all
      then have "(of_char c :: nat) = of_char d" by (metis mult_div_mod_eq)
      then show ?thesis by simp
    qed
    with Cons \<open>\<And>t. (EncodeToString s = EncodeToString t) = (s = t)\<close> show ?thesis
      by (auto simp: EncodeToString_Cons)
  qed
qed

text \<open>The fields of an event that its own link binds, and those of its predecessor.\<close>

definition genesis_fields :: "audit_lib \<Rightarrow> AuditEvent \<Rightarrow> string list" where
  "genesis_fields lib ev = [al_format lib (ae_Timestamp ev), ae_Outcome ev, ae_ConstitutionalPrinciple ev]"

definition prev_fields :: "audit_lib \<Rightarrow> AuditEvent \<Rightarrow> string list" where
  "prev_fields lib ev =
     [al_uuid_String lib (ae_EventID ev), EncodeToString (ae_HashValue ev), al_format lib (ae_Timestamp ev), FormatBool (ae_Genesis ev)]"

definition link_fields :: "audit_lib \<Rightarrow> AuditEvent \<Rightarrow> string list" where
  "link_fields lib ev =
     [al_uuid_String lib (ae_EventID ev), al_format lib (ae_Timestamp ev), ae_EventType ev, ae_ActorType ev,
      al_uuid_String lib (ae_ActorID ev), ae_TargetType ev, al_uuid_String lib (ae_TargetID ev), ae_Outcome ev,
      ae_ConstitutionalPrinciple ev]"

lemma GenesisPreimage_fields: "GenesisPreimage lib ev = fields (GENESIS_HASH # genesis_fields lib ev)"
  by (simp add: GenesisPreimage_def genesis_fields_def)

lemma ChainPreimage_fields: "ChainPreimage lib prev ev = fields (prev_fields lib prev @ link_fields lib ev)"
  by (simp add: ChainPreimage_def prev_fields_def link_fields_def)

lemma GenesisPreimage_inject: "GenesisPreimage lib a = GenesisPreimage lib b \<longleftrightarrow> genesis_fields lib a = genesis_fields lib b"
  by (simp add: GenesisPreimage_fields fields_inject del: fields_simps)

lemma ChainPreimage_inject:
  "ChainPreimage lib p a = ChainPreimage lib q b \<longleftrightarrow> prev_fields lib p = prev_fields lib q \<and> link_fields lib a = link_fields lib b"
  by (simp add: ChainPreimage_fields fields_inject prev_fields_def del: fields_simps)

lemma Genesis_Chain_distinct: "GenesisPreimage lib a \<noteq> ChainPreimage lib p b" "ChainPreimage lib p b \<noteq> GenesisPreimage lib a"
  by (auto simp: GenesisPreimage_fields ChainPreimage_fields fields_inject genesis_fields_def prev_fields_def link_fields_def
      simp del: fields_simps)

subsection \<open>What a verified chain proves\<close>

fun preimages_from :: "audit_lib \<Rightarrow> AuditEvent \<Rightarrow> AuditEvent list \<Rightarrow> string list" where
  "preimages_from lib prev [] = []"
| "preimages_from lib prev (ev # events) = ChainPreimage lib prev ev # preimages_from lib ev events"

text \<open>The texts that \<^verbatim>\<open>VerifyHashChain\<close> hashes.\<close>

fun preimages :: "audit_lib \<Rightarrow> AuditEvent list \<Rightarrow> string list" where
  "preimages lib [] = []"
| "preimages lib (g # events) = GenesisPreimage lib g # preimages_from lib g events"

text \<open>The content that a verified chain binds, event by event.\<close>

fun bound_content :: "audit_lib \<Rightarrow> AuditEvent list \<Rightarrow> string list list" where
  "bound_content lib [] = []"
| "bound_content lib (g # events) = genesis_fields lib g # map (link_fields lib) events"

definition collide :: "audit_lib \<Rightarrow> string list \<Rightarrow> string list \<Rightarrow> bool" where
  "collide lib xs ys \<longleftrightarrow> list_ex (\<lambda>x. list_ex (\<lambda>y. x \<noteq> y \<and> al_sha256 lib x = al_sha256 lib y) ys) xs"

definition authentic :: "audit_lib \<Rightarrow> AuditEvent \<Rightarrow> bool" where
  "authentic lib ev \<longleftrightarrow> ae_DigitalSignature ev = signHash lib (ae_HashValue ev)"

lemma verify_loop_Some:
  "verify_loop lib (Some p) (map Some events) \<longleftrightarrow>
     map ae_HashValue events = map (al_sha256 lib) (preimages_from lib p events) \<and> list_all (authentic lib) events"
  by (induction events arbitrary: p) (auto simp: authentic_def)

text \<open>Verification as a statement about the whole chain: a genesis root, hashes of the pre-images, valid tags.\<close>

lemma VerifyHashChain_iff:
  "VerifyHashChain lib (map Some events) \<longleftrightarrow>
     events \<noteq> [] \<and> ae_Genesis (hd events) \<and> map ae_HashValue events = map (al_sha256 lib) (preimages lib events)
     \<and> list_all (authentic lib) events"
  by (cases events) (auto simp: VerifyHashChain_def verify_loop_Some authentic_def)

lemma preimages_snoc:
  "preimages lib (es @ [e]) =
     preimages lib es @ [if es = [] then GenesisPreimage lib e else ChainPreimage lib (last es) e]"
proof (cases es)
  case (Cons g es')
  have "preimages_from lib p (xs @ [e]) = preimages_from lib p xs @ [ChainPreimage lib (last (p # xs)) e]" for p xs
    by (induction xs arbitrary: p) auto
  with Cons show ?thesis by simp
qed simp

lemma length_preimages [simp]: "length (preimages lib es) = length es"
proof (cases es)
  case (Cons g es')
  have "length (preimages_from lib p xs) = length xs" for p xs by (induction xs arbitrary: p) auto
  with Cons show ?thesis by simp
qed simp

lemma bound_content_snoc:
  "bound_content lib (es @ [e]) = bound_content lib es @ [if es = [] then genesis_fields lib e else link_fields lib e]"
  by (cases es) auto

lemma VerifyHashChain_snoc:
  assumes "es \<noteq> []"
  shows "VerifyHashChain lib (map Some (es @ [e])) \<longleftrightarrow>
     VerifyHashChain lib (map Some es) \<and> ae_HashValue e = al_sha256 lib (ChainPreimage lib (last es) e) \<and> authentic lib e"
  using assms by (auto simp: VerifyHashChain_iff preimages_snoc simp del: map_append simp: map_append [of ae_HashValue] map_append [of "al_sha256 lib"])

lemma preimages_take: "preimages lib (take n es) = take n (preimages lib es)"
proof (cases es)
  case (Cons g ys)
  have "preimages_from lib p (take k zs) = take k (preimages_from lib p zs)" for p k zs
    by (induction zs arbitrary: p k) (auto simp: take_Cons')
  with Cons show ?thesis by (cases n) auto
qed simp

lemma VerifyHashChain_take:
  assumes "VerifyHashChain lib (map Some es)" and "0 < n"
  shows "VerifyHashChain lib (map Some (take n es))"
  using assms unfolding VerifyHashChain_iff
  by (auto simp: list_all_iff hd_take preimages_take take_map [symmetric] dest: in_set_takeD)

lemma collide_mono: "collide lib xs ys \<Longrightarrow> set xs \<subseteq> set xs' \<Longrightarrow> set ys \<subseteq> set ys' \<Longrightarrow> collide lib xs' ys'"
  by (auto simp: collide_def list_ex_iff)

lemma collide_append: "collide lib xs ys \<Longrightarrow> collide lib (xs @ zs) (ys @ ws)"
  by (rule collide_mono) auto

lemma not_collideD:
  "\<not> collide lib (xs @ [x]) (ys @ [y]) \<Longrightarrow> al_sha256 lib x = al_sha256 lib y \<Longrightarrow> x = y"
  by (auto simp: collide_def)

lemma Verify_last:
  assumes "VerifyHashChain lib (map Some (es @ [e]))"
  shows "ae_HashValue e = al_sha256 lib (if es = [] then GenesisPreimage lib e else ChainPreimage lib (last es) e)"
    and "es \<noteq> [] \<Longrightarrow> VerifyHashChain lib (map Some es)"
proof -
  show "ae_HashValue e = al_sha256 lib (if es = [] then GenesisPreimage lib e else ChainPreimage lib (last es) e)"
    using assms unfolding VerifyHashChain_iff preimages_snoc by (simp split: if_splits)
  show "VerifyHashChain lib (map Some es)" if "es \<noteq> []"
    using assms VerifyHashChain_snoc [OF that] by blast
qed

lemma same_head_same_content:
  assumes "VerifyHashChain lib (map Some es)" and "VerifyHashChain lib (map Some es')"
    and "ae_HashValue (last es) = ae_HashValue (last es')"
    and "\<not> collide lib (preimages lib es) (preimages lib es')"
  shows "bound_content lib es = bound_content lib es' \<and> map ae_HashValue es = map ae_HashValue es'"
  using assms
proof (induction es arbitrary: es' rule: rev_induct)
  case Nil
  then show ?case by (simp add: VerifyHashChain_def)
next
  case (snoc e es)
  have "es' \<noteq> []" using snoc.prems(2) by (auto simp: VerifyHashChain_def)
  then obtain fs f where es': "es' = fs @ [f]" by (metis rev_exhaust)
  note v = snoc.prems(1) snoc.prems(2) [unfolded es']
  let ?pre = "\<lambda>xs x. if xs = [] then GenesisPreimage lib x else ChainPreimage lib (last xs) x"
  have hash: "ae_HashValue e = ae_HashValue f" using snoc.prems(3) by (simp add: es')
  then have "al_sha256 lib (?pre es e) = al_sha256 lib (?pre fs f)"
    using Verify_last(1) [OF v(1)] Verify_last(1) [OF v(2)] by simp
  then have pre: "?pre es e = ?pre fs f"
    using snoc.prems(4) unfolding es' preimages_snoc by (rule not_collideD [rotated])
  show ?case
  proof (cases "es = [] \<or> fs = []")
    case True
    with pre have "es = []" "fs = []" "genesis_fields lib e = genesis_fields lib f"
      by (auto simp: Genesis_Chain_distinct GenesisPreimage_inject split: if_splits)
    then show ?thesis using hash by (simp add: es')
  next
    case False
    with pre have "prev_fields lib (last es) = prev_fields lib (last fs)" and link: "link_fields lib e = link_fields lib f"
      using ChainPreimage_inject by auto
    then have last: "ae_HashValue (last es) = ae_HashValue (last fs)" by (simp add: prev_fields_def)
    have "\<not> collide lib (preimages lib es) (preimages lib fs)"
      using snoc.prems(4) unfolding es' preimages_snoc using collide_append by blast
    then have "bound_content lib es = bound_content lib fs \<and> map ae_HashValue es = map ae_HashValue fs"
      using snoc.IH [of fs] Verify_last(2) [OF v(1)] Verify_last(2) [OF v(2)] False last by simp
    then show ?thesis using False hash link by (simp add: es' bound_content_snoc)
  qed
qed

lemma bound_content_take: "bound_content lib (take n es) = take n (bound_content lib es)"
  by (cases es; cases n) (simp_all add: take_map)

text \<open>
  C20. Tamper evidence. Let the writer's chain verify, and let another chain that verifies be
  presented whose newest hash carries a tag the writer issued. Then, unless two of the hashed
  texts are a SHA-256 collision, the presented chain is the writer's with nothing more than
  its newest events cut off: event by event it has the same hash, the same identifier, time,
  type, actor, target, outcome and principle, and the same root. No event can be edited,
  inserted, dropped from the middle or reordered.
\<close>

theorem tamper_evidence:
  assumes "VerifyHashChain lib (map Some events)" and "VerifyHashChain lib (map Some presented)"
    and "ae_HashValue (last presented) \<in> set (map ae_HashValue events)"
  shows "collide lib (preimages lib events) (preimages lib presented)
         \<or> (\<exists>n \<le> length events. bound_content lib presented = take n (bound_content lib events)
              \<and> map ae_HashValue presented = take n (map ae_HashValue events))"
proof (cases "collide lib (preimages lib events) (preimages lib presented)")
  case False
  obtain i where i: "i < length events" "ae_HashValue (events ! i) = ae_HashValue (last presented)"
    using assms(3) by (auto simp: in_set_conv_nth)
  let ?es = "take (Suc i) events"
  have v: "VerifyHashChain lib (map Some ?es)" using assms(1) by (rule VerifyHashChain_take) simp
  have last: "ae_HashValue (last ?es) = ae_HashValue (last presented)"
    using i by (simp add: take_Suc_conv_app_nth)
  have "map (al_sha256 lib) (preimages lib ?es) = map ae_HashValue ?es"
    using v by (simp add: VerifyHashChain_iff)
  have "set (preimages lib ?es) \<subseteq> set (preimages lib events)"
    by (metis preimages_take set_take_subset)
  then have "\<not> collide lib (preimages lib ?es) (preimages lib presented)"
    using False by (meson collide_mono order_refl)
  then have "bound_content lib ?es = bound_content lib presented \<and> map ae_HashValue ?es = map ae_HashValue presented"
    using same_head_same_content [OF v assms(2) last] by blast
  then show ?thesis using i(1)
    by (intro disjI2 exI [of _ "Suc i"]) (simp add: bound_content_take take_map)
qed simp

text \<open>
  A library with an injective hash, for the witnesses: texts of times and identifiers are
  decimal, times before 0 are written with a leading letter.
\<close>

definition plain_lib :: audit_lib where
  "plain_lib = \<lparr>al_sha256 = (\<lambda>s. s), al_hmac = rev, al_uuid_String = (\<lambda>u. if u = 0 then ''0'' else if u = 1 then ''1'' else ''2''),
     al_format = (\<lambda>t. Itoa (nat t)), al_parse = (\<lambda>s. Some (int (digits_value s))),
     al_json_bytes = (\<lambda>s. CHR ''q'' # s), al_unjson_bytes = (\<lambda>s. Some (tl s)), al_json_details = (\<lambda>d. Some (concat (map fst d)))\<rparr>"

definition sample_genesis :: AuditEvent where
  "sample_genesis = GenesisEvent plain_lib 5 (1, 2) ''p''"

definition sample_login :: AuditEvent where
  "sample_login = AppendEvent plain_lib 6 (3, 4) sample_genesis ''login'' ''user'' 1 ''session'' 2 ''denied'' ''p''"

theorem tamper_evidence_witness:
  "collide plain_lib (preimages plain_lib [sample_genesis, sample_login]) (preimages plain_lib [sample_genesis])
   \<or> (\<exists>n \<le> length [sample_genesis, sample_login].
        bound_content plain_lib [sample_genesis] = take n (bound_content plain_lib [sample_genesis, sample_login])
        \<and> map ae_HashValue [sample_genesis] = take n (map ae_HashValue [sample_genesis, sample_login]))"
proof (rule tamper_evidence)
  show "VerifyHashChain plain_lib (map Some [sample_genesis, sample_login])" by code_simp
  show "VerifyHashChain plain_lib (map Some [sample_genesis])" by code_simp
  show "ae_HashValue (last [sample_genesis]) \<in> set (map ae_HashValue [sample_genesis, sample_login])" by simp
qed

text \<open>An edited outcome is found out, in this sample by evaluation.\<close>

lemma sample_edit_detected:
  "\<not> VerifyHashChain plain_lib (map Some [sample_genesis, sample_login\<lparr>ae_Outcome := ''success''\<rparr>])"
  by code_simp

subsection \<open>The table grows at its end\<close>

text \<open>
  The processes that share the table: one that starts (\<^verbatim>\<open>New\<close>, here alone with the table) and
  one that appends, from any cached head. Each carries the clock reading and the identifiers it
  drew.
\<close>

definition clock_range :: "instant \<Rightarrow> bool" where
  "clock_range now \<longleftrightarrow> 0 \<le> now \<and> now < 2 ^ 63"

inductive audit_step :: "audit_lib \<Rightarrow> audit_table \<Rightarrow> audit_table \<Rightarrow> bool" for lib where
  boot: "clock_range now \<Longrightarrow> audit_step lib tbl (fst (auditstore_New lib now ids (loadHeadTx lib tbl) tbl))"
| append: "clock_range now \<Longrightarrow> audit_step lib tbl (snd (fst (auditstore_Append lib now ids rec (cached, tbl))))"

definition fresh_table :: "audit_table \<Rightarrow> bool" where
  "fresh_table tbl \<longleftrightarrow> at_rows tbl = [] \<and> at_nextval tbl = 1"

definition seq_inv :: "audit_table \<Rightarrow> bool" where
  "seq_inv tbl \<longleftrightarrow> sorted_wrt (<) (map aw_seq (at_rows tbl)) \<and> 0 < at_nextval tbl
     \<and> list_all (\<lambda>r. 0 < aw_seq r \<and> aw_seq r < at_nextval tbl) (at_rows tbl)"

definition audit_extends :: "audit_table \<Rightarrow> audit_table \<Rightarrow> bool" where
  "audit_extends s t \<longleftrightarrow> prefix (at_rows s) (at_rows t)"

lemma insertTx_cases:
  obtains (refused) "at_rows (fst (insertTx lib ev rec tbl)) = at_rows tbl" "at_nextval tbl \<le> at_nextval (fst (insertTx lib ev rec tbl))"
      "\<not> is_ok (snd (insertTx lib ev rec tbl))"
  | (inserted) details where "insertTx lib ev rec tbl =
      (tbl\<lparr>at_rows := at_rows tbl @ [audit_columns lib ev rec details (at_nextval tbl)], at_nextval := at_nextval tbl + 1\<rparr>, Inr ())"
proof (cases "marshal_details lib rec")
  case (Inl e)
  then show ?thesis using that(1) by (simp add: insertTx_def)
next
  case (Inr details)
  then show ?thesis
    using that(1) that(2) [of details]
    by (cases "list_ex (\<lambda>r. aw_id r = ae_ID ev \<or> aw_event_id r = ae_EventID ev \<or> aw_seq r = at_nextval tbl) (at_rows tbl)")
      (simp_all add: insertTx_def Let_def audit_columns_def)
qed

text \<open>Both operations leave the rows alone or insert one event; what it is.\<close>

lemma New_table:
  "fst (auditstore_New lib now ids seen tbl) =
     (if seen = Inr None then fst (insertTx lib (GenesisEvent lib now ids ''Security by Design'') None tbl) else tbl)"
  by (auto simp: auditstore_New_def Let_def split: sum.splits option.splits prod.splits)

lemma Append_table:
  "snd (fst (auditstore_Append lib now ids rec (cached, tbl))) =
     (if rc_EventType rec = [] \<or> rc_Outcome rec = [] \<or> rc_Principle rec = [] then tbl
      else case loadHeadTx lib tbl of
             Inr (Some head) \<Rightarrow>
               fst (insertTx lib (AppendEvent lib now ids head (rc_EventType rec) (rc_ActorType rec) (rc_ActorID rec)
                     (rc_TargetType rec) (rc_TargetID rec) (rc_Outcome rec) (rc_Principle rec)) (Some rec) tbl)
           | _ \<Rightarrow> tbl)"
  by (simp add: auditstore_Append_def Let_def split: sum.split option.split prod.split)

lemma Append_Inr:
  assumes "auditstore_Append lib now ids rec st = (st', Inr ev)"
  obtains head details where "ev = AppendEvent lib now ids head (rc_EventType rec) (rc_ActorType rec) (rc_ActorID rec)
      (rc_TargetType rec) (rc_TargetID rec) (rc_Outcome rec) (rc_Principle rec)"
    "at_rows (snd st') = at_rows (snd st) @ [audit_columns lib ev (Some rec) details (at_nextval (snd st))]"
proof -
  have head: "\<exists>head. loadHeadTx lib (snd st) = Inr (Some head)"
    using assms by (auto simp: auditstore_Append_def split: if_splits sum.splits option.splits)
  then obtain head where h: "loadHeadTx lib (snd st) = Inr (Some head)" ..
  let ?ev = "AppendEvent lib now ids head (rc_EventType rec) (rc_ActorType rec) (rc_ActorID rec)
      (rc_TargetType rec) (rc_TargetID rec) (rc_Outcome rec) (rc_Principle rec)"
  obtain tbl r where ins: "insertTx lib ?ev (Some rec) (snd st) = (tbl, r)" by fastforce
  with assms h have r: "r = Inr ()" "ev = ?ev" "snd st' = tbl"
    by (auto simp: auditstore_Append_def Let_def split: if_splits sum.splits)
  show ?thesis
  proof (cases rule: insertTx_cases [of lib ?ev "Some rec" "snd st"])
    case refused
    then show ?thesis using ins r(1) by simp
  next
    case (inserted details)
    then show ?thesis using ins r that [of head details] by auto
  qed
qed

lemma insertTx_seq: "seq_inv tbl \<Longrightarrow> seq_inv (fst (insertTx lib ev rec tbl))"
  by (cases rule: insertTx_cases [of lib ev rec tbl])
    (fastforce simp: seq_inv_def sorted_wrt_append audit_columns_def list_all_iff)+

lemma insertTx_extends: "audit_extends tbl (fst (insertTx lib ev rec tbl))"
  by (cases rule: insertTx_cases [of lib ev rec tbl]) (simp_all add: audit_extends_def)

lemma audit_step_seq: "audit_step lib s t \<Longrightarrow> seq_inv s \<Longrightarrow> seq_inv t"
  by (induction rule: audit_step.induct)
    (auto simp: New_table Append_table insertTx_seq split: sum.split option.split)

lemma audit_step_extends: "audit_step lib s t \<Longrightarrow> audit_extends s t"
  by (induction rule: audit_step.induct)
    (auto simp: New_table Append_table insertTx_extends audit_extends_def [of s s for s] split: sum.split option.split)

interpretation audit_log: guarantee fresh_table "audit_step lib" seq_inv audit_extends for lib
proof
  show "fresh_table s \<Longrightarrow> seq_inv s" for s by (simp add: fresh_table_def seq_inv_def)
  show "audit_step lib s t \<Longrightarrow> seq_inv s \<Longrightarrow> seq_inv t" for s t by (rule audit_step_seq)
  show "audit_extends s s" for s by (simp add: audit_extends_def)
  show "audit_extends s t \<Longrightarrow> audit_extends t u \<Longrightarrow> audit_extends s u" for s t u
    unfolding audit_extends_def by (rule prefix_order.trans)
  show "audit_step lib s t \<Longrightarrow> seq_inv s \<Longrightarrow> audit_extends s t" for s t by (rule audit_step_extends)
qed

lemma seq_inv_sort: "seq_inv tbl \<Longrightarrow> sort_key aw_seq (at_rows tbl) = at_rows tbl"
  unfolding seq_inv_def by (intro sort_key_id_if_sorted) (meson strict_sorted_imp_sorted)

subsection \<open>The persisted chain verifies\<close>

text \<open>
  What the writer relies on of the codecs: an RFC 3339 text with nanoseconds of a time of the
  clock's range is not empty and parses to that time, and the JSON text of bytes is not empty
  and decodes to them.
\<close>

definition codec_laws :: "audit_lib \<Rightarrow> bool" where
  "codec_laws lib \<longleftrightarrow>
     (\<forall>t. clock_range t \<longrightarrow> al_format lib t \<noteq> [] \<and> al_parse lib (al_format lib t) = Some t)
     \<and> (\<forall>s. al_json_bytes lib s \<noteq> [] \<and> al_unjson_bytes lib (al_json_bytes lib s) = Some s)"

lemma valid_or_Nil_nullUUID [simp]: "valid_or_Nil (nullUUID u) = u"
  by (simp add: valid_or_Nil_def nullUUID_def)

text \<open>The row of an event reads back as the event.\<close>

lemma scanRow_audit_columns:
  assumes "codec_laws lib" and "clock_range (ae_Timestamp ev)"
    and "ae_HashGeneratedAt ev = ae_Timestamp ev" and "ae_SignatureGeneratedAt ev = ae_Timestamp ev"
  shows "scanRow lib (audit_columns lib ev rec details n) = Inr ev"
  using assms by (simp add: codec_laws_def scanRow_def audit_columns_def Let_def)

lemma scan_rows_snoc:
  "scan_rows lib rows = Inr es \<Longrightarrow> scanRow lib r = Inr e \<Longrightarrow> scan_rows lib (rows @ [r]) = Inr (es @ [e])"
  by (induction rows arbitrary: es) (auto split: sum.splits)

lemma scan_rows_last:
  "scan_rows lib rows = Inr es \<Longrightarrow> rows \<noteq> [] \<Longrightarrow> es \<noteq> [] \<and> scanRow lib (last rows) = Inr (last es)"
  by (induction rows arbitrary: es) (auto split: sum.splits)

lemma scan_rows_append:
  "scan_rows lib (rows0 @ rows) = Inr es \<Longrightarrow> scan_rows lib rows0 = Inr es0 \<Longrightarrow> prefix es0 es"
  by (induction rows0 arbitrary: es es0) (auto split: sum.splits)

definition chain_inv :: "audit_lib \<Rightarrow> audit_table \<Rightarrow> bool" where
  "chain_inv lib tbl \<longleftrightarrow>
     codec_laws lib \<and> seq_inv tbl
     \<and> (\<exists>es. scan_rows lib (at_rows tbl) = Inr es \<and> (at_rows tbl \<noteq> [] \<longrightarrow> VerifyHashChain lib (map Some es)))"

lemma GenesisEvent_verifies: "VerifyHashChain lib (map Some [GenesisEvent lib now ids p])"
  by (simp add: VerifyHashChain_def GenesisEvent_def sealed_def GenesisPreimage_def Let_def)

lemma AppendEvent_links:
  assumes "VerifyHashChain lib (map Some es)" and "ev = AppendEvent lib now ids (last es) et at ai tt ti oc p"
  shows "VerifyHashChain lib (map Some (es @ [ev]))"
proof -
  have "es \<noteq> []" using assms(1) by (auto simp: VerifyHashChain_def)
  moreover have "ae_HashValue ev = al_sha256 lib (ChainPreimage lib (last es) ev)" "authentic lib ev"
    unfolding assms(2) by (simp_all add: AppendEvent_def sealed_def ChainPreimage_def authentic_def Let_def)
  ultimately show ?thesis using assms(1) VerifyHashChain_snoc [of es lib ev] by blast
qed

lemma insertTx_chain:
  assumes "chain_inv lib tbl" and "clock_range (ae_Timestamp ev)"
    and "ae_HashGeneratedAt ev = ae_Timestamp ev" and "ae_SignatureGeneratedAt ev = ae_Timestamp ev"
    and "\<And>es. scan_rows lib (at_rows tbl) = Inr es \<Longrightarrow> VerifyHashChain lib (map Some (es @ [ev]))"
  shows "chain_inv lib (fst (insertTx lib ev rec tbl))"
proof -
  obtain es where es: "scan_rows lib (at_rows tbl) = Inr es" and laws: "codec_laws lib" "seq_inv tbl"
    using assms(1) by (auto simp: chain_inv_def)
  have seq: "seq_inv (fst (insertTx lib ev rec tbl))" using laws(2) by (rule insertTx_seq)
  show ?thesis
  proof (cases rule: insertTx_cases [of lib ev rec tbl])
    case refused
    then show ?thesis using assms(1) seq by (simp add: chain_inv_def)
  next
    case (inserted details)
    have "scan_rows lib (at_rows tbl @ [audit_columns lib ev rec details (at_nextval tbl)]) = Inr (es @ [ev])"
      using es scanRow_audit_columns [OF laws(1) assms(2-4)] by (rule scan_rows_snoc)
    then show ?thesis using inserted seq laws(1) assms(5) [OF es] by (simp add: chain_inv_def)
  qed
qed

lemma loadHeadTx_seq:
  assumes "seq_inv tbl" and "scan_rows lib (at_rows tbl) = Inr es"
  shows "loadHeadTx lib tbl = Inr (if es = [] then None else Some (last es))"
proof (cases "at_rows tbl = []")
  case True
  then show ?thesis using assms by (simp add: loadHeadTx_def seq_inv_sort)
next
  case False
  then obtain rows r where rows: "at_rows tbl = rows @ [r]" by (metis rev_exhaust)
  then show ?thesis
    using scan_rows_last [OF assms(2) False] seq_inv_sort [OF assms(1)] by (simp add: loadHeadTx_def)
qed

lemma audit_step_chain: "audit_step lib s t \<Longrightarrow> chain_inv lib s \<Longrightarrow> chain_inv lib t"
proof (induction rule: audit_step.induct)
  case (boot now tbl ids)
  then obtain es where es: "scan_rows lib (at_rows tbl) = Inr es" "seq_inv tbl" by (auto simp: chain_inv_def)
  show ?case
  proof (cases "es = []")
    case True
    have "chain_inv lib (fst (insertTx lib (GenesisEvent lib now ids ''Security by Design'') None tbl))"
      using boot es(1) True GenesisEvent_verifies [of lib now ids]
      by (intro insertTx_chain) (auto simp: GenesisEvent_def sealed_def Let_def)
    then show ?thesis using boot by (simp add: New_table)
  next
    case False
    then show ?thesis using boot loadHeadTx_seq [OF es(2,1)] by (simp add: New_table)
  qed
next
  case (append now tbl ids rec cached)
  then obtain es where es: "scan_rows lib (at_rows tbl) = Inr es" "seq_inv tbl"
    "at_rows tbl \<noteq> [] \<Longrightarrow> VerifyHashChain lib (map Some es)" by (auto simp: chain_inv_def)
  have "chain_inv lib (fst (insertTx lib (AppendEvent lib now ids (last es) (rc_EventType rec) (rc_ActorType rec) (rc_ActorID rec)
                     (rc_TargetType rec) (rc_TargetID rec) (rc_Outcome rec) (rc_Principle rec)) (Some rec) tbl))" if "es \<noteq> []"
  proof (rule insertTx_chain [OF append(2)])
    have "VerifyHashChain lib (map Some es)" using that es(1,3) by fastforce
    then show "VerifyHashChain lib (map Some (es' @ [AppendEvent lib now ids (last es) (rc_EventType rec) (rc_ActorType rec)
        (rc_ActorID rec) (rc_TargetType rec) (rc_TargetID rec) (rc_Outcome rec) (rc_Principle rec)]))"
      if "scan_rows lib (at_rows tbl) = Inr es'" for es'
      using that es(1) AppendEvent_links by simp
  qed (use append(1) in \<open>simp_all add: AppendEvent_def sealed_def Let_def\<close>)
  then show ?case
    using append(2) loadHeadTx_seq [OF es(2,1)] by (auto simp: Append_table split: if_splits)
qed

interpretation audit_chain: invariant "\<lambda>tbl. codec_laws lib \<and> fresh_table tbl" "audit_step lib" "chain_inv lib" for lib
proof
  show "codec_laws lib \<and> fresh_table s \<Longrightarrow> chain_inv lib s" for s
    by (simp add: chain_inv_def fresh_table_def seq_inv_def)
  show "audit_step lib s t \<Longrightarrow> chain_inv lib s \<Longrightarrow> chain_inv lib t" for s t by (rule audit_step_chain)
qed

lemma chain_inv_Verify: "chain_inv lib tbl \<Longrightarrow> at_rows tbl \<noteq> [] \<Longrightarrow> auditstore_Verify lib tbl = Inr True"
  by (auto simp: chain_inv_def auditstore_Verify_def auditstore_Chain_def seq_inv_sort)


definition empty_table :: audit_table where
  "empty_table = \<lparr>at_rows = [], at_nextval = 1\<rparr>"

definition sample_record :: audit_record where
  "sample_record = \<lparr>rc_EventType = ''login'', rc_ActorType = ''user'', rc_ActorID = 1, rc_TargetType = ''session'', rc_TargetID = 2,
     rc_Outcome = ''denied'', rc_Principle = ''p'', rc_WorkspaceID = None, rc_TraceID = 0, rc_SpanID = 0,
     rc_Details = [(''Password'', ''hunter2''), (''ip'', ''::1'')]\<rparr>"

lemma plain_lib_codec: "codec_laws plain_lib"
  by (simp add: codec_laws_def clock_range_def plain_lib_def Itoa_not_Nil)

definition sample_booted :: audit_table where
  "sample_booted = fst (auditstore_New plain_lib 5 (1, 2) (loadHeadTx plain_lib empty_table) empty_table)"

definition sample_logged :: audit_table where
  "sample_logged = snd (fst (auditstore_Append plain_lib 6 (3, 4) sample_record (sample_genesis, sample_booted)))"

lemma sample_runs: "runs (audit_step plain_lib) empty_table sample_booted" "runs (audit_step plain_lib) sample_booted sample_logged"
  unfolding sample_booted_def sample_logged_def
  by (intro runs_single audit_step.intros; simp add: clock_range_def)+


lemma sample_logged_rows: "length (at_rows sample_logged) = 2"
  by code_simp

subsection \<open>Where the log's guarantees end\<close>

lemma insertTx_ok:
  assumes "insertTx lib ev None tbl = (t, Inr ())"
  shows "at_rows t = at_rows tbl @ [audit_columns lib ev None None (at_nextval tbl)]"
  using assms by (simp add: insertTx_def marshal_details_def Let_def split: if_split_asm) auto

lemma New_fresh:
  assumes "auditstore_New lib now ids (Inr None) tbl = (t, Inr g)"
  shows "g = GenesisEvent lib now ids ''Security by Design''"
    and "at_rows t = at_rows tbl @ [audit_columns lib g None None (at_nextval tbl)]"
    and "t = fst (insertTx lib g None tbl)"
proof -
  obtain t' r where ins: "insertTx lib (GenesisEvent lib now ids ''Security by Design'') None tbl = (t', r)" by fastforce
  with assms have g: "g = GenesisEvent lib now ids ''Security by Design''" "t' = t" "r = Inr ()"
    by (auto simp: auditstore_New_def Let_def split: sum.splits)
  with ins show "at_rows t = at_rows tbl @ [audit_columns lib g None None (at_nextval tbl)]" by (simp add: insertTx_ok)
  show "g = GenesisEvent lib now ids ''Security by Design''" by (rule g(1))
  show "t = fst (insertTx lib g None tbl)" using ins g by simp
qed

lemma scanRow_Genesis:
  "codec_laws lib \<Longrightarrow> clock_range now \<Longrightarrow> g = GenesisEvent lib now ids p \<Longrightarrow> scanRow lib (audit_columns lib g rec d n) = Inr g"
  by (rule scanRow_audit_columns) (simp_all add: GenesisEvent_def sealed_def Let_def)

text \<open>
  Two processes that start on an empty database at once (the server and the worker both
  call \<^verbatim>\<open>New\<close>) can both find no head and both insert a genesis event, because the look-up and the
  insert are separate transactions. Unless two different texts collide under SHA-256, the log
  never verifies again, whatever is appended later.
\<close>

theorem concurrent_start_breaks_log:
  assumes "codec_laws lib" and "fresh_table s" and "clock_range now" and "clock_range now'"
    and "auditstore_New lib now ids (loadHeadTx lib s) s = (t, Inr g)"
    and "auditstore_New lib now' ids' (loadHeadTx lib s) t = (u, Inr g')"
    and "runs (audit_step lib) u v"
    and "al_sha256 lib (GenesisPreimage lib g') \<noteq> al_sha256 lib (ChainPreimage lib g g')"
  shows "auditstore_Verify lib v \<noteq> Inr True"
proof
  assume "auditstore_Verify lib v = Inr True"
  have "loadHeadTx lib s = Inr None" using assms(2) by (simp add: loadHeadTx_def fresh_table_def)
  then have new: "auditstore_New lib now ids (Inr None) s = (t, Inr g)" "auditstore_New lib now' ids' (Inr None) t = (u, Inr g')"
    using assms(5,6) by simp_all
  have g: "g = GenesisEvent lib now ids ''Security by Design''" "t = fst (insertTx lib g None s)"
    "at_rows t = [audit_columns lib g None None (at_nextval s)]"
    using New_fresh [OF new(1)] assms(2) by (auto simp: fresh_table_def)
  have g': "g' = GenesisEvent lib now' ids' ''Security by Design''" "u = fst (insertTx lib g' None t)"
    "at_rows u = at_rows t @ [audit_columns lib g' None None (at_nextval t)]"
    using New_fresh [OF new(2)] by auto
  have "seq_inv u"
    unfolding g'(2) g(2) by (intro insertTx_seq audit_log.inv_start assms(2))
  then have v: "seq_inv v" "prefix (at_rows u) (at_rows v)"
    using audit_log.inv_runs [OF assms(7)] audit_log.rel_runs [OF assms(7)] by (simp_all add: audit_extends_def)
  obtain es where es: "scan_rows lib (at_rows v) = Inr es" "VerifyHashChain lib (map Some es)"
    using \<open>auditstore_Verify lib v = Inr True\<close> v(1)
    by (auto simp: auditstore_Verify_def auditstore_Chain_def seq_inv_sort split: sum.splits)
  have "scan_rows lib (at_rows u) = Inr [g, g']"
    unfolding g'(3) g(3) using scanRow_Genesis [OF assms(1,3) g(1)] scanRow_Genesis [OF assms(1,4) g'(1)] by simp
  then have "prefix [g, g'] es" using v(2) es(1) by (auto simp: prefix_def [of "at_rows u"] dest: scan_rows_append)
  then have "take 2 es = [g, g']" by (auto simp: prefix_def)
  then have "VerifyHashChain lib (map Some [g, g'])" using VerifyHashChain_take [OF es(2), of 2] by simp
  then have "ae_HashValue g' = al_sha256 lib (ChainPreimage lib g g')" by (simp add: VerifyHashChain_def split: if_splits)
  moreover have "ae_HashValue g' = al_sha256 lib (GenesisPreimage lib g')"
    unfolding g'(1) by (simp add: GenesisEvent_def sealed_def GenesisPreimage_def Let_def)
  ultimately show False using assms(8) by simp
qed

definition sample_forked :: audit_table where
  "sample_forked = fst (auditstore_New plain_lib 5 (3, 4) (loadHeadTx plain_lib empty_table) sample_booted)"

theorem concurrent_start_breaks_log_witness:
  "auditstore_Verify plain_lib sample_forked \<noteq> Inr True"
proof (rule concurrent_start_breaks_log)
  show "codec_laws plain_lib" by (rule plain_lib_codec)
  show "fresh_table empty_table" by (simp add: fresh_table_def empty_table_def)
  show "auditstore_New plain_lib 5 (1, 2) (loadHeadTx plain_lib empty_table) empty_table
      = (sample_booted, Inr (GenesisEvent plain_lib 5 (1, 2) ''Security by Design''))" by code_simp
  show "auditstore_New plain_lib 5 (3, 4) (loadHeadTx plain_lib empty_table) sample_booted
      = (sample_forked, Inr (GenesisEvent plain_lib 5 (3, 4) ''Security by Design''))" by code_simp
  show "runs (audit_step plain_lib) sample_forked sample_forked" by (rule runs_refl)
  show "al_sha256 plain_lib (GenesisPreimage plain_lib (GenesisEvent plain_lib 5 (3, 4) ''Security by Design''))
      \<noteq> al_sha256 plain_lib (ChainPreimage plain_lib (GenesisEvent plain_lib 5 (1, 2) ''Security by Design'')
          (GenesisEvent plain_lib 5 (3, 4) ''Security by Design''))"
    by (simp add: plain_lib_def Genesis_Chain_distinct)
qed (simp_all add: clock_range_def)

text \<open>
  Verification does not see the columns outside the pre-images: the workspace, the details,
  the trace and span, the parent and the storage timestamp of any row can be rewritten.
\<close>

definition rewrite_unbound :: "(audit_row \<Rightarrow> uuid option) \<Rightarrow> (audit_row \<Rightarrow> string option) \<Rightarrow> (audit_row \<Rightarrow> uuid option) \<Rightarrow> audit_row \<Rightarrow> audit_row" where
  "rewrite_unbound ws details parent r =
     r\<lparr>aw_workspace_id := ws r, aw_outcome_details := details r, aw_trace_id := parent r, aw_span_id := parent r,
       aw_hash_chain_parent := parent r, aw_timestamp := 0\<rparr>"

definition same_bound :: "AuditEvent \<Rightarrow> AuditEvent \<Rightarrow> bool" where
  "same_bound a b \<longleftrightarrow> b = a\<lparr>ae_TraceID := ae_TraceID b, ae_SpanID := ae_SpanID b, ae_HashParent := ae_HashParent b\<rparr>"

lemma same_bound_preimages:
  assumes "same_bound a b"
  shows "GenesisPreimage lib b = GenesisPreimage lib a" "prev_fields lib b = prev_fields lib a" "link_fields lib b = link_fields lib a"
    "authentic lib b = authentic lib a" "ae_HashValue b = ae_HashValue a" "ae_Genesis b = ae_Genesis a"
  by (subst assms [unfolded same_bound_def]; simp add: GenesisPreimage_def prev_fields_def link_fields_def authentic_def)+

lemma preimages_from_same:
  "list_all2 same_bound es fs \<Longrightarrow> same_bound p q \<Longrightarrow> preimages_from lib q fs = preimages_from lib p es"
  by (induction arbitrary: p q rule: list_all2_induct) (simp_all add: ChainPreimage_fields same_bound_preimages)

lemma VerifyHashChain_same:
  assumes "list_all2 same_bound es fs"
  shows "VerifyHashChain lib (map Some fs) = VerifyHashChain lib (map Some es)"
proof -
  have "preimages lib fs = preimages lib es" "(fs = []) = (es = [])" "fs \<noteq> [] \<Longrightarrow> ae_Genesis (hd fs) = ae_Genesis (hd es)"
    using assms by (cases es; cases fs; auto simp: same_bound_preimages preimages_from_same)+
  moreover have "map ae_HashValue fs = map ae_HashValue es" "list_all (authentic lib) fs = list_all (authentic lib) es"
    using assms by (induction rule: list_all2_induct) (auto simp: same_bound_preimages)
  ultimately show ?thesis unfolding VerifyHashChain_iff by auto
qed

lemma scanRow_rewrite:
  "rel_sum (=) same_bound (scanRow lib r) (scanRow lib (rewrite_unbound ws details parent r))"
  by (simp add: scanRow_def rewrite_unbound_def same_bound_def Let_def split: option.split)

lemma scan_rows_rewrite:
  "rel_sum (=) (list_all2 same_bound) (scan_rows lib rows) (scan_rows lib (map (rewrite_unbound ws details parent) rows))"
proof (induction rows)
  case (Cons r rows)
  show ?case
    using Cons scanRow_rewrite [of lib r ws details parent]
    by (auto elim!: rel_sum.cases split: sum.splits)
qed simp

lemma insort_key_map_same: "(\<And>x. k (f x) = k x) \<Longrightarrow> insort_key k (f x) (map f xs) = map f (insort_key k x xs)"
  by (induction xs) auto

lemma sort_key_map_same: "(\<And>x. k (f x) = k x) \<Longrightarrow> sort_key k (map f xs) = map f (sort_key k xs)"
  by (induction xs) (simp_all add: insort_key_map_same)

lemma verification_blind_spots:
  "auditstore_Verify lib (tbl\<lparr>at_rows := map (rewrite_unbound ws details parent) (at_rows tbl)\<rparr>) = auditstore_Verify lib tbl"
proof -
  have sort: "sort_key aw_seq (map (rewrite_unbound ws details parent) rows) = map (rewrite_unbound ws details parent) (sort_key aw_seq rows)" for rows
    by (rule sort_key_map_same) (simp add: rewrite_unbound_def)
  show ?thesis
    unfolding auditstore_Verify_def auditstore_Chain_def
    using scan_rows_rewrite [of lib "sort_key aw_seq (at_rows tbl)" ws details parent]
    by (auto simp: sort VerifyHashChain_same elim!: rel_sum.cases)
qed

text \<open>No detail under a key that looks like a credential keeps its value.\<close>

lemma RedactDetails_secret:
  "(k, v) \<in> set (RedactDetails d) \<Longrightarrow> list_ex (Contains (map ascii_lower k)) secretKeys \<Longrightarrow> v = ''[redacted]''"
  by (auto simp: RedactDetails_def)

end
