(* ===== verification/Api_Base.thy ===== *)
theory Api_Base
  imports Go_Text Access_Control
begin

text \<open>
  What the request handlers share: the answer of a handler, the workspace of the caller's
  verified claims (\<^verbatim>\<open>internal/api/workspace.go\<close>) and the parsed query string. An answer carries its
  status; the text of an error body is not modelled.
\<close>

datatype 'b response = HTTP_Error nat | HTTP_OK nat 'b

definition WorkspaceFromClaims :: "Claims option \<Rightarrow> string option" where
  "WorkspaceFromClaims claims =
     (case claims of
        None \<Rightarrow> None
      | Some c \<Rightarrow>
          (case cl_Role c of
             RoleFounder \<Rightarrow> None
           | RoleWorkspaceAdmin \<Rightarrow> if cl_WorkspaceID c = [] then None else Some (cl_WorkspaceID c)
           | RoleWorkspaceMember \<Rightarrow> if cl_WorkspaceID c = [] then None else Some (cl_WorkspaceID c)
           | RoleOther _ \<Rightarrow> None))"

lemma WorkspaceFromClaims_SomeD:
  "WorkspaceFromClaims (Some c) = Some w \<Longrightarrow> w = cl_WorkspaceID c \<and> w \<noteq> [] \<and> (cl_Role c = RoleWorkspaceAdmin \<or> cl_Role c = RoleWorkspaceMember)"
  by (auto simp: WorkspaceFromClaims_def split: Role.splits if_splits)

text \<open>Replacing one parameter of a query string, as a client that follows a cursor does.\<close>

definition with_param :: "string \<Rightarrow> string option \<Rightarrow> url_values \<Rightarrow> url_values" where
  "with_param k v vs = filter (\<lambda>(k', _). k' \<noteq> k) vs @ (case v of None \<Rightarrow> [] | Some x \<Rightarrow> [(k, [x])])"

lemma map_of_with_param:
  "map_of (with_param k v vs) k' = (if k' = k then map_option (\<lambda>x. [x]) v else map_of vs k')"
proof -
  have "map_of (filter (\<lambda>(k', _). k' \<noteq> k) vs) k' = (if k' = k then None else map_of vs k')"
    by (induction vs) auto
  then show ?thesis by (simp add: with_param_def map_add_def split: option.split)
qed

lemma values_Get_with_param:
  "values_Get (with_param k v vs) k' = (if k' = k then (case v of None \<Rightarrow> [] | Some x \<Rightarrow> x) else values_Get vs k')"
  by (simp add: values_Get_def map_of_with_param split: option.split)

lemma set_with_param: "fst ` set (with_param k v vs) \<subseteq> insert k (fst ` set vs)"
  by (auto simp: with_param_def split: option.splits)

lemma with_param_absent: "k \<notin> fst ` set vs \<Longrightarrow> with_param k None vs = vs"
  by (auto simp: with_param_def image_iff split_beta intro!: filter_True)

end
