(* ===== verification/Audit_Read.thy ===== *)
theory Audit_Read
  imports Audit_Chain Api_Base Keyset_Pages
begin

text \<open>
  Reading the audit log: the bounded query (\<^verbatim>\<open>internal/audit/read.go\<close>), the reader over PostgreSQL
  (\<^verbatim>\<open>infrastructure/auditstore/read.go\<close>) and the handlers (\<^verbatim>\<open>internal/api/audit_handlers.go\<close>). The
  organisation's reader runs on the administrative handle and sees every row; the tenant's
  runs under the row-level policy of \<^verbatim>\<open>audit_events\<close>. A query string is the association list of
  its parameters in the order the handler visits them.
\<close>

subsection \<open>The query\<close>

definition DefaultPageSize :: int where "DefaultPageSize = 50"
definition MaxPageSize :: int where "MaxPageSize = 200"
definition maxFilterRunes :: nat where "maxFilterRunes = 64"

record audit_query =
  qy_Workspace :: "uuid option"
  qy_EventType :: string
  qy_Outcome :: string
  qy_ActorType :: string
  qy_BeforeSeq :: int
  qy_Limit :: int

definition clamp_limit :: "int \<Rightarrow> int" where
  "clamp_limit n = (let n1 = (if n \<le> 0 then DefaultPageSize else n) in if n1 > MaxPageSize then MaxPageSize else n1)"

definition Normalize :: "audit_query \<Rightarrow> (audit_error, audit_query) result" where
  "Normalize q0 =
     (let q = q0\<lparr>qy_Limit := clamp_limit (qy_Limit q0)\<rparr>
      in if list_ex (\<lambda>v. RuneCount v > maxFilterRunes) [qy_EventType q, qy_Outcome q, qy_ActorType q] then Inl ErrFilter
         else Inr q)"

subsection \<open>The reader\<close>

record EventView =
  ev_Seq :: int
  ev_EventID :: uuid
  ev_Timestamp :: instant
  ev_Workspace :: "uuid option"
  ev_TraceID :: "uuid option"
  ev_SpanID :: "uuid option"
  ev_ActorType :: string
  ev_ActorID :: "uuid option"
  ev_TargetType :: string
  ev_TargetID :: "uuid option"
  ev_EventType :: string
  ev_Outcome :: string
  ev_ConstitutionalPrinciple :: string
  ev_Genesis :: bool

text \<open>The canonical text is preferred to the column when there is one and it parses.\<close>

definition event_view :: "audit_lib \<Rightarrow> audit_row \<Rightarrow> EventView" where
  "event_view lib r =
     \<lparr>ev_Seq = aw_seq r, ev_EventID = aw_event_id r,
      ev_Timestamp =
        (case aw_timestamp_canonical r of
           None \<Rightarrow> aw_timestamp r
         | Some canonical \<Rightarrow>
             if canonical = [] then aw_timestamp r
             else (case al_parse lib canonical of None \<Rightarrow> aw_timestamp r | Some t \<Rightarrow> t)),
      ev_Workspace = aw_workspace_id r, ev_TraceID = aw_trace_id r, ev_SpanID = aw_span_id r,
      ev_ActorType = aw_actor_type r, ev_ActorID = aw_actor_id r,
      ev_TargetType = aw_target_type r, ev_TargetID = aw_target_id r,
      ev_EventType = aw_event_type r, ev_Outcome = aw_outcome r,
      ev_ConstitutionalPrinciple = aw_constitutional_principle r, ev_Genesis = aw_genesis r\<rparr>"

definition collectEventViews :: "audit_lib \<Rightarrow> audit_row list \<Rightarrow> EventView list" where
  "collectEventViews lib rows = map (event_view lib) rows"

text \<open>The conditions of the \<^verbatim>\<open>WHERE\<close> clause other than the cursor.\<close>

definition query_matches :: "audit_query \<Rightarrow> audit_row \<Rightarrow> bool" where
  "query_matches q r \<longleftrightarrow>
     (case qy_Workspace q of None \<Rightarrow> True | Some w \<Rightarrow> aw_workspace_id r = Some w)
     \<and> (qy_EventType q \<noteq> [] \<longrightarrow> aw_event_type r = qy_EventType q)
     \<and> (qy_Outcome q \<noteq> [] \<longrightarrow> aw_outcome r = qy_Outcome q)
     \<and> (qy_ActorType q \<noteq> [] \<longrightarrow> aw_actor_type r = qy_ActorType q)"

definition buildQuery :: "audit_query \<Rightarrow> audit_row list \<Rightarrow> audit_row list" where
  "buildQuery q rows =
     take (nat (qy_Limit q))
       (rev (sort_key aw_seq
          (filter (\<lambda>r. query_matches q r \<and> (qy_BeforeSeq q > 0 \<longrightarrow> aw_seq r < qy_BeforeSeq q)) rows)))"

definition Reader_List :: "audit_lib \<Rightarrow> audit_query \<Rightarrow> audit_table \<Rightarrow> (audit_error, EventView list) result" where
  "Reader_List lib q tbl =
     (case Normalize q of Inl e \<Rightarrow> Inl e | Inr q' \<Rightarrow> Inr (collectEventViews lib (buildQuery q' (at_rows tbl))))"

definition audit_workspace_policy :: "uuid \<Rightarrow> audit_row \<Rightarrow> bool" where
  "audit_workspace_policy ws r \<longleftrightarrow> aw_workspace_id r = None \<or> aw_workspace_id r = Some ws"

definition Reader_ListForWorkspace :: "audit_lib \<Rightarrow> uuid \<Rightarrow> audit_query \<Rightarrow> audit_table \<Rightarrow> (audit_error, EventView list) result" where
  "Reader_ListForWorkspace lib ws q tbl =
     (case Normalize q of
        Inl e \<Rightarrow> Inl e
      | Inr q' \<Rightarrow>
          Inr (collectEventViews lib (buildQuery (q'\<lparr>qy_Workspace := Some ws\<rparr>) (filter (audit_workspace_policy ws) (at_rows tbl)))))"

definition Reader_VerifyChain :: "audit_lib \<Rightarrow> audit_table \<Rightarrow> (audit_error, bool \<times> nat) result" where
  "Reader_VerifyChain lib tbl =
     (case scan_rows lib (sort_key aw_seq (at_rows tbl)) of
        Inl e \<Rightarrow> Inl e
      | Inr events \<Rightarrow> Inr (VerifyHashChain lib (map Some events), length events))"

subsection \<open>The handlers\<close>

record auditPage =
  pg_Events :: "EventView list"
  pg_NextCursor :: string
  pg_Limit :: int

definition newAuditPage :: "EventView list \<Rightarrow> int \<Rightarrow> auditPage" where
  "newAuditPage events limit =
     \<lparr>pg_Events = events,
      pg_NextCursor = (if int (length events) = limit \<and> limit > 0 then FormatInt (ev_Seq (last events)) else []),
      pg_Limit = limit\<rparr>"

definition audit_params :: "string list" where
  "audit_params = [''event_type'', ''outcome'', ''actor_type'', ''limit'', ''before_seq'']"

text \<open>An optional number of the query string that must not be negative; absent it is 0.\<close>

definition nonneg_param :: "string \<Rightarrow> int option" where
  "nonneg_param v =
     (if v = [] then Some 0 else case ParseInt v of None \<Rightarrow> None | Some n \<Rightarrow> if n < 0 then None else Some n)"

definition parseAuditQuery :: "url_values \<Rightarrow> audit_query option" where
  "parseAuditQuery vs =
     (if \<not> list_all (\<lambda>(k, _). k \<in> set audit_params) vs then None
      else case nonneg_param (values_Get vs ''limit'') of
             None \<Rightarrow> None
           | Some limit \<Rightarrow>
               (case nonneg_param (values_Get vs ''before_seq'') of
                  None \<Rightarrow> None
                | Some before \<Rightarrow>
                    (case Normalize
                            \<lparr>qy_Workspace = None,
                             qy_EventType = TrimSpace (values_Get vs ''event_type''),
                             qy_Outcome = TrimSpace (values_Get vs ''outcome''),
                             qy_ActorType = TrimSpace (values_Get vs ''actor_type''),
                             qy_BeforeSeq = before, qy_Limit = limit\<rparr> of
                       Inl _ \<Rightarrow> None
                     | Inr q \<Rightarrow> Some q)))"

definition ListOrg :: "audit_lib \<Rightarrow> Claims option \<Rightarrow> url_values \<Rightarrow> audit_table \<Rightarrow> auditPage response" where
  "ListOrg lib claims vs tbl =
     (case claims of
        None \<Rightarrow> HTTP_Error 401
      | Some c \<Rightarrow>
          if cl_Role c \<noteq> RoleFounder then HTTP_Error 403
          else case parseAuditQuery vs of
                 None \<Rightarrow> HTTP_Error 400
               | Some q \<Rightarrow>
                   (case Reader_List lib q tbl of
                      Inl _ \<Rightarrow> HTTP_Error 500
                    | Inr events \<Rightarrow> HTTP_OK 200 (newAuditPage events (qy_Limit q))))"

definition ListForWorkspace ::
  "audit_lib \<Rightarrow> (string \<Rightarrow> uuid option) \<Rightarrow> Claims option \<Rightarrow> string \<Rightarrow> url_values \<Rightarrow> audit_table \<Rightarrow> auditPage response" where
  "ListForWorkspace lib uuid_Parse claims path vs tbl =
     (case claims of
        None \<Rightarrow> HTTP_Error 401
      | Some c \<Rightarrow>
          (case parseAuditQuery vs of
             None \<Rightarrow> HTTP_Error 400
           | Some q \<Rightarrow>
               (case uuid_Parse path of
                  None \<Rightarrow> HTTP_Error 400
                | Some pathID \<Rightarrow>
                    if cl_Role c = RoleFounder
                    then (case Reader_List lib (q\<lparr>qy_Workspace := Some pathID\<rparr>) tbl of
                            Inl _ \<Rightarrow> HTTP_Error 500
                          | Inr events \<Rightarrow> HTTP_OK 200 (newAuditPage events (qy_Limit q)))
                    else (case WorkspaceFromClaims (Some c) of
                            None \<Rightarrow> HTTP_Error 403
                          | Some binding \<Rightarrow>
                              if binding \<noteq> al_uuid_String lib pathID then HTTP_Error 403
                              else (case Reader_ListForWorkspace lib pathID q tbl of
                                      Inl _ \<Rightarrow> HTTP_Error 500
                                    | Inr events \<Rightarrow> HTTP_OK 200 (newAuditPage events (qy_Limit q)))))))"

text \<open>The head is read after the chain was verified, so from a table that may have grown.\<close>

record auditVerification =
  vf_Verified :: bool
  vf_Length :: nat
  vf_HeadSeq :: int

definition Verification :: "audit_lib \<Rightarrow> Claims option \<Rightarrow> audit_table \<Rightarrow> audit_table \<Rightarrow> auditVerification response" where
  "Verification lib claims tbl tbl' =
     (case claims of
        None \<Rightarrow> HTTP_Error 401
      | Some c \<Rightarrow>
          if cl_Role c \<noteq> RoleFounder then HTTP_Error 403
          else case Reader_VerifyChain lib tbl of
                 Inl _ \<Rightarrow> HTTP_Error 500
               | Inr (ok, len) \<Rightarrow>
                   let q = \<lparr>qy_Workspace = None, qy_EventType = [], qy_Outcome = [], qy_ActorType = [], qy_BeforeSeq = 0, qy_Limit = 1\<rparr>;
                       head = (if len > 0
                               then (case Reader_List lib q tbl' of Inr (v # _) \<Rightarrow> ev_Seq v | _ \<Rightarrow> 0)
                               else 0)
                   in HTTP_OK 200 \<lparr>vf_Verified = ok, vf_Length = len, vf_HeadSeq = head\<rparr>)"

subsection \<open>A client that follows the cursors\<close>

definition audit_fetch :: "audit_lib \<Rightarrow> Claims \<Rightarrow> url_values \<Rightarrow> string option \<Rightarrow> audit_table \<Rightarrow> EventView list \<times> string option" where
  "audit_fetch lib c vs cursor tbl =
     (case ListOrg lib (Some c) (with_param ''before_seq'' cursor vs) tbl of
        HTTP_Error _ \<Rightarrow> ([], None)
      | HTTP_OK _ page \<Rightarrow> (pg_Events page, if pg_NextCursor page = [] then None else Some (pg_NextCursor page)))"

definition seq_cursor :: "string \<Rightarrow> bool" where
  "seq_cursor t \<longleftrightarrow> (\<exists>n. 0 < n \<and> int64 n \<and> t = FormatInt n)"

definition seq_position :: "string \<Rightarrow> int" where
  "seq_position t = (case ParseInt t of None \<Rightarrow> 0 | Some n \<Rightarrow> n)"

definition bigint_table :: "audit_table \<Rightarrow> bool" where
  "bigint_table tbl \<longleftrightarrow> seq_inv tbl \<and> at_nextval tbl \<le> 2 ^ 63"

definition first_query :: "url_values \<Rightarrow> audit_query option" where
  "first_query vs = parseAuditQuery (with_param ''before_seq'' None vs)"

definition audit_wanted :: "Claims \<Rightarrow> url_values \<Rightarrow> audit_row \<Rightarrow> bool" where
  "audit_wanted c vs r \<longleftrightarrow> cl_Role c = RoleFounder \<and> (case first_query vs of None \<Rightarrow> False | Some q \<Rightarrow> query_matches q r)"

definition audit_limit :: "url_values \<Rightarrow> nat" where
  "audit_limit vs = (case first_query vs of None \<Rightarrow> 1 | Some q \<Rightarrow> nat (qy_Limit q))"

lemma clamp_limit_range: "0 < clamp_limit n \<and> clamp_limit n \<le> MaxPageSize"
  by (simp add: clamp_limit_def DefaultPageSize_def MaxPageSize_def Let_def)

lemma clamp_limit_idem [simp]: "clamp_limit (clamp_limit n) = clamp_limit n"
  by (simp add: clamp_limit_def DefaultPageSize_def MaxPageSize_def Let_def)

lemma Normalize_SomeD:
  "Normalize q = Inr q' \<Longrightarrow> q' = q\<lparr>qy_Limit := clamp_limit (qy_Limit q)\<rparr> \<and> Normalize q' = Inr q'"
  by (auto simp: Normalize_def Let_def split: if_splits)

lemma nonneg_param_Nil [simp]: "nonneg_param [] = Some 0"
  by (simp add: nonneg_param_def)

lemma nonneg_param_FormatInt: "0 < n \<Longrightarrow> int64 n \<Longrightarrow> nonneg_param (FormatInt n) = Some n"
  by (simp add: nonneg_param_def)

lemma parseAuditQuery_SomeD:
  assumes "parseAuditQuery vs = Some q"
  shows "0 < qy_Limit q" and "qy_Limit q \<le> MaxPageSize" and "qy_Workspace q = None" and "Normalize q = Inr q"
proof -
  obtain q0 where q0: "Normalize q0 = Inr q" "qy_Workspace q0 = None"
    using assms by (auto simp: parseAuditQuery_def split: if_splits option.splits sum.splits)
  then have q: "q = q0\<lparr>qy_Limit := clamp_limit (qy_Limit q0)\<rparr>" and n: "Normalize q = Inr q"
    using Normalize_SomeD by blast+
  show "0 < qy_Limit q" "qy_Limit q \<le> MaxPageSize" "qy_Workspace q = None" "Normalize q = Inr q"
    using clamp_limit_range q0(2) n by (simp_all add: q)
qed

text \<open>A cursor changes nothing but the position.\<close>

lemma Normalize_BeforeSeq:
  "Normalize (q\<lparr>qy_BeforeSeq := n\<rparr>) = map_sum id (\<lambda>q'. q'\<lparr>qy_BeforeSeq := n\<rparr>) (Normalize q)"
  by (simp add: Normalize_def Let_def)

lemma list_all_with_param:
  "k \<in> set ps \<Longrightarrow> list_all (\<lambda>(k', _). k' \<in> set ps) (with_param k v vs) = list_all (\<lambda>(k', _). k' \<in> set ps \<or> k' = k) vs"
  by (auto simp: with_param_def list_all_iff split: option.splits)

lemma parse_with_cursor:
  assumes "0 < n" "int64 n"
  shows "parseAuditQuery (with_param ''before_seq'' (Some (FormatInt n)) vs)
       = map_option (\<lambda>q. q\<lparr>qy_BeforeSeq := n\<rparr>) (first_query vs)"
proof -
  have known: "list_all (\<lambda>(k, _). k \<in> set audit_params) (with_param ''before_seq'' v vs)
      = list_all (\<lambda>(k, _). k \<in> set audit_params \<or> k = ''before_seq'') vs" for v
    by (rule list_all_with_param) (simp add: audit_params_def)
  show ?thesis
    unfolding parseAuditQuery_def first_query_def known values_Get_with_param
    using Normalize_BeforeSeq [where q = "\<lparr>qy_Workspace = None, qy_EventType = e, qy_Outcome = u, qy_ActorType = a, qy_BeforeSeq = 0, qy_Limit = l\<rparr>"
        and n = n for e u a l]
    by (simp add: nonneg_param_FormatInt [OF assms] split: option.split sum.split)
qed

lemma first_query_BeforeSeq: "first_query vs = Some q \<Longrightarrow> qy_BeforeSeq q = 0"
  by (auto simp: first_query_def parseAuditQuery_def values_Get_with_param Normalize_def Let_def
      split: if_splits option.splits sum.splits)

text \<open>What one request of the client returns.\<close>

lemma audit_fetch_eq:
  fixes c :: Claims and vs :: url_values and cursor :: "string option"
  assumes "pred_option seq_cursor cursor"
  defines "todo \<equiv> \<lambda>tbl. newest_first aw_seq (filter (\<lambda>r. audit_wanted c vs r \<and> below aw_seq (map_option seq_position cursor) r) (at_rows tbl))"
  shows "audit_fetch lib c vs cursor tbl =
    (let page = map (event_view lib) (take (audit_limit vs) (todo tbl))
     in (page, if cl_Role c = RoleFounder \<and> first_query vs \<noteq> None \<and> length page = audit_limit vs
               then Some (FormatInt (ev_Seq (last page))) else None))"
proof (cases "cl_Role c = RoleFounder \<and> first_query vs \<noteq> None")
  case False
  have "first_query vs = None \<Longrightarrow> parseAuditQuery (with_param ''before_seq'' cursor vs) = None"
    using assms(1) by (cases cursor) (auto simp: first_query_def seq_cursor_def parse_with_cursor)
  with False show ?thesis
    by (auto simp: audit_fetch_def ListOrg_def todo_def audit_wanted_def split: option.split)
next
  case True
  then obtain q where q: "first_query vs = Some q" by auto
  define n where "n = (case cursor of None \<Rightarrow> 0 | Some t \<Rightarrow> seq_position t)"
  have "parseAuditQuery (with_param ''before_seq'' cursor vs) = Some (q\<lparr>qy_BeforeSeq := n\<rparr>)"
  proof (cases cursor)
    case None
    then show ?thesis using q first_query_BeforeSeq [OF q] by (simp add: n_def first_query_def)
  next
    case (Some t)
    then obtain m where "0 < m" "int64 m" "t = FormatInt m" using assms(1) by (auto simp: seq_cursor_def)
    then show ?thesis using q Some by (simp add: n_def parse_with_cursor seq_position_def)
  qed
  moreover have "Normalize (q\<lparr>qy_BeforeSeq := n\<rparr>) = Inr (q\<lparr>qy_BeforeSeq := n\<rparr>)" and lim: "0 < qy_Limit q"
    using parseAuditQuery_SomeD(1,4) [of _ q] q by (simp_all add: first_query_def Normalize_BeforeSeq)
  moreover have "buildQuery (q\<lparr>qy_BeforeSeq := n\<rparr>) (at_rows tbl) = take (audit_limit vs) (todo tbl)"
  proof -
    have "0 < n" if "cursor = Some t" for t
      using assms(1) that by (auto simp: n_def seq_cursor_def seq_position_def)
    then have "below aw_seq (map_option seq_position cursor) r = (0 < n \<longrightarrow> aw_seq r < n)" for r :: audit_row
      by (cases cursor) (simp_all add: below_def n_def)
    then show ?thesis
      using True by (simp add: buildQuery_def todo_def newest_first_def audit_wanted_def audit_limit_def q query_matches_def)
  qed
  ultimately show ?thesis
    using True q lim by (auto simp: audit_fetch_def ListOrg_def Reader_List_def collectEventViews_def newAuditPage_def audit_limit_def Let_def)
qed

interpretation audit_pages: keyset_listing aw_seq at_rows bigint_table "audit_wanted c vs" "event_view lib" "audit_limit vs"
    seq_position "audit_fetch lib c vs" seq_cursor
  for c vs lib
proof
  show "0 < audit_limit vs"
    using parseAuditQuery_SomeD(1) by (auto simp: audit_limit_def first_query_def split: option.split)
  show "distinct (map aw_seq (at_rows t))" if "bigint_table t" for t
    using that by (simp add: bigint_table_def seq_inv_def strict_sorted_iff)
  show "fst (audit_fetch lib c vs cursor t) =
      map (event_view lib) (take (audit_limit vs)
        (newest_first aw_seq (filter (\<lambda>r. audit_wanted c vs r \<and> below aw_seq (map_option seq_position cursor) r) (at_rows t))))"
    if "pred_option seq_cursor cursor" for t cursor
    using audit_fetch_eq [OF that] by (simp add: Let_def)
  fix t cursor
  assume t: "bigint_table t" and cur: "pred_option seq_cursor cursor"
  let ?todo = "newest_first aw_seq (filter (\<lambda>r. audit_wanted c vs r \<and> below aw_seq (map_option seq_position cursor) r) (at_rows t))"
  have pos: "0 < audit_limit vs" using parseAuditQuery_SomeD(1) by (auto simp: audit_limit_def first_query_def split: option.split)
  show "seq_cursor c' \<and> audit_limit vs \<le> length todo \<and> seq_position c' = aw_seq (last (take (audit_limit vs) todo))"
    if "todo = ?todo" "snd (audit_fetch lib c vs cursor t) = Some c'" for c' todo
  proof -
    let ?page = "take (audit_limit vs) ?todo"
    have "c' = FormatInt (ev_Seq (last (map (event_view lib) ?page)))" and len: "length ?page = audit_limit vs"
      using that(2) unfolding audit_fetch_eq [OF cur] by (simp_all add: Let_def split: if_splits)
    moreover have "?page \<noteq> []" using len pos by (metis length_greater_0_conv)
    ultimately have c': "c' = FormatInt (aw_seq (last ?page))" "audit_limit vs \<le> length ?todo" "?page \<noteq> []"
      by (simp_all add: last_map event_view_def)
    then have "last ?page \<in> set ?todo" by (meson in_set_takeD last_in_set)
    then have "last ?page \<in> set (at_rows t)" by simp
    then have "0 < aw_seq (last ?page)" "int64 (aw_seq (last ?page))"
      using t by (auto simp: bigint_table_def seq_inv_def list_all_iff int64_def)
    then show ?thesis using c' that(1) by (auto simp: seq_cursor_def seq_position_def)
  qed
  show "length (filter (\<lambda>r. audit_wanted c vs r \<and> below aw_seq (map_option seq_position cursor) r) (at_rows t)) \<le> audit_limit vs"
    if "snd (audit_fetch lib c vs cursor t) = None"
  proof (cases "cl_Role c = RoleFounder \<and> first_query vs \<noteq> None")
    case True
    then show ?thesis using that unfolding audit_fetch_eq [OF cur] by (auto simp: Let_def split: if_splits)
  next
    case False
    then show ?thesis by (auto simp: audit_wanted_def)
  qed
qed

subsection \<open>What the readers promise\<close>

lemma prefix_rows_below:
  assumes "seq_inv u" and "prefix (at_rows t) (at_rows u)" and "k \<in> aw_seq ` set (at_rows t)"
  shows "filter (\<lambda>r. P r \<and> below aw_seq (Some k) r) (at_rows u) = filter (\<lambda>r. P r \<and> below aw_seq (Some k) r) (at_rows t)"
proof -
  obtain new where new: "at_rows u = at_rows t @ new" using assms(2) by (auto simp: prefix_def)
  then have "\<not> aw_seq r < k" if "r \<in> set new" for r
    using assms(1,3) that by (force simp: seq_inv_def sorted_wrt_append)
  then have "filter (\<lambda>r. P r \<and> below aw_seq (Some k) r) new = []"
    by (auto simp: filter_empty_conv below_def)
  then show ?thesis by (simp add: new)
qed

lemma newest_first_seq: "seq_inv t \<Longrightarrow> newest_first aw_seq (filter P (at_rows t)) = rev (filter P (at_rows t))"
  by (simp add: newest_first_def filter_sort [symmetric] seq_inv_sort)

text \<open>
  C22. Paging is complete. A founder who follows the cursors from the first page to the end
  receives every event that matched the filters when the first page was read, exactly once
  and newest first, whatever processes append to the log between the requests. As many further
  requests as there were rows are enough.
\<close>

theorem audit_pages_complete:
  assumes "fresh_table s" and "runs (audit_step lib) s t" and "list_all (\<lambda>u. runs (audit_step lib) t u) us"
    and "list_all (\<lambda>u. at_nextval u \<le> 2 ^ 63) (t # us)" and "length (at_rows t) \<le> length us"
    and "cl_Role c = RoleFounder" and "''before_seq'' \<notin> fst ` set vs" and "parseAuditQuery vs = Some q"
  shows "walk (audit_fetch lib c vs) None (t # us) = map (event_view lib) (rev (filter (query_matches q) (at_rows t)))"
proof -
  have t: "seq_inv t" using assms(1,2) by (rule audit_log.inv_reachable)
  have us: "seq_inv u \<and> prefix (at_rows t) (at_rows u)" if "u \<in> set us" for u
    using that assms(3) audit_log.inv_runs [of lib t u] audit_log.rel_runs [of lib t u] t
    by (auto simp: list_all_iff audit_extends_def)
  have "first_query vs = Some q" using assms(7,8) by (simp add: first_query_def with_param_absent)
  then have wanted: "audit_wanted c vs = query_matches q" using assms(6) by (simp add: audit_wanted_def fun_eq_iff)
  have todo: "audit_pages.todo c vs k u = newest_first aw_seq (filter (\<lambda>r. query_matches q r \<and> below aw_seq k r) (at_rows u))" for k u
    by (subst audit_pages.todo_def) (simp only: wanted)
  have "audit_pages.todo c vs None t = newest_first aw_seq (filter (query_matches q) (at_rows t))"
    unfolding todo below_def by simp
  then have first: "audit_pages.todo c vs None t = rev (filter (query_matches q) (at_rows t))"
    using newest_first_seq [OF t] by simp
  have "walk (audit_fetch lib c vs) None (t # us) = map (event_view lib) (audit_pages.todo c vs (map_option seq_position None) t)"
  proof (rule audit_pages.walk_complete)
    show "bigint_table t" "list_all bigint_table us"
      using t us assms(4) by (auto simp: bigint_table_def list_all_iff)
    show "length (audit_pages.todo c vs (map_option seq_position None) t) \<le> length us"
      using assms(5) le_trans [OF length_filter_le] by (simp add: first)
    show "audit_pages.todo c vs (Some k) u = audit_pages.todo c vs (Some k) t"
      if "u \<in> set us" "k \<in> aw_seq ` set (audit_pages.todo c vs (map_option seq_position None) t)" for u k
    proof -
      have "k \<in> aw_seq ` set (at_rows t)" using that(2) by (auto simp: first)
      then show ?thesis using us [OF that(1)] prefix_rows_below [of u t k "query_matches q"] by (simp add: todo)
    qed
  qed simp
  then show ?thesis by (simp add: first)
qed

definition founder_claims :: Claims where
  "founder_claims = \<lparr>cl_Subject = ''f'', cl_ExpiresAt = 0, cl_TokenID = ''1'', cl_ID = ''f'', cl_Role = RoleFounder, cl_WorkspaceID = [], cl_Permissions = []\<rparr>"

definition one_per_page :: url_values where
  "one_per_page = [(''limit'', [''1''])]"

lemma one_per_page_query:
  "parseAuditQuery one_per_page = Some \<lparr>qy_Workspace = None, qy_EventType = [], qy_Outcome = [], qy_ActorType = [], qy_BeforeSeq = 0, qy_Limit = 1\<rparr>"
  by code_simp

theorem audit_pages_complete_witness:
  "walk (audit_fetch plain_lib founder_claims one_per_page) None [sample_logged, sample_logged, sample_logged]
   = map (event_view plain_lib) (rev (at_rows sample_logged))"
proof -
  have run: "runs (audit_step plain_lib) empty_table sample_logged"
    using sample_runs(2) sample_runs(1) by (rule runs_trans)
  have next_seq: "at_nextval sample_logged = 3" by code_simp
  let ?q = "\<lparr>qy_Workspace = None, qy_EventType = [], qy_Outcome = [], qy_ActorType = [], qy_BeforeSeq = 0, qy_Limit = 1\<rparr>"
  have "walk (audit_fetch plain_lib founder_claims one_per_page) None (sample_logged # [sample_logged, sample_logged])
     = map (event_view plain_lib) (rev (filter (query_matches ?q) (at_rows sample_logged)))"
  proof (rule audit_pages_complete [OF _ run _ _ _ _ _ one_per_page_query])
    show "fresh_table empty_table" by (simp add: fresh_table_def empty_table_def)
    show "length (at_rows sample_logged) \<le> length [sample_logged, sample_logged]" by (simp add: sample_logged_rows)
  qed (simp_all add: runs_refl next_seq founder_claims_def one_per_page_def)
  moreover have "query_matches ?q = (\<lambda>_. True)" by (simp add: query_matches_def fun_eq_iff)
  ultimately show ?thesis by simp
qed

lemma length_buildQuery:
  assumes "Normalize q0 = Inr q1" and "qy_Limit q = qy_Limit q1"
  shows "length (buildQuery q rows) \<le> 200"
proof -
  have "length (buildQuery q rows) \<le> nat (qy_Limit q)" by (simp add: buildQuery_def)
  also have "\<dots> \<le> 200"
    using assms clamp_limit_range [of "qy_Limit q0"] Normalize_SomeD [OF assms(1)] by (simp add: MaxPageSize_def nat_le_iff)
  finally show ?thesis .
qed

lemma Reader_List_bounded: "Reader_List lib q tbl = Inr events \<Longrightarrow> length events \<le> 200"
  by (auto simp: Reader_List_def collectEventViews_def intro: length_buildQuery split: sum.splits)

lemma Reader_ListForWorkspace_confined:
  assumes "Reader_ListForWorkspace lib w q tbl = Inr events"
  shows "length events \<le> 200 \<and> list_all (\<lambda>v. ev_Workspace v = Some w) events"
proof -
  obtain q' where q': "Normalize q = Inr q'"
    and ev: "events = map (event_view lib) (buildQuery (q'\<lparr>qy_Workspace := Some w\<rparr>) (filter (audit_workspace_policy w) (at_rows tbl)))"
    using assms by (auto simp: Reader_ListForWorkspace_def collectEventViews_def split: sum.splits)
  have "aw_workspace_id r = Some w" if "r \<in> set (buildQuery (q'\<lparr>qy_Workspace := Some w\<rparr>) rows)" for r rows
    using that by (auto simp: buildQuery_def query_matches_def dest: in_set_takeD)
  then show ?thesis using length_buildQuery [OF q', of "q'\<lparr>qy_Workspace := Some w\<rparr>"] by (auto simp: ev list_all_iff event_view_def)
qed

text \<open>
  Audit history stays in its tenant. Whatever the path and the query string, a caller who
  is not the founder only ever receives events of the workspace in the caller's own claims,
  from a path that names that workspace; the organisation's listing and the verification of
  the chain are refused to everyone but the founder; and no page is longer than the ceiling.
\<close>

theorem audit_reads_confined:
  "(\<forall>page status. ListForWorkspace lib uuid_Parse (Some c) path vs tbl = HTTP_OK status page \<longrightarrow>
      length (pg_Events page) \<le> 200
      \<and> (cl_Role c \<noteq> RoleFounder \<longrightarrow>
           (\<exists>w. uuid_Parse path = Some w \<and> al_uuid_String lib w = cl_WorkspaceID c
              \<and> list_all (\<lambda>v. ev_Workspace v = Some w) (pg_Events page))))
   \<and> (\<forall>page status. ListOrg lib claims vs tbl = HTTP_OK status page \<longrightarrow>
        (\<exists>f. claims = Some f \<and> cl_Role f = RoleFounder) \<and> length (pg_Events page) \<le> 200)
   \<and> (\<forall>report status. Verification lib claims tbl tbl' = HTTP_OK status report \<longrightarrow>
        (\<exists>f. claims = Some f \<and> cl_Role f = RoleFounder))"
proof (intro conjI allI impI)
  fix page status
  assume ok: "ListForWorkspace lib uuid_Parse (Some c) path vs tbl = HTTP_OK status page"
  show "length (pg_Events page) \<le> 200"
    using ok by (auto simp: ListForWorkspace_def newAuditPage_def dest: Reader_List_bounded Reader_ListForWorkspace_confined
        split: option.splits if_splits sum.splits)
  show "\<exists>w. uuid_Parse path = Some w \<and> al_uuid_String lib w = cl_WorkspaceID c \<and> list_all (\<lambda>v. ev_Workspace v = Some w) (pg_Events page)"
    if "cl_Role c \<noteq> RoleFounder"
    using ok that by (auto simp: ListForWorkspace_def newAuditPage_def dest!: Reader_ListForWorkspace_confined WorkspaceFromClaims_SomeD
        split: option.splits if_splits sum.splits)
next
  fix page status
  assume "ListOrg lib claims vs tbl = HTTP_OK status page"
  then show "\<exists>f. claims = Some f \<and> cl_Role f = RoleFounder" and "length (pg_Events page) \<le> 200"
    by (auto simp: ListOrg_def newAuditPage_def intro: Reader_List_bounded split: option.splits if_splits sum.splits)
qed (auto simp: Verification_def split: option.splits if_splits)

definition member_claims :: Claims where
  "member_claims = founder_claims\<lparr>cl_Role := RoleWorkspaceMember, cl_WorkspaceID := ''1''\<rparr>"

definition sample_tenant :: audit_table where
  "sample_tenant = snd (fst (auditstore_Append plain_lib 7 (5, 6) (sample_record\<lparr>rc_WorkspaceID := Some 1\<rparr>) (sample_genesis, sample_logged)))"

definition tenant_listing :: "auditPage response" where
  "tenant_listing = ListForWorkspace plain_lib (\<lambda>s. if s = ''1'' then Some 1 else None) (Some member_claims) ''1'' [] sample_tenant"

lemma tenant_listing_OK: "\<exists>page. tenant_listing = HTTP_OK 200 page \<and> length (pg_Events page) = 1"
proof -
  have "(case tenant_listing of HTTP_Error _ \<Rightarrow> False | HTTP_OK n page \<Rightarrow> n = 200 \<and> length (pg_Events page) = 1)" by code_simp
  then show ?thesis by (auto split: response.splits)
qed

theorem audit_reads_confined_witness:
  "\<exists>page. tenant_listing = HTTP_OK 200 page \<and> length (pg_Events page) = 1 \<and> list_all (\<lambda>v. ev_Workspace v = Some 1) (pg_Events page)"
proof -
  obtain page where page: "tenant_listing = HTTP_OK 200 page" "length (pg_Events page) = 1" using tenant_listing_OK by blast
  have "cl_Role member_claims \<noteq> RoleFounder" by (simp add: member_claims_def)
  moreover have "ListForWorkspace plain_lib (\<lambda>s. if s = ''1'' then Some 1 else None) (Some member_claims) ''1'' [] sample_tenant = HTTP_OK 200 page"
    using page(1) by (simp add: tenant_listing_def)
  ultimately have "\<exists>w. (if ''1'' = ''1'' then Some 1 else None) = Some w \<and> al_uuid_String plain_lib w = cl_WorkspaceID member_claims
      \<and> list_all (\<lambda>v. ev_Workspace v = Some w) (pg_Events page)"
    using audit_reads_confined [where c = member_claims and lib = plain_lib and path = "''1''" and vs = "[]" and tbl = sample_tenant
        and uuid_Parse = "\<lambda>s. if s = ''1'' then Some 1 else None"] by blast
  then show ?thesis using page by (intro exI [of _ page]) simp
qed

end
