(* ===== verification/Task_Api.thy ===== *)
theory Task_Api
  imports Tasks Audit_Read
begin

text \<open>
  The task routes (\<^verbatim>\<open>internal/api/task_handlers.go\<close>): the caller's workspace from the verified
  claims, validation, the service, and the durable audit record without which a mutation is
  not answered as a success. A body is the value \<^verbatim>\<open>decodeJSON\<close> produced, or \<open>None\<close> when it refused
  it; a query string is \<open>None\<close> when it does not parse. Parsing UUIDs and RFC 3339 times, and the
  text of a time, are parameters.
\<close>

subsection \<open>Requests and answers\<close>

record api_env =
  en_lib :: audit_lib
  en_uuid_Parse :: "string \<Rightarrow> uuid option"
  en_time_Parse :: "string \<Rightarrow> instant option"
  en_time_Format :: "instant \<Rightarrow> string"
  en_auditSink :: bool

text \<open>What a request brings: claims, clock, the identifiers drawn for it and for its audit event, its trace id.\<close>

record api_call =
  cx_claims :: "Claims option"
  cx_now :: instant
  cx_gen :: "uuid \<times> uuid"
  cx_ids :: "uuid \<times> uuid"
  cx_trace :: string

record task_world =
  tw_tasks :: task_state
  tw_audit :: "AuditEvent \<times> audit_table"

definition taskTitleMaxRunes :: nat where "taskTitleMaxRunes = 200"
definition taskDescriptionMaxRunes :: nat where "taskDescriptionMaxRunes = 4000"

record createTaskRequest =
  cr_Title :: string
  cr_Description :: string
  cr_Priority :: string

record updateTaskRequest =
  ut_Title :: "string option"
  ut_Description :: "string option"
  ut_Priority :: "string option"
  ut_AssigneeType :: "string option"
  ut_AssigneeID :: "string option"
  ut_Deadline :: "string option"

record taskResponse =
  tr_ID :: string
  tr_WorkspaceID :: string
  tr_Title :: string
  tr_Description :: string
  tr_Status :: string
  tr_Priority :: string
  tr_AssigneeType :: string
  tr_AssigneeID :: string
  tr_Deadline :: string
  tr_CreatedAt :: string
  tr_UpdatedAt :: string
  tr_Transitions :: "string list"

record taskPage =
  tg_Tasks :: "taskResponse list"
  tg_NextCursor :: string
  tg_Limit :: int

definition toTaskResponse :: "api_env \<Rightarrow> Task \<Rightarrow> taskResponse" where
  "toTaskResponse env t =
     \<lparr>tr_ID = al_uuid_String (en_lib env) (tk_ID t), tr_WorkspaceID = al_uuid_String (en_lib env) (tk_WorkspaceID t),
      tr_Title = tk_Title t, tr_Description = tk_Description t, tr_Status = tk_Status t, tr_Priority = tk_Priority t,
      tr_AssigneeType = tk_AssigneeType t,
      tr_AssigneeID = (case tk_AssigneeID t of None \<Rightarrow> [] | Some a \<Rightarrow> al_uuid_String (en_lib env) a),
      tr_Deadline = (case tk_Deadline t of None \<Rightarrow> [] | Some d \<Rightarrow> en_time_Format env d),
      tr_CreatedAt = al_format (en_lib env) (tk_CreatedAt t), tr_UpdatedAt = al_format (en_lib env) (tk_UpdatedAt t),
      tr_Transitions = filter (\<lambda>candidate. CanTransition (tk_Status t) candidate = None) all_statuses\<rparr>"

definition toTaskPage :: "api_env \<Rightarrow> Page \<Rightarrow> taskPage" where
  "toTaskPage env p = \<lparr>tg_Tasks = map (toTaskResponse env) (pa_Tasks p), tg_NextCursor = pa_NextCursor p, tg_Limit = pa_Limit p\<rparr>"

subsection \<open>The audit record\<close>

definition parseActorID :: "api_env \<Rightarrow> string \<Rightarrow> uuid" where
  "parseActorID env i = (if i = [] then uuid_Nil else case en_uuid_Parse env i of None \<Rightarrow> uuid_Nil | Some u \<Rightarrow> u)"

definition task_audit_record :: "api_env \<Rightarrow> api_call \<Rightarrow> Claims \<Rightarrow> string \<Rightarrow> uuid \<Rightarrow> uuid \<Rightarrow> string \<Rightarrow> string \<Rightarrow> audit_record" where
  "task_audit_record env cx c action taskID ws outcome detail =
     \<lparr>rc_EventType = ''task.'' @ TrimSuffix action ''-task'', rc_ActorType = ''user'', rc_ActorID = parseActorID env (cl_ID c),
      rc_TargetType = ''task'', rc_TargetID = taskID, rc_Outcome = outcome, rc_Principle = ''Human Oversight'',
      rc_WorkspaceID = (if ws \<noteq> uuid_Nil then Some ws else None),
      rc_TraceID = (case en_uuid_Parse env (cx_trace cx) of None \<Rightarrow> uuid_Nil | Some i \<Rightarrow> i), rc_SpanID = uuid_Nil,
      rc_Details = (if detail \<noteq> [] then [(''detail'', detail)] else [])\<rparr>"

text \<open>The first component: whether the record was written.\<close>

definition appendAudit ::
  "api_env \<Rightarrow> api_call \<Rightarrow> Claims \<Rightarrow> string \<Rightarrow> uuid \<Rightarrow> uuid \<Rightarrow> string \<Rightarrow> string \<Rightarrow> task_world \<Rightarrow> bool \<times> task_world" where
  "appendAudit env cx c action taskID ws outcome detail w =
     (if \<not> en_auditSink env then (False, w)
      else case auditstore_Append (en_lib env) (cx_now cx) (cx_ids cx) (task_audit_record env cx c action taskID ws outcome detail) (tw_audit w) of
             (au, r) \<Rightarrow> (\<not> isl r, w\<lparr>tw_audit := au\<rparr>))"

definition task_note ::
  "api_env \<Rightarrow> api_call \<Rightarrow> Claims \<Rightarrow> string \<Rightarrow> uuid \<Rightarrow> uuid \<Rightarrow> string \<Rightarrow> string \<Rightarrow> task_world \<Rightarrow> task_world" where
  "task_note env cx c action taskID ws outcome detail w = snd (appendAudit env cx c action taskID ws outcome detail w)"

definition recordSuccess ::
  "api_env \<Rightarrow> api_call \<Rightarrow> Claims \<Rightarrow> string \<Rightarrow> uuid \<Rightarrow> uuid \<Rightarrow> string \<Rightarrow> nat \<Rightarrow> 'b \<Rightarrow> task_world \<Rightarrow> 'b response \<times> task_world" where
  "recordSuccess env cx c action taskID ws detail status body w =
     (case appendAudit env cx c action taskID ws ''success'' detail w of
        (ok, w') \<Rightarrow> (if ok then HTTP_OK status body else HTTP_Error 500, w'))"

subsection \<open>Scope, errors, parameters\<close>

definition task_scope :: "api_env \<Rightarrow> api_call \<Rightarrow> string \<Rightarrow> task_world \<Rightarrow> (nat, Claims \<times> uuid) result \<times> task_world" where
  "task_scope env cx action w =
     (case cx_claims cx of
        None \<Rightarrow> (Inl 401, w)
      | Some c \<Rightarrow>
          (case WorkspaceFromClaims (Some c) of
             None \<Rightarrow> (Inl 403, task_note env cx c action uuid_Nil uuid_Nil ''denied'' ''no_workspace_context'' w)
           | Some binding \<Rightarrow>
               (case en_uuid_Parse env binding of
                  None \<Rightarrow> (Inl 403, w)
                | Some ws \<Rightarrow> (Inr (c, ws), w))))"

definition task_fail ::
  "api_env \<Rightarrow> api_call \<Rightarrow> Claims \<Rightarrow> string \<Rightarrow> uuid \<Rightarrow> task_error \<Rightarrow> task_world \<Rightarrow> 'b response \<times> task_world" where
  "task_fail env cx c action i e w =
     (case e of
        ErrNotFound \<Rightarrow> (HTTP_Error 404, task_note env cx c action i uuid_Nil ''failed'' ''not_found'' w)
      | ErrWorkspaceMismatch \<Rightarrow> (HTTP_Error 403, task_note env cx c action i uuid_Nil ''denied'' ''workspace_mismatch'' w)
      | ErrDatabase \<Rightarrow> (HTTP_Error 500, w)
      | _ \<Rightarrow> (HTTP_Error 400, task_note env cx c action i uuid_Nil ''failed'' ''invalid_request'' w))"

definition task_params :: "string list" where
  "task_params = [''status'', ''limit'', ''cursor'']"

definition parseTaskQuery :: "api_env \<Rightarrow> url_values option \<Rightarrow> ListQuery option" where
  "parseTaskQuery env raw =
     (case raw of
        None \<Rightarrow> None
      | Some vs \<Rightarrow>
          if \<not> list_all (\<lambda>(k, _). k \<in> set task_params) vs then None
          else let v = TrimSpace (values_Get vs ''status'') in
               if v \<noteq> [] \<and> \<not> ValidStatus v then None
               else (case nonneg_param (values_Get vs ''limit'') of
                       None \<Rightarrow> None
                     | Some n \<Rightarrow>
                         (case DecodeCursor (en_uuid_Parse env) (values_Get vs ''cursor'') of
                            Inl _ \<Rightarrow> None
                          | Inr cur \<Rightarrow>
                              Some (Tasks.Normalize \<lparr>lq_Status = (if v \<noteq> [] then Some v else None), lq_Limit = n, lq_Before = cur\<rparr>))))"

definition optionalPriority :: "string \<Rightarrow> string option" where
  "optionalPriority raw =
     (let trimmed = TrimSpace raw in
      if trimmed = [] then Some PriorityNormal else if ValidPriority trimmed then Some trimmed else None)"

subsection \<open>The handlers\<close>

definition TaskHandler_List :: "api_env \<Rightarrow> api_call \<Rightarrow> url_values option \<Rightarrow> task_world \<Rightarrow> taskPage response \<times> task_world" where
  "TaskHandler_List env cx raw w0 =
     (case task_scope env cx ''list-tasks'' w0 of
        (Inl status, w) \<Rightarrow> (HTTP_Error status, w)
      | (Inr (c, ws), w) \<Rightarrow>
          (case parseTaskQuery env raw of
             None \<Rightarrow> (HTTP_Error 400, w)
           | Some q \<Rightarrow>
               (case task_ListPage (al_uuid_String (en_lib env)) (ts_db (tw_tasks w)) ws q of
                  Inl e \<Rightarrow> task_fail env cx c ''list-tasks'' uuid_Nil e w
                | Inr page \<Rightarrow> (HTTP_OK 200 (toTaskPage env page), w))))"

definition TaskHandler_Get :: "api_env \<Rightarrow> api_call \<Rightarrow> string \<Rightarrow> task_world \<Rightarrow> taskResponse response \<times> task_world" where
  "TaskHandler_Get env cx path w0 =
     (case task_scope env cx ''get-task'' w0 of
        (Inl status, w) \<Rightarrow> (HTTP_Error status, w)
      | (Inr (c, ws), w) \<Rightarrow>
          (case en_uuid_Parse env path of
             None \<Rightarrow> (HTTP_Error 400, w)
           | Some i \<Rightarrow>
               (case task_Get (ts_db (tw_tasks w)) ws i of
                  Inl e \<Rightarrow> task_fail env cx c ''get-task'' i e w
                | Inr t \<Rightarrow> (HTTP_OK 200 (toTaskResponse env t), w))))"

definition create_refusal :: "createTaskRequest \<Rightarrow> string option" where
  "create_refusal req =
     (if TrimSpace (cr_Title req) = [] then Some ''title_required''
      else if RuneCount (TrimSpace (cr_Title req)) > taskTitleMaxRunes then Some ''title_too_long''
      else if RuneCount (cr_Description req) > taskDescriptionMaxRunes then Some ''description_too_long''
      else if optionalPriority (cr_Priority req) = None then Some ''invalid_priority''
      else None)"

definition TaskHandler_Create :: "api_env \<Rightarrow> api_call \<Rightarrow> createTaskRequest option \<Rightarrow> task_world \<Rightarrow> taskResponse response \<times> task_world" where
  "TaskHandler_Create env cx body w0 =
     (case task_scope env cx ''create-task'' w0 of
        (Inl status, w) \<Rightarrow> (HTTP_Error status, w)
      | (Inr (c, ws), w) \<Rightarrow>
          (case body of
             None \<Rightarrow> (HTTP_Error 400, task_note env cx c ''create-task'' uuid_Nil ws ''failed'' ''invalid_body'' w)
           | Some req \<Rightarrow>
               (case create_refusal req of
                  Some detail \<Rightarrow> (HTTP_Error 400, task_note env cx c ''create-task'' uuid_Nil ws ''failed'' detail w)
                | None \<Rightarrow>
                    (case task_Create (cx_now cx) (cx_gen cx) ws (TrimSpace (cr_Title req))
                            (case optionalPriority (cr_Priority req) of None \<Rightarrow> [] | Some p \<Rightarrow> p)
                            (TrimSpace (cr_Description req)) (tw_tasks w) of
                       (Inl e, ts) \<Rightarrow> task_fail env cx c ''create-task'' uuid_Nil e (w\<lparr>tw_tasks := ts\<rparr>)
                     | (Inr t, ts) \<Rightarrow>
                         recordSuccess env cx c ''create-task'' (tk_ID t) ws [] 201 (toTaskResponse env t) (w\<lparr>tw_tasks := ts\<rparr>)))))"

text \<open>The checks of a \<^verbatim>\<open>PATCH\<close> body in their order: the detail of the refusal, or the patch for the service.\<close>

definition update_patch :: "api_env \<Rightarrow> updateTaskRequest \<Rightarrow> (string, task_patch) result" where
  "update_patch env req =
     (if (case ut_Title req of None \<Rightarrow> False | Some x \<Rightarrow> TrimSpace x = []) then Inl ''title_blank''
      else if (case ut_Title req of None \<Rightarrow> False | Some x \<Rightarrow> RuneCount (TrimSpace x) > taskTitleMaxRunes) then Inl ''title_too_long''
      else if (case ut_Description req of None \<Rightarrow> False | Some d \<Rightarrow> RuneCount d > taskDescriptionMaxRunes) then Inl ''description_too_long''
      else if (case ut_Priority req of None \<Rightarrow> False | Some p \<Rightarrow> TrimSpace p = []) then Inl ''priority_blank''
      else if (case ut_Priority req of None \<Rightarrow> False | Some p \<Rightarrow> optionalPriority p = None) then Inl ''invalid_priority''
      else if (case ut_AssigneeType req of None \<Rightarrow> False | Some a \<Rightarrow> \<not> ValidAssigneeType (TrimSpace a)) then Inl ''invalid_assignee_type''
      else if (case ut_AssigneeID req of None \<Rightarrow> False | Some a \<Rightarrow> en_uuid_Parse env (TrimSpace a) = None) then Inl ''invalid_assignee_id''
      else if (case ut_Deadline req of None \<Rightarrow> False | Some d \<Rightarrow> en_time_Parse env (TrimSpace d) = None) then Inl ''invalid_deadline''
      else Inr \<lparr>tp_Title = (case ut_Title req of None \<Rightarrow> [] | Some x \<Rightarrow> TrimSpace x),
                tp_Priority = (case ut_Priority req of None \<Rightarrow> [] | Some p \<Rightarrow> (case optionalPriority p of None \<Rightarrow> [] | Some q \<Rightarrow> q)),
                tp_Description = map_option TrimSpace (ut_Description req),
                tp_AssigneeType = (case ut_AssigneeType req of None \<Rightarrow> [] | Some a \<Rightarrow> TrimSpace a),
                tp_AssigneeID = (case ut_AssigneeID req of None \<Rightarrow> None | Some a \<Rightarrow> en_uuid_Parse env (TrimSpace a)),
                tp_Deadline = (case ut_Deadline req of None \<Rightarrow> None | Some d \<Rightarrow> en_time_Parse env (TrimSpace d))\<rparr>)"

definition TaskHandler_Update ::
  "api_env \<Rightarrow> api_call \<Rightarrow> task_db \<Rightarrow> string \<Rightarrow> updateTaskRequest option \<Rightarrow> task_world \<Rightarrow> taskResponse response \<times> task_world" where
  "TaskHandler_Update env cx snap path body w0 =
     (case task_scope env cx ''update-task'' w0 of
        (Inl status, w) \<Rightarrow> (HTTP_Error status, w)
      | (Inr (c, ws), w) \<Rightarrow>
          (case en_uuid_Parse env path of
             None \<Rightarrow> (HTTP_Error 400, w)
           | Some i \<Rightarrow>
               (case body of
                  None \<Rightarrow> (HTTP_Error 400, task_note env cx c ''update-task'' i ws ''failed'' ''invalid_body'' w)
                | Some req \<Rightarrow>
                    (case update_patch env req of
                       Inl detail \<Rightarrow> (HTTP_Error 400, task_note env cx c ''update-task'' i ws ''failed'' detail w)
                     | Inr patch \<Rightarrow>
                         (case task_Update (cx_now cx) snap ws i patch (tw_tasks w) of
                            (Inl e, ts) \<Rightarrow> task_fail env cx c ''update-task'' i e (w\<lparr>tw_tasks := ts\<rparr>)
                          | (Inr t, ts) \<Rightarrow>
                              recordSuccess env cx c ''update-task'' (tk_ID t) ws [] 200 (toTaskResponse env t) (w\<lparr>tw_tasks := ts\<rparr>))))))"

definition TaskHandler_Transition ::
  "api_env \<Rightarrow> api_call \<Rightarrow> task_db \<Rightarrow> string \<Rightarrow> string option \<Rightarrow> task_world \<Rightarrow> taskResponse response \<times> task_world" where
  "TaskHandler_Transition env cx snap path body w0 =
     (case task_scope env cx ''transition-task'' w0 of
        (Inl status, w) \<Rightarrow> (HTTP_Error status, w)
      | (Inr (c, ws), w) \<Rightarrow>
          (case en_uuid_Parse env path of
             None \<Rightarrow> (HTTP_Error 400, w)
           | Some i \<Rightarrow>
               (case body of
                  None \<Rightarrow> (HTTP_Error 400, task_note env cx c ''transition-task'' i ws ''failed'' ''invalid_body'' w)
                | Some status \<Rightarrow>
                    let to = TrimSpace status in
                    if to = [] then (HTTP_Error 400, task_note env cx c ''transition-task'' i ws ''failed'' ''status_required'' w)
                    else if \<not> ValidStatus to then (HTTP_Error 400, task_note env cx c ''transition-task'' i ws ''failed'' ''unknown_status'' w)
                    else (case task_Transition (cx_now cx) snap ws i to (tw_tasks w) of
                            (Inl e, ts) \<Rightarrow> task_fail env cx c ''transition-task'' i e (w\<lparr>tw_tasks := ts\<rparr>)
                          | (Inr t, ts) \<Rightarrow>
                              recordSuccess env cx c ''transition-task'' (tk_ID t) ws to 200 (toTaskResponse env t) (w\<lparr>tw_tasks := ts\<rparr>)))))"

subsection \<open>Mutations\<close>

datatype task_request =
    CreateTask "createTaskRequest option"
  | UpdateTask string "updateTaskRequest option"
  | TransitionTask string "string option"

fun task_serve :: "api_env \<Rightarrow> api_call \<Rightarrow> task_db \<Rightarrow> task_request \<Rightarrow> task_world \<Rightarrow> taskResponse response \<times> task_world" where
  "task_serve env cx snap (CreateTask body) w = TaskHandler_Create env cx body w"
| "task_serve env cx snap (UpdateTask path body) w = TaskHandler_Update env cx snap path body w"
| "task_serve env cx snap (TransitionTask path body) w = TaskHandler_Transition env cx snap path body w"

fun task_event :: "task_request \<Rightarrow> string" where
  "task_event (CreateTask _) = ''task.create''"
| "task_event (UpdateTask _ _) = ''task.update''"
| "task_event (TransitionTask _ _) = ''task.transition''"

fun task_action :: "task_request \<Rightarrow> string" where
  "task_action (CreateTask _) = ''create-task''"
| "task_action (UpdateTask _ _) = ''update-task''"
| "task_action (TransitionTask _ _) = ''transition-task''"

text \<open>The row of a mutation that was answered as a success.\<close>

definition audits_task :: "api_env \<Rightarrow> Claims \<Rightarrow> string \<Rightarrow> uuid \<Rightarrow> uuid \<Rightarrow> audit_row \<Rightarrow> bool" where
  "audits_task env c et i ws row \<longleftrightarrow> aw_event_type row = et \<and> aw_outcome row = ''success'' \<and> aw_actor_id row = nullUUID (parseActorID env (cl_ID c))
     \<and> aw_target_id row = nullUUID i \<and> aw_workspace_id row = nullUUID ws"

lemma recordSuccess_OK:
  assumes "recordSuccess env cx c action i ws detail status body w = (HTTP_OK st b, w')"
  obtains row rec where "b = body" "tw_tasks w' = tw_tasks w" "at_rows (snd (tw_audit w')) = at_rows (snd (tw_audit w)) @ [row]"
    "audits_task env c (''task.'' @ TrimSuffix action ''-task'') i ws row"
    "snd (tw_audit w') = snd (fst (auditstore_Append (en_lib env) (cx_now cx) (cx_ids cx) rec (tw_audit w)))"
proof -
  let ?rec = "task_audit_record env cx c action i ws ''success'' detail"
  obtain au r where ap: "auditstore_Append (en_lib env) (cx_now cx) (cx_ids cx) ?rec (tw_audit w) = (au, r)" by fastforce
  with assms have ok: "en_auditSink env" "\<not> isl r" "b = body" "w' = w\<lparr>tw_audit := au\<rparr>"
    by (auto simp: recordSuccess_def appendAudit_def split: if_splits)
  then obtain ev where r: "r = Inr ev" by (cases r) auto
  obtain head details where ev: "ev = AppendEvent (en_lib env) (cx_now cx) (cx_ids cx) head (rc_EventType ?rec) (rc_ActorType ?rec)
      (rc_ActorID ?rec) (rc_TargetType ?rec) (rc_TargetID ?rec) (rc_Outcome ?rec) (rc_Principle ?rec)"
    and rows: "at_rows (snd au) = at_rows (snd (tw_audit w)) @ [audit_columns (en_lib env) ev (Some ?rec) details (at_nextval (snd (tw_audit w)))]"
    by (rule Append_Inr [OF ap [unfolded r]])
  show ?thesis
  proof (rule that)
    show "audits_task env c (''task.'' @ TrimSuffix action ''-task'') i ws
        (audit_columns (en_lib env) ev (Some ?rec) details (at_nextval (snd (tw_audit w))))"
      by (simp add: audits_task_def ev audit_columns_def AppendEvent_def sealed_def Let_def task_audit_record_def workspaceArg_def nullUUID_def)
    show "snd (tw_audit w') = snd (fst (auditstore_Append (en_lib env) (cx_now cx) (cx_ids cx) ?rec (tw_audit w)))"
      using ap ok(4) by simp
  qed (use ok rows in simp_all)
qed

text \<open>What a successful call of the service did to the table.\<close>

lemma task_Create_OK:
  assumes "task_Create now gen ws title p d s = (Inr t, s')"
  shows "\<exists>row \<in> set (td_tasks (ts_db s')). tk_ID row = tk_ID t \<and> tk_WorkspaceID row = ws"
  using assms by (auto simp: task_Create_def task_New_def TaskStore_Create_def Let_def split: if_splits sum.splits)

lemma TaskStore_Update_in:
  assumes "TaskStore_Update now ws t db = Inr (db', t')"
  shows "t' \<in> set (td_tasks db') \<and> tk_ID t' = tk_ID t \<and> tk_WorkspaceID t' = ws"
  using assms by (elim TaskStore_Update_Inr) (auto simp: set_upd_where owned_def image_iff)

lemma task_Transition_OK:
  assumes "task_Transition now snap ws i to s = (Inr t, s')"
  shows "t \<in> set (td_tasks (ts_db s')) \<and> tk_ID t = i \<and> tk_WorkspaceID t = ws"
  using assms by (auto simp: task_Transition_def split: if_splits sum.splits option.splits dest!: TaskStore_Update_in dest: task_getOwned_Inr)

lemma task_Update_OK:
  assumes "task_Update now snap ws i patch s = (Inr t, s')"
  shows "t \<in> set (td_tasks (ts_db s')) \<and> tk_ID t = i \<and> tk_WorkspaceID t = ws"
proof -
  obtain t0 u db where "task_getOwned snap ws i = Inr t0" "apply_patch patch t0 = Inr u" "TaskStore_Update now ws u (ts_db s) = Inr (db, t)" "ts_db s' = db"
    using assms by (auto simp: task_Update_def split: sum.splits)
  then show ?thesis using task_getOwned_Inr apply_patch_Inr TaskStore_Update_in by metis
qed

lemma task_scope_Inr:
  "task_scope env cx action w = (Inr (c, ws), w') \<Longrightarrow>
   w' = w \<and> cx_claims cx = Some c \<and> WorkspaceFromClaims (Some c) = Some (cl_WorkspaceID c) \<and> en_uuid_Parse env (cl_WorkspaceID c) = Some ws"
  by (auto simp: task_scope_def split: option.splits dest: WorkspaceFromClaims_SomeD)

lemma TrimSuffix_actions:
  "''task.'' @ TrimSuffix (task_action req) ''-task'' = task_event req"
  by (cases req) (simp_all add: TrimSuffix_def suffix_def)

text \<open>Every success came through the scope, the service and the audit record.\<close>

lemma not_task_fail_OK: "task_fail env cx c action i e w \<noteq> (HTTP_OK st b, w')"
  by (cases e) (simp_all add: task_fail_def)

lemma task_serve_OK:
  assumes "task_serve env cx snap req w = (HTTP_OK status body, w')"
  shows "\<exists>c ws t ts detail code. task_scope env cx (task_action req) w = (Inr (c, ws), w)
    \<and> recordSuccess env cx c (task_action req) (tk_ID t) ws detail code (toTaskResponse env t) (w\<lparr>tw_tasks := ts\<rparr>) = (HTTP_OK status body, w')
    \<and> (\<exists>row \<in> set (td_tasks (ts_db ts)). tk_ID row = tk_ID t \<and> tk_WorkspaceID row = ws)"
proof -
  obtain r w1 where sc: "task_scope env cx (task_action req) w = (r, w1)" by fastforce
  have "\<exists>c ws. r = Inr (c, ws)"
    using assms sc by (cases req; cases r) (auto simp: TaskHandler_Create_def TaskHandler_Update_def TaskHandler_Transition_def)
  then obtain c ws where r: "r = Inr (c, ws)" by blast
  then have w1: "w1 = w" using sc task_scope_Inr by blast
  have "\<exists>t ts detail code. recordSuccess env cx c (task_action req) (tk_ID t) ws detail code (toTaskResponse env t) (w\<lparr>tw_tasks := ts\<rparr>) = (HTTP_OK status body, w')
    \<and> (\<exists>row \<in> set (td_tasks (ts_db ts)). tk_ID row = tk_ID t \<and> tk_WorkspaceID row = ws)"
  proof (cases req)
    case (CreateTask bd)
    then show ?thesis
      using assms sc r w1
      by (auto simp: TaskHandler_Create_def not_task_fail_OK split: option.splits sum.splits prod.splits) (blast dest: task_Create_OK)+
  next
    case (UpdateTask path bd)
    then show ?thesis
      using assms sc r w1
      by (auto simp: TaskHandler_Update_def not_task_fail_OK split: option.splits sum.splits prod.splits) (blast dest: task_Update_OK)+
  next
    case (TransitionTask path bd)
    then show ?thesis
      using assms sc r w1
      by (auto simp: TaskHandler_Transition_def Let_def not_task_fail_OK split: option.splits sum.splits prod.splits if_splits) (blast dest: task_Transition_OK)+
  qed
  then show ?thesis using sc r w1 by blast
qed

text \<open>
  C25. Nothing is changed off the record. When a create, update or transition of a task is
  answered as a success, the caller's claims carry a workspace, the task is in that workspace,
  and exactly one row was added to the audit log: it names the action, the caller, the task and
  the workspace, with outcome success, and the log verifies.
\<close>

theorem task_mutations_audited:
  assumes "codec_laws (en_lib env)" and "fresh_table s" and "runs (audit_step (en_lib env)) s (snd (tw_audit w))"
    and "clock_range (cx_now cx)" and "task_serve env cx snap req w = (HTTP_OK status body, w')"
  shows "\<exists>c ws t row. cx_claims cx = Some c \<and> en_uuid_Parse env (cl_WorkspaceID c) = Some ws
      \<and> t \<in> set (td_tasks (ts_db (tw_tasks w'))) \<and> tk_WorkspaceID t = ws \<and> tr_ID body = al_uuid_String (en_lib env) (tk_ID t)
      \<and> at_rows (snd (tw_audit w')) = at_rows (snd (tw_audit w)) @ [row] \<and> audits_task env c (task_event req) (tk_ID t) ws row
      \<and> auditstore_Verify (en_lib env) (snd (tw_audit w')) = Inr True"
proof -
  obtain c ws t ts detail code where sc: "task_scope env cx (task_action req) w = (Inr (c, ws), w)"
    and rs: "recordSuccess env cx c (task_action req) (tk_ID t) ws detail code (toTaskResponse env t) (w\<lparr>tw_tasks := ts\<rparr>) = (HTTP_OK status body, w')"
    and "\<exists>t' \<in> set (td_tasks (ts_db ts)). tk_ID t' = tk_ID t \<and> tk_WorkspaceID t' = ws"
    using task_serve_OK [OF assms(5)] by blast
  then obtain t' where t': "t' \<in> set (td_tasks (ts_db ts))" "tk_ID t' = tk_ID t" "tk_WorkspaceID t' = ws" by blast
  obtain row rec where row: "body = toTaskResponse env t" "tw_tasks w' = ts" "at_rows (snd (tw_audit w')) = at_rows (snd (tw_audit w)) @ [row]"
    "audits_task env c (task_event req) (tk_ID t) ws row"
    and ap: "snd (tw_audit w') = snd (fst (auditstore_Append (en_lib env) (cx_now cx) (cx_ids cx) rec (tw_audit w)))"
    by (rule recordSuccess_OK [OF rs, unfolded TrimSuffix_actions]) simp
  have "audit_step (en_lib env) (snd (tw_audit w)) (snd (tw_audit w'))"
    unfolding ap using audit_step.append [OF assms(4), of "en_lib env" "snd (tw_audit w)" "cx_ids cx" rec "fst (tw_audit w)"] by simp
  then have "chain_inv (en_lib env) (snd (tw_audit w'))"
    using assms(1-3) by (intro audit_chain.inv_reachable [of "en_lib env" s]) (auto intro: runs_step)
  then have "auditstore_Verify (en_lib env) (snd (tw_audit w')) = Inr True"
    using row(3) by (intro chain_inv_Verify) auto
  then show ?thesis using task_scope_Inr [OF sc] t' row by (auto simp: toTaskResponse_def)
qed

definition demo_env :: api_env where
  "demo_env = \<lparr>en_lib = plain_lib, en_uuid_Parse = (\<lambda>s. if s = ''1'' then Some 1 else if s = ''3'' then Some 3 else None),
     en_time_Parse = (\<lambda>_. None), en_time_Format = (\<lambda>_. []), en_auditSink = True\<rparr>"

definition demo_call :: api_call where
  "demo_call = \<lparr>cx_claims = Some member_claims, cx_now = 7, cx_gen = (2, 3), cx_ids = (11, 12), cx_trace = []\<rparr>"

definition demo_world :: task_world where
  "demo_world = \<lparr>tw_tasks = with_db demo_task_db, tw_audit = (sample_genesis, sample_booted)\<rparr>"

definition demo_request :: task_request where
  "demo_request = CreateTask (Some \<lparr>cr_Title = '' write '', cr_Description = [], cr_Priority = []\<rparr>)"

definition is_OK :: "'b response \<Rightarrow> bool" where
  "is_OK r = (case r of HTTP_OK _ _ \<Rightarrow> True | HTTP_Error _ \<Rightarrow> False)"

lemma demo_request_OK: "is_OK (fst (task_serve demo_env demo_call demo_task_db demo_request demo_world))"
  by code_simp

theorem task_mutations_audited_witness:
  "\<exists>(t :: Task) row. tk_WorkspaceID t = 1 \<and> at_rows (snd (tw_audit (snd (task_serve demo_env demo_call demo_task_db demo_request demo_world)))) = at_rows sample_booted @ [row]
     \<and> audits_task demo_env member_claims ''task.create'' (tk_ID t) 1 row"
proof -
  from demo_request_OK obtain status body w' where ok: "task_serve demo_env demo_call demo_task_db demo_request demo_world = (HTTP_OK status body, w')"
    by (cases "task_serve demo_env demo_call demo_task_db demo_request demo_world") (auto simp: is_OK_def split: response.splits)
  have ex: "\<exists>c ws t row. cx_claims demo_call = Some c \<and> en_uuid_Parse demo_env (cl_WorkspaceID c) = Some ws
      \<and> t \<in> set (td_tasks (ts_db (tw_tasks w'))) \<and> tk_WorkspaceID t = ws \<and> tr_ID body = al_uuid_String (en_lib demo_env) (tk_ID t)
      \<and> at_rows (snd (tw_audit w')) = at_rows (snd (tw_audit demo_world)) @ [row] \<and> audits_task demo_env c (task_event demo_request) (tk_ID t) ws row
      \<and> auditstore_Verify (en_lib demo_env) (snd (tw_audit w')) = Inr True"
  proof (rule task_mutations_audited [OF _ _ _ _ ok])
    show "codec_laws (en_lib demo_env)" by (simp add: demo_env_def plain_lib_codec)
    show "fresh_table empty_table" by (simp add: fresh_table_def empty_table_def)
    show "runs (audit_step (en_lib demo_env)) empty_table (snd (tw_audit demo_world))"
      using sample_runs(1) by (simp add: demo_env_def demo_world_def)
  qed (simp add: demo_call_def clock_range_def)
  have facts: "cx_claims demo_call = Some member_claims" "en_uuid_Parse demo_env (cl_WorkspaceID member_claims) = Some 1"
    "task_event demo_request = ''task.create''" "snd (tw_audit demo_world) = sample_booted"
    by (simp_all add: demo_call_def demo_env_def member_claims_def demo_request_def demo_world_def)
  obtain t :: Task and row where "tk_WorkspaceID t = 1" "at_rows (snd (tw_audit w')) = at_rows sample_booted @ [row]"
    "audits_task demo_env member_claims ''task.create'' (tk_ID t) 1 row"
    using ex unfolding facts by (auto simp: facts)
  then show ?thesis unfolding ok by auto
qed

subsection \<open>Tenants\<close>

definition callers_workspace :: "api_env \<Rightarrow> api_call \<Rightarrow> uuid option" where
  "callers_workspace env cx = (case WorkspaceFromClaims (cx_claims cx) of None \<Rightarrow> None | Some b \<Rightarrow> en_uuid_Parse env b)"

definition others_tasks :: "uuid \<Rightarrow> task_db \<Rightarrow> Task list" where
  "others_tasks ws db = filter (\<lambda>t. tk_WorkspaceID t \<noteq> ws) (td_tasks db)"

lemma task_scope_workspace: "task_scope env cx action w = (Inr (c, ws), w') \<Longrightarrow> callers_workspace env cx = Some ws"
  by (auto simp: callers_workspace_def task_scope_def split: option.splits)

lemma tw_tasks_note [simp]: "tw_tasks (task_note env cx c action i ws oc detail w) = tw_tasks w"
  by (auto simp: task_note_def appendAudit_def split: prod.split)

lemma tw_tasks_fail [simp]: "tw_tasks (snd (task_fail env cx c action i e w)) = tw_tasks w"
  by (cases e) (simp_all add: task_fail_def)

lemma tw_tasks_success [simp]: "tw_tasks (snd (recordSuccess env cx c action i ws detail st b w)) = tw_tasks w"
  by (auto simp: recordSuccess_def appendAudit_def split: prod.split)

lemma tw_tasks_scope [simp]: "tw_tasks (snd (task_scope env cx action w)) = tw_tasks w"
  by (auto simp: task_scope_def split: option.split)

lemma others_Update: "TaskStore_Update now ws t db = Inr (db', t') \<Longrightarrow> others_tasks ws db' = others_tasks ws db"
proof (elim TaskStore_Update_Inr)
  fix row assume "db' = db\<lparr>td_tasks := upd_where (owned ws (tk_ID t)) (task_write now t) (td_tasks db)\<rparr>"
  moreover have "filter (\<lambda>t. tk_WorkspaceID t \<noteq> ws) (upd_where (owned ws (tk_ID t)) (task_write now t) rows) = filter (\<lambda>t. tk_WorkspaceID t \<noteq> ws) rows" for rows
    by (induction rows) (auto simp: owned_def)
  ultimately show ?thesis by (simp add: others_tasks_def)
qed

lemma others_service:
  "others_tasks ws (ts_db (snd (task_Create now gen ws title p d s))) = others_tasks ws (ts_db s)"
  "others_tasks ws (ts_db (snd (task_Transition now snap ws i to s))) = others_tasks ws (ts_db s)"
  "others_tasks ws (ts_db (snd (task_Update now snap ws i patch s))) = others_tasks ws (ts_db s)"
proof -
  show "others_tasks ws (ts_db (snd (task_Create now gen ws title p d s))) = others_tasks ws (ts_db s)"
    by (auto simp: task_Create_def task_New_def TaskStore_Create_def Let_def others_tasks_def split: sum.split if_split)
  show "others_tasks ws (ts_db (snd (task_Transition now snap ws i to s))) = others_tasks ws (ts_db s)"
    by (auto simp: task_Transition_def dest: others_Update split: sum.split option.split)
  show "others_tasks ws (ts_db (snd (task_Update now snap ws i patch s))) = others_tasks ws (ts_db s)"
    by (auto simp: task_Update_def dest: others_Update split: sum.split)
qed

lemma others_after:
  "others_tasks ws (ts_db (tw_tasks (snd (case X of (Inl e, ts) \<Rightarrow> task_fail env cx c action i e (w\<lparr>tw_tasks := ts\<rparr>)
      | (Inr t, ts) \<Rightarrow> recordSuccess env cx c action (tk_ID t) ws' detail st (f t) (w\<lparr>tw_tasks := ts\<rparr>)))))
   = others_tasks ws (ts_db (snd X))"
  by (cases X; cases "fst X") auto

text \<open>
  C26. Tasks stay in their tenant. Whatever a request to create, update or move a task carries,
  and whether it succeeds or fails, the tasks of every workspace other than the one in the
  caller's verified claims are left exactly as they were, and without such a workspace nothing
  changes at all; reading and listing answer with tasks of that workspace only, at most 200 at a
  time.
\<close>

theorem task_requests_confined:
  "(case callers_workspace env cx of
      None \<Rightarrow> tw_tasks (snd (task_serve env cx snap req w)) = tw_tasks w
    | Some ws \<Rightarrow> others_tasks ws (ts_db (tw_tasks (snd (task_serve env cx snap req w)))) = others_tasks ws (ts_db (tw_tasks w)))
   \<and> (\<forall>status body w'. TaskHandler_Get env cx path w = (HTTP_OK status body, w') \<longrightarrow>
        (\<exists>t \<in> set (td_tasks (ts_db (tw_tasks w))). callers_workspace env cx = Some (tk_WorkspaceID t) \<and> body = toTaskResponse env t))
   \<and> (\<forall>status page w'. TaskHandler_List env cx raw w = (HTTP_OK status page, w') \<longrightarrow>
        (\<exists>ts. tg_Tasks page = map (toTaskResponse env) ts \<and> length ts \<le> 200
           \<and> list_all (\<lambda>t. t \<in> set (td_tasks (ts_db (tw_tasks w))) \<and> callers_workspace env cx = Some (tk_WorkspaceID t)) ts))"
proof (intro conjI allI impI)
  obtain r w1 where sc: "task_scope env cx (task_action req) w = (r, w1)" by fastforce
  then have w1: "tw_tasks w1 = tw_tasks w" using tw_tasks_scope [of env cx "task_action req" w] by simp
  show "case callers_workspace env cx of
      None \<Rightarrow> tw_tasks (snd (task_serve env cx snap req w)) = tw_tasks w
    | Some ws \<Rightarrow> others_tasks ws (ts_db (tw_tasks (snd (task_serve env cx snap req w)))) = others_tasks ws (ts_db (tw_tasks w))"
  proof (cases r)
    case (Inl status)
    then have "tw_tasks (snd (task_serve env cx snap req w)) = tw_tasks w"
      using sc w1 by (cases req) (simp_all add: TaskHandler_Create_def TaskHandler_Update_def TaskHandler_Transition_def)
    then show ?thesis by (simp split: option.split)
  next
    case (Inr p)
    then obtain c ws where r: "r = Inr (c, ws)" by (cases p) simp
    then have ws: "callers_workspace env cx = Some ws" using sc task_scope_workspace by blast
    have "others_tasks ws (ts_db (tw_tasks (snd (task_serve env cx snap req w)))) = others_tasks ws (ts_db (tw_tasks w))"
    proof (cases req)
      case (CreateTask bd)
      then show ?thesis
        using sc r w1 by (simp add: TaskHandler_Create_def others_after others_service split: option.split)
    next
      case (UpdateTask pt bd)
      then show ?thesis
        using sc r w1 by (simp add: TaskHandler_Update_def others_after others_service split: option.split sum.split)
    next
      case (TransitionTask pt bd)
      then show ?thesis
        using sc r w1 by (simp add: TaskHandler_Transition_def Let_def others_after others_service split: option.split)
    qed
    then show ?thesis by (simp add: ws)
  qed
next
  fix status body w'
  assume "TaskHandler_Get env cx path w = (HTTP_OK status body, w')"
  then obtain c ws i t where "task_scope env cx ''get-task'' w = (Inr (c, ws), w)" "task_Get (ts_db (tw_tasks w)) ws i = Inr t" "body = toTaskResponse env t"
    by (auto simp: TaskHandler_Get_def not_task_fail_OK split: prod.splits sum.splits option.splits dest: task_scope_Inr)
  then show "\<exists>t \<in> set (td_tasks (ts_db (tw_tasks w))). callers_workspace env cx = Some (tk_WorkspaceID t) \<and> body = toTaskResponse env t"
    by (auto simp: task_Get_def dest!: task_scope_workspace task_getOwned_Inr)
next
  fix status page w'
  assume "TaskHandler_List env cx raw w = (HTTP_OK status page, w')"
  then obtain c ws q p where sc: "task_scope env cx ''list-tasks'' w = (Inr (c, ws), w)" and p: "page = toTaskPage env p"
    and lp: "task_ListPage (al_uuid_String (en_lib env)) (ts_db (tw_tasks w)) ws q = Inr p"
    by (auto simp: TaskHandler_List_def not_task_fail_OK split: prod.splits sum.splits option.splits dest: task_scope_Inr)
  have "p = TaskStore_ListPage (al_uuid_String (en_lib env)) ws (Tasks.Normalize q) (ts_db (tw_tasks w))"
    using lp by (auto simp: task_ListPage_def split: if_splits option.splits)
  then have "length (pa_Tasks p) \<le> 200 \<and> list_all (\<lambda>t. t \<in> set (td_tasks (ts_db (tw_tasks w))) \<and> tk_WorkspaceID t = ws) (pa_Tasks p)"
    using TaskStore_ListPage_bounded by blast
  then show "\<exists>ts. tg_Tasks page = map (toTaskResponse env) ts \<and> length ts \<le> 200
      \<and> list_all (\<lambda>t. t \<in> set (td_tasks (ts_db (tw_tasks w))) \<and> callers_workspace env cx = Some (tk_WorkspaceID t)) ts"
    using task_scope_workspace [OF sc] by (intro exI [of _ "pa_Tasks p"]) (auto simp: p toTaskPage_def list_all_iff)
qed

definition two_tenants :: task_world where
  "two_tenants = \<lparr>tw_tasks = with_db \<lparr>td_workspaces = [1, 5], td_tasks = [demo_task, demo_task\<lparr>tk_ID := 9, tk_WorkspaceID := 5\<rparr>]\<rparr>,
     tw_audit = (sample_genesis, sample_booted)\<rparr>"

theorem task_requests_confined_witness:
  "others_tasks 1 (ts_db (tw_tasks (snd (task_serve demo_env demo_call demo_task_db (TransitionTask ''3'' (Some StatusPlanned)) two_tenants))))
     = [demo_task\<lparr>tk_ID := 9, tk_WorkspaceID := 5\<rparr>]
   \<and> (\<exists>body. fst (TaskHandler_Get demo_env demo_call ''3'' two_tenants) = HTTP_OK 200 body \<and> tr_WorkspaceID body = ''1'')"
proof
  have ws: "callers_workspace demo_env demo_call = Some 1" by code_simp
  have "others_tasks 1 (ts_db (tw_tasks two_tenants)) = [demo_task\<lparr>tk_ID := 9, tk_WorkspaceID := 5\<rparr>]" by code_simp
  then show "others_tasks 1 (ts_db (tw_tasks (snd (task_serve demo_env demo_call demo_task_db (TransitionTask ''3'' (Some StatusPlanned)) two_tenants))))
     = [demo_task\<lparr>tk_ID := 9, tk_WorkspaceID := 5\<rparr>]"
    using task_requests_confined [of demo_env demo_call demo_task_db "TransitionTask ''3'' (Some StatusPlanned)" two_tenants] by (simp add: ws)
  have "case fst (TaskHandler_Get demo_env demo_call ''3'' two_tenants) of HTTP_Error _ \<Rightarrow> False | HTTP_OK n _ \<Rightarrow> n = 200" by code_simp
  then obtain body w' where get: "TaskHandler_Get demo_env demo_call ''3'' two_tenants = (HTTP_OK 200 body, w')"
    by (cases "TaskHandler_Get demo_env demo_call ''3'' two_tenants") (auto split: response.splits)
  have "\<exists>t \<in> set (td_tasks (ts_db (tw_tasks two_tenants))). callers_workspace demo_env demo_call = Some (tk_WorkspaceID t) \<and> body = toTaskResponse demo_env t"
    using task_requests_confined [where env = demo_env and cx = demo_call and w = two_tenants and path = "''3''"] get by blast
  then obtain t :: Task where "tk_WorkspaceID t = 1" "body = toTaskResponse demo_env t" by (auto simp: ws)
  moreover have "al_uuid_String (en_lib demo_env) 1 = ''1''" by code_simp
  ultimately show "\<exists>body. fst (TaskHandler_Get demo_env demo_call ''3'' two_tenants) = HTTP_OK 200 body \<and> tr_WorkspaceID body = ''1''"
    using get by (simp add: toTaskResponse_def)
qed

text \<open>
  The transitions offered are the transitions accepted. The statuses a task is presented
  with are exactly those that a transition request for it, arriving before anything else
  changes the task, would move it to.
\<close>

theorem offered_transitions_exact:
  assumes "task_inv (ts_db s)" and "t \<in> set (td_tasks (ts_db s))"
  shows "to \<in> set (tr_Transitions (toTaskResponse env t))
     \<longleftrightarrow> (\<exists>t' s'. task_Transition now (ts_db s) (tk_WorkspaceID t) (tk_ID t) to s = (Inr t', s') \<and> tk_Status t' = to)"
proof -
  have get: "task_getOwned (ts_db s) (tk_WorkspaceID t) (tk_ID t) = Inr t"
    using find_owned [OF assms] by (simp add: task_getOwned_def TaskStore_Get_def)
  have offered: "to \<in> set (tr_Transitions (toTaskResponse env t)) \<longleftrightarrow> CanTransition (tk_Status t) to = None"
    by (auto simp: toTaskResponse_def CanTransition_None ValidStatus_def)
  show ?thesis
  proof (cases "CanTransition (tk_Status t) to")
    case None
    then have valid: "ValidStatus to" by (simp add: CanTransition_None)
    then have "task_check (t\<lparr>tk_Status := to\<rparr>)"
      using assms by (auto simp: task_inv_def list_all_iff task_check_def)
    then have "task_check (task_write now (t\<lparr>tk_Status := to\<rparr>) t)" by (rule task_check_write)
    then obtain db' where "TaskStore_Update now (tk_WorkspaceID t) (t\<lparr>tk_Status := to\<rparr>) (ts_db s) = Inr (db', task_write now (t\<lparr>tk_Status := to\<rparr>) t)"
      using TaskStore_Update_ok [OF assms, of "t\<lparr>tk_Status := to\<rparr>" now] by auto
    then show ?thesis using None valid offered get by (simp add: task_Transition_def)
  next
    case (Some e)
    then show ?thesis using offered get by (auto simp: task_Transition_def)
  qed
qed

theorem offered_transitions_exact_witness:
  "tr_Transitions (toTaskResponse demo_env demo_task) = [StatusPlanned, StatusCancelled, StatusFailed]
   \<and> (\<exists>t' s'. task_Transition 9 demo_created 1 3 StatusPlanned (with_db demo_created) = (Inr t', s') \<and> tk_Status t' = StatusPlanned)"
proof
  show tr: "tr_Transitions (toTaskResponse demo_env demo_task) = [StatusPlanned, StatusCancelled, StatusFailed]" by code_simp
  have "task_inv (ts_db (with_db demo_created))" unfolding demo_created_eq by code_simp
  moreover have "demo_task \<in> set (td_tasks (ts_db (with_db demo_created)))" by (simp add: demo_created_eq with_db_def)
  ultimately have "\<exists>t' s'. task_Transition 9 (ts_db (with_db demo_created)) (tk_WorkspaceID demo_task) (tk_ID demo_task) StatusPlanned (with_db demo_created)
      = (Inr t', s') \<and> tk_Status t' = StatusPlanned"
    using offered_transitions_exact [of "with_db demo_created" demo_task StatusPlanned demo_env 9] tr by simp
  then show "\<exists>t' s'. task_Transition 9 demo_created 1 3 StatusPlanned (with_db demo_created) = (Inr t', s') \<and> tk_Status t' = StatusPlanned"
    by (simp add: demo_task_def with_db_def)
qed

end
