(* ===== verification/Knowledge_Api.thy ===== *)
theory Knowledge_Api
  imports Knowledge Task_Api
begin

text \<open>
  The knowledge routes (\<^verbatim>\<open>internal/api/knowledge_handlers.go\<close>): every request works in the workspace of the
  verified claims, every refusal is recorded, and nothing that needs a record is answered as a success
  without one. A body is the value \<^verbatim>\<open>decodeJSON\<close> produced, or \<open>None\<close> when it refused it.
\<close>

subsection \<open>Requests and answers\<close>

record 'f kn_api =
  ap_knowledge :: "'f kn_state"
  ap_audit :: "AuditEvent \<times> audit_table"

text \<open>The parts of the service a request needs: texts of numbers, the provider, the vector search.\<close>

record 'f kn_deps =
  dp_vectors :: "'f vector_lib"
  dp_embed :: "'f embedder"
  dp_nearest :: "string \<Rightarrow> nat \<Rightarrow> kn_row list \<Rightarrow> kn_row list"

record createKnowledgeRequest =
  ck_Kind :: string
  ck_Title :: string
  ck_Content :: string

record updateKnowledgeRequest =
  uk_Kind :: "string option"
  uk_Title :: "string option"
  uk_Content :: "string option"

record searchKnowledgeRequest =
  sk_Query :: string
  sk_Kind :: string
  sk_Limit :: "int option"

record knowledgeResponse =
  ko_ID :: string
  ko_WorkspaceID :: string
  ko_Kind :: string
  ko_Title :: string
  ko_Content :: string
  ko_CreatedAt :: string
  ko_UpdatedAt :: string

record knowledgePage =
  kg_Documents :: "knowledgeResponse list"
  kg_NextCursor :: string
  kg_Limit :: int

definition newKnowledgeResponse :: "api_env \<Rightarrow> 'f Document \<Rightarrow> knowledgeResponse" where
  "newKnowledgeResponse env d =
     \<lparr>ko_ID = al_uuid_String (en_lib env) (kd_ID d), ko_WorkspaceID = al_uuid_String (en_lib env) (kd_WorkspaceID d),
      ko_Kind = kd_Kind d, ko_Title = kd_Title d, ko_Content = kd_Content d,
      ko_CreatedAt = al_format (en_lib env) (kd_CreatedAt d), ko_UpdatedAt = al_format (en_lib env) (kd_UpdatedAt d)\<rparr>"

definition maxContentRunes :: nat where "maxContentRunes = 2000"
definition maxTitleRunes :: nat where "maxTitleRunes = 300"

subsection \<open>The audit record\<close>

definition kn_audit_record :: "api_env \<Rightarrow> api_call \<Rightarrow> Claims \<Rightarrow> string \<Rightarrow> uuid \<Rightarrow> uuid \<Rightarrow> string \<Rightarrow> string \<Rightarrow> audit_record" where
  "kn_audit_record env cx c action docID ws outcome detail =
     \<lparr>rc_EventType = ''knowledge.'' @ action, rc_ActorType = ''user'', rc_ActorID = parseActorID env (cl_ID c),
      rc_TargetType = ''knowledge_document'', rc_TargetID = docID, rc_Outcome = outcome, rc_Principle = ''Privacy by Design'',
      rc_WorkspaceID = (if ws \<noteq> uuid_Nil then Some ws else None),
      rc_TraceID = (case en_uuid_Parse env (cx_trace cx) of None \<Rightarrow> uuid_Nil | Some i \<Rightarrow> i), rc_SpanID = uuid_Nil,
      rc_Details = (if detail \<noteq> [] then [(''detail'', detail)] else [])\<rparr>"

text \<open>\<^verbatim>\<open>record\<close>: whether the record was written. Without a sink it was not.\<close>

definition kn_append ::
  "api_env \<Rightarrow> api_call \<Rightarrow> Claims \<Rightarrow> string \<Rightarrow> uuid \<Rightarrow> uuid \<Rightarrow> string \<Rightarrow> string \<Rightarrow> 'f kn_api \<Rightarrow> bool \<times> 'f kn_api" where
  "kn_append env cx c action docID ws outcome detail w =
     (if \<not> en_auditSink env then (False, w)
      else case auditstore_Append (en_lib env) (cx_now cx) (cx_ids cx) (kn_audit_record env cx c action docID ws outcome detail) (ap_audit w) of
             (au, r) \<Rightarrow> (\<not> isl r, w\<lparr>ap_audit := au\<rparr>))"

definition recordFailure ::
  "api_env \<Rightarrow> api_call \<Rightarrow> Claims \<Rightarrow> string \<Rightarrow> uuid \<Rightarrow> uuid \<Rightarrow> string \<Rightarrow> string \<Rightarrow> 'f kn_api \<Rightarrow> 'f kn_api" where
  "recordFailure env cx c action docID ws outcome detail w = snd (kn_append env cx c action docID ws outcome detail w)"

definition recordOrInternal ::
  "api_env \<Rightarrow> api_call \<Rightarrow> Claims \<Rightarrow> string \<Rightarrow> uuid \<Rightarrow> uuid \<Rightarrow> nat \<Rightarrow> 'b \<Rightarrow> 'f kn_api \<Rightarrow> 'b response \<times> 'f kn_api" where
  "recordOrInternal env cx c action docID ws status body w =
     (case kn_append env cx c action docID ws ''success'' [] w of
        (ok, w') \<Rightarrow> (if ok then HTTP_OK status body else HTTP_Error 500, w'))"

subsection \<open>Scope, errors, parameters\<close>

definition kn_scope :: "api_env \<Rightarrow> api_call \<Rightarrow> string \<Rightarrow> 'f kn_api \<Rightarrow> (nat, Claims \<times> uuid) result \<times> 'f kn_api" where
  "kn_scope env cx action w =
     (case cx_claims cx of
        None \<Rightarrow> (Inl 401, w)
      | Some c \<Rightarrow>
          (case WorkspaceFromClaims (Some c) of
             None \<Rightarrow> (Inl 403, recordFailure env cx c action uuid_Nil uuid_Nil ''denied'' ''no_workspace_context'' w)
           | Some binding \<Rightarrow>
               (case en_uuid_Parse env binding of
                  None \<Rightarrow> (Inl 403, recordFailure env cx c action uuid_Nil uuid_Nil ''denied'' ''invalid_workspace_claim'' w)
                | Some ws \<Rightarrow> (Inr (c, ws), w))))"

definition kn_fail ::
  "api_env \<Rightarrow> api_call \<Rightarrow> Claims \<Rightarrow> string \<Rightarrow> uuid \<Rightarrow> uuid \<Rightarrow> kn_error \<Rightarrow> 'f kn_api \<Rightarrow> 'b response \<times> 'f kn_api" where
  "kn_fail env cx c action i ws e w =
     (case e of
        ErrNotFound \<Rightarrow> (HTTP_Error 404, recordFailure env cx c action i ws ''failed'' ''not_found'' w)
      | ErrWorkspaceMismatch \<Rightarrow> (HTTP_Error 403, recordFailure env cx c action i ws ''denied'' ''workspace_mismatch'' w)
      | ErrProvider \<Rightarrow> (HTTP_Error 500, recordFailure env cx c action i ws ''failed'' ''internal_error'' w)
      | ErrDatabase \<Rightarrow> (HTTP_Error 500, recordFailure env cx c action i ws ''failed'' ''internal_error'' w)
      | _ \<Rightarrow> (HTTP_Error 400, recordFailure env cx c action i ws ''failed'' ''invalid_request'' w))"

text \<open>A refusal with a record of its own.\<close>

definition refuse ::
  "api_env \<Rightarrow> api_call \<Rightarrow> Claims \<Rightarrow> string \<Rightarrow> uuid \<Rightarrow> uuid \<Rightarrow> string \<Rightarrow> 'f kn_api \<Rightarrow> 'b response \<times> 'f kn_api" where
  "refuse env cx c action i ws detail w = (HTTP_Error 400, recordFailure env cx c action i ws ''failed'' detail w)"

definition create_kind :: "string \<Rightarrow> string option" where
  "create_kind raw = (let trimmed = TrimSpace raw in if trimmed = [] then Some KindDocument else ValidateKind trimmed)"

definition checkContentLength :: "string \<Rightarrow> string \<Rightarrow> string option" where
  "checkContentLength title content =
     (if RuneCount title > maxTitleRunes then Some ''title_too_long''
      else if int (length content) > MaxContentLength then Some ''content_too_large'' else None)"

definition docID :: "api_env \<Rightarrow> string \<Rightarrow> uuid option" where
  "docID env path = en_uuid_Parse env (TrimSpace path)"

definition kn_params :: "string list" where
  "kn_params = [''kind'', ''limit'', ''cursor'']"

text \<open>The listing parameters, or the detail of the refusal.\<close>

definition parseQuery :: "api_env \<Rightarrow> url_values option \<Rightarrow> (string, kn_query) result" where
  "parseQuery env raw =
     (case raw of
        None \<Rightarrow> Inl ''malformed_query''
      | Some vs \<Rightarrow>
          if \<not> list_all (\<lambda>(k, _). k \<in> set kn_params) vs then Inl ''unknown_parameter''
          else let k = values_Get vs ''kind''; l = values_Get vs ''limit'' in
               if k \<noteq> [] \<and> ValidateKind (TrimSpace k) = None then Inl ''invalid_kind''
               else if l \<noteq> [] \<and> (case ParseInt l of None \<Rightarrow> True | Some n \<Rightarrow> n \<le> 0) then Inl ''invalid_limit''
               else (case kn_DecodeCursor (en_uuid_Parse env) (values_Get vs ''cursor'') of
                       Inl _ \<Rightarrow> Inl ''invalid_cursor''
                     | Inr cur \<Rightarrow>
                         Inr (kn_Normalize \<lparr>kq_Kind = (if k \<noteq> [] then ValidateKind (TrimSpace k) else None),
                                kq_Limit = (if l = [] then 0 else case ParseInt l of None \<Rightarrow> 0 | Some n \<Rightarrow> n), kq_Before = cur\<rparr>)))"

subsection \<open>The handlers\<close>

definition KnowledgeHandler_Create ::
  "api_env \<Rightarrow> 'f kn_deps \<Rightarrow> api_call \<Rightarrow> createKnowledgeRequest option \<Rightarrow> 'f kn_api \<Rightarrow> knowledgeResponse response \<times> 'f kn_api" where
  "KnowledgeHandler_Create env dp cx body w0 =
     (case kn_scope env cx ''create'' w0 of
        (Inl status, w) \<Rightarrow> (HTTP_Error status, w)
      | (Inr (c, ws), w) \<Rightarrow>
          (case body of
             None \<Rightarrow> refuse env cx c ''create'' uuid_Nil ws ''malformed_body'' w
           | Some req \<Rightarrow>
               (case create_kind (ck_Kind req) of
                  None \<Rightarrow> refuse env cx c ''create'' uuid_Nil ws ''invalid_kind'' w
                | Some kind \<Rightarrow>
                    (case checkContentLength (ck_Title req) (ck_Content req) of
                       Some detail \<Rightarrow> refuse env cx c ''create'' uuid_Nil ws detail w
                     | None \<Rightarrow>
                         (case kn_Create (dp_vectors dp) (dp_embed dp) (cx_now cx) (cx_gen cx) ws kind (ck_Title req) (ck_Content req) (ap_knowledge w) of
                            (Inl e, k) \<Rightarrow> kn_fail env cx c ''create'' uuid_Nil ws e (w\<lparr>ap_knowledge := k\<rparr>)
                          | (Inr d, k) \<Rightarrow>
                              recordOrInternal env cx c ''create'' (kd_ID d) ws 201 (newKnowledgeResponse env d) (w\<lparr>ap_knowledge := k\<rparr>))))))"

definition KnowledgeHandler_List ::
  "api_env \<Rightarrow> 'f kn_deps \<Rightarrow> api_call \<Rightarrow> url_values option \<Rightarrow> 'f kn_api \<Rightarrow> knowledgePage response \<times> 'f kn_api" where
  "KnowledgeHandler_List env dp cx raw w0 =
     (case kn_scope env cx ''list'' w0 of
        (Inl status, w) \<Rightarrow> (HTTP_Error status, w)
      | (Inr (c, ws), w) \<Rightarrow>
          (case parseQuery env raw of
             Inl detail \<Rightarrow> refuse env cx c ''list'' uuid_Nil ws detail w
           | Inr q \<Rightarrow>
               (case kn_ListPage (dp_vectors dp) (al_uuid_String (en_lib env)) ws q (ks_rows (ap_knowledge w)) of
                  Inl e \<Rightarrow> kn_fail env cx c ''list'' uuid_Nil ws e w
                | Inr page \<Rightarrow>
                    (HTTP_OK 200 \<lparr>kg_Documents = map (newKnowledgeResponse env) (kp_Documents page), kg_NextCursor = kp_NextCursor page,
                       kg_Limit = kp_Limit page\<rparr>, w))))"

definition KnowledgeHandler_Get ::
  "api_env \<Rightarrow> 'f kn_deps \<Rightarrow> api_call \<Rightarrow> string \<Rightarrow> 'f kn_api \<Rightarrow> knowledgeResponse response \<times> 'f kn_api" where
  "KnowledgeHandler_Get env dp cx path w0 =
     (case kn_scope env cx ''get'' w0 of
        (Inl status, w) \<Rightarrow> (HTTP_Error status, w)
      | (Inr (c, ws), w) \<Rightarrow>
          (case docID env path of
             None \<Rightarrow> refuse env cx c ''get'' uuid_Nil ws ''malformed_id'' w
           | Some i \<Rightarrow>
               (case kn_Get (dp_vectors dp) ws i (ks_rows (ap_knowledge w)) of
                  Inl e \<Rightarrow> kn_fail env cx c ''get'' i ws e w
                | Inr d \<Rightarrow> (HTTP_OK 200 (newKnowledgeResponse env d), w))))"

text \<open>The checks of a \<^verbatim>\<open>PATCH\<close> body: the detail of the refusal, or the patch for the service.\<close>

definition kn_update_patch :: "updateKnowledgeRequest \<Rightarrow> (string, kn_patch) result" where
  "kn_update_patch req =
     (if uk_Kind req = None \<and> uk_Title req = None \<and> uk_Content req = None then Inl ''empty_update''
      else if (case uk_Kind req of None \<Rightarrow> False | Some k \<Rightarrow> TrimSpace k = []) then Inl ''kind_blank''
      else if (case uk_Kind req of None \<Rightarrow> False | Some k \<Rightarrow> ValidateKind (TrimSpace k) = None) then Inl ''invalid_kind''
      else Inr \<lparr>kt_Title = uk_Title req, kt_Content = uk_Content req, kt_Kind = map_option TrimSpace (uk_Kind req)\<rparr>)"

definition KnowledgeHandler_Update ::
  "api_env \<Rightarrow> 'f kn_deps \<Rightarrow> api_call \<Rightarrow> kn_row list \<Rightarrow> string \<Rightarrow> updateKnowledgeRequest option \<Rightarrow> 'f kn_api \<Rightarrow> knowledgeResponse response \<times> 'f kn_api" where
  "KnowledgeHandler_Update env dp cx snap path body w0 =
     (case kn_scope env cx ''update'' w0 of
        (Inl status, w) \<Rightarrow> (HTTP_Error status, w)
      | (Inr (c, ws), w) \<Rightarrow>
          (case docID env path of
             None \<Rightarrow> refuse env cx c ''update'' uuid_Nil ws ''malformed_id'' w
           | Some i \<Rightarrow>
               (case body of
                  None \<Rightarrow> refuse env cx c ''update'' i ws ''malformed_body'' w
                | Some req \<Rightarrow>
                    (case kn_update_patch req of
                       Inl detail \<Rightarrow> refuse env cx c ''update'' i ws detail w
                     | Inr patch \<Rightarrow>
                         (case kn_Update (dp_vectors dp) (dp_embed dp) (cx_now cx) snap ws i patch (ap_knowledge w) of
                            (Inl e, k) \<Rightarrow> kn_fail env cx c ''update'' i ws e (w\<lparr>ap_knowledge := k\<rparr>)
                          | (Inr d, k) \<Rightarrow>
                              recordOrInternal env cx c ''update'' (kd_ID d) ws 200 (newKnowledgeResponse env d) (w\<lparr>ap_knowledge := k\<rparr>))))))"

definition KnowledgeHandler_Delete ::
  "api_env \<Rightarrow> api_call \<Rightarrow> string \<Rightarrow> 'f kn_api \<Rightarrow> unit response \<times> 'f kn_api" where
  "KnowledgeHandler_Delete env cx path w0 =
     (case kn_scope env cx ''delete'' w0 of
        (Inl status, w) \<Rightarrow> (HTTP_Error status, w)
      | (Inr (c, ws), w) \<Rightarrow>
          (case docID env path of
             None \<Rightarrow> refuse env cx c ''delete'' uuid_Nil ws ''malformed_id'' w
           | Some i \<Rightarrow>
               (case kn_Delete ws i (ap_knowledge w) of
                  (Some e, k) \<Rightarrow> kn_fail env cx c ''delete'' i ws e (w\<lparr>ap_knowledge := k\<rparr>)
                | (None, k) \<Rightarrow> recordOrInternal env cx c ''delete'' i ws 204 () (w\<lparr>ap_knowledge := k\<rparr>))))"

definition search_refusal :: "searchKnowledgeRequest \<Rightarrow> string option" where
  "search_refusal req =
     (if TrimSpace (sk_Query req) = [] then Some ''empty_query''
      else if RuneCount (sk_Query req) > maxContentRunes then Some ''query_too_long''
      else if TrimSpace (sk_Kind req) \<noteq> [] \<and> ValidateKind (TrimSpace (sk_Kind req)) = None then Some ''invalid_kind''
      else if (case sk_Limit req of None \<Rightarrow> False | Some n \<Rightarrow> n < 1 \<or> n > MaxSearchResults) then Some ''invalid_limit''
      else None)"

definition KnowledgeHandler_Search ::
  "api_env \<Rightarrow> 'f kn_deps \<Rightarrow> api_call \<Rightarrow> searchKnowledgeRequest option \<Rightarrow> 'f kn_api \<Rightarrow> (knowledgeResponse list \<times> nat) response \<times> 'f kn_api" where
  "KnowledgeHandler_Search env dp cx body w0 =
     (case kn_scope env cx ''search'' w0 of
        (Inl status, w) \<Rightarrow> (HTTP_Error status, w)
      | (Inr (c, ws), w) \<Rightarrow>
          (case body of
             None \<Rightarrow> refuse env cx c ''search'' uuid_Nil ws ''malformed_body'' w
           | Some req \<Rightarrow>
               (case search_refusal req of
                  Some detail \<Rightarrow> refuse env cx c ''search'' uuid_Nil ws detail w
                | None \<Rightarrow>
                    (case kn_Search (dp_vectors dp) (dp_nearest dp) (dp_embed dp) ws (sk_Query req)
                            (if TrimSpace (sk_Kind req) \<noteq> [] then ValidateKind (TrimSpace (sk_Kind req)) else None)
                            (NormalizeSearchLimit (case sk_Limit req of None \<Rightarrow> 0 | Some n \<Rightarrow> n)) (ap_knowledge w) of
                       (Inl e, k) \<Rightarrow> kn_fail env cx c ''search'' uuid_Nil ws e (w\<lparr>ap_knowledge := k\<rparr>)
                     | (Inr docs, k) \<Rightarrow>
                         let out = map (newKnowledgeResponse env) docs
                         in recordOrInternal env cx c ''search'' uuid_Nil ws 200 (out, length out) (w\<lparr>ap_knowledge := k\<rparr>)))))"

subsection \<open>Requests\<close>

datatype kn_request =
    CreateKnowledge "createKnowledgeRequest option"
  | ListKnowledge "url_values option"
  | GetKnowledge string
  | UpdateKnowledge string "updateKnowledgeRequest option"
  | DeleteKnowledge string
  | SearchKnowledge "searchKnowledgeRequest option"

text \<open>One request with the documents of its answer; an update reads \<open>snap\<close> before it writes.\<close>

fun kn_serve :: "api_env \<Rightarrow> 'f kn_deps \<Rightarrow> api_call \<Rightarrow> kn_row list \<Rightarrow> kn_request \<Rightarrow> 'f kn_api \<Rightarrow> knowledgeResponse list response \<times> 'f kn_api" where
  "kn_serve env dp cx snap (CreateKnowledge body) w = apfst (map_response (\<lambda>d. [d])) (KnowledgeHandler_Create env dp cx body w)"
| "kn_serve env dp cx snap (ListKnowledge raw) w = apfst (map_response kg_Documents) (KnowledgeHandler_List env dp cx raw w)"
| "kn_serve env dp cx snap (GetKnowledge path) w = apfst (map_response (\<lambda>d. [d])) (KnowledgeHandler_Get env dp cx path w)"
| "kn_serve env dp cx snap (UpdateKnowledge path body) w = apfst (map_response (\<lambda>d. [d])) (KnowledgeHandler_Update env dp cx snap path body w)"
| "kn_serve env dp cx snap (DeleteKnowledge path) w = apfst (map_response (\<lambda>_. [])) (KnowledgeHandler_Delete env cx path w)"
| "kn_serve env dp cx snap (SearchKnowledge body) w = apfst (map_response fst) (KnowledgeHandler_Search env dp cx body w)"

fun kn_action :: "kn_request \<Rightarrow> string" where
  "kn_action (CreateKnowledge _) = ''create''"
| "kn_action (ListKnowledge _) = ''list''"
| "kn_action (GetKnowledge _) = ''get''"
| "kn_action (UpdateKnowledge _ _) = ''update''"
| "kn_action (DeleteKnowledge _) = ''delete''"
| "kn_action (SearchKnowledge _) = ''search''"

text \<open>The caller's workspace, which only a member or an admin of one has.\<close>

definition caller_workspace :: "api_env \<Rightarrow> Claims \<Rightarrow> uuid option" where
  "caller_workspace env c = (case WorkspaceFromClaims (Some c) of None \<Rightarrow> None | Some b \<Rightarrow> en_uuid_Parse env b)"

lemma kn_scope_Inr: "kn_scope env cx action w = (Inr (c, ws), w') \<Longrightarrow> cx_claims cx = Some c \<and> caller_workspace env c = Some ws \<and> w' = w"
  by (auto simp: kn_scope_def caller_workspace_def split: option.splits)

lemma ap_knowledge_note [simp]: "ap_knowledge (recordFailure env cx c action i ws oc detail w) = ap_knowledge w"
  by (simp add: recordFailure_def kn_append_def split: prod.split)

lemma kn_scope_Inl: "kn_scope env cx action w = (Inl status, w') \<Longrightarrow> ap_knowledge w' = ap_knowledge w"
  by (auto simp: kn_scope_def split: option.splits)

lemma kn_fail_knowledge [simp]:
  "ap_knowledge (snd (kn_fail env cx c action i ws e w)) = ap_knowledge w" "fst (kn_fail env cx c action i ws e w) \<noteq> HTTP_OK st b"
  by (cases e; simp add: kn_fail_def)+

lemma refuse_knowledge [simp]:
  "ap_knowledge (snd (refuse env cx c action i ws detail w)) = ap_knowledge w" "fst (refuse env cx c action i ws detail w) \<noteq> HTTP_OK st b"
  by (simp_all add: refuse_def)

lemma recordOrInternal_knowledge [simp]: "ap_knowledge (snd (recordOrInternal env cx c action i ws status body w)) = ap_knowledge w"
  by (simp add: recordOrInternal_def kn_append_def split: prod.split)

lemma recordOrInternal_body: "fst (recordOrInternal env cx c action i ws status body w) = HTTP_OK st b \<Longrightarrow> b = body"
  by (auto simp: recordOrInternal_def split: prod.splits if_splits)

subsection \<open>Isolation\<close>

text \<open>The rows of the other workspaces.\<close>

definition outside :: "uuid \<Rightarrow> kn_row list \<Rightarrow> kn_row list" where
  "outside ws rows = filter (\<lambda>r. kr_workspace_id r \<noteq> ws) rows"

lemma outside_upd:
  assumes "\<And>r. r \<in> set rows \<Longrightarrow> P r \<Longrightarrow> kr_workspace_id r = ws"
  shows "outside ws (upd_where P (kn_write vl now d) rows) = outside ws rows"
  using assms by (induction rows) (auto simp: outside_def)

lemma outside_Upsert:
  assumes "KnowledgeStore_Upsert vl now gen wss d rows = Inr (rows', stored)" "distinct (map kr_id rows)"
  shows "outside (kd_WorkspaceID d) rows' = outside (kd_WorkspaceID d) rows"
proof (cases "find (\<lambda>r. kr_id r = gen) rows")
  case None
  then show ?thesis using assms(1) by (auto simp: KnowledgeStore_Upsert_def outside_def Let_def split: if_splits)
next
  case (Some r)
  then have r: "r \<in> set rows" "kr_id r = gen" by (auto dest: find_SomeD)
  have u: "rows' = upd_where (\<lambda>x. kr_id x = gen) (kn_write vl now d) rows" "kr_workspace_id r = kd_WorkspaceID d"
    using assms(1) Some by (auto simp: KnowledgeStore_Upsert_def split: if_splits)
  have "x = r" if "x \<in> set rows" "kr_id x = gen" for x
    using distinct_map_keyD [OF assms(2)] that r by blast
  then show ?thesis unfolding u(1) by (intro outside_upd) (use u(2) in auto)
qed

lemma outside_Update:
  "KnowledgeStore_Update vl now d rows = Inr (rows', stored) \<Longrightarrow> outside (kd_WorkspaceID d) rows' = outside (kd_WorkspaceID d) rows"
  by (auto simp: KnowledgeStore_Update_def kn_owned_def split: option.splits if_splits intro!: outside_upd)

text \<open>A creation stores nothing, or one document of the workspace, which it answers.\<close>

lemma kn_Create_cases:
  assumes "kn_Create vl eb now gen ws kind title content s = (r, t)"
  obtains (unchanged) e where "r = Inl e" "ks_rows t = ks_rows s"
  | (written) d wss stored where "r = Inr stored" "KnowledgeStore_Upsert vl now (snd gen) wss d (ks_rows s) = Inr (ks_rows t, stored)"
      "kd_WorkspaceID d = ws"
proof (cases "kn_New now (fst gen) ws kind title content :: (kn_error, 'a Document) result")
  case (Inl e)
  with assms have "r = Inl e" "ks_rows t = ks_rows s" by (auto simp: kn_Create_def)
  then show thesis by (rule unchanged)
next
  case (Inr d)
  obtain a s1 where e: "GatewayEmbedder_Embed eb ws (kd_Content d) s = (a, s1)" by fastforce
  have s1: "ks_rows s1 = ks_rows s" using Embed_rows [OF e] by simp
  show thesis
  proof (cases a)
    case (Inl e')
    then show thesis using assms Inr e s1 unchanged by (auto simp: kn_Create_def)
  next
    case (Inr vec)
    let ?d = "d\<lparr>kd_Embedding := vec\<rparr>"
    note n = \<open>kn_New now (fst gen) ws kind title content = Inr d\<close>
    show thesis
    proof (cases "KnowledgeStore_Upsert vl now (snd gen) (ks_workspaces s1) ?d (ks_rows s1)")
      case (Inl e')
      then show thesis using assms n e s1 \<open>a = Inr vec\<close> unchanged by (auto simp: kn_Create_def)
    next
      case (Inr u)
      then have "r = Inr (snd u)" "ks_rows t = fst u" using assms n e \<open>a = Inr vec\<close> by (auto simp: kn_Create_def split: prod.splits)
      then show thesis using written [of "snd u" "ks_workspaces s1" ?d] Inr s1 kn_New_Inr [OF n] by simp
    qed
  qed
qed

lemma outside_kn_Create:
  assumes "kn_Create vl eb now gen ws kind title content s = (r, t)" "distinct (map kr_id (ks_rows s))"
  shows "outside ws (ks_rows t) = outside ws (ks_rows s)"
  using assms(1) by (cases rule: kn_Create_cases) (use assms(2) in \<open>auto dest: outside_Upsert\<close>)

lemma kn_apply_ids: "kn_apply p d = Inr (next, changed) \<Longrightarrow> kd_WorkspaceID next = kd_WorkspaceID d \<and> kd_ID next = kd_ID d"
  by (auto simp: kn_apply_def split: if_splits)

text \<open>An update writes nothing, or one document of the workspace, which it answers.\<close>

lemma kn_Update_cases:
  assumes "kn_Update vl eb now snap ws i p s = (r, t)"
  obtains (unchanged) e where "r = Inl e" "ks_rows t = ks_rows s"
  | (written) d stored where "r = Inr stored" "KnowledgeStore_Update vl now d (ks_rows s) = Inr (ks_rows t, stored)" "kd_WorkspaceID d = ws"
proof (cases "ws \<noteq> uuid_Nil \<and> (\<exists>d next c. KnowledgeStore_Get vl ws i snap = Inr d \<and> kd_WorkspaceID d = ws \<and> kn_apply p d = Inr (next, c))")
  case False
  then have "\<not> (\<exists>x. r = Inr x) \<and> ks_rows t = ks_rows s"
    using assms by (auto simp: kn_Update_def split: if_splits sum.splits)
  then show thesis using unchanged by (metis old.sum.exhaust)
next
  case True
  then obtain d "next" c where g: "ws \<noteq> uuid_Nil" "KnowledgeStore_Get vl ws i snap = Inr d" "kd_WorkspaceID d = ws" "kn_apply p d = Inr (next, c)"
    by blast
  obtain a s1 where e: "(if c then GatewayEmbedder_Embed eb ws (kd_Content next) s else (Inr (kd_Embedding next), s)) = (a, s1)" by fastforce
  have s1: "ks_rows s1 = ks_rows s" using e by (auto split: if_splits dest: Embed_rows)
  show thesis
  proof (cases a)
    case (Inl e')
    then show thesis using assms g e s1 unchanged by (auto simp: kn_Update_def)
  next
    case (Inr vec)
    let ?d = "next\<lparr>kd_UpdatedAt := now, kd_Embedding := vec\<rparr>"
    show thesis
    proof (cases "KnowledgeStore_Update vl now ?d (ks_rows s1)")
      case (Inl e')
      then show thesis using assms g e s1 \<open>a = Inr vec\<close> unchanged by (auto simp: kn_Update_def)
    next
      case (Inr u)
      then have "r = Inr (snd u)" "ks_rows t = fst u" using assms g e \<open>a = Inr vec\<close> by (auto simp: kn_Update_def split: prod.splits)
      moreover have "kd_WorkspaceID ?d = ws" using kn_apply_ids [OF g(4)] g(3) by simp
      ultimately show thesis using written [of "snd u" ?d] Inr s1 by simp
    qed
  qed
qed

lemma outside_kn_Update:
  assumes "kn_Update vl eb now snap ws i p s = (r, t)"
  shows "outside ws (ks_rows t) = outside ws (ks_rows s)"
  using assms by (cases rule: kn_Update_cases) (auto dest: outside_Update)

lemma outside_kn_Delete: "kn_Delete ws i s = (e, t) \<Longrightarrow> outside ws (ks_rows t) = outside ws (ks_rows s)"
  by (auto simp: kn_Delete_def KnowledgeStore_Delete_def outside_def kn_owned_def filter_filter split: sum.splits if_splits intro!: filter_cong [OF refl])

lemma rows_kn_Search: "kn_Search vl nearest eb ws query kind limit s = (r, t) \<Longrightarrow> ks_rows t = ks_rows s"
  by (auto simp: kn_Search_def split: if_splits sum.splits prod.splits dest!: Embed_rows)

lemmas handler_defs = KnowledgeHandler_Create_def KnowledgeHandler_List_def KnowledgeHandler_Get_def KnowledgeHandler_Update_def
  KnowledgeHandler_Delete_def KnowledgeHandler_Search_def

text \<open>Every handler that got past the claims leaves the other workspaces alone.\<close>

lemma kn_scope_cases:
  obtains (refused) status w1 where "kn_scope env cx action w = (Inl status, w1)" "ap_knowledge w1 = ap_knowledge w"
  | (admitted) c ws where "kn_scope env cx action w = (Inr (c, ws), w)" "cx_claims cx = Some c" "caller_workspace env c = Some ws"
proof -
  obtain r w1 where r: "kn_scope env cx action w = (r, w1)" by fastforce
  show thesis
  proof (cases r)
    case (Inl status)
    with r kn_scope_Inl show thesis using refused by blast
  next
    case (Inr x)
    with r obtain c ws where "kn_scope env cx action w = (Inr (c, ws), w1)" by (cases x) auto
    with kn_scope_Inr [OF this] show thesis using admitted by blast
  qed
qed

lemma kn_serve_refused: "kn_scope env cx (kn_action req) w = (Inl status, w1) \<Longrightarrow> kn_serve env dp cx snap req w = (HTTP_Error status, w1)"
  by (cases req) (simp_all add: handler_defs)

text \<open>A handler ends with an error, a refusal or a record, none of which touches the documents.\<close>

lemma ends_knowledge [simp]:
  "kn_fail env cx c action i ws e w = (x, w') \<Longrightarrow> ap_knowledge w' = ap_knowledge w"
  "refuse env cx c action i ws detail w = (x, w') \<Longrightarrow> ap_knowledge w' = ap_knowledge w"
  "recordOrInternal env cx c action i ws status body w = (y, w') \<Longrightarrow> ap_knowledge w' = ap_knowledge w"
  using kn_fail_knowledge(1) refuse_knowledge(1) recordOrInternal_knowledge by (metis snd_conv)+

lemma KnowledgeHandler_Create_outside:
  assumes "KnowledgeHandler_Create env dp cx body w = (res, w')" "kn_scope env cx ''create'' w = (Inr (c, ws), w)"
    and "distinct (map kr_id (ks_rows (ap_knowledge w)))"
  shows "outside ws (ks_rows (ap_knowledge w')) = outside ws (ks_rows (ap_knowledge w))"
  using assms outside_kn_Create [where s = "ap_knowledge w" and gen = "cx_gen cx"]
  by (auto simp: KnowledgeHandler_Create_def split: option.splits sum.splits prod.splits)

lemma KnowledgeHandler_Update_outside:
  assumes "KnowledgeHandler_Update env dp cx snap path body w = (res, w')" "kn_scope env cx ''update'' w = (Inr (c, ws), w)"
  shows "outside ws (ks_rows (ap_knowledge w')) = outside ws (ks_rows (ap_knowledge w))"
  using assms outside_kn_Update [where s = "ap_knowledge w"]
  by (auto simp: KnowledgeHandler_Update_def split: option.splits sum.splits prod.splits)

lemma KnowledgeHandler_Delete_outside:
  assumes "KnowledgeHandler_Delete env cx path w = (res, w')" "kn_scope env cx ''delete'' w = (Inr (c, ws), w)"
  shows "outside ws (ks_rows (ap_knowledge w')) = outside ws (ks_rows (ap_knowledge w))"
  using assms outside_kn_Delete [where s = "ap_knowledge w"]
  by (auto simp: KnowledgeHandler_Delete_def split: option.splits prod.splits)

lemma KnowledgeHandler_reads:
  "KnowledgeHandler_Search env dp cx body w = (found, w') \<Longrightarrow> kn_scope env cx ''search'' w = (Inr (c, ws), w) \<Longrightarrow>
     ks_rows (ap_knowledge w') = ks_rows (ap_knowledge w)"
  "KnowledgeHandler_Get env dp cx path w = (d, w') \<Longrightarrow> kn_scope env cx ''get'' w = (Inr (c, ws), w) \<Longrightarrow> ap_knowledge w' = ap_knowledge w"
  "KnowledgeHandler_List env dp cx raw w = (page, w') \<Longrightarrow> kn_scope env cx ''list'' w = (Inr (c, ws), w) \<Longrightarrow> ap_knowledge w' = ap_knowledge w"
  using rows_kn_Search [where s = "ap_knowledge w"]
  by (auto simp: KnowledgeHandler_Search_def KnowledgeHandler_Get_def KnowledgeHandler_List_def Let_def
      split: option.splits sum.splits prod.splits)

lemma kn_serve_outside:
  assumes "kn_serve env dp cx snap req w = (res, w')" "distinct (map kr_id (ks_rows (ap_knowledge w)))"
    and "kn_scope env cx (kn_action req) w = (Inr (c, ws), w)"
  shows "outside ws (ks_rows (ap_knowledge w')) = outside ws (ks_rows (ap_knowledge w))"
  using assms
  by (cases req) (auto simp: apfst_def map_prod_def split: prod.splits
      dest: KnowledgeHandler_Create_outside KnowledgeHandler_Update_outside KnowledgeHandler_Delete_outside KnowledgeHandler_reads)

subsection \<open>Answers\<close>

text \<open>A row of the workspace that the answer shows.\<close>

definition shows_row :: "api_env \<Rightarrow> uuid \<Rightarrow> kn_row list \<Rightarrow> knowledgeResponse \<Rightarrow> bool" where
  "shows_row env ws rows d \<longleftrightarrow> (\<exists>r \<in> set rows. kr_workspace_id r = ws
     \<and> d = \<lparr>ko_ID = al_uuid_String (en_lib env) (kr_id r), ko_WorkspaceID = al_uuid_String (en_lib env) ws, ko_Kind = kr_kind r,
            ko_Title = kr_title r, ko_Content = kr_content r, ko_CreatedAt = al_format (en_lib env) (kr_created_at r),
            ko_UpdatedAt = al_format (en_lib env) (kr_updated_at r)\<rparr>)"

lemma shows_scan: "r \<in> set rows \<Longrightarrow> kr_workspace_id r = ws \<Longrightarrow> shows_row env ws rows (newKnowledgeResponse env (scanDocument vl r))"
  by (auto simp: shows_row_def newKnowledgeResponse_def scanDocument_def)

lemma kn_Get_shows: "kn_Get vl ws i rows = Inr d \<Longrightarrow> shows_row env ws rows (newKnowledgeResponse env d)"
  by (auto simp: kn_Get_def KnowledgeStore_Get_def kn_owned_def split: sum.splits option.splits if_splits dest!: find_SomeD intro!: shows_scan)

lemma shows_written:
  assumes "r \<in> set rows" "P r" "kr_workspace_id r = ws" "kr_id r = kd_ID d" "kd_WorkspaceID d = ws"
  shows "shows_row env ws (upd_where P (kn_write vl now d) rows)
    (newKnowledgeResponse env (d\<lparr>kd_CreatedAt := kr_created_at r, kd_UpdatedAt := to_micro now\<rparr>))"
  unfolding shows_row_def set_upd_where
  using assms by (intro bexI [of _ "kn_write vl now d r"]) (auto simp: newKnowledgeResponse_def kn_write_def image_iff)

lemma Upsert_shows:
  assumes "KnowledgeStore_Upsert vl now gen wss d rows = Inr (rows', stored)"
  shows "shows_row env (kd_WorkspaceID d) rows' (newKnowledgeResponse env stored)"
proof (cases "find (\<lambda>r. kr_id r = gen) rows")
  case None
  then show ?thesis
    using assms by (auto simp: KnowledgeStore_Upsert_def Let_def shows_row_def newKnowledgeResponse_def split: if_splits)
next
  case (Some r)
  then have r: "r \<in> set rows" "kr_id r = gen" by (auto dest: find_SomeD)
  have u: "rows' = upd_where (\<lambda>x. kr_id x = gen) (kn_write vl now d) rows" "kr_workspace_id r = kd_WorkspaceID d"
    "stored = d\<lparr>kd_ID := gen, kd_CreatedAt := kr_created_at r, kd_UpdatedAt := to_micro now\<rparr>"
    using assms Some by (auto simp: KnowledgeStore_Upsert_def split: if_splits)
  have "kn_write vl now d = kn_write vl now (d\<lparr>kd_ID := gen\<rparr>)" by (simp add: fun_eq_iff kn_write_def)
  with shows_written [OF r(1), of "\<lambda>x. kr_id x = gen" "kd_WorkspaceID d" "d\<lparr>kd_ID := gen\<rparr>" env vl now] r u show ?thesis by simp
qed

lemma Update_shows:
  assumes "KnowledgeStore_Update vl now d rows = Inr (rows', stored)"
  shows "shows_row env (kd_WorkspaceID d) rows' (newKnowledgeResponse env stored)"
proof -
  let ?P = "kn_owned (kd_WorkspaceID d) (kd_ID d)"
  obtain r where f: "find ?P rows = Some r" and u: "rows' = upd_where ?P (kn_write vl now d) rows"
    "stored = d\<lparr>kd_CreatedAt := kr_created_at r, kd_UpdatedAt := to_micro now\<rparr>"
    using assms by (auto simp: KnowledgeStore_Update_def split: option.splits if_splits)
  have "r \<in> set rows" "?P r" using find_SomeD [OF f] by simp_all
  with shows_written [of r rows ?P "kd_WorkspaceID d" d env vl now] u show ?thesis by (simp add: kn_owned_def)
qed

lemma kn_Create_shows:
  assumes "kn_Create vl eb now gen ws kind title content s = (Inr d, t)"
  shows "shows_row env ws (ks_rows t) (newKnowledgeResponse env d)"
  using assms by (cases rule: kn_Create_cases) (auto dest: Upsert_shows)

lemma kn_Update_shows:
  assumes "kn_Update vl eb now snap ws i p s = (Inr d, t)"
  shows "shows_row env ws (ks_rows t) (newKnowledgeResponse env d)"
  using assms by (cases rule: kn_Update_cases) (auto dest: Update_shows)

text \<open>What the vector search promises: rows among those that match, no more than asked for.\<close>

definition nearest_law :: "'f kn_deps \<Rightarrow> bool" where
  "nearest_law dp \<longleftrightarrow> (\<forall>q n rows. set (dp_nearest dp q n rows) \<subseteq> set rows \<and> length (dp_nearest dp q n rows) \<le> n)"

lemma kn_Search_shows:
  assumes "kn_Search (dp_vectors dp) (dp_nearest dp) eb ws query kind limit s = (Inr docs, t)" "nearest_law dp"
  shows "length docs \<le> 50 \<and> (\<forall>d \<in> set docs. shows_row env ws (ks_rows t) (newKnowledgeResponse env d))"
proof -
  let ?n = "nat (if limit \<le> 0 \<or> limit > 50 then 10 else limit)"
  from assms(1) obtain qv s1 where "GatewayEmbedder_Embed eb ws (TrimSpace query) s = (Inr qv, s1)"
    by (auto simp: kn_Search_def split: if_splits sum.splits prod.splits)
  with assms(1) have d: "ks_rows t = ks_rows s1"
    "docs = map (scanDocument (dp_vectors dp)) (dp_nearest dp (vectorLiteral (dp_vectors dp) qv) ?n (filter (kn_matches ws kind) (ks_rows s1)))"
    by (auto simp: kn_Search_def KnowledgeStore_Search_def split: if_splits)
  have "length docs \<le> ?n" using assms(2) by (auto simp: d(2) nearest_law_def)
  moreover have "?n \<le> 50" by auto
  moreover have "shows_row env ws (ks_rows t) (newKnowledgeResponse env d')" if "d' \<in> set docs" for d'
  proof -
    from that obtain r where r: "d' = scanDocument (dp_vectors dp) r"
      "r \<in> set (dp_nearest dp (vectorLiteral (dp_vectors dp) qv) ?n (filter (kn_matches ws kind) (ks_rows s1)))"
      unfolding d(2) by auto
    then have "r \<in> set (filter (kn_matches ws kind) (ks_rows s1))" using assms(2) unfolding nearest_law_def by blast
    then show ?thesis unfolding d(1) r(1) by (auto simp: kn_matches_def intro!: shows_scan)
  qed
  ultimately show ?thesis by (meson order_trans)
qed

lemma kn_limit: "0 < kq_Limit (kn_Normalize q) \<and> kq_Limit (kn_Normalize q) \<le> 200"
  by (simp add: kn_Normalize_def kn_DefaultPageSize_def kn_MaxPageSize_def Let_def)

lemma kn_ListPage_shows:
  assumes "kn_ListPage vl us ws q rows = Inr page"
  shows "length (kp_Documents page) \<le> 200 \<and> (\<forall>d \<in> set (kp_Documents page). shows_row env ws rows (newKnowledgeResponse env d))"
proof -
  let ?q = "kn_Normalize (kn_Normalize q)"
  let ?all = "rev (sort_key kn_key (filter (\<lambda>r. kn_matches ws (kq_Kind ?q) r
      \<and> (case kq_Before ?q of None \<Rightarrow> True | Some (at, i) \<Rightarrow> kn_key r < (to_micro at, i))) rows))"
  have p: "page = KnowledgeStore_ListPage vl us ws (kn_Normalize q) rows"
    using assms by (auto simp: kn_ListPage_def split: if_splits)
  have "kp_Documents page = map (scanDocument vl) (take (nat (kq_Limit ?q)) ?all)"
    using kn_limit [of "kn_Normalize q"]
    by (auto simp: p KnowledgeStore_ListPage_def Let_def take_map nat_add_distrib min_def not_less nat_le_iff)
  moreover have "nat (kq_Limit ?q) \<le> 200" using kn_limit [of "kn_Normalize q"] by (simp add: nat_le_iff)
  ultimately show ?thesis
    by (auto simp: kn_matches_def dest!: in_set_takeD intro!: shows_scan)
qed

subsection \<open>What a request may see, change and leave in the audit log\<close>

lemma recordOrInternal_OK: "recordOrInternal env cx c action i ws status body w = (HTTP_OK st b, w') \<Longrightarrow> b = body \<and> ap_knowledge w' = ap_knowledge w"
  using recordOrInternal_body [of env cx c action i ws status body w st b] recordOrInternal_knowledge [of env cx c action i ws status body w] by simp

lemma ends_OK:
  "kn_fail env cx c action i ws e w \<noteq> (HTTP_OK st b, w')" "refuse env cx c action i ws detail w \<noteq> (HTTP_OK st b, w')"
  using kn_fail_knowledge(2) refuse_knowledge(2) by (metis fst_conv)+

text \<open>A successful request in terms of the call of the service that answered it.\<close>

lemma Create_OK:
  assumes "KnowledgeHandler_Create env dp cx body w = (HTTP_OK st b, w')" "kn_scope env cx ''create'' w = (Inr (c, ws), w)"
  shows "\<exists>i k status. shows_row env ws (ks_rows k) b
    \<and> recordOrInternal env cx c ''create'' i ws status b (w\<lparr>ap_knowledge := k\<rparr>) = (HTTP_OK st b, w')"
proof -
  from assms obtain kind title content d k where s: "kn_Create (dp_vectors dp) (dp_embed dp) (cx_now cx) (cx_gen cx) ws kind title content (ap_knowledge w) = (Inr d, k)"
    and r: "recordOrInternal env cx c ''create'' (kd_ID d) ws 201 (newKnowledgeResponse env d) (w\<lparr>ap_knowledge := k\<rparr>) = (HTTP_OK st b, w')"
    by (auto simp: KnowledgeHandler_Create_def ends_OK split: option.splits sum.splits prod.splits)
  have "b = newKnowledgeResponse env d" using recordOrInternal_OK [OF r] by simp
  with r kn_Create_shows [OF s, of env] show ?thesis by blast
qed

lemma Update_OK:
  assumes "KnowledgeHandler_Update env dp cx snap path body w = (HTTP_OK st b, w')" "kn_scope env cx ''update'' w = (Inr (c, ws), w)"
  shows "\<exists>i k status. shows_row env ws (ks_rows k) b
    \<and> recordOrInternal env cx c ''update'' i ws status b (w\<lparr>ap_knowledge := k\<rparr>) = (HTTP_OK st b, w')"
proof -
  from assms obtain i p d k where s: "kn_Update (dp_vectors dp) (dp_embed dp) (cx_now cx) snap ws i p (ap_knowledge w) = (Inr d, k)"
    and r: "recordOrInternal env cx c ''update'' (kd_ID d) ws 200 (newKnowledgeResponse env d) (w\<lparr>ap_knowledge := k\<rparr>) = (HTTP_OK st b, w')"
    by (auto simp: KnowledgeHandler_Update_def ends_OK split: option.splits sum.splits prod.splits)
  have "b = newKnowledgeResponse env d" using recordOrInternal_OK [OF r] by simp
  with r kn_Update_shows [OF s, of env] show ?thesis by blast
qed

lemma Delete_OK:
  assumes "KnowledgeHandler_Delete env cx path w = (HTTP_OK st b, w')" "kn_scope env cx ''delete'' w = (Inr (c, ws), w)"
  shows "\<exists>i k. docID env path = Some i \<and> recordOrInternal env cx c ''delete'' i ws 204 () (w\<lparr>ap_knowledge := k\<rparr>) = (HTTP_OK st b, w')"
  using assms by (auto simp: KnowledgeHandler_Delete_def ends_OK split: option.splits prod.splits)

lemma Search_OK:
  assumes "KnowledgeHandler_Search env dp cx body w = (HTTP_OK st b, w')" "kn_scope env cx ''search'' w = (Inr (c, ws), w)" "nearest_law dp"
  shows "\<exists>k. length (fst b) \<le> 50 \<and> (\<forall>d \<in> set (fst b). shows_row env ws (ks_rows k) d)
    \<and> recordOrInternal env cx c ''search'' uuid_Nil ws 200 b (w\<lparr>ap_knowledge := k\<rparr>) = (HTTP_OK st b, w')"
proof -
  from assms(1,2) obtain req where req: "body = Some req" "search_refusal req = None"
    by (auto simp: KnowledgeHandler_Search_def ends_OK split: option.splits)
  define kind where "kind = (if TrimSpace (sk_Kind req) \<noteq> [] then ValidateKind (TrimSpace (sk_Kind req)) else None)"
  define limit where "limit = NormalizeSearchLimit (case sk_Limit req of None \<Rightarrow> 0 | Some n \<Rightarrow> n)"
  obtain docs k where s: "kn_Search (dp_vectors dp) (dp_nearest dp) (dp_embed dp) ws (sk_Query req) kind limit (ap_knowledge w) = (Inr docs, k)"
    and r: "recordOrInternal env cx c ''search'' uuid_Nil ws 200 (map (newKnowledgeResponse env) docs, length docs)
        (w\<lparr>ap_knowledge := k\<rparr>) = (HTTP_OK st b, w')"
    using assms(1,2) req
    by (auto simp: KnowledgeHandler_Search_def ends_OK Let_def kind_def [symmetric] limit_def [symmetric] split: sum.splits prod.splits)
  have "b = (map (newKnowledgeResponse env) docs, length docs)" using recordOrInternal_OK [OF r] by simp
  with r kn_Search_shows [OF s assms(3), of env] show ?thesis by auto
qed

lemma Get_OK:
  assumes "KnowledgeHandler_Get env dp cx path w = (HTTP_OK st b, w')" "kn_scope env cx ''get'' w = (Inr (c, ws), w)"
  shows "w' = w \<and> shows_row env ws (ks_rows (ap_knowledge w)) b"
  using assms by (auto simp: KnowledgeHandler_Get_def ends_OK split: option.splits sum.splits dest: kn_Get_shows)

lemma List_OK:
  assumes "KnowledgeHandler_List env dp cx raw w = (HTTP_OK st b, w')" "kn_scope env cx ''list'' w = (Inr (c, ws), w)"
  shows "w' = w \<and> length (kg_Documents b) \<le> 200 \<and> (\<forall>d \<in> set (kg_Documents b). shows_row env ws (ks_rows (ap_knowledge w)) d)"
  using assms kn_ListPage_shows [where env = env]
  by (fastforce simp: KnowledgeHandler_List_def ends_OK split: option.splits sum.splits)

definition audits_knowledge :: "api_env \<Rightarrow> Claims \<Rightarrow> string \<Rightarrow> uuid \<Rightarrow> audit_row \<Rightarrow> bool" where
  "audits_knowledge env c action ws row \<longleftrightarrow> aw_event_type row = ''knowledge.'' @ action \<and> aw_outcome row = ''success''
     \<and> aw_actor_id row = nullUUID (parseActorID env (cl_ID c)) \<and> aw_workspace_id row = nullUUID ws"

lemma recordOrInternal_row:
  assumes "recordOrInternal env cx c action i ws status body w = (HTTP_OK st b, w')"
  shows "\<exists>row. at_rows (snd (ap_audit w')) = at_rows (snd (ap_audit w)) @ [row] \<and> audits_knowledge env c action ws row"
proof -
  let ?rec = "kn_audit_record env cx c action i ws ''success'' []"
  obtain au r where ap: "auditstore_Append (en_lib env) (cx_now cx) (cx_ids cx) ?rec (ap_audit w) = (au, r)" by fastforce
  then have "kn_append env cx c action i ws ''success'' [] w = (if en_auditSink env then (\<not> isl r, w\<lparr>ap_audit := au\<rparr>) else (False, w))"
    by (simp add: kn_append_def)
  with assms have ok: "\<not> isl r" "w' = w\<lparr>ap_audit := au\<rparr>"
    by (simp_all add: recordOrInternal_def split: if_splits)
  then obtain ev where r: "r = Inr ev" by (cases r) auto
  obtain head details where ev: "ev = AppendEvent (en_lib env) (cx_now cx) (cx_ids cx) head (rc_EventType ?rec) (rc_ActorType ?rec)
      (rc_ActorID ?rec) (rc_TargetType ?rec) (rc_TargetID ?rec) (rc_Outcome ?rec) (rc_Principle ?rec)"
    and rows: "at_rows (snd au) = at_rows (snd (ap_audit w)) @ [audit_columns (en_lib env) ev (Some ?rec) details (at_nextval (snd (ap_audit w)))]"
    by (rule Append_Inr [OF ap [unfolded r]])
  have "audits_knowledge env c action ws (audit_columns (en_lib env) ev (Some ?rec) details (at_nextval (snd (ap_audit w))))"
    by (simp add: audits_knowledge_def ev audit_columns_def AppendEvent_def sealed_def Let_def kn_audit_record_def workspaceArg_def nullUUID_def)
  with ok(2) rows show ?thesis by auto
qed

definition kn_reads :: "kn_request \<Rightarrow> bool" where
  "kn_reads req \<longleftrightarrow> kn_action req \<in> {''list'', ''get''}"

lemma kn_serve_OK:
  assumes "kn_serve env dp cx snap req w = (HTTP_OK st docs, w')" "kn_scope env cx (kn_action req) w = (Inr (c, ws), w)" "nearest_law dp"
  shows "length docs \<le> 200 \<and> (\<forall>d \<in> set docs. shows_row env ws (ks_rows (ap_knowledge w')) d)
    \<and> (if kn_reads req then w' = w
       else \<exists>row. at_rows (snd (ap_audit w')) = at_rows (snd (ap_audit w)) @ [row] \<and> audits_knowledge env c (kn_action req) ws row)"
proof -
  have rec: "(\<exists>row. at_rows (snd (ap_audit w')) = at_rows (snd (ap_audit w)) @ [row] \<and> audits_knowledge env c action ws row)
      \<and> ap_knowledge w' = k"
    if "recordOrInternal env cx c action i ws status b (w\<lparr>ap_knowledge := k\<rparr>) = (HTTP_OK st b, w')" for action i status k and b :: 'z
    using recordOrInternal_row [OF that] recordOrInternal_OK [OF that] by simp
  note sc = assms(2)
  show ?thesis
  proof (cases req)
    case (CreateKnowledge body)
    with assms(1) obtain b where b: "KnowledgeHandler_Create env dp cx body w = (HTTP_OK st b, w')" "docs = [b]"
      by (cases "KnowledgeHandler_Create env dp cx body w"; cases "fst (KnowledgeHandler_Create env dp cx body w)") auto
    moreover obtain i k status where "shows_row env ws (ks_rows k) b"
      and r: "recordOrInternal env cx c ''create'' i ws status b (w\<lparr>ap_knowledge := k\<rparr>) = (HTTP_OK st b, w')"
      using Create_OK [OF b(1)] sc CreateKnowledge by auto
    ultimately show ?thesis using rec [OF r] CreateKnowledge by (simp add: kn_reads_def)
  next
    case (UpdateKnowledge path body)
    with assms(1) obtain b where b: "KnowledgeHandler_Update env dp cx snap path body w = (HTTP_OK st b, w')" "docs = [b]"
      by (cases "KnowledgeHandler_Update env dp cx snap path body w"; cases "fst (KnowledgeHandler_Update env dp cx snap path body w)") auto
    moreover obtain i k status where "shows_row env ws (ks_rows k) b"
      and r: "recordOrInternal env cx c ''update'' i ws status b (w\<lparr>ap_knowledge := k\<rparr>) = (HTTP_OK st b, w')"
      using Update_OK [OF b(1)] sc UpdateKnowledge by auto
    ultimately show ?thesis using rec [OF r] UpdateKnowledge by (simp add: kn_reads_def)
  next
    case (DeleteKnowledge path)
    with assms(1) have b: "KnowledgeHandler_Delete env cx path w = (HTTP_OK st (), w')" "docs = []"
      by (cases "KnowledgeHandler_Delete env cx path w"; cases "fst (KnowledgeHandler_Delete env cx path w)"; simp)+
    moreover obtain i k where r: "recordOrInternal env cx c ''delete'' i ws 204 () (w\<lparr>ap_knowledge := k\<rparr>) = (HTTP_OK st (), w')"
      using Delete_OK [OF b(1)] sc DeleteKnowledge by auto
    ultimately show ?thesis using rec [OF r] DeleteKnowledge by (simp add: kn_reads_def)
  next
    case (SearchKnowledge body)
    with assms(1) obtain b where b: "KnowledgeHandler_Search env dp cx body w = (HTTP_OK st b, w')" "docs = fst b"
      by (cases "KnowledgeHandler_Search env dp cx body w"; cases "fst (KnowledgeHandler_Search env dp cx body w)") auto
    moreover obtain k where "length (fst b) \<le> 50" "\<forall>d \<in> set (fst b). shows_row env ws (ks_rows k) d"
      and r: "recordOrInternal env cx c ''search'' uuid_Nil ws 200 b (w\<lparr>ap_knowledge := k\<rparr>) = (HTTP_OK st b, w')"
      using Search_OK [OF b(1)] sc SearchKnowledge assms(3) by auto
    ultimately show ?thesis using rec [OF r] SearchKnowledge by (simp add: kn_reads_def)
  next
    case (GetKnowledge path)
    with assms(1) obtain b where b: "KnowledgeHandler_Get env dp cx path w = (HTTP_OK st b, w')" "docs = [b]"
      by (cases "KnowledgeHandler_Get env dp cx path w"; cases "fst (KnowledgeHandler_Get env dp cx path w)") auto
    with GetKnowledge sc Get_OK [OF b(1)] show ?thesis by (auto simp: kn_reads_def)
  next
    case (ListKnowledge raw)
    with assms(1) obtain b where b: "KnowledgeHandler_List env dp cx raw w = (HTTP_OK st b, w')" "docs = kg_Documents b"
      by (cases "KnowledgeHandler_List env dp cx raw w"; cases "fst (KnowledgeHandler_List env dp cx raw w)") auto
    with ListKnowledge sc List_OK [OF b(1)] show ?thesis by (auto simp: kn_reads_def)
  qed
qed

text \<open>
  C33. A request to the knowledge routes is confined to the workspace of its claims. Nothing of another
  workspace changes, nothing at all changes when the claims carry no workspace; and an answer that is a
  success shows at most 200 documents, each a stored document of that workspace.
\<close>

theorem knowledge_requests_confined:
  assumes "kn_serve env dp cx snap req w = (res, w')" "distinct (map kr_id (ks_rows (ap_knowledge w)))" "nearest_law dp"
  shows "case Option.bind (cx_claims cx) (caller_workspace env) of
      None \<Rightarrow> ap_knowledge w' = ap_knowledge w \<and> (\<exists>status. res = HTTP_Error status)
    | Some ws \<Rightarrow> outside ws (ks_rows (ap_knowledge w')) = outside ws (ks_rows (ap_knowledge w))
        \<and> (case res of HTTP_Error _ \<Rightarrow> True
           | HTTP_OK _ docs \<Rightarrow> length docs \<le> 200 \<and> list_all (shows_row env ws (ks_rows (ap_knowledge w'))) docs)"
proof (cases rule: kn_scope_cases [of env cx "kn_action req" w])
  case (refused status w1)
  then have "res = HTTP_Error status \<and> ap_knowledge w' = ap_knowledge w"
    using assms(1) kn_serve_refused [OF refused(1)] by simp
  then show ?thesis by (auto split: option.split)
next
  case (admitted c ws)
  have "outside ws (ks_rows (ap_knowledge w')) = outside ws (ks_rows (ap_knowledge w))"
    using kn_serve_outside [OF assms(1,2) admitted(1)] .
  moreover have "length docs \<le> 200 \<and> list_all (shows_row env ws (ks_rows (ap_knowledge w'))) docs" if "res = HTTP_OK st docs" for st docs
    using kn_serve_OK [OF assms(1) [unfolded that] admitted(1) assms(3)] by (simp add: list_all_iff)
  ultimately show ?thesis using admitted by (auto split: response.split)
qed

text \<open>
  Nothing of the knowledge base changes hands unrecorded. A creation, an update, a deletion or a search
  that is answered as a success has appended exactly one event to the audit log, of its action, with outcome
  success, the caller as the actor and the caller's workspace; a read changes nothing at all.
\<close>

theorem knowledge_success_audited:
  assumes "kn_serve env dp cx snap req w = (HTTP_OK status docs, w')" "nearest_law dp"
  shows "\<exists>c ws. cx_claims cx = Some c \<and> caller_workspace env c = Some ws
    \<and> (if kn_reads req then w' = w
       else \<exists>row. at_rows (snd (ap_audit w')) = at_rows (snd (ap_audit w)) @ [row] \<and> audits_knowledge env c (kn_action req) ws row)"
proof (cases rule: kn_scope_cases [of env cx "kn_action req" w])
  case (refused st w1)
  with assms(1) show ?thesis by (simp add: kn_serve_refused)
next
  case (admitted c ws)
  with kn_serve_OK [OF assms(1) admitted(1) assms(2)] show ?thesis by blast
qed

text \<open>A member of workspace 1 deletes its document, beside one of workspace 2.\<close>

definition foreign_row :: kn_row where
  "foreign_row = kn_edited_row\<lparr>kr_id := 4, kr_workspace_id := 2\<rparr>"

definition demo_knowledge :: "nat kn_api" where
  "demo_knowledge = \<lparr>ap_knowledge = kn_empty\<lparr>ks_rows := [kn_edited_row, foreign_row]\<rparr>, ap_audit = (sample_genesis, sample_booted)\<rparr>"

definition demo_deps :: "nat kn_deps" where
  "demo_deps = \<lparr>dp_vectors = whole_numbers, dp_embed = length_embedder, dp_nearest = (\<lambda>q n rows. [])\<rparr>"

definition demo_delete :: kn_request where
  "demo_delete = DeleteKnowledge ''3''"

definition demo_deleted :: "knowledgeResponse list response \<times> nat kn_api" where
  "demo_deleted = kn_serve demo_env demo_deps demo_call [kn_edited_row, foreign_row] demo_delete demo_knowledge"

lemma demo_deleted_OK: "is_OK (fst demo_deleted) "
  by code_simp

lemma demo_deleted_eq:
  obtains status docs w' where "kn_serve demo_env demo_deps demo_call [kn_edited_row, foreign_row] demo_delete demo_knowledge = (HTTP_OK status docs, w')"
    "snd demo_deleted = w'"
  using demo_deleted_OK by (cases demo_deleted; cases "fst demo_deleted") (auto simp: demo_deleted_def is_OK_def)

lemma demo_deps_law: "nearest_law demo_deps"
  by (simp add: nearest_law_def demo_deps_def)

lemma demo_caller: "cx_claims demo_call = Some member_claims" "caller_workspace demo_env member_claims = Some 1"
  by (simp add: demo_call_def) code_simp

theorem knowledge_requests_confined_witness:
  "outside 1 (ks_rows (ap_knowledge (snd demo_deleted))) = [foreign_row]"
proof -
  obtain status docs w' where ok: "kn_serve demo_env demo_deps demo_call [kn_edited_row, foreign_row] demo_delete demo_knowledge = (HTTP_OK status docs, w')"
    and w': "snd demo_deleted = w'" by (rule demo_deleted_eq)
  have "distinct (map kr_id (ks_rows (ap_knowledge demo_knowledge)))"
    by (simp add: demo_knowledge_def foreign_row_def kn_edited_row_def)
  from knowledge_requests_confined [OF ok this demo_deps_law]
  have "outside 1 (ks_rows (ap_knowledge w')) = outside 1 (ks_rows (ap_knowledge demo_knowledge))"
    by (simp add: demo_caller)
  also have "\<dots> = [foreign_row]" by code_simp
  finally show ?thesis by (simp add: w')
qed

theorem knowledge_success_audited_witness:
  "\<exists>row. at_rows (snd (ap_audit (snd demo_deleted))) = at_rows sample_booted @ [row] \<and> audits_knowledge demo_env member_claims ''delete'' 1 row"
proof -
  obtain status docs w' where ok: "kn_serve demo_env demo_deps demo_call [kn_edited_row, foreign_row] demo_delete demo_knowledge = (HTTP_OK status docs, w')"
    and w': "snd demo_deleted = w'" by (rule demo_deleted_eq)
  have facts: "kn_action demo_delete = ''delete''" "\<not> kn_reads demo_delete" "snd (ap_audit demo_knowledge) = sample_booted"
    by (simp_all add: demo_delete_def kn_reads_def demo_knowledge_def)
  show ?thesis unfolding w'
    using knowledge_success_audited [OF ok demo_deps_law] by (auto simp: demo_caller facts)
qed

end
