(* ===== verification/Memory_Bank.thy ===== *)
theory Memory_Bank
  imports Audit_Chain Go_Text Go_Json "HOL-Library.Sublist"
begin

text \<open>
  The memory of the workforce: the bounds and the cell keys (\<^verbatim>\<open>internal/memory/bank.go\<close>), the facade with
  its secret guard and its write throttle (\<^verbatim>\<open>internal/memory/bank_service.go\<close>), the Redis adapter
  (\<^verbatim>\<open>infrastructure/redis/memory.go\<close>) and the adapter to the audit log
  (\<^verbatim>\<open>infrastructure/auditstore/adapters.go\<close>).

  Redis is a map from keys to values with a time of expiry, as its commands are documented; an
  expiry of zero is none. Whether a command fails is an argument. The texts of
  identifiers, and lower case beyond ASCII, are parameters.
\<close>

subsection \<open>Layers and keys\<close>

datatype bank_error =
    ErrWorkspaceRequired | ErrInvalidLayer | ErrInvalidKey | ErrSecretRejected | ErrValueTooLarge | ErrInvalidTTL | ErrRateLimited
  | ErrNotFound
  | ErrTransport \<comment> \<open>an error of Redis\<close>
  | ErrAudit \<comment> \<open>an error of the audit log\<close>

datatype MemoryLayer = LayerSession | LayerLongTerm | LayerWorkspace | LayerOrganizational | LayerOther int

definition MaxKeyLength :: int where "MaxKeyLength = 256"
definition MaxValueBytes :: int where "MaxValueBytes = 64 * 1024"
definition MaxTTL :: duration where "MaxTTL = 90 * 24 * (60 * minute)"
definition DefaultTTL :: duration where "DefaultTTL = 24 * (60 * minute)"

fun ValidLayer :: "MemoryLayer \<Rightarrow> bool" where
  "ValidLayer (LayerOther _) \<longleftrightarrow> False"
| "ValidLayer _ \<longleftrightarrow> True"

fun layerString :: "MemoryLayer \<Rightarrow> string" where
  "layerString LayerSession = ''session''"
| "layerString LayerLongTerm = ''longterm''"
| "layerString LayerWorkspace = ''workspace''"
| "layerString LayerOrganizational = ''org''"
| "layerString (LayerOther _) = ''unknown''"

definition forbidden_chars :: string where
  "forbidden_chars = [CHR 0x00, CHR 0x0D, CHR 0x0A, CHR ''/'']"

definition validateKey :: "string \<Rightarrow> bank_error option" where
  "validateKey key =
     (let trimmed = TrimSpace key in
      if trimmed = [] \<or> trimmed \<noteq> key then Some ErrInvalidKey
      else if int (length key) > MaxKeyLength then Some ErrInvalidKey
      else if list_ex (\<lambda>c. c \<in> set forbidden_chars) key then Some ErrInvalidKey
      else if prefix ''workspace:'' key \<or> prefix ''org:'' key then Some ErrInvalidKey
      else None)"

definition partitionKey :: "(uuid \<Rightarrow> string) \<Rightarrow> uuid \<Rightarrow> MemoryLayer \<Rightarrow> string \<Rightarrow> string" where
  "partitionKey uuid_String ws layer key =
     (if layer = LayerOrganizational then ''org:'' @ key
      else ''workspace:'' @ uuid_String ws @ '':'' @ layerString layer @ '':'' @ key)"

subsection \<open>The secret guard\<close>

text \<open>\<^verbatim>\<open>strings.Index\<close> and \<^verbatim>\<open>strings.Contains\<close>.\<close>

fun Index :: "string \<Rightarrow> string \<Rightarrow> nat option" where
  "Index p [] = (if p = [] then Some 0 else None)"
| "Index p (c # s) = (if prefix p (c # s) then Some 0 else map_option Suc (Index p s))"

definition Contains :: "string \<Rightarrow> string \<Rightarrow> bool" where
  "Contains s p \<longleftrightarrow> Index p s \<noteq> None"

definition isWordByte :: "char \<Rightarrow> bool" where
  "isWordByte b \<longleftrightarrow> (97 \<le> (of_char b :: nat) \<and> (of_char b :: nat) \<le> 122) \<or> (48 \<le> (of_char b :: nat) \<and> (of_char b :: nat) \<le> 57) \<or> b = CHR ''_''"

text \<open>The loop of \<^verbatim>\<open>hasTokenBoundary\<close> from an index, which stays within a text for a pattern that is not empty.\<close>

function boundary_from :: "string \<Rightarrow> string \<Rightarrow> nat \<Rightarrow> bool" where
  "boundary_from s p from =
     (if from > length s then False
      else case Index p (drop from s) of
             None \<Rightarrow> False
           | Some i \<Rightarrow>
               let idx = i + from
               in if idx = 0 \<or> \<not> isWordByte (s ! (idx - 1)) then True else boundary_from s p (idx + 1))"
  by pat_completeness auto
termination by (relation "measure (\<lambda>(s, p, from). Suc (length s) - from)") auto

declare boundary_from.simps [simp del]

definition hasTokenBoundary :: "string \<Rightarrow> string \<Rightarrow> bool" where
  "hasTokenBoundary s p = boundary_from s p 0"

definition ToLower :: "(string \<Rightarrow> string) \<Rightarrow> string \<Rightarrow> string" where
  "ToLower unicode_lower s = (if list_all (\<lambda>c. (of_char c :: nat) < 128) s then map lower s else unicode_lower s)"

definition secret_markers :: "string list" where
  "secret_markers = [''-----begin'', ''bearer '', ''api_key='', ''apikey='', ''secret='']"

definition secret_prefixes :: "string list" where
  "secret_prefixes = [''sk-'', ''pk-'']"

definition isSecretShaped :: "(string \<Rightarrow> string) \<Rightarrow> string \<Rightarrow> bool" where
  "isSecretShaped unicode_lower value =
     (let low = ToLower unicode_lower (TrimSpace value) in
      if low = [] then False
      else list_ex (Contains low) secret_markers \<or> list_ex (hasTokenBoundary low) secret_prefixes)"

subsection \<open>The write throttle\<close>

text \<open>A workspace without an entry has none of the times.\<close>

record write_throttle =
  wt_window :: duration
  wt_limit :: nat
  wt_hits :: "uuid \<Rightarrow> instant list"

definition newThrottle :: "int \<Rightarrow> write_throttle" where
  "newThrottle limit = \<lparr>wt_window = second, wt_limit = (if limit \<le> 0 then 100 else nat limit), wt_hits = (\<lambda>_. [])\<rparr>"

definition throttle_Allow :: "instant \<Rightarrow> uuid \<Rightarrow> write_throttle \<Rightarrow> bool \<times> write_throttle" where
  "throttle_Allow now ws t =
     (let cutoff = now - wt_window t; kept = filter (\<lambda>ts. ts > cutoff) (wt_hits t ws) in
      if length kept \<ge> wt_limit t then (False, t\<lparr>wt_hits := (wt_hits t)(ws := kept)\<rparr>)
      else (True, t\<lparr>wt_hits := (wt_hits t)(ws := kept @ [now])\<rparr>))"

subsection \<open>Redis\<close>

type_synonym redis = "string \<Rightarrow> (string \<times> instant option) option"

definition redis_Get :: "instant \<Rightarrow> redis \<Rightarrow> string \<Rightarrow> string option" where
  "redis_Get now db key =
     (case db key of
        None \<Rightarrow> None
      | Some (v, None) \<Rightarrow> Some v
      | Some (v, Some expiry) \<Rightarrow> if now < expiry then Some v else None)"

text \<open>\<open>fails\<close> is that the command fails; \<open>nil_empty\<close> that the client answers an empty value with a nil slice, which is \<open>None\<close>.\<close>

definition MemoryStore_store :: "bool \<Rightarrow> instant \<Rightarrow> string \<Rightarrow> string \<Rightarrow> duration \<Rightarrow> redis \<Rightarrow> (bank_error, redis) result" where
  "MemoryStore_store fails now key value ttl db =
     (if fails then Inl ErrTransport else Inr (db(key \<mapsto> (value, if ttl = 0 then None else Some (now + ttl)))))"

definition MemoryStore_retrieve :: "bool \<Rightarrow> bool \<Rightarrow> instant \<Rightarrow> string \<Rightarrow> redis \<Rightarrow> (bank_error, string option) result" where
  "MemoryStore_retrieve fails nil_empty now key db =
     (if fails then Inl ErrTransport
      else case redis_Get now db key of
             None \<Rightarrow> Inl ErrNotFound
           | Some v \<Rightarrow> Inr (if v = [] \<and> nil_empty then None else Some v))"

definition MemoryStore_del :: "bool \<Rightarrow> string \<Rightarrow> redis \<Rightarrow> (bank_error, redis) result" where
  "MemoryStore_del fails key db = (if fails then Inl ErrTransport else Inr (db(key := None)))"

text \<open>The four layers share the three commands.\<close>

definition StoreSessionMemory where "StoreSessionMemory = MemoryStore_store"
definition RetrieveSessionMemory where "RetrieveSessionMemory = MemoryStore_retrieve"
definition DeleteSessionMemory where "DeleteSessionMemory = MemoryStore_del"
definition StoreLongTermMemory where "StoreLongTermMemory = MemoryStore_store"
definition RetrieveLongTermMemory where "RetrieveLongTermMemory = MemoryStore_retrieve"
definition DeleteLongTermMemory where "DeleteLongTermMemory = MemoryStore_del"
definition StoreWorkspaceMemory where "StoreWorkspaceMemory = MemoryStore_store"
definition RetrieveWorkspaceMemory where "RetrieveWorkspaceMemory = MemoryStore_retrieve"
definition DeleteWorkspaceMemory where "DeleteWorkspaceMemory = MemoryStore_del"
definition StoreOrganizationalMemory where "StoreOrganizationalMemory = MemoryStore_store"
definition RetrieveOrganizationalMemory where "RetrieveOrganizationalMemory = MemoryStore_retrieve"
definition DeleteOrganizationalMemory where "DeleteOrganizationalMemory = MemoryStore_del"

lemmas layer_defs = StoreSessionMemory_def RetrieveSessionMemory_def DeleteSessionMemory_def StoreLongTermMemory_def
  RetrieveLongTermMemory_def DeleteLongTermMemory_def StoreWorkspaceMemory_def RetrieveWorkspaceMemory_def DeleteWorkspaceMemory_def
  StoreOrganizationalMemory_def RetrieveOrganizationalMemory_def DeleteOrganizationalMemory_def

subsection \<open>The facade\<close>

record memory_record =
  mr_EventType :: string
  mr_ActorType :: string
  mr_ActorID :: string
  mr_Principle :: string
  mr_Outcome :: string
  mr_WorkspaceID :: string
  mr_Layer :: string
  mr_Key :: string
  mr_TraceID :: string
  mr_SpanID :: string

text \<open>The libraries, and whether an audit sink is attached (otherwise records are discarded).\<close>

record bank_env =
  be_lib :: audit_lib
  be_uuid_Parse :: "string \<Rightarrow> uuid option"
  be_lower :: "string \<Rightarrow> string"
  be_sink :: bool
  be_nil_empty :: bool

text \<open>What a call brings: clock, identifiers for an audit event, actor and correlation ids, and which commands fail.\<close>

record bank_call =
  bc_now :: instant
  bc_ids :: "uuid \<times> uuid"
  bc_actor :: string
  bc_trace :: string
  bc_span :: string
  bc_fails :: "bool \<times> bool"

record bank_state =
  bs_cells :: redis
  bs_throttle :: write_throttle
  bs_audit :: "AuditEvent \<times> audit_table"
  bs_events :: "(string \<times> uuid \<times> string \<times> string) list"

definition parseID :: "bank_env \<Rightarrow> string \<Rightarrow> uuid" where
  "parseID env s = (if s = [] then uuid_Nil else case be_uuid_Parse env s of None \<Rightarrow> uuid_Nil | Some i \<Rightarrow> i)"

definition RecordError :: "bank_env \<Rightarrow> bank_call \<Rightarrow> memory_record \<Rightarrow> AuditEvent \<times> audit_table \<Rightarrow> bank_error option \<times> (AuditEvent \<times> audit_table)" where
  "RecordError env cx rec au =
     (case (if mr_ActorID rec = [] then Some uuid_Nil else be_uuid_Parse env (mr_ActorID rec)) of
        None \<Rightarrow> (Some ErrAudit, au)
      | Some actorID \<Rightarrow>
          (case (if mr_WorkspaceID rec = [] then Some None else map_option Some (be_uuid_Parse env (mr_WorkspaceID rec))) of
             None \<Rightarrow> (Some ErrAudit, au)
           | Some workspaceID \<Rightarrow>
               (case auditstore_Append (be_lib env) (bc_now cx) (bc_ids cx)
                       \<lparr>rc_EventType = mr_EventType rec, rc_ActorType = mr_ActorType rec, rc_ActorID = actorID, rc_TargetType = ''memory_cell'',
                        rc_TargetID = uuid_Nil, rc_Outcome = mr_Outcome rec, rc_Principle = mr_Principle rec, rc_WorkspaceID = workspaceID,
                        rc_TraceID = parseID env (mr_TraceID rec), rc_SpanID = parseID env (mr_SpanID rec),
                        rc_Details = [(''key'', mr_Key rec), (''layer'', mr_Layer rec)]\<rparr> au of
                  (au', Inl _) \<Rightarrow> (Some ErrAudit, au')
                | (au', Inr _) \<Rightarrow> (None, au'))))"

definition recordAudit :: "bank_env \<Rightarrow> bank_call \<Rightarrow> memory_record \<Rightarrow> bank_state \<Rightarrow> bank_error option \<times> bank_state" where
  "recordAudit env cx rec s =
     (if be_sink env then (case RecordError env cx rec (bs_audit s) of (e, au) \<Rightarrow> (e, s\<lparr>bs_audit := au\<rparr>)) else (None, s))"

definition actorTypeOf :: "bank_call \<Rightarrow> string" where
  "actorTypeOf cx = (if bc_actor cx \<noteq> [] then ''user'' else ''system'')"

definition memory_entry :: "bank_env \<Rightarrow> bank_call \<Rightarrow> string \<Rightarrow> string \<Rightarrow> string \<Rightarrow> uuid \<Rightarrow> MemoryLayer \<Rightarrow> string \<Rightarrow> memory_record" where
  "memory_entry env cx eventType principle outcome ws layer key =
     \<lparr>mr_EventType = eventType, mr_ActorType = actorTypeOf cx, mr_ActorID = bc_actor cx, mr_Principle = principle, mr_Outcome = outcome,
      mr_WorkspaceID = al_uuid_String (be_lib env) ws, mr_Layer = layerString layer, mr_Key = key,
      mr_TraceID = bc_trace cx, mr_SpanID = bc_span cx\<rparr>"

text \<open>The switch over the layers of each operation; a layer that is none of them has been refused before, except in \<^verbatim>\<open>deleteCell\<close>.\<close>

fun store_layer :: "MemoryLayer \<Rightarrow> bool \<Rightarrow> instant \<Rightarrow> string \<Rightarrow> string \<Rightarrow> duration \<Rightarrow> redis \<Rightarrow> (bank_error, redis) result" where
  "store_layer LayerSession fails now cell v ttl db = StoreSessionMemory fails now cell v ttl db"
| "store_layer LayerLongTerm fails now cell v ttl db = StoreLongTermMemory fails now cell v ttl db"
| "store_layer LayerWorkspace fails now cell v ttl db = StoreWorkspaceMemory fails now cell v ttl db"
| "store_layer LayerOrganizational fails now cell v ttl db = StoreOrganizationalMemory fails now cell v ttl db"
| "store_layer (LayerOther _) fails now cell v ttl db = Inr db"

fun retrieve_layer :: "MemoryLayer \<Rightarrow> bool \<Rightarrow> bool \<Rightarrow> instant \<Rightarrow> string \<Rightarrow> redis \<Rightarrow> (bank_error, string option) result" where
  "retrieve_layer LayerSession fails ne now cell db = RetrieveSessionMemory fails ne now cell db"
| "retrieve_layer LayerLongTerm fails ne now cell db = RetrieveLongTermMemory fails ne now cell db"
| "retrieve_layer LayerWorkspace fails ne now cell db = RetrieveWorkspaceMemory fails ne now cell db"
| "retrieve_layer LayerOrganizational fails ne now cell db = RetrieveOrganizationalMemory fails ne now cell db"
| "retrieve_layer (LayerOther _) fails ne now cell db = Inr None"

fun deleteCell :: "MemoryLayer \<Rightarrow> bool \<Rightarrow> string \<Rightarrow> redis \<Rightarrow> (bank_error, redis) result" where
  "deleteCell LayerSession fails cell db = DeleteSessionMemory fails cell db"
| "deleteCell LayerLongTerm fails cell db = DeleteLongTermMemory fails cell db"
| "deleteCell LayerWorkspace fails cell db = DeleteWorkspaceMemory fails cell db"
| "deleteCell LayerOrganizational fails cell db = DeleteOrganizationalMemory fails cell db"
| "deleteCell (LayerOther _) fails cell db = Inl ErrInvalidLayer"

text \<open>The checks every operation begins with.\<close>

definition refused_cell :: "uuid \<Rightarrow> MemoryLayer \<Rightarrow> string \<Rightarrow> bank_error option" where
  "refused_cell ws layer key =
     (if ws = uuid_Nil then Some ErrWorkspaceRequired else if \<not> ValidLayer layer then Some ErrInvalidLayer else validateKey key)"

definition refused_write :: "bank_env \<Rightarrow> uuid \<Rightarrow> MemoryLayer \<Rightarrow> string \<Rightarrow> string \<Rightarrow> duration \<Rightarrow> bank_error option" where
  "refused_write env ws layer key value ttl =
     (case refused_cell ws layer key of
        Some e \<Rightarrow> Some e
      | None \<Rightarrow>
          if int (length value) > MaxValueBytes then Some ErrValueTooLarge
          else if isSecretShaped (be_lower env) value then Some ErrSecretRejected
          else if ttl < 0 then Some ErrInvalidTTL
          else None)"

text \<open>A write whose success cannot be recorded takes the cell away again, as far as Redis lets it.\<close>

definition Bank_Write ::
  "bank_env \<Rightarrow> bank_call \<Rightarrow> uuid \<Rightarrow> MemoryLayer \<Rightarrow> string \<Rightarrow> string \<Rightarrow> duration \<Rightarrow> bank_state \<Rightarrow> bank_error option \<times> bank_state" where
  "Bank_Write env cx ws layer key value ttl0 s =
     (case refused_write env ws layer key value ttl0 of
        Some e \<Rightarrow> (Some e, s)
      | None \<Rightarrow>
          let ttl = (if ttl0 > MaxTTL then MaxTTL else ttl0);
              (ok, th) = throttle_Allow (bc_now cx) ws (bs_throttle s);
              s1 = s\<lparr>bs_throttle := th\<rparr>;
              cell = partitionKey (al_uuid_String (be_lib env)) ws layer key
          in if \<not> ok then (Some ErrRateLimited, s1)
             else (case store_layer layer (fst (bc_fails cx)) (bc_now cx) cell value ttl (bs_cells s1) of
                     Inl e \<Rightarrow> (Some e, snd (recordAudit env cx (memory_entry env cx ''memory.write'' ''Security by Design'' ''failed'' ws layer key) s1))
                   | Inr cells \<Rightarrow>
                       (case recordAudit env cx (memory_entry env cx ''memory.write'' ''Privacy by Design'' ''success'' ws layer key)
                               (s1\<lparr>bs_cells := cells\<rparr>) of
                          (Some e, s2) \<Rightarrow>
                            (Some e, case deleteCell layer (snd (bc_fails cx)) cell (bs_cells s2) of Inl _ \<Rightarrow> s2 | Inr cells' \<Rightarrow> s2\<lparr>bs_cells := cells'\<rparr>)
                        | (None, s2) \<Rightarrow>
                            (None, s2\<lparr>bs_events := bs_events s2 @ [(''memory.written'', ws, layerString layer, key)]\<rparr>))))"

definition Bank_Read ::
  "bank_env \<Rightarrow> bank_call \<Rightarrow> uuid \<Rightarrow> MemoryLayer \<Rightarrow> string \<Rightarrow> bank_state \<Rightarrow> (bank_error, string) result \<times> bank_state" where
  "Bank_Read env cx ws layer key s =
     (case refused_cell ws layer key of
        Some e \<Rightarrow> (Inl e, s)
      | None \<Rightarrow>
          (case retrieve_layer layer (fst (bc_fails cx)) (be_nil_empty env) (bc_now cx) (partitionKey (al_uuid_String (be_lib env)) ws layer key) (bs_cells s) of
             Inl e \<Rightarrow> (Inl e, s)
           | Inr None \<Rightarrow> (Inl ErrNotFound, s)
           | Inr (Some out) \<Rightarrow>
               (case recordAudit env cx (memory_entry env cx ''memory.read'' ''Minimal Disclosure'' ''success'' ws layer key) s of
                  (Some e, s1) \<Rightarrow> (Inl e, s1)
                | (None, s1) \<Rightarrow> (Inr out, s1))))"

text \<open>The record of a deletion carries no correlation ids.\<close>

definition Bank_Delete :: "bank_env \<Rightarrow> bank_call \<Rightarrow> uuid \<Rightarrow> MemoryLayer \<Rightarrow> string \<Rightarrow> bank_state \<Rightarrow> bank_error option \<times> bank_state" where
  "Bank_Delete env cx ws layer key s =
     (case refused_cell ws layer key of
        Some e \<Rightarrow> (Some e, s)
      | None \<Rightarrow>
          (case deleteCell layer (snd (bc_fails cx)) (partitionKey (al_uuid_String (be_lib env)) ws layer key) (bs_cells s) of
             Inl e \<Rightarrow> (Some e, s)
           | Inr cells \<Rightarrow>
               recordAudit env cx ((memory_entry env cx ''memory.delete'' ''Privacy by Design'' ''success'' ws layer key)\<lparr>mr_TraceID := [], mr_SpanID := []\<rparr>)
                 (s\<lparr>bs_cells := cells\<rparr>)))"

subsection \<open>The secret guard finds what it looks for\<close>

lemma Index_Some: "Index p s = Some i \<Longrightarrow> i \<le> length s \<and> prefix p (drop i s) \<and> (\<forall>j < i. \<not> prefix p (drop j s))"
proof (induction p s arbitrary: i rule: Index.induct)
  case (2 p c s)
  show ?case
  proof (cases "prefix p (c # s)")
    case False
    with 2 obtain k where "i = Suc k" "k \<le> length s" "prefix p (drop k s)" "\<forall>j < k. \<not> prefix p (drop j s)" by auto
    moreover have "\<not> prefix p (drop j (c # s))" if "j < Suc k" for j
      using that False calculation(4) by (cases j) auto
    ultimately show ?thesis by simp
  qed (use 2 in simp)
qed (auto split: if_splits)

lemma Index_None: "Index p s = None \<Longrightarrow> \<not> prefix p (drop j s)"
proof (induction p s arbitrary: j rule: Index.induct)
  case (2 p c s)
  then show ?case by (cases j) (auto split: if_splits)
qed (auto split: if_splits)

lemma Contains_iff: "Contains s p \<longleftrightarrow> sublist p s"
proof
  assume "Contains s p"
  then obtain i where "Index p s = Some i" by (auto simp: Contains_def)
  then have "i \<le> length s" "prefix p (drop i s)" using Index_Some by blast+
  then obtain post where "drop i s = p @ post" by (auto simp: prefix_def)
  then have "s = take i s @ p @ post" by (metis append_take_drop_id)
  then show "sublist p s" by (metis sublist_def)
next
  assume "sublist p s"
  then obtain pre post where "s = pre @ p @ post" by (auto simp: sublist_def)
  then have "prefix p (drop (length pre) s)" by simp
  then show "Contains s p" using Index_None unfolding Contains_def by blast
qed

lemma boundary_from_iff:
  "p \<noteq> [] \<Longrightarrow> from \<le> length s \<Longrightarrow> boundary_from s p from \<longleftrightarrow> (\<exists>i \<ge> from. prefix p (drop i s) \<and> (i = 0 \<or> \<not> isWordByte (s ! (i - 1))))"
proof (induction s p "from" rule: boundary_from.induct)
  case (1 s p "from")
  show ?case
  proof (cases "Index p (drop from s)")
    case None
    then have "\<not> prefix p (drop i s)" if "i \<ge> from" for i
      using Index_None [OF None, of "i - from"] that by (simp add: add.commute)
    with None show ?thesis by (subst boundary_from.simps) auto
  next
    case (Some i)
    note i = Index_Some [OF Some]
    let ?idx = "i + from"
    have here: "prefix p (drop ?idx s)" using i by (simp add: add.commute)
    then have len: "?idx < length s" using 1(2) by (cases "?idx < length s") auto
    have before: "\<not> prefix p (drop k s)" if "from \<le> k" "k < ?idx" for k
      using i that by (auto simp: less_diff_conv2 le_iff_add add.commute)
    show ?thesis
    proof (cases "?idx = 0 \<or> \<not> isWordByte (s ! (?idx - 1))")
      case True
      with Some here 1(3) show ?thesis by (subst boundary_from.simps) (auto simp: Let_def intro!: exI [of _ ?idx])
    next
      case False
      have "boundary_from s p from \<longleftrightarrow> boundary_from s p (?idx + 1)"
        using Some False 1(3) by (subst boundary_from.simps) (auto simp: Let_def)
      also have "\<dots> \<longleftrightarrow> (\<exists>k \<ge> ?idx + 1. prefix p (drop k s) \<and> (k = 0 \<or> \<not> isWordByte (s ! (k - 1))))"
        using "1.IH" [OF _ Some refl] False len 1(2,3) by simp
      also have "\<dots> \<longleftrightarrow> (\<exists>k \<ge> from. prefix p (drop k s) \<and> (k = 0 \<or> \<not> isWordByte (s ! (k - 1))))"
      proof
        assume "\<exists>k \<ge> from. prefix p (drop k s) \<and> (k = 0 \<or> \<not> isWordByte (s ! (k - 1)))"
        then obtain k where k: "k \<ge> from" "prefix p (drop k s)" "k = 0 \<or> \<not> isWordByte (s ! (k - 1))" by blast
        then have "\<not> k < ?idx" "k \<noteq> ?idx" using before False by blast+
        with k show "\<exists>k \<ge> ?idx + 1. prefix p (drop k s) \<and> (k = 0 \<or> \<not> isWordByte (s ! (k - 1)))" by (intro exI [of _ k]) simp
      next
        assume "\<exists>k \<ge> ?idx + 1. prefix p (drop k s) \<and> (k = 0 \<or> \<not> isWordByte (s ! (k - 1)))"
        then obtain k where k: "k \<ge> ?idx + 1" "prefix p (drop k s)" "k = 0 \<or> \<not> isWordByte (s ! (k - 1))" by blast
        then show "\<exists>k \<ge> from. prefix p (drop k s) \<and> (k = 0 \<or> \<not> isWordByte (s ! (k - 1)))" by (intro exI [of _ k]) simp
      qed
      finally show ?thesis .
    qed
  qed
qed

lemma hasTokenBoundary_iff:
  assumes "p \<noteq> []"
  shows "hasTokenBoundary s p \<longleftrightarrow> (\<exists>pre post. s = pre @ p @ post \<and> (pre = [] \<or> \<not> isWordByte (last pre)))"
proof -
  have "hasTokenBoundary s p \<longleftrightarrow> (\<exists>i. prefix p (drop i s) \<and> (i = 0 \<or> \<not> isWordByte (s ! (i - 1))))"
    using boundary_from_iff [OF assms, of 0 s] by (simp add: hasTokenBoundary_def)
  also have "\<dots> \<longleftrightarrow> (\<exists>pre post. s = pre @ p @ post \<and> (pre = [] \<or> \<not> isWordByte (last pre)))"
  proof
    assume "\<exists>i. prefix p (drop i s) \<and> (i = 0 \<or> \<not> isWordByte (s ! (i - 1)))"
    then obtain i post where i: "drop i s = p @ post" "i = 0 \<or> \<not> isWordByte (s ! (i - 1))" by (auto simp: prefix_def)
    have len: "i < length s" using i(1) assms by (cases "i < length s") auto
    have "s = take i s @ p @ post" using i(1) by (metis append_take_drop_id)
    moreover have "i \<noteq> 0 \<Longrightarrow> last (take i s) = s ! (i - 1)" using len by (subst last_conv_nth) (auto simp: min_def)
    ultimately show "\<exists>pre post. s = pre @ p @ post \<and> (pre = [] \<or> \<not> isWordByte (last pre))"
      using i(2) by (metis take0)
  next
    assume "\<exists>pre post. s = pre @ p @ post \<and> (pre = [] \<or> \<not> isWordByte (last pre))"
    then obtain pre post where "s = pre @ p @ post" "pre = [] \<or> \<not> isWordByte (last pre)" by blast
    then show "\<exists>i. prefix p (drop i s) \<and> (i = 0 \<or> \<not> isWordByte (s ! (i - 1)))"
      by (intro exI [of _ "length pre"]) (auto simp: last_conv_nth nth_append)
  qed
  finally show ?thesis .
qed

subsection \<open>Cells\<close>

text \<open>
  What a client thinks of: a cell of a workspace and a layer, or one of the whole organisation, with a value
  while it lasts. Identifiers have texts that differ and hold no colon.
\<close>

datatype cell = TenantCell uuid MemoryLayer string | OrgCell string

definition cell_of :: "uuid \<Rightarrow> MemoryLayer \<Rightarrow> string \<Rightarrow> cell" where
  "cell_of ws layer key = (if layer = LayerOrganizational then OrgCell key else TenantCell ws layer key)"

fun cell_key :: "(uuid \<Rightarrow> string) \<Rightarrow> cell \<Rightarrow> string" where
  "cell_key us (TenantCell ws layer key) = ''workspace:'' @ us ws @ '':'' @ layerString layer @ '':'' @ key"
| "cell_key us (OrgCell key) = ''org:'' @ key"

fun proper_cell :: "cell \<Rightarrow> bool" where
  "proper_cell (TenantCell ws layer key) \<longleftrightarrow> ValidLayer layer \<and> layer \<noteq> LayerOrganizational"
| "proper_cell (OrgCell key) \<longleftrightarrow> True"

definition value_at :: "bank_env \<Rightarrow> instant \<Rightarrow> bank_state \<Rightarrow> cell \<Rightarrow> string option" where
  "value_at env now s c = redis_Get now (bs_cells s) (cell_key (al_uuid_String (be_lib env)) c)"

definition uuid_texts :: "(uuid \<Rightarrow> string) \<Rightarrow> bool" where
  "uuid_texts us \<longleftrightarrow> inj us \<and> (\<forall>u. CHR '':'' \<notin> set (us u))"

lemma partitionKey_cell: "partitionKey us ws layer key = cell_key us (cell_of ws layer key)"
  by (simp add: partitionKey_def cell_of_def)

lemma proper_cell_of: "ValidLayer layer \<Longrightarrow> proper_cell (cell_of ws layer key)"
  by (simp add: cell_of_def)

lemma colon_split: "CHR '':'' \<notin> set a \<Longrightarrow> CHR '':'' \<notin> set b \<Longrightarrow> a @ CHR '':'' # x = b @ CHR '':'' # y \<longleftrightarrow> a = b \<and> x = y"
  by (metis Cut_append option.inject prod.inject)

lemma layerString_inject: "ValidLayer l \<Longrightarrow> ValidLayer m \<Longrightarrow> layerString l = layerString m \<longleftrightarrow> l = m"
  by (cases l; cases m) simp_all

lemma layerString_colon: "CHR '':'' \<notin> set (layerString l)"
  by (cases l) simp_all

text \<open>Two cells never share a key, whatever their names.\<close>

lemma cell_key_inject:
  assumes "uuid_texts us" "proper_cell c" "proper_cell d"
  shows "cell_key us c = cell_key us d \<longleftrightarrow> c = d"
proof (cases c; cases d)
  fix ws layer key ws' layer' key'
  assume cd: "c = TenantCell ws layer key" "d = TenantCell ws' layer' key'"
  have "us ws = us ws' \<longleftrightarrow> ws = ws'" "CHR '':'' \<notin> set (us ws)" "CHR '':'' \<notin> set (us ws')"
    using assms(1) by (auto simp: uuid_texts_def inj_def)
  with cd assms(2,3) show ?thesis
    by (simp add: colon_split layerString_colon layerString_inject)
qed (auto simp: colon_split)

lemma validateKey_cases: "validateKey k = None \<or> validateKey k = Some ErrInvalidKey"
  by (simp add: validateKey_def Let_def)

lemma store_layer_valid: "ValidLayer layer \<Longrightarrow> store_layer layer = MemoryStore_store"
  by (cases layer) (simp_all add: fun_eq_iff layer_defs)

lemma retrieve_layer_valid: "ValidLayer layer \<Longrightarrow> retrieve_layer layer = MemoryStore_retrieve"
  by (cases layer) (simp_all add: fun_eq_iff layer_defs)

lemma deleteCell_valid: "ValidLayer layer \<Longrightarrow> deleteCell layer = MemoryStore_del"
  by (cases layer) (simp_all add: fun_eq_iff layer_defs)

lemma refused_cell_None: "refused_cell ws layer key = None \<longleftrightarrow> ws \<noteq> uuid_Nil \<and> ValidLayer layer \<and> validateKey key = None"
  by (simp add: refused_cell_def)

lemma refused_write_None:
  "refused_write env ws layer key value ttl = None \<longleftrightarrow> refused_cell ws layer key = None \<and> int (length value) \<le> MaxValueBytes
     \<and> \<not> isSecretShaped (be_lower env) value \<and> 0 \<le> ttl"
  by (simp add: refused_write_def split: option.split)

lemma recordAudit_frame [simp]:
  "bs_cells (snd (recordAudit env cx rec s)) = bs_cells s" "bs_throttle (snd (recordAudit env cx rec s)) = bs_throttle s"
  by (simp_all add: recordAudit_def split: prod.split)

text \<open>A write that is not refused, in the three ways it ends.\<close>

definition write_ttl :: "duration \<Rightarrow> duration" where
  "write_ttl ttl = (if ttl > MaxTTL then MaxTTL else ttl)"

definition stored_cells :: "bank_env \<Rightarrow> bank_call \<Rightarrow> uuid \<Rightarrow> MemoryLayer \<Rightarrow> string \<Rightarrow> string \<Rightarrow> duration \<Rightarrow> bank_state \<Rightarrow> redis" where
  "stored_cells env cx ws layer key value ttl s =
     (bs_cells s)(cell_key (al_uuid_String (be_lib env)) (cell_of ws layer key)
       \<mapsto> (value, if write_ttl ttl = 0 then None else Some (bc_now cx + write_ttl ttl)))"

lemma write_ttl_nonneg: "0 \<le> ttl \<Longrightarrow> 0 \<le> write_ttl ttl" and write_ttl_le: "write_ttl ttl \<le> MaxTTL"
  and write_ttl_0: "write_ttl ttl = 0 \<longleftrightarrow> ttl = 0"
  by (auto simp: write_ttl_def MaxTTL_def minute_def second_def)

lemma Bank_Write_cases:
  assumes "Bank_Write env cx ws layer key value ttl s = (r, s')"
  obtains (refused) e where "r = Some e" "s' = s" "refused_write env ws layer key value ttl = Some e"
  | (failed) e where "r = Some e" "bs_cells s' = bs_cells s"
      "bs_throttle s' = snd (throttle_Allow (bc_now cx) ws (bs_throttle s))" "refused_write env ws layer key value ttl = None"
  | (unrecorded) e s2 where "r = Some e" "refused_write env ws layer key value ttl = None"
      "bs_throttle s' = snd (throttle_Allow (bc_now cx) ws (bs_throttle s))"
      "recordAudit env cx (memory_entry env cx ''memory.write'' ''Privacy by Design'' ''success'' ws layer key)
         (s\<lparr>bs_throttle := snd (throttle_Allow (bc_now cx) ws (bs_throttle s)), bs_cells := stored_cells env cx ws layer key value ttl s\<rparr>) = (Some e, s2)"
      "bs_cells s' = (if snd (bc_fails cx) then stored_cells env cx ws layer key value ttl s
         else (bs_cells s)(cell_key (al_uuid_String (be_lib env)) (cell_of ws layer key) := None))"
  | (stored) s2 where "r = None" "refused_write env ws layer key value ttl = None" "fst (throttle_Allow (bc_now cx) ws (bs_throttle s))"
      "recordAudit env cx (memory_entry env cx ''memory.write'' ''Privacy by Design'' ''success'' ws layer key)
         (s\<lparr>bs_throttle := snd (throttle_Allow (bc_now cx) ws (bs_throttle s)), bs_cells := stored_cells env cx ws layer key value ttl s\<rparr>) = (None, s2)"
      "s' = s2\<lparr>bs_events := bs_events s2 @ [(''memory.written'', ws, layerString layer, key)]\<rparr>"
      "bs_cells s' = stored_cells env cx ws layer key value ttl s" "bs_throttle s' = snd (throttle_Allow (bc_now cx) ws (bs_throttle s))"
proof (cases "refused_write env ws layer key value ttl")
  case (Some e)
  with assms have "r = Some e" "s' = s" by (simp_all add: Bank_Write_def)
  with Some show thesis using refused by blast
next
  case None
  then have valid: "ValidLayer layer" by (simp add: refused_write_None refused_cell_None)
  obtain ok th where th: "throttle_Allow (bc_now cx) ws (bs_throttle s) = (ok, th)" by fastforce
  let ?cell = "cell_key (al_uuid_String (be_lib env)) (cell_of ws layer key)"
  let ?rec = "memory_entry env cx ''memory.write'' ''Privacy by Design'' ''success'' ws layer key"
  let ?s1 = "s\<lparr>bs_throttle := th, bs_cells := stored_cells env cx ws layer key value ttl s\<rparr>"
  note unfold = Bank_Write_def Let_def partitionKey_cell store_layer_valid [OF valid] deleteCell_valid [OF valid] MemoryStore_store_def
    MemoryStore_del_def stored_cells_def write_ttl_def [symmetric]
  show thesis
  proof (cases "\<not> ok \<or> fst (bc_fails cx)")
    case True
    with assms None th show thesis
      using failed by (cases ok) (auto simp: unfold intro: failed)
  next
    case False
    obtain e s2 where rec: "recordAudit env cx ?rec ?s1 = (e, s2)" by fastforce
    then have s2: "bs_cells s2 = stored_cells env cx ws layer key value ttl s" "bs_throttle s2 = th"
      using recordAudit_frame [of env cx ?rec ?s1] by simp_all
    show thesis
    proof (cases e)
      case None
      with assms \<open>refused_write env ws layer key value ttl = None\<close> False th rec s2 show thesis
        by (intro stored [of s2]) (auto simp: unfold)
    next
      case (Some err)
      with assms \<open>refused_write env ws layer key value ttl = None\<close> False th rec s2 show thesis
        by (intro unrecorded [of err s2]) (auto simp: unfold)
    qed
  qed
qed

lemma redis_Get_other [simp]: "k \<noteq> k' \<Longrightarrow> redis_Get t (db(k' := x)) k = redis_Get t db k"
  by (simp add: redis_Get_def)

lemma value_at_stored:
  assumes "uuid_texts (al_uuid_String (be_lib env))" "proper_cell c" "ValidLayer layer"
    and "bs_cells s' = stored_cells env cx ws layer key value ttl s"
  shows "value_at env t s' c = (if c = cell_of ws layer key
      then (if ttl = 0 \<or> t < bc_now cx + min ttl MaxTTL then Some value else None) else value_at env t s c)"
  using cell_key_inject [OF assms(1,2) proper_cell_of [OF assms(3)]] write_ttl_0 [of ttl]
  by (auto simp: value_at_def assms(4) stored_cells_def redis_Get_def write_ttl_def min_def)

lemma value_at_removed:
  assumes "uuid_texts (al_uuid_String (be_lib env))" "proper_cell c" "ValidLayer layer"
    and "bs_cells s' = (bs_cells s)(cell_key (al_uuid_String (be_lib env)) (cell_of ws layer key) := None)"
  shows "value_at env t s' c = (if c = cell_of ws layer key then None else value_at env t s c)"
  using cell_key_inject [OF assms(1,2) proper_cell_of [OF assms(3)]] by (auto simp: value_at_def assms(4) redis_Get_def)

lemma Bank_Write_value:
  assumes "uuid_texts (al_uuid_String (be_lib env))" "proper_cell c" "Bank_Write env cx ws layer key value ttl s = (r, s')"
  shows "c \<noteq> cell_of ws layer key \<Longrightarrow> value_at env t s' c = value_at env t s c"
    and "r = None \<Longrightarrow> value_at env t s' c = (if c = cell_of ws layer key
      then (if ttl = 0 \<or> t < bc_now cx + min ttl MaxTTL then Some value else None) else value_at env t s c)"
proof -
  have valid: "ValidLayer layer" if "refused_write env ws layer key value ttl = None"
    using that by (simp add: refused_write_None refused_cell_None)
  from assms(3) show "r = None \<Longrightarrow> value_at env t s' c = (if c = cell_of ws layer key
      then (if ttl = 0 \<or> t < bc_now cx + min ttl MaxTTL then Some value else None) else value_at env t s c)"
  proof (cases rule: Bank_Write_cases)
    case (stored s2)
    then show ?thesis using value_at_stored [OF assms(1,2) valid, where s' = s'] by simp
  qed simp_all
  from assms(3) show "c \<noteq> cell_of ws layer key \<Longrightarrow> value_at env t s' c = value_at env t s c"
  proof (cases rule: Bank_Write_cases)
    case (stored s2)
    then show "c \<noteq> cell_of ws layer key \<Longrightarrow> ?thesis" using value_at_stored [OF assms(1,2) valid, where s' = s'] by simp
  next
    case (unrecorded e s2)
    then show "c \<noteq> cell_of ws layer key \<Longrightarrow> ?thesis"
      using value_at_stored [OF assms(1,2) valid, where s' = s'] value_at_removed [OF assms(1,2) valid, where s' = s'] by (auto split: if_splits)
  qed (simp_all add: value_at_def)
qed

lemma Bank_Delete_cases:
  assumes "Bank_Delete env cx ws layer key s = (r, s')"
  obtains (refused) e where "r = Some e" "s' = s"
  | (removed) "ValidLayer layer" "bs_cells s' = (bs_cells s)(cell_key (al_uuid_String (be_lib env)) (cell_of ws layer key) := None)"
proof (cases "refused_cell ws layer key")
  case (Some e)
  with assms show thesis by (intro refused [of e]) (simp_all add: Bank_Delete_def)
next
  case None
  then have valid: "ValidLayer layer" by (simp add: refused_cell_None)
  let ?rec = "(memory_entry env cx ''memory.delete'' ''Privacy by Design'' ''success'' ws layer key)\<lparr>mr_TraceID := [], mr_SpanID := []\<rparr>"
  let ?s1 = "s\<lparr>bs_cells := (bs_cells s)(cell_key (al_uuid_String (be_lib env)) (cell_of ws layer key) := None)\<rparr>"
  show thesis
  proof (cases "snd (bc_fails cx)")
    case True
    with assms None show thesis
      by (intro refused [of ErrTransport]) (simp_all add: Bank_Delete_def deleteCell_valid [OF valid] MemoryStore_del_def)
  next
    case False
    with assms None have "recordAudit env cx ?rec ?s1 = (r, s')"
      by (simp add: Bank_Delete_def deleteCell_valid [OF valid] MemoryStore_del_def partitionKey_cell)
    then show thesis using recordAudit_frame(1) [of env cx ?rec ?s1] by (intro removed [OF valid]) simp
  qed
qed

lemma Bank_Delete_value:
  assumes "uuid_texts (al_uuid_String (be_lib env))" "proper_cell c" "Bank_Delete env cx ws layer key s = (r, s')"
  shows "c \<noteq> cell_of ws layer key \<Longrightarrow> value_at env t s' c = value_at env t s c"
    and "r = None \<Longrightarrow> value_at env t s' c = (if c = cell_of ws layer key then None else value_at env t s c)"
  using assms(3) by (cases rule: Bank_Delete_cases; use value_at_removed [OF assms(1,2), where s' = s' and s = s] in simp)+

lemma Bank_Read_value:
  assumes "Bank_Read env cx ws layer key s = (r, s')"
  shows "bs_cells s' = bs_cells s" "bs_throttle s' = bs_throttle s"
    and "r = Inr v \<Longrightarrow> value_at env (bc_now cx) s (cell_of ws layer key) = Some v"
proof -
  have "(s' = s \<and> \<not> (\<exists>v. r = Inr v)) \<or> (\<exists>rec out. s' = snd (recordAudit env cx rec s) \<and> (\<forall>v. r = Inr v \<longrightarrow> v = out)
      \<and> value_at env (bc_now cx) s (cell_of ws layer key) = Some out)"
  proof (cases "refused_cell ws layer key")
    case (Some e)
    with assms show ?thesis by (auto simp: Bank_Read_def)
  next
    case None
    then have valid: "ValidLayer layer" by (simp add: refused_cell_None)
    with assms None show ?thesis
      by (auto simp: Bank_Read_def retrieve_layer_valid MemoryStore_retrieve_def partitionKey_cell value_at_def
          split: if_splits option.splits prod.splits) (metis snd_conv)+
  qed
  then show "bs_cells s' = bs_cells s" "bs_throttle s' = bs_throttle s"
    "r = Inr v \<Longrightarrow> value_at env (bc_now cx) s (cell_of ws layer key) = Some v"
    by auto
qed

text \<open>
  C34. The keys of Redis implement cells. Whatever names are chosen, a write changes no cell but its
  own, even when it fails; one that succeeds leaves its value there until its time to live, at most 90
  days, has passed, or for ever when that time is zero; a deletion that succeeds empties exactly its cell; and a read
  changes no cell and answers what its cell holds.
\<close>

theorem bank_refines_cells:
  assumes "uuid_texts (al_uuid_String (be_lib env))" "proper_cell c"
  shows "(\<forall>r s'. Bank_Write env cx ws layer key x ttl s = (r, s') \<and> c \<noteq> cell_of ws layer key \<longrightarrow> value_at env t s' c = value_at env t s c)
    \<and> (\<forall>s'. Bank_Write env cx ws layer key x ttl s = (None, s') \<longrightarrow> value_at env t s' c = (if c = cell_of ws layer key
          then (if ttl = 0 \<or> t < bc_now cx + min ttl MaxTTL then Some x else None) else value_at env t s c))
    \<and> (\<forall>s'. Bank_Delete env cx ws layer key s = (None, s') \<longrightarrow>
          value_at env t s' c = (if c = cell_of ws layer key then None else value_at env t s c))
    \<and> (\<forall>r s'. Bank_Read env cx ws layer key s = (r, s') \<longrightarrow> value_at env t s' c = value_at env t s c
          \<and> (\<forall>v. r = Inr v \<longrightarrow> value_at env (bc_now cx) s (cell_of ws layer key) = Some v))"
proof (intro conjI allI impI)
  fix r s'
  show "value_at env t s' c = value_at env t s c" if "Bank_Write env cx ws layer key x ttl s = (r, s') \<and> c \<noteq> cell_of ws layer key"
    using Bank_Write_value(1) [OF assms] that by blast
  show "value_at env t s' c = (if c = cell_of ws layer key
      then (if ttl = 0 \<or> t < bc_now cx + min ttl MaxTTL then Some x else None) else value_at env t s c)"
    if "Bank_Write env cx ws layer key x ttl s = (None, s')"
    using Bank_Write_value(2) [OF assms that] by simp
  show "value_at env t s' c = (if c = cell_of ws layer key then None else value_at env t s c)" if "Bank_Delete env cx ws layer key s = (None, s')"
    using Bank_Delete_value(2) [OF assms that] by simp
next
  fix r s' assume r: "Bank_Read env cx ws layer key s = (r, s')"
  show "value_at env t s' c = value_at env t s c" using Bank_Read_value(1) [OF r] by (simp add: value_at_def)
  show "value_at env (bc_now cx) s (cell_of ws layer key) = Some v" if "r = Inr v" for v
    using Bank_Read_value(3) [OF r that] .
qed

subsection \<open>What is stored\<close>

inductive bank_step :: "bank_env \<Rightarrow> bank_state \<Rightarrow> bank_state \<Rightarrow> bool" for env where
  bank_write: "Bank_Write env cx ws layer key value ttl s = (r, s') \<Longrightarrow> bank_step env s s'"
| bank_read: "Bank_Read env cx ws layer key s = (found, s') \<Longrightarrow> bank_step env s s'"
| bank_delete: "Bank_Delete env cx ws layer key s = (r, s') \<Longrightarrow> bank_step env s s'"
| bank_other: "bs_cells s' = bs_cells s \<Longrightarrow> bank_step env s s'" \<comment> \<open>the audit log belongs to other components too\<close>

definition bank_inv :: "bank_env \<Rightarrow> bank_state \<Rightarrow> bool" where
  "bank_inv env s \<longleftrightarrow> (\<forall>k v e. bs_cells s k = Some (v, e) \<longrightarrow> int (length v) \<le> MaxValueBytes \<and> \<not> isSecretShaped (be_lower env) v)"

lemma Bank_Write_inv: "Bank_Write env cx ws layer key value ttl s = (r, s') \<Longrightarrow> bank_inv env s \<Longrightarrow> bank_inv env s'"
  by (erule Bank_Write_cases) (auto simp: bank_inv_def stored_cells_def refused_write_None split: if_splits)

lemma Bank_Delete_inv: "Bank_Delete env cx ws layer key s = (r, s') \<Longrightarrow> bank_inv env s \<Longrightarrow> bank_inv env s'"
  by (erule Bank_Delete_cases) (auto simp: bank_inv_def split: if_splits)

interpretation bank: invariant "\<lambda>s. bs_cells s = Map.empty" "bank_step env" "bank_inv env" for env
proof
  show "bank_inv env s" if "bs_cells s = Map.empty" for s using that by (simp add: bank_inv_def)
  show "bank_inv env s'" if "bank_step env s s'" "bank_inv env s" for s s'
    using that
  proof cases
    case (bank_read cx ws layer key found)
    with that(2) show ?thesis using Bank_Read_value(1) by (simp add: bank_inv_def)
  next
    case bank_other
    with that(2) show ?thesis by (simp add: bank_inv_def)
  qed (use that(2) Bank_Write_inv Bank_Delete_inv in blast)+
qed

lemma isSecretShaped_iff:
  "isSecretShaped ul v \<longleftrightarrow> (let low = ToLower ul (TrimSpace v) in (\<exists>m \<in> set secret_markers. sublist m low)
     \<or> (\<exists>p \<in> set secret_prefixes. \<exists>pre post. low = pre @ p @ post \<and> (pre = [] \<or> \<not> isWordByte (last pre))))"
proof -
  have ne: "m \<noteq> []" if "m \<in> set secret_markers \<union> set secret_prefixes" for m
    using that by (auto simp: secret_markers_def secret_prefixes_def)
  then show ?thesis
    by (auto simp: isSecretShaped_def Let_def list_ex_iff Contains_iff hasTokenBoundary_iff)
qed

text \<open>
  C35. The memory keeps no credentials. In every reachable state a value that can be read under any key has at most
  64 KiB, and in lower case and trimmed it neither contains one of the markers of a secret nor a word that
  begins like a provider key.
\<close>

theorem memory_keeps_no_secrets:
  assumes "bs_cells s0 = Map.empty" "runs (bank_step env) s0 s" "redis_Get now (bs_cells s) k = Some v"
  shows "length v \<le> 65536 \<and> (let low = ToLower (be_lower env) (TrimSpace v) in
      (\<forall>m \<in> set secret_markers. \<not> sublist m low)
      \<and> (\<forall>p \<in> set secret_prefixes. \<forall>pre post. low = pre @ p @ post \<longrightarrow> pre \<noteq> [] \<and> isWordByte (last pre)))"
proof -
  have "bank_inv env s" using bank.inv_reachable [OF assms(1,2)] .
  moreover obtain e where "bs_cells s k = Some (v, e)"
    using assms(3) by (auto simp: redis_Get_def split: option.splits if_splits)
  ultimately have "int (length v) \<le> MaxValueBytes" "\<not> isSecretShaped (be_lower env) v"
    by (auto simp: bank_inv_def)
  then show ?thesis by (auto simp: isSecretShaped_iff MaxValueBytes_def Let_def)
qed

subsection \<open>How often a workspace writes\<close>

type_synonym write_call = "bank_call \<times> uuid \<times> MemoryLayer \<times> string \<times> string \<times> duration"

text \<open>The times of the successful writes of a workspace along a list of calls.\<close>

fun written :: "bank_env \<Rightarrow> uuid \<Rightarrow> write_call list \<Rightarrow> bank_state \<Rightarrow> instant list" where
  "written env w [] s = []"
| "written env w ((cx, ws, layer, key, value, ttl) # calls) s =
     (case Bank_Write env cx ws layer key value ttl s of
        (r, s') \<Rightarrow> (if ws = w \<and> r = None then [bc_now cx] else []) @ written env w calls s')"

definition within :: "instant \<Rightarrow> duration \<Rightarrow> instant list \<Rightarrow> nat" where
  "within a d ts = length (filter (\<lambda>t. a < t \<and> t \<le> a + d) ts)"

lemma within_simps [simp]:
  "within a d [] = 0" "within a d (xs @ ys) = within a d xs + within a d ys"
  "within a d [t] = (if a < t \<and> t \<le> a + d then 1 else 0)"
  by (simp_all add: within_def)

lemma within_le: "within a d ts \<le> length ts"
  by (simp add: within_def)

lemma within_kept: "now - d \<le> a \<Longrightarrow> within a d (filter (\<lambda>t. t > now - d) ts) = within a d ts"
  unfolding within_def filter_filter by (rule arg_cong [where f = length], rule filter_cong) auto

definition throttle_ok :: "nat \<Rightarrow> write_throttle \<Rightarrow> bool" where
  "throttle_ok n t \<longleftrightarrow> wt_window t = second \<and> wt_limit t = n"

lemma throttle_Allow_ok: "throttle_ok n t \<Longrightarrow> throttle_ok n (snd (throttle_Allow now ws t))"
  by (simp add: throttle_ok_def throttle_Allow_def Let_def)

lemma throttle_Allow_other: "w \<noteq> ws \<Longrightarrow> wt_hits (snd (throttle_Allow now ws t)) w = wt_hits t w"
  by (simp add: throttle_Allow_def Let_def)

text \<open>A call at a time up to the end of an interval keeps what the workspace has used of it, and adds its own grant within the limit.\<close>

lemma throttle_Allow_within:
  assumes "throttle_ok n t" "within a second (wt_hits t ws) \<le> n" "now \<le> a + second"
  shows "within a second (wt_hits (snd (throttle_Allow now ws t)) ws) \<le> n
    \<and> within a second (wt_hits (snd (throttle_Allow now ws t)) ws)
        = within a second (wt_hits t ws) + (if fst (throttle_Allow now ws t) \<and> a < now then 1 else 0)"
proof -
  let ?kept = "filter (\<lambda>ts. ts > now - second) (wt_hits t ws)"
  have k: "within a second ?kept = within a second (wt_hits t ws)" using assms(3) by (intro within_kept) simp
  have "within a second ?kept \<le> length ?kept" by (rule within_le)
  then show ?thesis using assms k by (auto simp: throttle_Allow_def throttle_ok_def Let_def)
qed

lemma Bank_Write_throttle:
  assumes "Bank_Write env cx ws layer key value ttl s = (r, s')"
  shows "bs_throttle s' = bs_throttle s \<and> r \<noteq> None
    \<or> bs_throttle s' = snd (throttle_Allow (bc_now cx) ws (bs_throttle s)) \<and> (r = None \<longrightarrow> fst (throttle_Allow (bc_now cx) ws (bs_throttle s)))"
  using assms by (cases rule: Bank_Write_cases) auto

lemma written_late:
  "list_all (\<lambda>(cx, _). bc_now cx > a + d) calls \<Longrightarrow> within a d (written env w calls s) = 0"
  by (induction env w calls s rule: written.induct) (auto split: prod.split)

lemma written_within:
  "throttle_ok n (bs_throttle s) \<Longrightarrow> sorted (map (bc_now \<circ> fst) calls) \<Longrightarrow> within a second (wt_hits (bs_throttle s) w) \<le> n \<Longrightarrow>
   within a second (wt_hits (bs_throttle s) w) + within a second (written env w calls s) \<le> n"
proof (induction env w calls s rule: written.induct)
  case (2 env w cx ws layer key v ttl calls s)
  obtain r s' where step: "Bank_Write env cx ws layer key v ttl s = (r, s')" by fastforce
  note th = Bank_Write_throttle [OF step]
  show ?case
  proof (cases "bc_now cx > a + second")
    case True
    then have "list_all (\<lambda>(cx, _). bc_now cx > a + second) ((cx, ws, layer, key, v, ttl) # calls)"
      using 2(3) by (auto simp: list_all_iff)
    then have "within a second (written env w ((cx, ws, layer, key, v, ttl) # calls) s) = 0" by (rule written_late)
    then show ?thesis using 2(4) by simp
  next
    case False
    have ok: "throttle_ok n (bs_throttle s')" using th 2(2) throttle_Allow_ok by metis
    have "within a second (wt_hits (bs_throttle s') w) \<le> n \<and> within a second (wt_hits (bs_throttle s) w)
        + within a second (if ws = w \<and> r = None then [bc_now cx] else []) \<le> within a second (wt_hits (bs_throttle s') w)"
    proof (cases "w = ws")
      case True
      with th throttle_Allow_within [OF 2(2), of a ws "bc_now cx"] False 2(4) show ?thesis by (auto split: if_splits)
    next
      case False
      with th 2(4) show ?thesis by (auto simp: throttle_Allow_other)
    qed
    moreover have "within a second (wt_hits (bs_throttle s') w) + within a second (written env w calls s') \<le> n"
      using "2.IH" [OF step [symmetric] ok] 2(3) calculation by simp
    ultimately show ?thesis using step by simp
  qed
qed simp


subsection \<open>Writes that cannot be recorded\<close>

lemma RecordError_audit: "RecordError env cx rec au = (Some e, au') \<Longrightarrow> e = ErrAudit"
  by (auto simp: RecordError_def split: option.splits prod.splits sum.splits)

text \<open>
  A write that cannot be recorded leaves nothing. When a write gets past the checks, the throttle and Redis and its record
  in the audit log fails, the answer is that failure and the cell is empty afterwards, if Redis still answers:
  the value is not kept, and neither is one the cell held before. Every other cell is as it was.
\<close>

theorem unrecorded_write_erases_cell:
  assumes "uuid_texts (al_uuid_String (be_lib env))" "proper_cell c" "\<not> fst (bc_fails cx)" "\<not> snd (bc_fails cx)"
    and "refused_write env ws layer key value ttl = None" "fst (throttle_Allow (bc_now cx) ws (bs_throttle s))"
    and "be_sink env" "RecordError env cx (memory_entry env cx ''memory.write'' ''Privacy by Design'' ''success'' ws layer key) (bs_audit s) = (Some e, au)"
  shows "\<exists>s'. Bank_Write env cx ws layer key value ttl s = (Some ErrAudit, s')
    \<and> value_at env t s' c = (if c = cell_of ws layer key then None else value_at env t s c)"
proof -
  have valid: "ValidLayer layer" using assms(5) by (simp add: refused_write_None refused_cell_None)
  have e: "e = ErrAudit" using RecordError_audit [OF assms(8)] .
  obtain th where th: "throttle_Allow (bc_now cx) ws (bs_throttle s) = (True, th)"
    using assms(6) by (cases "throttle_Allow (bc_now cx) ws (bs_throttle s)") auto
  let ?k = "cell_key (al_uuid_String (be_lib env)) (cell_of ws layer key)"
  have "\<exists>s'. Bank_Write env cx ws layer key value ttl s = (Some ErrAudit, s') \<and> bs_cells s' = (bs_cells s)(?k := None)"
    using assms(3-5,7,8) th
    by (simp add: Bank_Write_def Let_def partitionKey_cell store_layer_valid [OF valid] deleteCell_valid [OF valid] MemoryStore_store_def
        MemoryStore_del_def recordAudit_def e)
  then show ?thesis using value_at_removed [OF assms(1,2) valid] by metis
qed

subsection \<open>A history\<close>

text \<open>Identifiers written as numbers; the sink of \<open>memo_env\<close> appends to the audit log, which refuses while it is empty.\<close>

definition memo_lib :: audit_lib where
  "memo_lib = plain_lib\<lparr>al_uuid_String := (\<lambda>u. Itoa (unat u))\<rparr>"

lemma memo_lib_texts: "uuid_texts (al_uuid_String memo_lib)"
  by (auto simp: uuid_texts_def memo_lib_def inj_def colon_notin_Itoa word_unat_eq_iff)

definition memo_env :: "bool \<Rightarrow> bank_env" where
  "memo_env sink = \<lparr>be_lib = memo_lib, be_uuid_Parse = (\<lambda>s. if s \<noteq> [] then Some (of_nat (digits_value s)) else None),
     be_lower = (\<lambda>s. s), be_sink = sink, be_nil_empty = True\<rparr>"

definition memo_call :: "instant \<Rightarrow> bank_call" where
  "memo_call now = \<lparr>bc_now = now, bc_ids = (11, 12), bc_actor = ''7'', bc_trace = [], bc_span = [], bc_fails = (False, False)\<rparr>"

definition memo_start :: bank_state where
  "memo_start = \<lparr>bs_cells = Map.empty, bs_throttle = newThrottle 100, bs_audit = (sample_genesis, empty_table), bs_events = []\<rparr>"

text \<open>A note to last for two seconds.\<close>

definition memo_written :: "bank_error option \<times> bank_state" where
  "memo_written = Bank_Write (memo_env False) (memo_call 5) 1 LayerSession ''tone'' ''be kind'' (2 * second) memo_start"

lemma memo_written_eq: "Bank_Write (memo_env False) (memo_call 5) 1 LayerSession ''tone'' ''be kind'' (2 * second) memo_start = (None, snd memo_written)"
proof -
  have "fst memo_written = None" by code_simp
  then show ?thesis by (simp add: memo_written_def prod_eq_iff)
qed

theorem bank_refines_cells_witness:
  "value_at (memo_env False) 5 (snd memo_written) (TenantCell 1 LayerSession ''tone'') = Some ''be kind''
   \<and> value_at (memo_env False) (2 * second + 5) (snd memo_written) (TenantCell 1 LayerSession ''tone'') = None"
proof -
  have u: "uuid_texts (al_uuid_String (be_lib (memo_env False)))" by (simp add: memo_env_def memo_lib_texts)
  have c: "proper_cell (TenantCell 1 LayerSession ''tone'')" "cell_of 1 LayerSession ''tone'' = TenantCell 1 LayerSession ''tone''"
    by (simp_all add: cell_of_def)
  have "value_at (memo_env False) t (snd memo_written) (TenantCell 1 LayerSession ''tone'') = (if t < 5 + 2 * second then Some ''be kind'' else None)" for t
    using conjunct1 [OF conjunct2 [OF bank_refines_cells [OF u c(1), where cx = "memo_call 5" and ws = 1 and layer = LayerSession and key = "''tone''"
        and x = "''be kind''" and ttl = "2 * second" and s = memo_start and t = t]]] memo_written_eq c
    by (simp add: memo_call_def MaxTTL_def minute_def second_def)
  then show ?thesis by (simp add: second_def)
qed

theorem memory_keeps_no_secrets_witness:
  "length ''be kind'' \<le> 65536 \<and> \<not> sublist ''bearer '' (ToLower (\<lambda>s. s) (TrimSpace ''be kind''))"
proof -
  have r: "runs (bank_step (memo_env False)) memo_start (snd memo_written)"
    by (intro runs_single bank_write [OF memo_written_eq])
  have g: "redis_Get 5 (bs_cells (snd memo_written)) ''workspace:1:session:tone'' = Some ''be kind''" by code_simp
  show ?thesis
    using memory_keeps_no_secrets [OF _ r g] by (simp add: memo_start_def memo_env_def secret_markers_def Let_def)
qed


theorem unrecorded_write_erases_cell_witness:
  "\<exists>s'. Bank_Write (memo_env True) (memo_call 6) 1 LayerSession ''tone'' ''be firm'' 0 (snd memo_written) = (Some ErrAudit, s')
     \<and> value_at (memo_env True) 7 (snd memo_written) (TenantCell 1 LayerSession ''tone'') = Some ''be kind''
     \<and> value_at (memo_env True) 7 s' (TenantCell 1 LayerSession ''tone'') = None"
proof -
  have u: "uuid_texts (al_uuid_String (be_lib (memo_env True)))" by (simp add: memo_env_def memo_lib_texts)
  have c: "proper_cell (TenantCell 1 LayerSession ''tone'')" "cell_of 1 LayerSession ''tone'' = TenantCell 1 LayerSession ''tone''"
    by (simp_all add: cell_of_def)
  have r: "refused_write (memo_env True) 1 LayerSession ''tone'' ''be firm'' 0 = None" by code_simp
  have a: "fst (throttle_Allow (bc_now (memo_call 6)) 1 (bs_throttle (snd memo_written)))" by code_simp
  obtain e au where f: "RecordError (memo_env True) (memo_call 6) (memory_entry (memo_env True) (memo_call 6) ''memory.write'' ''Privacy by Design'' ''success'' 1 LayerSession ''tone'')
      (bs_audit (snd memo_written)) = (Some e, au)"
  proof -
    have "fst (RecordError (memo_env True) (memo_call 6) (memory_entry (memo_env True) (memo_call 6) ''memory.write'' ''Privacy by Design'' ''success'' 1 LayerSession ''tone'')
      (bs_audit (snd memo_written))) \<noteq> None" by code_simp
    then show thesis using that by (metis not_None_eq prod.collapse)
  qed
  have "value_at (memo_env True) 7 (snd memo_written) (TenantCell 1 LayerSession ''tone'') = Some ''be kind''" by code_simp
  moreover have "\<not> fst (bc_fails (memo_call 6))" "\<not> snd (bc_fails (memo_call 6))" "be_sink (memo_env True)"
    by (simp_all add: memo_call_def memo_env_def)
  ultimately show ?thesis
    using unrecorded_write_erases_cell [OF u c(1) _ _ r a _ f, of 7] c(2) by auto
qed

end
