(* ===== verification/Memory_Api.thy ===== *)
theory Memory_Api
  imports Memory_Bank Task_Api
begin

text \<open>
  The memory routes (\<^verbatim>\<open>internal/api/memory_handlers.go\<close>): reading and writing one cell of the caller's
  workspace, in one of the three layers that belong to a workspace. A body is the value \<^verbatim>\<open>decodeJSON\<close>
  produced, or \<open>None\<close> when it refused it.
\<close>

subsection \<open>Requests and answers\<close>

text \<open>The facade, and whether the handler has an audit sink of its own for requests it refuses.\<close>

record memory_handler =
  mh_bank :: bank_env
  mh_sink :: bool

record memory_request =
  mq_claims :: "Claims option"
  mq_now :: instant
  mq_ids :: "(uuid \<times> uuid) \<times> (uuid \<times> uuid)" \<comment> \<open>for an event of the facade and for one of the handler\<close>
  mq_trace :: string
  mq_span :: string
  mq_fails :: "bool \<times> bool"
  mq_RawQuery :: string
  mq_layer :: string
  mq_key :: string

record memoryWriteRequest =
  mw_Value :: "string option"
  mw_TTLSeconds :: "int option"

record memoryResponse =
  mo_Layer :: string
  mo_Key :: string
  mo_Value :: string
  mo_WorkspaceID :: string
  mo_TTLSeconds :: "int option"

definition layerForHTTP :: "string \<Rightarrow> MemoryLayer option" where
  "layerForHTTP raw =
     (if raw = ''session'' then Some LayerSession
      else if raw = ''longterm'' then Some LayerLongTerm
      else if raw = ''workspace'' then Some LayerWorkspace
      else None)"

definition layerName :: "MemoryLayer \<Rightarrow> string" where
  "layerName layer =
     (case layer of LayerSession \<Rightarrow> ''session'' | LayerLongTerm \<Rightarrow> ''longterm'' | LayerWorkspace \<Rightarrow> ''workspace'' | _ \<Rightarrow> ''unknown'')"

subsection \<open>Refusals\<close>

definition optional_id :: "memory_handler \<Rightarrow> string \<Rightarrow> uuid" where
  "optional_id h s = (case be_uuid_Parse (mh_bank h) s of None \<Rightarrow> uuid_Nil | Some i \<Rightarrow> i)"

definition failAudit :: "memory_handler \<Rightarrow> memory_request \<Rightarrow> Claims \<Rightarrow> string \<Rightarrow> string \<Rightarrow> bank_state \<Rightarrow> bank_state" where
  "failAudit h rq c action detail s =
     (if \<not> mh_sink h then s
      else case be_uuid_Parse (mh_bank h) (cl_ID c) of
        None \<Rightarrow> s
      | Some actorID \<Rightarrow>
          s\<lparr>bs_audit := fst (auditstore_Append (be_lib (mh_bank h)) (mq_now rq) (snd (mq_ids rq))
              \<lparr>rc_EventType = ''memory.'' @ action, rc_ActorType = ''user'', rc_ActorID = actorID, rc_TargetType = ''memory_route'',
               rc_TargetID = uuid_Nil, rc_Outcome = ''failed'', rc_Principle = ''Security by Design'', rc_WorkspaceID = None,
               rc_TraceID = optional_id h (mq_trace rq), rc_SpanID = optional_id h (mq_span rq), rc_Details = [(''detail'', detail)]\<rparr>
              (bs_audit s))\<rparr>)"

definition memory_scope :: "memory_handler \<Rightarrow> memory_request \<Rightarrow> string \<Rightarrow> bank_state \<Rightarrow> (nat, Claims \<times> uuid) result \<times> bank_state" where
  "memory_scope h rq action s =
     (case mq_claims rq of
        None \<Rightarrow> (Inl 401, s)
      | Some c \<Rightarrow>
          if \<not> ValidRole (cl_Role c) then (Inl 403, failAudit h rq c action ''unsupported_role'' s)
          else if be_uuid_Parse (mh_bank h) (cl_ID c) = None then (Inl 403, failAudit h rq c action ''invalid_actor_claim'' s)
          else (case WorkspaceFromClaims (Some c) of
                  None \<Rightarrow> (Inl 403, failAudit h rq c action ''no_workspace_context'' s)
                | Some binding \<Rightarrow>
                    (case be_uuid_Parse (mh_bank h) binding of
                       None \<Rightarrow> (Inl 403, failAudit h rq c action ''invalid_workspace_claim'' s)
                     | Some ws \<Rightarrow> (Inr (c, ws), s))))"

definition memory_path :: "memory_handler \<Rightarrow> memory_request \<Rightarrow> Claims \<Rightarrow> string \<Rightarrow> bank_state \<Rightarrow> (nat, MemoryLayer \<times> string) result \<times> bank_state" where
  "memory_path h rq c action s =
     (case layerForHTTP (mq_layer rq) of
        None \<Rightarrow> (Inl 400, failAudit h rq c action ''invalid_layer'' s)
      | Some layer \<Rightarrow>
          if TrimSpace (mq_key rq) = [] then (Inl 400, failAudit h rq c action ''invalid_key'' s) else (Inr (layer, mq_key rq), s))"

definition memoryError :: "memory_handler \<Rightarrow> memory_request \<Rightarrow> Claims \<Rightarrow> string \<Rightarrow> bank_error \<Rightarrow> bank_state \<Rightarrow> memoryResponse response \<times> bank_state" where
  "memoryError h rq c action e s =
     (case e of
        bank_error.ErrNotFound \<Rightarrow> (HTTP_Error 404, failAudit h rq c action ''not_found'' s)
      | bank_error.ErrInvalidLayer \<Rightarrow> (HTTP_Error 400, failAudit h rq c action ''invalid_request'' s)
      | bank_error.ErrInvalidKey \<Rightarrow> (HTTP_Error 400, failAudit h rq c action ''invalid_request'' s)
      | bank_error.ErrValueTooLarge \<Rightarrow> (HTTP_Error 400, failAudit h rq c action ''invalid_request'' s)
      | bank_error.ErrSecretRejected \<Rightarrow> (HTTP_Error 400, failAudit h rq c action ''invalid_request'' s)
      | bank_error.ErrInvalidTTL \<Rightarrow> (HTTP_Error 400, failAudit h rq c action ''invalid_request'' s)
      | bank_error.ErrRateLimited \<Rightarrow> (HTTP_Error 429, failAudit h rq c action ''rate_limited'' s)
      | _ \<Rightarrow> (HTTP_Error 500, failAudit h rq c action ''internal_error'' s))"

definition bank_context :: "memory_request \<Rightarrow> Claims \<Rightarrow> bank_call" where
  "bank_context rq c = \<lparr>bc_now = mq_now rq, bc_ids = fst (mq_ids rq), bc_actor = cl_ID c, bc_trace = mq_trace rq, bc_span = mq_span rq, bc_fails = mq_fails rq\<rparr>"

subsection \<open>The handlers\<close>

definition MemoryHandler_Read :: "memory_handler \<Rightarrow> memory_request \<Rightarrow> bank_state \<Rightarrow> memoryResponse response \<times> bank_state" where
  "MemoryHandler_Read h rq s0 =
     (case memory_scope h rq ''read'' s0 of
        (Inl status, s) \<Rightarrow> (HTTP_Error status, s)
      | (Inr (c, ws), s) \<Rightarrow>
          if mq_RawQuery rq \<noteq> [] then (HTTP_Error 400, failAudit h rq c ''read'' ''unknown_parameter'' s)
          else (case memory_path h rq c ''read'' s of
             (Inl status, s1) \<Rightarrow> (HTTP_Error status, s1)
           | (Inr (layer, key), s1) \<Rightarrow>
               (case Bank_Read (mh_bank h) (bank_context rq c) ws layer key s1 of
                  (Inl e, s2) \<Rightarrow> memoryError h rq c ''read'' e s2
                | (Inr v, s2) \<Rightarrow>
                    (HTTP_OK 200 \<lparr>mo_Layer = layerName layer, mo_Key = key, mo_Value = v,
                       mo_WorkspaceID = al_uuid_String (be_lib (mh_bank h)) ws, mo_TTLSeconds = None\<rparr>, s2))))"

definition memory_ttl :: "int option \<Rightarrow> duration option" where
  "memory_ttl seconds =
     (case seconds of
        None \<Rightarrow> Some DefaultTTL
      | Some n \<Rightarrow> if n < 0 \<or> n > quot MaxTTL second then None else Some (wrap64 (n * second)))"

definition MemoryHandler_Write :: "memory_handler \<Rightarrow> memory_request \<Rightarrow> memoryWriteRequest option \<Rightarrow> bank_state \<Rightarrow> memoryResponse response \<times> bank_state" where
  "MemoryHandler_Write h rq body s0 =
     (case memory_scope h rq ''write'' s0 of
        (Inl status, s) \<Rightarrow> (HTTP_Error status, s)
      | (Inr (c, ws), s) \<Rightarrow>
          if mq_RawQuery rq \<noteq> [] then (HTTP_Error 400, failAudit h rq c ''write'' ''unknown_parameter'' s)
          else (case memory_path h rq c ''write'' s of
             (Inl status, s1) \<Rightarrow> (HTTP_Error status, s1)
           | (Inr (layer, key), s1) \<Rightarrow>
               (case body of
                  None \<Rightarrow> (HTTP_Error 400, failAudit h rq c ''write'' ''malformed_body'' s1)
                | Some req \<Rightarrow>
                    (case mw_Value req of
                       None \<Rightarrow> (HTTP_Error 400, failAudit h rq c ''write'' ''missing_value'' s1)
                     | Some v \<Rightarrow>
                         (case memory_ttl (mw_TTLSeconds req) of
                            None \<Rightarrow> (HTTP_Error 400, failAudit h rq c ''write'' ''invalid_ttl'' s1)
                          | Some ttl \<Rightarrow>
                              (case Bank_Write (mh_bank h) (bank_context rq c) ws layer key v ttl s1 of
                                 (Some e, s2) \<Rightarrow> memoryError h rq c ''write'' e s2
                               | (None, s2) \<Rightarrow>
                                   (HTTP_OK 200 \<lparr>mo_Layer = layerName layer, mo_Key = key, mo_Value = v,
                                      mo_WorkspaceID = al_uuid_String (be_lib (mh_bank h)) ws,
                                      mo_TTLSeconds = Some (quot ttl second)\<rparr>, s2)))))))"

datatype memory_route = ReadMemory | WriteMemory "memoryWriteRequest option"

fun memory_serve :: "memory_handler \<Rightarrow> memory_request \<Rightarrow> memory_route \<Rightarrow> bank_state \<Rightarrow> memoryResponse response \<times> bank_state" where
  "memory_serve h rq ReadMemory s = MemoryHandler_Read h rq s"
| "memory_serve h rq (WriteMemory body) s = MemoryHandler_Write h rq body s"

fun memory_action :: "memory_route \<Rightarrow> string" where
  "memory_action ReadMemory = ''read''"
| "memory_action (WriteMemory _) = ''write''"

subsection \<open>Tenants\<close>

lemma failAudit_frame [simp]: "bs_cells (failAudit h rq c action detail s) = bs_cells s"
  by (simp add: failAudit_def split: option.split)

lemma memoryError_frame: "memoryError h rq c action e s = (res, s') \<Longrightarrow> bs_cells s' = bs_cells s \<and> (\<exists>status. res = HTTP_Error status)"
  by (cases e) (auto simp: memoryError_def)

lemma memory_path_cases:
  "memory_path h rq c action s = (Inl status, s') \<Longrightarrow> bs_cells s' = bs_cells s"
  "memory_path h rq c action s = (Inr (layer, key), s') \<Longrightarrow> s' = s \<and> key = mq_key rq \<and> ValidLayer layer \<and> layer \<noteq> LayerOrganizational"
  by (auto simp: memory_path_def layerForHTTP_def split: option.splits if_splits)

definition memory_caller :: "memory_handler \<Rightarrow> memory_request \<Rightarrow> (Claims \<times> uuid) option" where
  "memory_caller h rq =
     (case mq_claims rq of
        None \<Rightarrow> None
      | Some c \<Rightarrow> (case WorkspaceFromClaims (Some c) of
            None \<Rightarrow> None
          | Some b \<Rightarrow> map_option (Pair c) (be_uuid_Parse (mh_bank h) b)))"

lemma memory_scope_cases:
  "memory_scope h rq action s = (Inl status, s') \<Longrightarrow> bs_cells s' = bs_cells s"
  "memory_scope h rq action s = (Inr (c, ws), s') \<Longrightarrow> s' = s \<and> memory_caller h rq = Some (c, ws) \<and> mq_claims rq = Some c"
  by (auto simp: memory_scope_def memory_caller_def split: option.splits if_splits)

text \<open>
  A request ends without touching a cell, or in one call of the facade on a cell of the caller's
  workspace.
\<close>

lemma memory_serve_cases:
  assumes "memory_serve h rq route s = (res, s')"
  obtains (refused) status where "res = HTTP_Error status" "bs_cells s' = bs_cells s"
  | (read) c ws layer r s2 where "memory_caller h rq = Some (c, ws)" "layer \<noteq> LayerOrganizational" "route = ReadMemory"
      "Bank_Read (mh_bank h) (bank_context rq c) ws layer (mq_key rq) s = (r, s2)" "bs_cells s' = bs_cells s2"
      "case r of Inl _ \<Rightarrow> \<exists>status. res = HTTP_Error status | Inr v \<Rightarrow> s' = s2 \<and> res = HTTP_OK 200 \<lparr>mo_Layer = layerName layer, mo_Key = mq_key rq,
         mo_Value = v, mo_WorkspaceID = al_uuid_String (be_lib (mh_bank h)) ws, mo_TTLSeconds = None\<rparr>"
  | (written) c ws layer v ttl r s2 where "memory_caller h rq = Some (c, ws)" "layer \<noteq> LayerOrganizational" "route \<noteq> ReadMemory"
      "Bank_Write (mh_bank h) (bank_context rq c) ws layer (mq_key rq) v ttl s = (r, s2)" "bs_cells s' = bs_cells s2"
      "case r of Some _ \<Rightarrow> \<exists>status. res = HTTP_Error status | None \<Rightarrow> s' = s2 \<and> res = HTTP_OK 200 \<lparr>mo_Layer = layerName layer, mo_Key = mq_key rq,
         mo_Value = v, mo_WorkspaceID = al_uuid_String (be_lib (mh_bank h)) ws, mo_TTLSeconds = Some (quot ttl second)\<rparr>"
proof (cases "memory_scope h rq (memory_action route) s")
  case (Pair x s0)
  show thesis
  proof (cases x)
    case (Inl status)
    with Pair assms memory_scope_cases(1) show thesis
      by (cases route) (auto simp: MemoryHandler_Read_def MemoryHandler_Write_def intro: refused)
  next
    case (Inr cw)
    then obtain c ws where sc: "memory_scope h rq (memory_action route) s = (Inr (c, ws), s0)" using Pair by (cases cw) auto
    note caller = memory_scope_cases(2) [OF sc]
    show thesis
    proof (cases "mq_RawQuery rq = [] \<and> (\<exists>l s1. memory_path h rq c (memory_action route) s = (Inr l, s1))")
      case False
      with sc caller assms have "(\<exists>status. res = HTTP_Error status) \<and> bs_cells s' = bs_cells s"
        by (cases route) (auto simp: MemoryHandler_Read_def MemoryHandler_Write_def split: prod.splits sum.splits if_splits
            dest!: memory_path_cases(1))
      then show thesis using refused by blast
    next
      case True
      then obtain layer key s1 where p: "mq_RawQuery rq = []" "memory_path h rq c (memory_action route) s = (Inr (layer, key), s1)" by auto
      note path = memory_path_cases(2) [OF p(2)]
      show thesis
      proof (cases route)
        case ReadMemory
        obtain r s2 where b: "Bank_Read (mh_bank h) (bank_context rq c) ws layer (mq_key rq) s = (r, s2)" by fastforce
        with assms sc caller p path ReadMemory memoryError_frame show thesis
          by (intro read [of c ws layer r s2]) (auto simp: MemoryHandler_Read_def split: sum.splits)
      next
        case (WriteMemory body)
        show thesis
        proof (cases "\<exists>req v ttl. body = Some req \<and> mw_Value req = Some v \<and> memory_ttl (mw_TTLSeconds req) = Some ttl")
          case False
          with assms sc caller p path WriteMemory show thesis
            by (intro refused [of 400]) (auto simp: MemoryHandler_Write_def split: option.splits)
        next
          case True
          then obtain req v ttl where q: "body = Some req" "mw_Value req = Some v" "memory_ttl (mw_TTLSeconds req) = Some ttl" by blast
          obtain r s2 where b: "Bank_Write (mh_bank h) (bank_context rq c) ws layer (mq_key rq) v ttl s = (r, s2)" by fastforce
          with assms sc caller p path q WriteMemory memoryError_frame show thesis
            by (intro written [of c ws layer v ttl r s2]) (auto simp: MemoryHandler_Write_def split: option.splits)
        qed
      qed
    qed
  qed
qed

subsection \<open>The audit log\<close>

definition audits_memory :: "memory_handler \<Rightarrow> Claims \<Rightarrow> string \<Rightarrow> uuid \<Rightarrow> audit_row \<Rightarrow> bool" where
  "audits_memory h c action ws row \<longleftrightarrow> aw_event_type row = ''memory.'' @ action \<and> aw_outcome row = ''success''
     \<and> aw_workspace_id row = Some ws \<and> (\<exists>actor. be_uuid_Parse (mh_bank h) (cl_ID c) = Some actor \<and> aw_actor_id row = nullUUID actor)"

definition uuid_codec :: "memory_handler \<Rightarrow> bool" where
  "uuid_codec h \<longleftrightarrow> (\<forall>u. al_uuid_String (be_lib (mh_bank h)) u \<noteq> [] \<and> be_uuid_Parse (mh_bank h) (al_uuid_String (be_lib (mh_bank h)) u) = Some u)"

lemma RecordError_row:
  assumes "RecordError env cx rec au0 = (None, au)" "mr_ActorID rec \<noteq> []" "mr_WorkspaceID rec \<noteq> []"
  shows "\<exists>row actor ws. be_uuid_Parse env (mr_ActorID rec) = Some actor \<and> be_uuid_Parse env (mr_WorkspaceID rec) = Some ws
    \<and> at_rows (snd au) = at_rows (snd au0) @ [row] \<and> aw_event_type row = mr_EventType rec \<and> aw_outcome row = mr_Outcome rec
    \<and> aw_actor_id row = nullUUID actor \<and> aw_workspace_id row = Some ws"
proof -
  obtain actor ws where ids: "be_uuid_Parse env (mr_ActorID rec) = Some actor" "be_uuid_Parse env (mr_WorkspaceID rec) = Some ws"
    using assms by (auto simp: RecordError_def split: option.splits)
  define r where "r = \<lparr>rc_EventType = mr_EventType rec, rc_ActorType = mr_ActorType rec, rc_ActorID = actor, rc_TargetType = ''memory_cell'',
    rc_TargetID = uuid_Nil, rc_Outcome = mr_Outcome rec, rc_Principle = mr_Principle rec, rc_WorkspaceID = Some ws,
    rc_TraceID = parseID env (mr_TraceID rec), rc_SpanID = parseID env (mr_SpanID rec), rc_Details = [(''key'', mr_Key rec), (''layer'', mr_Layer rec)]\<rparr>"
  obtain au' res where ap: "auditstore_Append (be_lib env) (bc_now cx) (bc_ids cx) r au0 = (au', res)" by fastforce
  with assms ids obtain ev where res: "res = Inr ev" "au' = au"
    by (cases res) (simp_all add: RecordError_def r_def)
  obtain head details where ev: "ev = AppendEvent (be_lib env) (bc_now cx) (bc_ids cx) head (rc_EventType r)
      (rc_ActorType r) (rc_ActorID r) (rc_TargetType r) (rc_TargetID r) (rc_Outcome r) (rc_Principle r)"
    and rows: "at_rows (snd au') = at_rows (snd au0) @ [audit_columns (be_lib env) ev (Some r) details (at_nextval (snd au0))]"
    by (rule Append_Inr [OF ap [unfolded res(1)]])
  then show ?thesis
    using ids res(2) by (simp add: audit_columns_def AppendEvent_def sealed_def Let_def workspaceArg_def r_def)
qed

lemma recordAudit_row:
  assumes "recordAudit (mh_bank h) (bank_context rq c) (memory_entry (mh_bank h) (bank_context rq c) et principle ''success'' ws layer key) s = (None, s')"
    and "be_sink (mh_bank h)" "uuid_codec h" "cl_ID c \<noteq> []" "et = ''memory.'' @ action"
  shows "\<exists>row. at_rows (snd (bs_audit s')) = at_rows (snd (bs_audit s)) @ [row] \<and> audits_memory h c action ws row"
proof -
  define rec where "rec = memory_entry (mh_bank h) (bank_context rq c) et principle ''success'' ws layer key"
  have ws: "al_uuid_String (be_lib (mh_bank h)) ws \<noteq> []" "be_uuid_Parse (mh_bank h) (al_uuid_String (be_lib (mh_bank h)) ws) = Some ws"
    using assms(3) by (simp_all add: uuid_codec_def)
  have f: "mr_ActorID rec = cl_ID c" "mr_WorkspaceID rec = al_uuid_String (be_lib (mh_bank h)) ws" "mr_EventType rec = et" "mr_Outcome rec = ''success''"
    by (simp_all add: rec_def memory_entry_def bank_context_def)
  obtain au where "RecordError (mh_bank h) (bank_context rq c) rec (bs_audit s) = (None, au)" "s' = s\<lparr>bs_audit := au\<rparr>"
    using assms(1,2) unfolding rec_def [symmetric] by (auto simp: recordAudit_def split: prod.splits)
  then show ?thesis
    using RecordError_row [of "mh_bank h" "bank_context rq c" rec "bs_audit s" au] assms(4) ws f
    by (auto simp: audits_memory_def assms(5))
qed

lemma Bank_Read_audit:
  assumes "Bank_Read env cx ws layer key s = (Inr v, s')"
  shows "recordAudit env cx (memory_entry env cx ''memory.read'' ''Minimal Disclosure'' ''success'' ws layer key) s = (None, s')"
  using assms by (auto simp: Bank_Read_def split: option.splits sum.splits prod.splits)

lemma memory_caller_SomeD: "memory_caller h rq = Some (c, ws) \<Longrightarrow> mq_claims rq = Some c"
  by (auto simp: memory_caller_def split: option.splits)


text \<open>A member of workspace 1 reads the note of the workspace.\<close>

definition demo_handler :: memory_handler where
  "demo_handler = \<lparr>mh_bank = memo_env True, mh_sink = True\<rparr>"

definition demo_read :: memory_request where
  "demo_read = \<lparr>mq_claims = Some (member_claims\<lparr>cl_ID := ''7''\<rparr>), mq_now = 6, mq_ids = ((11, 12), (13, 14)), mq_trace = [], mq_span = [],
     mq_fails = (False, False), mq_RawQuery = [], mq_layer = ''session'', mq_key = ''tone''\<rparr>"

definition demo_memory :: bank_state where
  "demo_memory = (snd memo_written)\<lparr>bs_audit := (sample_genesis, sample_booted)\<rparr>"

lemma demo_handler_laws: "uuid_texts (al_uuid_String (be_lib (mh_bank demo_handler)))" "uuid_codec demo_handler" "be_sink (mh_bank demo_handler)"
proof -
  show "uuid_texts (al_uuid_String (be_lib (mh_bank demo_handler)))" by (simp add: demo_handler_def memo_env_def memo_lib_texts)
  show "uuid_codec demo_handler" by (simp add: uuid_codec_def demo_handler_def memo_env_def memo_lib_def Itoa_not_Nil)
qed (simp add: demo_handler_def memo_env_def)

lemma demo_read_OK: "is_OK (fst (memory_serve demo_handler demo_read ReadMemory demo_memory))"
  by code_simp


end
