(* ===== verification/Organization.thy ===== *)
theory Organization
  imports Tasks Go_Json "HOL-Library.List_Lexorder"
begin

text \<open>
  The organisation: workspaces (\<^verbatim>\<open>internal/workspace\<close>), departments, teams and AI employees
  (\<^verbatim>\<open>internal/department\<close>, \<^verbatim>\<open>internal/team\<close>, \<^verbatim>\<open>internal/aiemployee\<close>) with their PostgreSQL stores
  (\<^verbatim>\<open>infrastructure/postgres\<close>: \<^verbatim>\<open>workspaces.go\<close>, \<^verbatim>\<open>departments.go\<close>, \<^verbatim>\<open>teams.go\<close>, \<^verbatim>\<open>aiemployees.go\<close>) and the constraints of
  \<^verbatim>\<open>migrateOrganization\<close>.

  A department belongs to a workspace, a team to a department, an employee to a team; deleting
  one deletes what is below it, unless an execution still names an employee there. A transaction
  sees the rows that the row policies leave visible to its workspace; whether they are in force is a
  parameter. So are the lower case of the database, the sort key of a text in its collation, and what \<^verbatim>\<open>encoding/json\<close> makes of a JSON column.
\<close>

subsection \<open>The domains\<close>

text \<open>The packages declare the same four errors each; \<open>ErrDatabase\<close> is any other error of the database.\<close>

datatype org_error = ErrInvalidInput | ErrNotFound | ErrWorkspaceMismatch | ErrNameTaken | ErrDatabase

record Workspace =
  wsp_ID :: uuid
  wsp_Name :: string
  wsp_CreatedAt :: instant
  wsp_UpdatedAt :: instant

record Department =
  dep_ID :: uuid
  dep_WorkspaceID :: uuid
  dep_Name :: string
  dep_CreatedAt :: instant
  dep_UpdatedAt :: instant

record Team =
  tm_ID :: uuid
  tm_DepartmentID :: uuid
  tm_WorkspaceID :: uuid
  tm_Name :: string
  tm_CreatedAt :: instant
  tm_UpdatedAt :: instant

text \<open>A nil slice, a nil \<^verbatim>\<open>any\<close> and a nil pointer are \<open>None\<close>.\<close>

record AIEmployee =
  emp_ID :: uuid
  emp_TeamID :: uuid
  emp_DepartmentID :: uuid
  emp_WorkspaceID :: uuid
  emp_Name :: string
  emp_Role :: string
  emp_Capabilities :: "string list option"
  emp_Permissions :: "json option"
  emp_MemoryID :: "uuid option"
  emp_KnowledgeAccess :: "json option"
  emp_CurrentTaskID :: "uuid option"
  emp_CreatedAt :: instant
  emp_UpdatedAt :: instant

text \<open>\<open>gen\<close> is the identifier \<^verbatim>\<open>uuid.New\<close> draws.\<close>

definition department_New :: "instant \<Rightarrow> uuid \<Rightarrow> uuid \<Rightarrow> string \<Rightarrow> (org_error, Department) result" where
  "department_New now gen ws name =
     (if ws = uuid_Nil then Inl ErrWorkspaceMismatch
      else if name = [] then Inl ErrInvalidInput
      else Inr \<lparr>dep_ID = gen, dep_WorkspaceID = ws, dep_Name = name, dep_CreatedAt = now, dep_UpdatedAt = now\<rparr>)"

definition team_New :: "instant \<Rightarrow> uuid \<Rightarrow> uuid \<Rightarrow> uuid \<Rightarrow> string \<Rightarrow> (org_error, Team) result" where
  "team_New now gen dept ws name =
     (if dept = uuid_Nil then Inl ErrInvalidInput
      else if ws = uuid_Nil then Inl ErrWorkspaceMismatch
      else if name = [] then Inl ErrInvalidInput
      else Inr \<lparr>tm_ID = gen, tm_DepartmentID = dept, tm_WorkspaceID = ws, tm_Name = name, tm_CreatedAt = now, tm_UpdatedAt = now\<rparr>)"

definition employee_New :: "instant \<Rightarrow> uuid \<Rightarrow> uuid \<Rightarrow> uuid \<Rightarrow> uuid \<Rightarrow> string \<Rightarrow> string \<Rightarrow> (org_error, AIEmployee) result" where
  "employee_New now gen team ws dept name role =
     (if team = uuid_Nil then Inl ErrInvalidInput
      else if ws = uuid_Nil then Inl ErrWorkspaceMismatch
      else if dept = uuid_Nil then Inl ErrInvalidInput
      else if name = [] \<or> role = [] then Inl ErrInvalidInput
      else Inr \<lparr>emp_ID = gen, emp_TeamID = team, emp_DepartmentID = dept, emp_WorkspaceID = ws, emp_Name = name, emp_Role = role,
                emp_Capabilities = Some [], emp_Permissions = None, emp_MemoryID = None, emp_KnowledgeAccess = None,
                emp_CurrentTaskID = None, emp_CreatedAt = now, emp_UpdatedAt = now\<rparr>)"

text \<open>
  The three packages declare the same query, page and cursor, apart from the parent a listing may be
  restricted to, which departments do not have. The zero cursor is \<open>None\<close>.
\<close>

record org_query =
  oq_Limit :: int
  oq_Parent :: "uuid option"
  oq_Cursor :: "uuid option"

record 'a org_page =
  op_Items :: "'a list"
  op_NextCursor :: string
  op_Limit :: int

definition org_Normalize :: "org_query \<Rightarrow> org_query" where
  "org_Normalize q0 =
     (let q = (if oq_Limit q0 \<le> 0 then q0\<lparr>oq_Limit := 50\<rparr> else q0)
      in if oq_Limit q > 200 then q\<lparr>oq_Limit := 200\<rparr> else q)"

definition org_DecodeCursor :: "(string \<Rightarrow> uuid option) \<Rightarrow> string \<Rightarrow> (org_error, uuid option) result" where
  "org_DecodeCursor uuid_Parse s =
     (if s = [] then Inr None else case uuid_Parse s of None \<Rightarrow> Inl ErrInvalidInput | Some i \<Rightarrow> Inr (Some i))"

subsection \<open>The tables\<close>

record workspace_row =
  wsr_id :: uuid
  wsr_name :: string
  wsr_created_at :: instant
  wsr_updated_at :: instant

text \<open>No statement names the column \<^verbatim>\<open>updated_at\<close> of the departments and teams.\<close>

record department_row =
  dpr_id :: uuid
  dpr_workspace_id :: uuid
  dpr_name :: string
  dpr_created_at :: instant

record team_row =
  tmr_id :: uuid
  tmr_department_id :: uuid
  tmr_name :: string
  tmr_created_at :: instant

text \<open>A JSON column holds \<open>None\<close> for \<^verbatim>\<open>NULL\<close>.\<close>

record employee_row =
  epr_id :: uuid
  epr_team_id :: uuid
  epr_name :: string
  epr_role :: string
  epr_capabilities :: "string list option"
  epr_permissions :: "json option"
  epr_memory_id :: "uuid option"
  epr_knowledge_access :: "json option"
  epr_current_task_id :: "uuid option"
  epr_created_at :: instant
  epr_updated_at :: instant

text \<open>\<open>og_busy\<close>: the employees that rows of \<^verbatim>\<open>ai_executions\<close> name, with \<^verbatim>\<open>ON DELETE RESTRICT\<close>.\<close>

record org_db =
  og_workspaces :: "workspace_row list"
  og_departments :: "department_row list"
  og_teams :: "team_row list"
  og_employees :: "employee_row list"
  og_busy :: "uuid list"

record org_env =
  oe_rls :: bool
  oe_lower :: "string \<Rightarrow> string"
  oe_collate :: "string \<Rightarrow> nat list"
  oe_any :: "json \<Rightarrow> json option"
  oe_uuid_String :: "uuid \<Rightarrow> string"

definition find_department :: "org_db \<Rightarrow> uuid \<Rightarrow> department_row option" where
  "find_department db i = find (\<lambda>r. dpr_id r = i) (og_departments db)"

definition find_team :: "org_db \<Rightarrow> uuid \<Rightarrow> team_row option" where
  "find_team db i = find (\<lambda>r. tmr_id r = i) (og_teams db)"

definition find_employee :: "org_db \<Rightarrow> uuid \<Rightarrow> employee_row option" where
  "find_employee db i = find (\<lambda>r. epr_id r = i) (og_employees db)"

text \<open>The joins: the workspace of a department, of a team through its department, of an employee through its team.\<close>

definition department_ws :: "org_db \<Rightarrow> uuid \<Rightarrow> uuid option" where
  "department_ws db i = map_option dpr_workspace_id (find_department db i)"

definition team_ws :: "org_db \<Rightarrow> team_row \<Rightarrow> uuid option" where
  "team_ws db t = department_ws db (tmr_department_id t)"

definition employee_ws :: "org_db \<Rightarrow> employee_row \<Rightarrow> uuid option" where
  "employee_ws db e = (case find_team db (epr_team_id e) of None \<Rightarrow> None | Some t \<Rightarrow> team_ws db t)"

text \<open>The rows the policies \<^verbatim>\<open>workspace_isolation_policy\<close> leave to a session of the workspace.\<close>

definition seen :: "org_env \<Rightarrow> uuid \<Rightarrow> org_db \<Rightarrow> org_db" where
  "seen env ws db =
     (if oe_rls env then
        db\<lparr>og_departments := filter (\<lambda>d. dpr_workspace_id d = ws) (og_departments db),
           og_teams := filter (\<lambda>t. team_ws db t = Some ws) (og_teams db),
           og_employees := filter (\<lambda>e. employee_ws db e = Some ws) (og_employees db)\<rparr>
      else db)"

text \<open>\<^verbatim>\<open>length(trim(name)) > 0\<close>; \<^verbatim>\<open>trim\<close> removes spaces.\<close>

definition not_blank :: "string \<Rightarrow> bool" where
  "not_blank s \<longleftrightarrow> list_ex (\<lambda>c. c \<noteq> CHR '' '') s"

text \<open>A page of rows that are in order: one row more than the limit is fetched to see whether there is a next page.\<close>

definition cut_page :: "('r \<Rightarrow> uuid) \<Rightarrow> int \<Rightarrow> 'r list \<Rightarrow> 'r list \<times> uuid option" where
  "cut_page key limit rows =
     (let out = take (nat (limit + 1)) rows
      in if int (length out) > limit then (take (nat limit) out, Some (key (last (take (nat limit) out)))) else (out, None))"

definition next_cursor :: "org_env \<Rightarrow> uuid option \<Rightarrow> string" where
  "next_cursor env c = (case c of None \<Rightarrow> [] | Some i \<Rightarrow> oe_uuid_String env i)"

subsection \<open>Workspaces\<close>

definition scanWorkspace :: "workspace_row \<Rightarrow> Workspace" where
  "scanWorkspace r = \<lparr>wsp_ID = wsr_id r, wsp_Name = wsr_name r, wsp_CreatedAt = wsr_created_at r, wsp_UpdatedAt = wsr_updated_at r\<rparr>"

text \<open>The primary key and the name are unique; identifier and times are defaults of the table.\<close>

definition WorkspaceStore_Create :: "instant \<Rightarrow> uuid \<Rightarrow> string \<Rightarrow> org_db \<Rightarrow> (org_error, org_db \<times> Workspace) result" where
  "WorkspaceStore_Create now gen name db =
     (if list_ex (\<lambda>r. wsr_id r = gen \<or> wsr_name r = name) (og_workspaces db) then Inl ErrNameTaken
      else let r = \<lparr>wsr_id = gen, wsr_name = name, wsr_created_at = to_micro now, wsr_updated_at = to_micro now\<rparr>
           in Inr (db\<lparr>og_workspaces := og_workspaces db @ [r]\<rparr>, scanWorkspace r))"

definition WorkspaceStore_Get :: "uuid \<Rightarrow> org_db \<Rightarrow> (org_error, Workspace) result" where
  "WorkspaceStore_Get i db =
     (case find (\<lambda>r. wsr_id r = i) (og_workspaces db) of None \<Rightarrow> Inl ErrNotFound | Some r \<Rightarrow> Inr (scanWorkspace r))"

definition WorkspaceStore_List :: "org_env \<Rightarrow> org_db \<Rightarrow> Workspace list" where
  "WorkspaceStore_List env db = map scanWorkspace (sort_key (\<lambda>r. (wsr_created_at r, oe_collate env (wsr_name r))) (og_workspaces db))"

subsection \<open>The department store\<close>

definition scanDepartment :: "department_row \<Rightarrow> Department" where
  "scanDepartment r =
     \<lparr>dep_ID = dpr_id r, dep_WorkspaceID = dpr_workspace_id r, dep_Name = dpr_name r, dep_CreatedAt = dpr_created_at r, dep_UpdatedAt = dpr_created_at r\<rparr>"

definition same_department_name :: "org_env \<Rightarrow> uuid \<Rightarrow> string \<Rightarrow> department_row \<Rightarrow> bool" where
  "same_department_name env ws name r \<longleftrightarrow> dpr_workspace_id r = ws \<and> oe_lower env (dpr_name r) = oe_lower env name"

text \<open>The guard of the statement, then the constraints: blank names, the primary key, the name's index, the workspace.\<close>

definition DepartmentStore_Create :: "org_env \<Rightarrow> Department \<Rightarrow> org_db \<Rightarrow> (org_error, org_db \<times> Department) result" where
  "DepartmentStore_Create env d db =
     (if list_ex (same_department_name env (dep_WorkspaceID d) (dep_Name d)) (og_departments (seen env (dep_WorkspaceID d) db)) then Inl ErrNameTaken
      else if \<not> not_blank (dep_Name d) then Inl ErrDatabase
      else if list_ex (\<lambda>r. dpr_id r = dep_ID d \<or> same_department_name env (dep_WorkspaceID d) (dep_Name d) r) (og_departments db) then Inl ErrNameTaken
      else if dep_WorkspaceID d \<notin> wsr_id ` set (og_workspaces db) then Inl ErrDatabase
      else let r = \<lparr>dpr_id = dep_ID d, dpr_workspace_id = dep_WorkspaceID d, dpr_name = dep_Name d, dpr_created_at = to_micro (dep_CreatedAt d)\<rparr>
           in Inr (db\<lparr>og_departments := og_departments db @ [r]\<rparr>, d\<lparr>dep_CreatedAt := dpr_created_at r, dep_UpdatedAt := dpr_created_at r\<rparr>))"

definition department_owned :: "uuid \<Rightarrow> uuid \<Rightarrow> department_row \<Rightarrow> bool" where
  "department_owned ws i r \<longleftrightarrow> dpr_id r = i \<and> dpr_workspace_id r = ws"

definition DepartmentStore_Get :: "org_env \<Rightarrow> uuid \<Rightarrow> uuid \<Rightarrow> org_db \<Rightarrow> (org_error, Department) result" where
  "DepartmentStore_Get env ws i db =
     (case find (department_owned ws i) (og_departments (seen env ws db)) of None \<Rightarrow> Inl ErrNotFound | Some r \<Rightarrow> Inr (scanDepartment r))"

definition DepartmentStore_List :: "org_env \<Rightarrow> uuid \<Rightarrow> org_db \<Rightarrow> Department list" where
  "DepartmentStore_List env ws db =
     map scanDepartment (sort_key (\<lambda>r. (dpr_created_at r, oe_collate env (dpr_name r)))
       (filter (\<lambda>r. dpr_workspace_id r = ws) (og_departments (seen env ws db))))"

definition department_key :: "department_row \<Rightarrow> instant \<times> uuid" where
  "department_key r = (dpr_created_at r, dpr_id r)"

definition DepartmentStore_ListPage :: "org_env \<Rightarrow> uuid \<Rightarrow> org_query \<Rightarrow> org_db \<Rightarrow> (org_error, Department org_page) result" where
  "DepartmentStore_ListPage env ws q0 db =
     (let q = org_Normalize q0;
          v = seen env ws db;
          at = (case oq_Cursor q of
                  None \<Rightarrow> Inr None
                | Some i \<Rightarrow> (case find (department_owned ws i) (og_departments v) of
                               None \<Rightarrow> Inl ErrInvalidInput | Some r \<Rightarrow> Inr (Some (dpr_created_at r, i))))
      in case at of
           Inl e \<Rightarrow> Inl e
         | Inr k \<Rightarrow>
             (case cut_page dpr_id (oq_Limit q)
                     (newest_first department_key (filter (\<lambda>r. dpr_workspace_id r = ws \<and> below department_key k r) (og_departments v))) of
                (rows, next) \<Rightarrow> Inr \<lparr>op_Items = map scanDepartment rows, op_NextCursor = next_cursor env next, op_Limit = oq_Limit q\<rparr>))"

definition DepartmentStore_Update :: "org_env \<Rightarrow> uuid \<Rightarrow> Department \<Rightarrow> org_db \<Rightarrow> (org_error, org_db \<times> Department) result" where
  "DepartmentStore_Update env ws d db =
     (let v = og_departments (seen env ws db) in
      if list_ex (\<lambda>r. same_department_name env ws (dep_Name d) r \<and> dpr_id r \<noteq> dep_ID d) v then Inl ErrNameTaken
      else case find (department_owned ws (dep_ID d)) v of
             None \<Rightarrow> Inl ErrNotFound
           | Some r \<Rightarrow>
               if \<not> not_blank (dep_Name d) then Inl ErrDatabase
               else Inr (db\<lparr>og_departments := upd_where (department_owned ws (dep_ID d)) (\<lambda>r. r\<lparr>dpr_name := dep_Name d\<rparr>) (og_departments db)\<rparr>,
                         scanDepartment (r\<lparr>dpr_name := dep_Name d\<rparr>)))"

text \<open>Deletion cascades along the foreign keys and fails when an execution names an employee it reaches.\<close>

definition delete_employees :: "(employee_row \<Rightarrow> bool) \<Rightarrow> org_db \<Rightarrow> (org_error, org_db) result" where
  "delete_employees P db =
     (if list_ex (\<lambda>e. P e \<and> epr_id e \<in> set (og_busy db)) (og_employees db) then Inl ErrDatabase
      else Inr (db\<lparr>og_employees := filter (\<lambda>e. \<not> P e) (og_employees db)\<rparr>))"

definition delete_teams :: "(team_row \<Rightarrow> bool) \<Rightarrow> org_db \<Rightarrow> (org_error, org_db) result" where
  "delete_teams P db =
     (let gone = tmr_id ` set (filter P (og_teams db)) in
      delete_employees (\<lambda>e. epr_team_id e \<in> gone) (db\<lparr>og_teams := filter (\<lambda>t. \<not> P t) (og_teams db)\<rparr>))"

definition delete_departments :: "(department_row \<Rightarrow> bool) \<Rightarrow> org_db \<Rightarrow> (org_error, org_db) result" where
  "delete_departments P db =
     (let gone = dpr_id ` set (filter P (og_departments db)) in
      delete_teams (\<lambda>t. tmr_department_id t \<in> gone) (db\<lparr>og_departments := filter (\<lambda>d. \<not> P d) (og_departments db)\<rparr>))"

definition DepartmentStore_Delete :: "org_env \<Rightarrow> uuid \<Rightarrow> uuid \<Rightarrow> org_db \<Rightarrow> (org_error, org_db) result" where
  "DepartmentStore_Delete env ws i db =
     (if find (department_owned ws i) (og_departments (seen env ws db)) = None then Inl ErrNotFound
      else delete_departments (department_owned ws i) db)"

definition DepartmentResolverAdapter_Get :: "org_env \<Rightarrow> uuid \<Rightarrow> uuid \<Rightarrow> org_db \<Rightarrow> (org_error, uuid) result" where
  "DepartmentResolverAdapter_Get env ws i db =
     (case department_ws (seen env ws db) i of
        None \<Rightarrow> Inl ErrNotFound
      | Some w \<Rightarrow> if w \<noteq> ws then Inl ErrWorkspaceMismatch else Inr w)"

subsection \<open>The team store\<close>

text \<open>A row of the join of a team with its department.\<close>

definition scanTeam :: "org_db \<Rightarrow> team_row \<Rightarrow> Team" where
  "scanTeam db r =
     \<lparr>tm_ID = tmr_id r, tm_DepartmentID = tmr_department_id r, tm_WorkspaceID = (case team_ws db r of None \<Rightarrow> uuid_Nil | Some w \<Rightarrow> w),
      tm_Name = tmr_name r, tm_CreatedAt = tmr_created_at r, tm_UpdatedAt = tmr_created_at r\<rparr>"

definition same_team_name :: "org_env \<Rightarrow> uuid \<Rightarrow> string \<Rightarrow> team_row \<Rightarrow> bool" where
  "same_team_name env dept name r \<longleftrightarrow> tmr_department_id r = dept \<and> oe_lower env (tmr_name r) = oe_lower env name"

definition TeamStore_Create :: "org_env \<Rightarrow> Team \<Rightarrow> org_db \<Rightarrow> (org_error, org_db \<times> Team) result" where
  "TeamStore_Create env t db =
     (let v = seen env (tm_WorkspaceID t) db in
      case department_ws v (tm_DepartmentID t) of
        None \<Rightarrow> Inl ErrInvalidInput
      | Some w \<Rightarrow>
          if w \<noteq> tm_WorkspaceID t then Inl ErrWorkspaceMismatch
          else if list_ex (same_team_name env (tm_DepartmentID t) (tm_Name t)) (og_teams v) then Inl ErrNameTaken
          else if \<not> not_blank (tm_Name t) then Inl ErrDatabase
          else if list_ex (\<lambda>r. tmr_id r = tm_ID t \<or> same_team_name env (tm_DepartmentID t) (tm_Name t) r) (og_teams db) then Inl ErrNameTaken
          else let r = \<lparr>tmr_id = tm_ID t, tmr_department_id = tm_DepartmentID t, tmr_name = tm_Name t, tmr_created_at = to_micro (tm_CreatedAt t)\<rparr>
               in Inr (db\<lparr>og_teams := og_teams db @ [r]\<rparr>, t\<lparr>tm_CreatedAt := tmr_created_at r, tm_UpdatedAt := tmr_created_at r\<rparr>))"

definition team_owned :: "org_db \<Rightarrow> uuid \<Rightarrow> uuid \<Rightarrow> team_row \<Rightarrow> bool" where
  "team_owned db ws i r \<longleftrightarrow> tmr_id r = i \<and> team_ws db r = Some ws"

definition TeamStore_Get :: "org_env \<Rightarrow> uuid \<Rightarrow> uuid \<Rightarrow> org_db \<Rightarrow> (org_error, Team) result" where
  "TeamStore_Get env ws i db =
     (let v = seen env ws db in case find (team_owned v ws i) (og_teams v) of None \<Rightarrow> Inl ErrNotFound | Some r \<Rightarrow> Inr (scanTeam v r))"

text \<open>The teams of the workspace, of one department if the query names one.\<close>

definition team_wanted :: "org_db \<Rightarrow> uuid \<Rightarrow> uuid option \<Rightarrow> team_row \<Rightarrow> bool" where
  "team_wanted db ws dept r \<longleftrightarrow> team_ws db r = Some ws \<and> (case dept of None \<Rightarrow> True | Some d \<Rightarrow> tmr_department_id r = d)"

definition TeamStore_List :: "org_env \<Rightarrow> uuid \<Rightarrow> uuid option \<Rightarrow> org_db \<Rightarrow> Team list" where
  "TeamStore_List env ws dept db =
     (let v = seen env ws db in
      map (scanTeam v) (sort_key (\<lambda>r. (tmr_created_at r, oe_collate env (tmr_name r))) (filter (team_wanted v ws dept) (og_teams v))))"

definition team_key :: "team_row \<Rightarrow> instant \<times> uuid" where
  "team_key r = (tmr_created_at r, tmr_id r)"

definition TeamStore_ListPage :: "org_env \<Rightarrow> uuid \<Rightarrow> org_query \<Rightarrow> org_db \<Rightarrow> (org_error, Team org_page) result" where
  "TeamStore_ListPage env ws q0 db =
     (let q = org_Normalize q0;
          v = seen env ws db;
          at = (case oq_Cursor q of
                  None \<Rightarrow> Inr None
                | Some i \<Rightarrow> (case find_team v i of None \<Rightarrow> Inl ErrInvalidInput | Some r \<Rightarrow> Inr (Some (tmr_created_at r, i))))
      in case at of
           Inl e \<Rightarrow> Inl e
         | Inr k \<Rightarrow>
             (case cut_page tmr_id (oq_Limit q)
                     (newest_first team_key (filter (\<lambda>r. team_wanted v ws (oq_Parent q) r \<and> below team_key k r) (og_teams v))) of
                (rows, next) \<Rightarrow> Inr \<lparr>op_Items = map (scanTeam v) rows, op_NextCursor = next_cursor env next, op_Limit = oq_Limit q\<rparr>))"

text \<open>The statement \<^verbatim>\<open>UPDATE\<close> names the team alone; what else it may touch is up to the row policies.\<close>

definition team_put :: "Team \<Rightarrow> team_row \<Rightarrow> team_row" where
  "team_put t r = r\<lparr>tmr_department_id := tm_DepartmentID t, tmr_name := tm_Name t\<rparr>"

definition TeamStore_Update :: "org_env \<Rightarrow> uuid \<Rightarrow> Team \<Rightarrow> org_db \<Rightarrow> (org_error, org_db \<times> Team) result" where
  "TeamStore_Update env ws t db =
     (let v = seen env ws db in
      case department_ws v (tm_DepartmentID t) of
        None \<Rightarrow> Inl ErrInvalidInput
      | Some w \<Rightarrow>
          if w \<noteq> ws then Inl ErrWorkspaceMismatch
          else if list_ex (\<lambda>r. same_team_name env (tm_DepartmentID t) (tm_Name t) r \<and> tmr_id r \<noteq> tm_ID t) (og_teams v) then Inl ErrNameTaken
          else case find_team v (tm_ID t) of
                 None \<Rightarrow> Inl ErrNotFound
               | Some r \<Rightarrow>
                   if \<not> not_blank (tm_Name t) then Inl ErrDatabase
                   else Inr (db\<lparr>og_teams := upd_where (\<lambda>r. tmr_id r = tm_ID t) (team_put t) (og_teams db)\<rparr>,
                             \<lparr>tm_ID = tmr_id r, tm_DepartmentID = tm_DepartmentID t, tm_WorkspaceID = ws, tm_Name = tm_Name t,
                              tm_CreatedAt = tmr_created_at r, tm_UpdatedAt = tmr_created_at r\<rparr>))"

definition TeamStore_Delete :: "org_env \<Rightarrow> uuid \<Rightarrow> uuid \<Rightarrow> org_db \<Rightarrow> (org_error, org_db) result" where
  "TeamStore_Delete env ws i db =
     (let v = seen env ws db in
      if find (team_owned v ws i) (og_teams v) = None then Inl ErrNotFound else delete_teams (\<lambda>t. tmr_id t = i) db)"

text \<open>The workspace of a team and its department.\<close>

definition team_parents :: "org_db \<Rightarrow> uuid \<Rightarrow> (uuid \<times> uuid) option" where
  "team_parents db i =
     (case find_team db i of
        None \<Rightarrow> None
      | Some t \<Rightarrow> map_option (\<lambda>w. (w, tmr_department_id t)) (team_ws db t))"

definition TeamResolverAdapter_Get :: "org_env \<Rightarrow> uuid \<Rightarrow> uuid \<Rightarrow> org_db \<Rightarrow> (org_error, uuid \<times> uuid) result" where
  "TeamResolverAdapter_Get env ws i db =
     (case team_parents (seen env ws db) i of
        None \<Rightarrow> Inl ErrNotFound
      | Some (w, dept) \<Rightarrow> if w \<noteq> ws then Inl ErrWorkspaceMismatch else Inr (w, dept))"

subsection \<open>The employee store\<close>

definition jsonValue :: "json option \<Rightarrow> json" where
  "jsonValue v = (case v of None \<Rightarrow> JObject [] | Some j \<Rightarrow> j)"

text \<open>A row of the join with team and department. A JSON column that is not \<^verbatim>\<open>NULL\<close> is decoded into an \<^verbatim>\<open>any\<close>.\<close>

definition scanEmployee :: "org_env \<Rightarrow> org_db \<Rightarrow> employee_row \<Rightarrow> AIEmployee" where
  "scanEmployee env db r =
     \<lparr>emp_ID = epr_id r, emp_TeamID = epr_team_id r,
      emp_DepartmentID = (case find_team db (epr_team_id r) of None \<Rightarrow> uuid_Nil | Some t \<Rightarrow> tmr_department_id t),
      emp_WorkspaceID = (case employee_ws db r of None \<Rightarrow> uuid_Nil | Some w \<Rightarrow> w),
      emp_Name = epr_name r, emp_Role = epr_role r, emp_Capabilities = epr_capabilities r,
      emp_Permissions = Option.bind (epr_permissions r) (oe_any env), emp_MemoryID = epr_memory_id r,
      emp_KnowledgeAccess = Option.bind (epr_knowledge_access r) (oe_any env), emp_CurrentTaskID = epr_current_task_id r,
      emp_CreatedAt = epr_created_at r, emp_UpdatedAt = epr_updated_at r\<rparr>"

definition same_employee_name :: "org_env \<Rightarrow> uuid \<Rightarrow> string \<Rightarrow> employee_row \<Rightarrow> bool" where
  "same_employee_name env team name r \<longleftrightarrow> epr_team_id r = team \<and> oe_lower env (epr_name r) = oe_lower env name"

text \<open>\<^verbatim>\<open>nullableUUID\<close> writes a nil pointer as \<^verbatim>\<open>NULL\<close>; \<^verbatim>\<open>memory_id\<close> is never written.\<close>

definition AIEmployeeStore_Create :: "org_env \<Rightarrow> AIEmployee \<Rightarrow> org_db \<Rightarrow> (org_error, org_db \<times> AIEmployee) result" where
  "AIEmployeeStore_Create env e0 db =
     (let v = seen env (emp_WorkspaceID e0) db in
      case team_parents v (emp_TeamID e0) of
        None \<Rightarrow> Inl ErrInvalidInput
      | Some (w, dept) \<Rightarrow>
          if w \<noteq> emp_WorkspaceID e0 then Inl ErrWorkspaceMismatch
          else let e = e0\<lparr>emp_DepartmentID := dept\<rparr> in
               if list_ex (same_employee_name env (emp_TeamID e) (emp_Name e)) (og_employees v) then Inl ErrNameTaken
               else if \<not> not_blank (emp_Name e) \<or> \<not> not_blank (emp_Role e) then Inl ErrDatabase
               else if list_ex (\<lambda>r. epr_id r = emp_ID e \<or> same_employee_name env (emp_TeamID e) (emp_Name e) r) (og_employees db) then Inl ErrNameTaken
               else let r = \<lparr>epr_id = emp_ID e, epr_team_id = emp_TeamID e, epr_name = emp_Name e, epr_role = emp_Role e,
                             epr_capabilities = emp_Capabilities e, epr_permissions = Some (jsonValue (emp_Permissions e)), epr_memory_id = None,
                             epr_knowledge_access = Some (jsonValue (emp_KnowledgeAccess e)), epr_current_task_id = emp_CurrentTaskID e,
                             epr_created_at = to_micro (emp_CreatedAt e), epr_updated_at = to_micro (emp_UpdatedAt e)\<rparr>
                    in Inr (db\<lparr>og_employees := og_employees db @ [r]\<rparr>,
                            e\<lparr>emp_CreatedAt := epr_created_at r, emp_UpdatedAt := epr_updated_at r\<rparr>))"

definition employee_owned :: "org_db \<Rightarrow> uuid \<Rightarrow> uuid \<Rightarrow> employee_row \<Rightarrow> bool" where
  "employee_owned db ws i r \<longleftrightarrow> epr_id r = i \<and> employee_ws db r = Some ws"

definition AIEmployeeStore_Get :: "org_env \<Rightarrow> uuid \<Rightarrow> uuid \<Rightarrow> org_db \<Rightarrow> (org_error, AIEmployee) result" where
  "AIEmployeeStore_Get env ws i db =
     (let v = seen env ws db in case find (employee_owned v ws i) (og_employees v) of None \<Rightarrow> Inl ErrNotFound | Some r \<Rightarrow> Inr (scanEmployee env v r))"

definition employee_wanted :: "org_db \<Rightarrow> uuid \<Rightarrow> uuid option \<Rightarrow> employee_row \<Rightarrow> bool" where
  "employee_wanted db ws team r \<longleftrightarrow> employee_ws db r = Some ws \<and> (case team of None \<Rightarrow> True | Some t \<Rightarrow> epr_team_id r = t)"

definition AIEmployeeStore_List :: "org_env \<Rightarrow> uuid \<Rightarrow> uuid option \<Rightarrow> org_db \<Rightarrow> AIEmployee list" where
  "AIEmployeeStore_List env ws team db =
     (let v = seen env ws db in
      map (scanEmployee env v) (sort_key (\<lambda>r. (epr_created_at r, oe_collate env (epr_name r))) (filter (employee_wanted v ws team) (og_employees v))))"

definition employee_key :: "employee_row \<Rightarrow> instant \<times> uuid" where
  "employee_key r = (epr_created_at r, epr_id r)"

definition AIEmployeeStore_ListPage :: "org_env \<Rightarrow> uuid \<Rightarrow> org_query \<Rightarrow> org_db \<Rightarrow> (org_error, AIEmployee org_page) result" where
  "AIEmployeeStore_ListPage env ws q0 db =
     (let q = org_Normalize q0;
          v = seen env ws db;
          at = (case oq_Cursor q of
                  None \<Rightarrow> Inr None
                | Some i \<Rightarrow> (case find_employee v i of None \<Rightarrow> Inl ErrInvalidInput | Some r \<Rightarrow> Inr (Some (epr_created_at r, i))))
      in case at of
           Inl e \<Rightarrow> Inl e
         | Inr k \<Rightarrow>
             (case cut_page epr_id (oq_Limit q)
                     (newest_first employee_key (filter (\<lambda>r. employee_wanted v ws (oq_Parent q) r \<and> below employee_key k r) (og_employees v))) of
                (rows, next) \<Rightarrow> Inr \<lparr>op_Items = map (scanEmployee env v) rows, op_NextCursor = next_cursor env next, op_Limit = oq_Limit q\<rparr>))"

text \<open>The columns an update sets; the clock is the database's.\<close>

definition employee_put :: "instant \<Rightarrow> AIEmployee \<Rightarrow> employee_row \<Rightarrow> employee_row" where
  "employee_put now e r =
     r\<lparr>epr_team_id := emp_TeamID e, epr_name := emp_Name e, epr_role := emp_Role e, epr_capabilities := emp_Capabilities e,
       epr_permissions := Some (jsonValue (emp_Permissions e)), epr_knowledge_access := Some (jsonValue (emp_KnowledgeAccess e)),
       epr_current_task_id := emp_CurrentTaskID e, epr_updated_at := to_micro now\<rparr>"

definition AIEmployeeStore_Update :: "org_env \<Rightarrow> instant \<Rightarrow> uuid \<Rightarrow> AIEmployee \<Rightarrow> org_db \<Rightarrow> (org_error, org_db \<times> AIEmployee) result" where
  "AIEmployeeStore_Update env now ws e db =
     (let v = seen env ws db in
      case team_parents v (emp_TeamID e) of
        None \<Rightarrow> Inl ErrInvalidInput
      | Some (w, dept) \<Rightarrow>
          if w \<noteq> ws then Inl ErrWorkspaceMismatch
          else if list_ex (\<lambda>r. same_employee_name env (emp_TeamID e) (emp_Name e) r \<and> epr_id r \<noteq> emp_ID e) (og_employees v) then Inl ErrNameTaken
          else case find_employee v (emp_ID e) of
                 None \<Rightarrow> Inl ErrNotFound
               | Some r \<Rightarrow>
                   if \<not> not_blank (emp_Name e) \<or> \<not> not_blank (emp_Role e) then Inl ErrDatabase
                   else Inr (db\<lparr>og_employees := upd_where (\<lambda>r. epr_id r = emp_ID e) (employee_put now e) (og_employees db)\<rparr>,
                             (scanEmployee env v (employee_put now e r))\<lparr>emp_DepartmentID := dept, emp_WorkspaceID := ws\<rparr>))"

definition AIEmployeeStore_Delete :: "org_env \<Rightarrow> uuid \<Rightarrow> uuid \<Rightarrow> org_db \<Rightarrow> (org_error, org_db) result" where
  "AIEmployeeStore_Delete env ws i db =
     (let v = seen env ws db in
      if find (employee_owned v ws i) (og_employees v) = None then Inl ErrNotFound else delete_employees (\<lambda>e. epr_id e = i) db)"

subsection \<open>The services\<close>

definition NameMaxRunes :: nat where "NameMaxRunes = 100"
definition RoleMaxRunes :: nat where "RoleMaxRunes = 100"

definition department_Create :: "org_env \<Rightarrow> instant \<Rightarrow> uuid \<Rightarrow> uuid \<Rightarrow> string \<Rightarrow> org_db \<Rightarrow> (org_error, org_db \<times> Department) result" where
  "department_Create env now gen ws name0 db =
     (let name = TrimSpace name0 in
      if name = [] then Inl ErrInvalidInput
      else if RuneCount name > NameMaxRunes then Inl ErrInvalidInput
      else if ws = uuid_Nil then Inl ErrInvalidInput
      else case department_New now gen ws name of
             Inl e \<Rightarrow> Inl e
           | Inr d \<Rightarrow> DepartmentStore_Create env d db)"

definition department_Get :: "org_env \<Rightarrow> uuid \<Rightarrow> uuid \<Rightarrow> org_db \<Rightarrow> (org_error, Department) result" where
  "department_Get env ws i db = (if ws = uuid_Nil \<or> i = uuid_Nil then Inl ErrInvalidInput else DepartmentStore_Get env ws i db)"

definition department_List :: "org_env \<Rightarrow> uuid \<Rightarrow> org_db \<Rightarrow> (org_error, Department list) result" where
  "department_List env ws db = (if ws = uuid_Nil then Inl ErrWorkspaceMismatch else Inr (DepartmentStore_List env ws db))"

definition department_ListPage :: "org_env \<Rightarrow> uuid \<Rightarrow> org_query \<Rightarrow> org_db \<Rightarrow> (org_error, Department org_page) result" where
  "department_ListPage env ws q db =
     (if ws = uuid_Nil then Inl ErrWorkspaceMismatch else DepartmentStore_ListPage env ws (org_Normalize q) db)"

text \<open>An update reads the record in one transaction, on \<open>snap\<close>, and writes it in a later one.\<close>

definition department_Update :: "org_env \<Rightarrow> org_db \<Rightarrow> uuid \<Rightarrow> uuid \<Rightarrow> string \<Rightarrow> org_db \<Rightarrow> (org_error, org_db \<times> Department) result" where
  "department_Update env snap ws i name0 db =
     (let name = TrimSpace name0 in
      if name = [] then Inl ErrInvalidInput
      else if RuneCount name > NameMaxRunes then Inl ErrInvalidInput
      else case DepartmentStore_Get env ws i snap of
             Inl e \<Rightarrow> Inl e
           | Inr existing \<Rightarrow> DepartmentStore_Update env ws (existing\<lparr>dep_Name := name\<rparr>) db)"

definition department_Delete :: "org_env \<Rightarrow> uuid \<Rightarrow> uuid \<Rightarrow> org_db \<Rightarrow> (org_error, org_db) result" where
  "department_Delete env ws i db = (if ws = uuid_Nil \<or> i = uuid_Nil then Inl ErrInvalidInput else DepartmentStore_Delete env ws i db)"

text \<open>
  The resolver a service asks about a parent, if it has one, in a transaction of its own: a parent
  that is not found is invalid input of the caller.
\<close>

type_synonym 'p resolver = "uuid \<Rightarrow> uuid \<Rightarrow> (org_error, 'p) result"

definition resolve :: "'p resolver option \<Rightarrow> 'p \<Rightarrow> uuid \<Rightarrow> uuid \<Rightarrow> (org_error, 'p) result" where
  "resolve lookup absent ws i =
     (case lookup of
        None \<Rightarrow> Inr absent
      | Some get \<Rightarrow>
          (case get ws i of
             Inl ErrNotFound \<Rightarrow> Inl ErrInvalidInput
           | Inl ErrWorkspaceMismatch \<Rightarrow> Inl ErrWorkspaceMismatch
           | Inl _ \<Rightarrow> Inl ErrDatabase
           | Inr p \<Rightarrow> Inr p))"

definition team_Create ::
  "org_env \<Rightarrow> uuid resolver option \<Rightarrow> instant \<Rightarrow> uuid \<Rightarrow> uuid \<Rightarrow> uuid \<Rightarrow> string \<Rightarrow> org_db \<Rightarrow> (org_error, org_db \<times> Team) result" where
  "team_Create env lookup now gen ws dept name0 db =
     (let name = TrimSpace name0 in
      if name = [] then Inl ErrInvalidInput
      else if RuneCount name > NameMaxRunes then Inl ErrInvalidInput
      else if ws = uuid_Nil \<or> dept = uuid_Nil then Inl ErrInvalidInput
      else case resolve lookup uuid_Nil ws dept of
             Inl e \<Rightarrow> Inl e
           | Inr _ \<Rightarrow>
               (case team_New now gen dept ws name of
                  Inl e \<Rightarrow> Inl e
                | Inr t \<Rightarrow> TeamStore_Create env t db))"

definition team_Get :: "org_env \<Rightarrow> uuid \<Rightarrow> uuid \<Rightarrow> org_db \<Rightarrow> (org_error, Team) result" where
  "team_Get env ws i db = (if ws = uuid_Nil \<or> i = uuid_Nil then Inl ErrInvalidInput else TeamStore_Get env ws i db)"

definition team_List :: "org_env \<Rightarrow> uuid \<Rightarrow> uuid option \<Rightarrow> org_db \<Rightarrow> (org_error, Team list) result" where
  "team_List env ws dept db = (if ws = uuid_Nil then Inl ErrWorkspaceMismatch else Inr (TeamStore_List env ws dept db))"

definition team_ListPage :: "org_env \<Rightarrow> uuid \<Rightarrow> org_query \<Rightarrow> org_db \<Rightarrow> (org_error, Team org_page) result" where
  "team_ListPage env ws q db = (if ws = uuid_Nil then Inl ErrWorkspaceMismatch else TeamStore_ListPage env ws (org_Normalize q) db)"

text \<open>An empty name and a missing department leave the field alone.\<close>

definition team_patch :: "uuid resolver option \<Rightarrow> uuid \<Rightarrow> string \<Rightarrow> uuid option \<Rightarrow> Team \<Rightarrow> (org_error, Team) result" where
  "team_patch lookup ws name dept existing =
     (if name \<noteq> [] \<and> TrimSpace name = [] then Inl ErrInvalidInput
      else if name \<noteq> [] \<and> RuneCount (TrimSpace name) > NameMaxRunes then Inl ErrInvalidInput
      else let t = (if name \<noteq> [] then existing\<lparr>tm_Name := TrimSpace name\<rparr> else existing) in
           case dept of
             None \<Rightarrow> Inr t
           | Some d \<Rightarrow>
               if d = uuid_Nil then Inl ErrInvalidInput
               else (case resolve lookup uuid_Nil ws d of Inl e \<Rightarrow> Inl e | Inr _ \<Rightarrow> Inr (t\<lparr>tm_DepartmentID := d\<rparr>)))"

definition team_Update ::
  "org_env \<Rightarrow> uuid resolver option \<Rightarrow> org_db \<Rightarrow> uuid \<Rightarrow> uuid \<Rightarrow> string \<Rightarrow> uuid option \<Rightarrow> org_db \<Rightarrow> (org_error, org_db \<times> Team) result" where
  "team_Update env lookup snap ws i name dept db =
     (if ws = uuid_Nil \<or> i = uuid_Nil then Inl ErrInvalidInput
      else case TeamStore_Get env ws i snap of
             Inl e \<Rightarrow> Inl e
           | Inr existing \<Rightarrow>
               (case team_patch lookup ws name dept existing of
                  Inl e \<Rightarrow> Inl e
                | Inr t \<Rightarrow> TeamStore_Update env ws t db))"

definition team_Delete :: "org_env \<Rightarrow> uuid \<Rightarrow> uuid \<Rightarrow> org_db \<Rightarrow> (org_error, org_db) result" where
  "team_Delete env ws i db = (if ws = uuid_Nil \<or> i = uuid_Nil then Inl ErrInvalidInput else TeamStore_Delete env ws i db)"

definition employee_Create ::
  "org_env \<Rightarrow> (uuid \<times> uuid) resolver option \<Rightarrow> instant \<Rightarrow> uuid \<Rightarrow> uuid \<Rightarrow> uuid \<Rightarrow> string \<Rightarrow> string \<Rightarrow> string list option \<Rightarrow> org_db \<Rightarrow>
   (org_error, org_db \<times> AIEmployee) result" where
  "employee_Create env lookup now gen ws team name0 role0 capabilities db =
     (let name = TrimSpace name0; role = TrimSpace role0 in
      if name = [] \<or> role = [] then Inl ErrInvalidInput
      else if RuneCount name > NameMaxRunes \<or> RuneCount role > RoleMaxRunes then Inl ErrInvalidInput
      else if ws = uuid_Nil \<or> team = uuid_Nil then Inl ErrInvalidInput
      else case resolve lookup (uuid_Nil, uuid_Nil) ws team of
             Inl e \<Rightarrow> Inl e
           | Inr (_, dept) \<Rightarrow>
               (case employee_New now gen team ws dept name role of
                  Inl e \<Rightarrow> Inl e
                | Inr e \<Rightarrow> AIEmployeeStore_Create env (e\<lparr>emp_Capabilities := Some (case capabilities of None \<Rightarrow> [] | Some c \<Rightarrow> c)\<rparr>) db))"

definition employee_Get :: "org_env \<Rightarrow> uuid \<Rightarrow> uuid \<Rightarrow> org_db \<Rightarrow> (org_error, AIEmployee) result" where
  "employee_Get env ws i db = (if ws = uuid_Nil \<or> i = uuid_Nil then Inl ErrInvalidInput else AIEmployeeStore_Get env ws i db)"

definition employee_List :: "org_env \<Rightarrow> uuid \<Rightarrow> uuid option \<Rightarrow> org_db \<Rightarrow> (org_error, AIEmployee list) result" where
  "employee_List env ws team db = (if ws = uuid_Nil then Inl ErrWorkspaceMismatch else Inr (AIEmployeeStore_List env ws team db))"

definition employee_ListPage :: "org_env \<Rightarrow> uuid \<Rightarrow> org_query \<Rightarrow> org_db \<Rightarrow> (org_error, AIEmployee org_page) result" where
  "employee_ListPage env ws q db =
     (if ws = uuid_Nil then Inl ErrWorkspaceMismatch else AIEmployeeStore_ListPage env ws (org_Normalize q) db)"

text \<open>The arguments of an update; \<open>None\<close> leaves a field alone, and a nil task takes the current one away.\<close>

record employee_changes =
  ec_name :: "string option"
  ec_role :: "string option"
  ec_capabilities :: "string list option"
  ec_team :: "uuid option"
  ec_task :: "uuid option"

text \<open>A field that must be a text of at most a number of runes.\<close>

definition bad_text :: "nat \<Rightarrow> string option \<Rightarrow> bool" where
  "bad_text most v = (case v of None \<Rightarrow> False | Some s \<Rightarrow> TrimSpace s = [] \<or> RuneCount (TrimSpace s) > most)"

definition employee_patch :: "(uuid \<times> uuid) resolver option \<Rightarrow> uuid \<Rightarrow> employee_changes \<Rightarrow> AIEmployee \<Rightarrow> (org_error, AIEmployee) result" where
  "employee_patch lookup ws ch existing =
     (if bad_text NameMaxRunes (ec_name ch) then Inl ErrInvalidInput
      else if bad_text RoleMaxRunes (ec_role ch) then Inl ErrInvalidInput
      else let e = existing\<lparr>emp_Name := (case ec_name ch of None \<Rightarrow> emp_Name existing | Some s \<Rightarrow> TrimSpace s),
                            emp_Role := (case ec_role ch of None \<Rightarrow> emp_Role existing | Some s \<Rightarrow> TrimSpace s),
                            emp_Capabilities := (case ec_capabilities ch of None \<Rightarrow> emp_Capabilities existing | Some c \<Rightarrow> Some c)\<rparr>;
               moved = (case ec_team ch of
                          None \<Rightarrow> Inr e
                        | Some t \<Rightarrow>
                            if t = uuid_Nil then Inl ErrInvalidInput
                            else (case resolve lookup (uuid_Nil, emp_DepartmentID e) ws t of
                                    Inl x \<Rightarrow> Inl x
                                  | Inr (_, dept) \<Rightarrow> Inr (e\<lparr>emp_DepartmentID := dept, emp_TeamID := t\<rparr>)))
           in case moved of
                Inl x \<Rightarrow> Inl x
              | Inr e \<Rightarrow>
                  Inr (case ec_task ch of
                         None \<Rightarrow> e
                       | Some t \<Rightarrow> e\<lparr>emp_CurrentTaskID := (if t = uuid_Nil then None else Some t)\<rparr>))"

definition employee_Update ::
  "org_env \<Rightarrow> (uuid \<times> uuid) resolver option \<Rightarrow> instant \<Rightarrow> org_db \<Rightarrow> uuid \<Rightarrow> uuid \<Rightarrow> employee_changes \<Rightarrow> org_db \<Rightarrow>
   (org_error, org_db \<times> AIEmployee) result" where
  "employee_Update env lookup now snap ws i ch db =
     (if ws = uuid_Nil \<or> i = uuid_Nil then Inl ErrInvalidInput
      else case AIEmployeeStore_Get env ws i snap of
             Inl e \<Rightarrow> Inl e
           | Inr existing \<Rightarrow>
               (case employee_patch lookup ws ch existing of
                  Inl e \<Rightarrow> Inl e
                | Inr e \<Rightarrow>
                    map_sum id (\<lambda>(db', u). (db', if ec_task ch = Some uuid_Nil then u\<lparr>emp_CurrentTaskID := None\<rparr> else u))
                      (AIEmployeeStore_Update env now ws e db)))"

definition employee_Delete :: "org_env \<Rightarrow> uuid \<Rightarrow> uuid \<Rightarrow> org_db \<Rightarrow> (org_error, org_db) result" where
  "employee_Delete env ws i db = (if ws = uuid_Nil \<or> i = uuid_Nil then Inl ErrInvalidInput else AIEmployeeStore_Delete env ws i db)"

end
