(* ===== verification/Org_Hierarchy.thy ===== *)
theory Org_Hierarchy
  imports Organization
begin

text \<open>
  What the organisation promises: the hierarchy stays whole, and no workspace can touch another. The
  calls of the services are the steps of a relation. Each call that writes acts on the tables as they are, after
  it has read a record from the tables of some earlier moment and asked a resolver that may answer anything.
\<close>

subsection \<open>Histories\<close>

datatype org_call =
    CreateDepartment instant uuid string
  | UpdateDepartment org_db uuid string
  | DeleteDepartment uuid
  | CreateTeam "uuid resolver option" instant uuid uuid string
  | UpdateTeam "uuid resolver option" org_db uuid string "uuid option"
  | DeleteTeam uuid
  | CreateEmployee "(uuid \<times> uuid) resolver option" instant uuid uuid string string "string list option"
  | UpdateEmployee "(uuid \<times> uuid) resolver option" instant org_db uuid employee_changes
  | DeleteEmployee uuid

fun org_run :: "org_env \<Rightarrow> uuid \<Rightarrow> org_call \<Rightarrow> org_db \<Rightarrow> (org_error, org_db) result" where
  "org_run env ws (CreateDepartment now gen name) db = map_sum id fst (department_Create env now gen ws name db)"
| "org_run env ws (UpdateDepartment snap i name) db = map_sum id fst (department_Update env snap ws i name db)"
| "org_run env ws (DeleteDepartment i) db = department_Delete env ws i db"
| "org_run env ws (CreateTeam lookup now gen dept name) db = map_sum id fst (team_Create env lookup now gen ws dept name db)"
| "org_run env ws (UpdateTeam lookup snap i name dept) db = map_sum id fst (team_Update env lookup snap ws i name dept db)"
| "org_run env ws (DeleteTeam i) db = team_Delete env ws i db"
| "org_run env ws (CreateEmployee lookup now gen team name role capabilities) db =
     map_sum id fst (employee_Create env lookup now gen ws team name role capabilities db)"
| "org_run env ws (UpdateEmployee lookup now snap i ch) db = map_sum id fst (employee_Update env lookup now snap ws i ch db)"
| "org_run env ws (DeleteEmployee i) db = employee_Delete env ws i db"

text \<open>The tables a call has read, and the identifier it draws.\<close>

fun call_snapshot :: "org_call \<Rightarrow> org_db option" where
  "call_snapshot (UpdateDepartment snap _ _) = Some snap"
| "call_snapshot (UpdateTeam _ snap _ _ _) = Some snap"
| "call_snapshot (UpdateEmployee _ _ snap _ _) = Some snap"
| "call_snapshot _ = None"

fun call_draws :: "org_call \<Rightarrow> uuid option" where
  "call_draws (CreateDepartment _ gen _) = Some gen"
| "call_draws (CreateTeam _ _ gen _ _) = Some gen"
| "call_draws (CreateEmployee _ _ gen _ _ _ _) = Some gen"
| "call_draws _ = None"

record org_world =
  ow_db :: org_db
  ow_past :: "org_db set"

definition org_dbs :: "org_world \<Rightarrow> org_db set" where
  "org_dbs w = insert (ow_db w) (ow_past w)"

definition org_after :: "org_world \<Rightarrow> org_db \<Rightarrow> org_world" where
  "org_after w db = \<lparr>ow_db = db, ow_past = org_dbs w\<rparr>"

definition org_ids :: "org_db \<Rightarrow> uuid set" where
  "org_ids db = wsr_id ` set (og_workspaces db) \<union> dpr_id ` set (og_departments db) \<union> tmr_id ` set (og_teams db) \<union> epr_id ` set (og_employees db)"

text \<open>\<^verbatim>\<open>uuid.New\<close> never draws an identifier again.\<close>

definition org_fresh :: "org_world \<Rightarrow> uuid \<Rightarrow> bool" where
  "org_fresh w gen \<longleftrightarrow> (\<forall>db \<in> org_dbs w. gen \<notin> org_ids db)"

definition call_possible :: "org_world \<Rightarrow> org_call \<Rightarrow> bool" where
  "call_possible w c \<longleftrightarrow> pred_option (\<lambda>snap. snap \<in> org_dbs w) (call_snapshot c) \<and> pred_option (org_fresh w) (call_draws c)"

inductive org_step :: "org_env \<Rightarrow> org_world \<Rightarrow> org_world \<Rightarrow> bool" for env where
  org_request: "org_run env ws c (ow_db w) = Inr db \<Longrightarrow> call_possible w c \<Longrightarrow> org_step env w (org_after w db)"
| org_workspace: "WorkspaceStore_Create now gen name (ow_db w) = Inr (db, r) \<Longrightarrow> org_fresh w gen \<Longrightarrow> org_step env w (org_after w db)"
| org_execution: "e \<in> epr_id ` set (og_employees (ow_db w)) \<Longrightarrow>
    org_step env w (org_after w ((ow_db w)\<lparr>og_busy := e # og_busy (ow_db w)\<rparr>))"

definition org_initial :: "org_world \<Rightarrow> bool" where
  "org_initial w \<longleftrightarrow> og_workspaces (ow_db w) = [] \<and> og_departments (ow_db w) = [] \<and> og_teams (ow_db w) = [] \<and> og_employees (ow_db w) = []
     \<and> og_busy (ow_db w) = [] \<and> ow_past w = {}"

subsection \<open>The invariant\<close>

definition good_name :: "string \<Rightarrow> bool" where
  "good_name s \<longleftrightarrow> s \<noteq> [] \<and> TrimSpace s = s \<and> RuneCount s \<le> 100"

definition departments_ok :: "org_env \<Rightarrow> org_db \<Rightarrow> bool" where
  "departments_ok env db \<longleftrightarrow> distinct (map dpr_id (og_departments db))
     \<and> distinct (map (\<lambda>r. (dpr_workspace_id r, oe_lower env (dpr_name r))) (og_departments db))
     \<and> (\<forall>r \<in> set (og_departments db). dpr_workspace_id r \<in> wsr_id ` set (og_workspaces db) \<and> good_name (dpr_name r))"

definition teams_ok :: "org_env \<Rightarrow> org_db \<Rightarrow> bool" where
  "teams_ok env db \<longleftrightarrow> distinct (map tmr_id (og_teams db))
     \<and> distinct (map (\<lambda>r. (tmr_department_id r, oe_lower env (tmr_name r))) (og_teams db))
     \<and> (\<forall>r \<in> set (og_teams db). tmr_department_id r \<in> dpr_id ` set (og_departments db) \<and> good_name (tmr_name r))"

definition employees_ok :: "org_env \<Rightarrow> org_db \<Rightarrow> bool" where
  "employees_ok env db \<longleftrightarrow> distinct (map epr_id (og_employees db))
     \<and> distinct (map (\<lambda>r. (epr_team_id r, oe_lower env (epr_name r))) (og_employees db))
     \<and> (\<forall>r \<in> set (og_employees db). epr_team_id r \<in> tmr_id ` set (og_teams db) \<and> good_name (epr_name r) \<and> good_name (epr_role r))
     \<and> set (og_busy db) \<subseteq> epr_id ` set (og_employees db)"

definition org_ok :: "org_env \<Rightarrow> org_db \<Rightarrow> bool" where
  "org_ok env db \<longleftrightarrow> distinct (map wsr_id (og_workspaces db)) \<and> distinct (map wsr_name (og_workspaces db))
     \<and> departments_ok env db \<and> teams_ok env db \<and> employees_ok env db"

text \<open>The workspace of a department, a team and an employee, by identifier.\<close>

definition team_home :: "org_db \<Rightarrow> uuid \<Rightarrow> uuid option" where
  "team_home db i = (case find_team db i of None \<Rightarrow> None | Some t \<Rightarrow> team_ws db t)"

definition employee_home :: "org_db \<Rightarrow> uuid \<Rightarrow> uuid option" where
  "employee_home db i = (case find_employee db i of None \<Rightarrow> None | Some e \<Rightarrow> employee_ws db e)"

definition agree :: "'a option \<Rightarrow> 'a option \<Rightarrow> bool" where
  "agree x y \<longleftrightarrow> x = None \<or> y = None \<or> x = y"

definition homes_agree :: "org_db \<Rightarrow> org_db \<Rightarrow> bool" where
  "homes_agree p q \<longleftrightarrow> (\<forall>i. agree (department_ws p i) (department_ws q i) \<and> agree (team_home p i) (team_home q i)
     \<and> agree (employee_home p i) (employee_home q i))"

definition org_inv :: "org_env \<Rightarrow> org_world \<Rightarrow> bool" where
  "org_inv env w \<longleftrightarrow> (\<forall>p \<in> org_dbs w. org_ok env p \<and> homes_agree p (ow_db w))"

text \<open>The part of a workspace.\<close>

definition org_view :: "uuid \<Rightarrow> org_db \<Rightarrow> department_row list \<times> team_row list \<times> employee_row list" where
  "org_view ws db =
     (filter (\<lambda>d. dpr_workspace_id d = ws) (og_departments db), filter (\<lambda>t. team_ws db t = Some ws) (og_teams db),
      filter (\<lambda>e. employee_ws db e = Some ws) (og_employees db))"

subsection \<open>Rows and their workspaces\<close>

lemma find_id_iff: "distinct (map k rows) \<Longrightarrow> find (\<lambda>r. k r = i) rows = Some r \<longleftrightarrow> r \<in> set rows \<and> k r = i"
  using find_key [of k rows r] by (auto dest: find_SomeD)

lemma find_department_Some: "departments_ok env db \<Longrightarrow> find_department db i = Some r \<longleftrightarrow> r \<in> set (og_departments db) \<and> dpr_id r = i"
  by (simp add: find_department_def departments_ok_def find_id_iff)

lemma find_team_Some: "teams_ok env db \<Longrightarrow> find_team db i = Some r \<longleftrightarrow> r \<in> set (og_teams db) \<and> tmr_id r = i"
  by (simp add: find_team_def teams_ok_def find_id_iff)

lemma find_employee_Some: "employees_ok env db \<Longrightarrow> find_employee db i = Some r \<longleftrightarrow> r \<in> set (og_employees db) \<and> epr_id r = i"
  by (simp add: find_employee_def employees_ok_def find_id_iff)

lemma department_ws_Some:
  "departments_ok env db \<Longrightarrow> department_ws db i = Some w \<longleftrightarrow> (\<exists>r \<in> set (og_departments db). dpr_id r = i \<and> dpr_workspace_id r = w)"
  by (auto simp: department_ws_def find_department_Some)

lemma team_home_row: "teams_ok env db \<Longrightarrow> t \<in> set (og_teams db) \<Longrightarrow> team_home db (tmr_id t) = team_ws db t"
  using find_team_Some [of env db "tmr_id t" t] by (simp add: team_home_def)

lemma employee_home_row: "employees_ok env db \<Longrightarrow> e \<in> set (og_employees db) \<Longrightarrow> employee_home db (epr_id e) = employee_ws db e"
  using find_employee_Some [of env db "epr_id e" e] by (simp add: employee_home_def)

lemma employee_ws_home: "employee_ws db e = team_home db (epr_team_id e)"
  by (simp add: employee_ws_def team_home_def)

lemma team_home_Some:
  assumes "teams_ok env db"
  shows "team_home db i = Some w \<longleftrightarrow> (\<exists>t \<in> set (og_teams db). tmr_id t = i \<and> team_ws db t = Some w)"
proof -
  have "team_home db i = Some w \<longleftrightarrow> (\<exists>t. find_team db i = Some t \<and> team_ws db t = Some w)"
    by (auto simp: team_home_def split: option.split)
  then show ?thesis using find_team_Some [OF assms] by auto
qed

lemma employee_home_Some:
  assumes "employees_ok env db"
  shows "employee_home db i = Some w \<longleftrightarrow> (\<exists>e \<in> set (og_employees db). epr_id e = i \<and> employee_ws db e = Some w)"
proof -
  have "employee_home db i = Some w \<longleftrightarrow> (\<exists>e. find_employee db i = Some e \<and> employee_ws db e = Some w)"
    by (auto simp: employee_home_def split: option.split)
  then show ?thesis using find_employee_Some [OF assms] by auto
qed

lemma agree_refl [simp]: "agree x x" by (simp add: agree_def)

lemma homes_agree_refl: "homes_agree db db" by (simp add: homes_agree_def)

text \<open>In tables that are whole every team and every employee has a workspace.\<close>

lemma org_ok_parts:
  "org_ok env db \<Longrightarrow> departments_ok env db" "org_ok env db \<Longrightarrow> teams_ok env db" "org_ok env db \<Longrightarrow> employees_ok env db"
  by (simp_all add: org_ok_def)

lemma team_ws_total: "org_ok env db \<Longrightarrow> t \<in> set (og_teams db) \<Longrightarrow> \<exists>w. team_ws db t = Some w"
  using department_ws_Some [of env db "tmr_department_id t"] unfolding team_ws_def
  by (force simp: org_ok_def teams_ok_def)

lemma employee_ws_total:
  assumes "org_ok env db" "e \<in> set (og_employees db)"
  shows "\<exists>w. employee_ws db e = Some w"
proof -
  obtain t where t: "t \<in> set (og_teams db)" "tmr_id t = epr_team_id e"
    using assms by (force simp: org_ok_def employees_ok_def)
  moreover obtain w where "team_ws db t = Some w" using team_ws_total [OF assms(1) t(1)] by blast
  ultimately have "team_home db (epr_team_id e) = Some w" using team_home_Some [OF org_ok_parts(2) [OF assms(1)]] by blast
  then show ?thesis by (simp add: employee_ws_home)
qed

subsection \<open>The three ways tables change\<close>

text \<open>
  What every change of a workspace does: the tables stay whole, no identifier that was there moves to another
  workspace, and the parts of the other workspaces are as they were.
\<close>

definition org_change :: "org_env \<Rightarrow> uuid \<Rightarrow> uuid set \<Rightarrow> org_db \<Rightarrow> org_db \<Rightarrow> bool" where
  "org_change env ws new db db' \<longleftrightarrow> org_ok env db'
     \<and> (\<forall>i. i \<notin> new \<longrightarrow> department_ws db' i \<in> {None, department_ws db i} \<and> team_home db' i \<in> {None, team_home db i}
         \<and> employee_home db' i \<in> {None, employee_home db i})
     \<and> (\<forall>w. w \<noteq> ws \<longrightarrow> org_view w db' = org_view w db)"

lemma option_subI: "(\<And>w. x' = Some w \<Longrightarrow> x = Some w) \<Longrightarrow> x' \<in> {None, x}"
  by (cases x') auto

text \<open>Rows go away together with what is below them.\<close>

lemma shrink:
  fixes db D T E
  defines "db' \<equiv> db\<lparr>og_departments := filter D (og_departments db), og_teams := filter T (og_teams db), og_employees := filter E (og_employees db)\<rparr>"
  assumes ok: "org_ok env db"
    and T: "\<And>t d. t \<in> set (og_teams db) \<Longrightarrow> T t \<Longrightarrow> d \<in> set (og_departments db) \<Longrightarrow> dpr_id d = tmr_department_id t \<Longrightarrow> D d"
    and E: "\<And>e t. e \<in> set (og_employees db) \<Longrightarrow> E e \<Longrightarrow> t \<in> set (og_teams db) \<Longrightarrow> tmr_id t = epr_team_id e \<Longrightarrow> T t"
    and busy: "\<And>e. e \<in> set (og_employees db) \<Longrightarrow> epr_id e \<in> set (og_busy db) \<Longrightarrow> E e"
    and D_ws: "\<And>d. d \<in> set (og_departments db) \<Longrightarrow> \<not> D d \<Longrightarrow> dpr_workspace_id d = ws"
    and T_ws: "\<And>t. t \<in> set (og_teams db) \<Longrightarrow> \<not> T t \<Longrightarrow> team_ws db t = Some ws"
    and E_ws: "\<And>e. e \<in> set (og_employees db) \<Longrightarrow> \<not> E e \<Longrightarrow> employee_ws db e = Some ws"
  shows "org_change env ws {} db db'"
proof -
  note parts = org_ok_parts [OF ok]
  have ok': "org_ok env db'"
    unfolding org_ok_def departments_ok_def teams_ok_def employees_ok_def
  proof (intro conjI)
    show "\<forall>r \<in> set (og_teams db'). tmr_department_id r \<in> dpr_id ` set (og_departments db') \<and> good_name (tmr_name r)"
      using parts(2) T by (fastforce simp: db'_def teams_ok_def)
    show "\<forall>r \<in> set (og_employees db'). epr_team_id r \<in> tmr_id ` set (og_teams db') \<and> good_name (epr_name r) \<and> good_name (epr_role r)"
      using parts(3) E by (fastforce simp: db'_def employees_ok_def)
    show "set (og_busy db') \<subseteq> epr_id ` set (og_employees db')"
      using parts(3) busy by (fastforce simp: db'_def employees_ok_def)
  qed (use ok in \<open>auto simp: db'_def org_ok_def departments_ok_def teams_ok_def employees_ok_def distinct_map_filter\<close>)
  note parts' = org_ok_parts [OF ok']
  have dep: "department_ws db' i = Some w \<longleftrightarrow> (\<exists>r \<in> set (og_departments db). D r \<and> dpr_id r = i \<and> dpr_workspace_id r = w)" for i w
    unfolding department_ws_Some [OF parts'(1)] by (auto simp: db'_def)
  then have dep_sub: "department_ws db' i = Some w \<Longrightarrow> department_ws db i = Some w" for i w
    unfolding department_ws_Some [OF parts(1)] by blast
  have tws: "team_ws db' t = team_ws db t" if "t \<in> set (og_teams db)" "T t" for t
  proof -
    have "t \<in> set (og_teams db')" using that by (simp add: db'_def)
    then obtain w where "team_ws db' t = Some w" using team_ws_total [OF ok'] by blast
    then show ?thesis using dep_sub by (simp add: team_ws_def)
  qed
  have team_sub: "team_home db' i = Some w \<Longrightarrow> team_home db i = Some w" for i w
    unfolding team_home_Some [OF parts(2)] team_home_Some [OF parts'(2)] using tws by (force simp: db'_def)
  have ews: "employee_ws db' e = employee_ws db e" if "e \<in> set (og_employees db)" "E e" for e
  proof -
    have "e \<in> set (og_employees db')" using that by (simp add: db'_def)
    then obtain w where "employee_ws db' e = Some w" using employee_ws_total [OF ok'] by blast
    then show ?thesis using team_sub by (simp add: employee_ws_home)
  qed
  have emp_sub: "employee_home db' i = Some w \<Longrightarrow> employee_home db i = Some w" for i w
    unfolding employee_home_Some [OF parts(3)] employee_home_Some [OF parts'(3)] using ews by (force simp: db'_def)
  have "org_view w db' = org_view w db" if "w \<noteq> ws" for w
    unfolding org_view_def prod.inject
  proof (intro conjI)
    show "filter (\<lambda>d. dpr_workspace_id d = w) (og_departments db') = filter (\<lambda>d. dpr_workspace_id d = w) (og_departments db)"
      using D_ws that by (auto simp: db'_def intro!: filter_cong)
    show "filter (\<lambda>t. team_ws db' t = Some w) (og_teams db') = filter (\<lambda>t. team_ws db t = Some w) (og_teams db)"
      using T_ws tws that by (auto simp: db'_def intro!: filter_cong) (metis option.inject)+
    show "filter (\<lambda>e. employee_ws db' e = Some w) (og_employees db') = filter (\<lambda>e. employee_ws db e = Some w) (og_employees db)"
      using E_ws ews that by (auto simp: db'_def intro!: filter_cong) (metis option.inject)+
  qed
  then show ?thesis
    using ok' dep_sub team_sub emp_sub unfolding org_change_def by (simp add: option_subI del: insert_iff)
qed

text \<open>Rows are added in one workspace.\<close>

lemma grow:
  fixes db nd nt ne
  defines "db' \<equiv> db\<lparr>og_departments := og_departments db @ nd, og_teams := og_teams db @ nt, og_employees := og_employees db @ ne\<rparr>"
  assumes ok: "org_ok env db" and ok': "org_ok env db'"
    and new: "dpr_id ` set nd \<union> tmr_id ` set nt \<union> epr_id ` set ne \<subseteq> new"
    and D_ws: "\<And>d. d \<in> set nd \<Longrightarrow> dpr_workspace_id d = ws"
    and T_ws: "\<And>t. t \<in> set nt \<Longrightarrow> team_ws db' t = Some ws"
    and E_ws: "\<And>e. e \<in> set ne \<Longrightarrow> employee_ws db' e = Some ws"
  shows "org_change env ws new db db'"
proof -
  note parts = org_ok_parts [OF ok] and parts' = org_ok_parts [OF ok']
  have rows: "og_teams db' = og_teams db @ nt" "og_employees db' = og_employees db @ ne" by (simp_all add: db'_def)
  have dep: "department_ws db i = Some w \<Longrightarrow> department_ws db' i = Some w" for i w
    unfolding department_ws_Some [OF parts(1)] department_ws_Some [OF parts'(1)] by (auto simp: db'_def)
  have dep_sub: "department_ws db' i = Some w \<Longrightarrow> i \<notin> new \<Longrightarrow> department_ws db i = Some w" for i w
    unfolding department_ws_Some [OF parts(1)] department_ws_Some [OF parts'(1)] using new by (auto simp: db'_def)
  have tws: "team_ws db' t = team_ws db t" if "t \<in> set (og_teams db)" for t
    using team_ws_total [OF ok that] dep by (auto simp: team_ws_def)
  have team: "team_home db i = Some w \<Longrightarrow> team_home db' i = Some w" for i w
    unfolding team_home_Some [OF parts(2)] team_home_Some [OF parts'(2)] using tws by (force simp: db'_def)
  have team_sub: "team_home db' i = Some w \<Longrightarrow> i \<notin> new \<Longrightarrow> team_home db i = Some w" for i w
    unfolding team_home_Some [OF parts(2)] team_home_Some [OF parts'(2)] using tws new by (force simp: db'_def)
  have ews: "employee_ws db' e = employee_ws db e" if "e \<in> set (og_employees db)" for e
    using employee_ws_total [OF ok that] team by (auto simp: employee_ws_home)
  have emp_sub: "employee_home db' i = Some w \<Longrightarrow> i \<notin> new \<Longrightarrow> employee_home db i = Some w" for i w
    unfolding employee_home_Some [OF parts(3)] employee_home_Some [OF parts'(3)] using ews new by (force simp: db'_def)
  have "org_view w db' = org_view w db" if "w \<noteq> ws" for w
    unfolding org_view_def prod.inject
  proof (intro conjI)
    show "filter (\<lambda>d. dpr_workspace_id d = w) (og_departments db') = filter (\<lambda>d. dpr_workspace_id d = w) (og_departments db)"
      using D_ws that by (auto simp: db'_def filter_empty_conv)
    have "filter (\<lambda>t. team_ws db' t = Some w) nt = []" using T_ws that by (auto simp: filter_empty_conv)
    then show "filter (\<lambda>t. team_ws db' t = Some w) (og_teams db') = filter (\<lambda>t. team_ws db t = Some w) (og_teams db)"
      using tws by (simp add: rows cong: filter_cong)
    have "filter (\<lambda>e. employee_ws db' e = Some w) ne = []" using E_ws that by (auto simp: filter_empty_conv)
    then show "filter (\<lambda>e. employee_ws db' e = Some w) (og_employees db') = filter (\<lambda>e. employee_ws db e = Some w) (og_employees db)"
      using ews by (simp add: rows cong: filter_cong)
  qed
  then show ?thesis
    using ok' dep_sub team_sub emp_sub unfolding org_change_def by (simp add: option_subI del: insert_iff)
qed

text \<open>Rows change without leaving their workspace.\<close>

lemma filter_map_same:
  "(\<And>r. r \<in> set rows \<Longrightarrow> P (f r) \<longleftrightarrow> Q r) \<Longrightarrow> (\<And>r. r \<in> set rows \<Longrightarrow> Q r \<Longrightarrow> f r = r) \<Longrightarrow> filter P (map f rows) = filter Q rows"
  by (induction rows) auto

lemma rewrite_rows:
  fixes db fd ft fe
  defines "db' \<equiv> db\<lparr>og_departments := map fd (og_departments db), og_teams := map ft (og_teams db), og_employees := map fe (og_employees db)\<rparr>"
  assumes ok: "org_ok env db" and ok': "org_ok env db'"
    and ids: "\<And>d. dpr_id (fd d) = dpr_id d" "\<And>t. tmr_id (ft t) = tmr_id t" "\<And>e. epr_id (fe e) = epr_id e"
    and D: "\<And>d. d \<in> set (og_departments db) \<Longrightarrow> dpr_workspace_id (fd d) = dpr_workspace_id d"
    and T: "\<And>t. t \<in> set (og_teams db) \<Longrightarrow> team_ws db (ft t) = team_ws db t"
    and E: "\<And>e. e \<in> set (og_employees db) \<Longrightarrow> employee_ws db (fe e) = employee_ws db e"
    and D_ws: "\<And>d. d \<in> set (og_departments db) \<Longrightarrow> fd d \<noteq> d \<Longrightarrow> dpr_workspace_id d = ws"
    and T_ws: "\<And>t. t \<in> set (og_teams db) \<Longrightarrow> ft t \<noteq> t \<Longrightarrow> team_ws db t = Some ws"
    and E_ws: "\<And>e. e \<in> set (og_employees db) \<Longrightarrow> fe e \<noteq> e \<Longrightarrow> employee_ws db e = Some ws"
  shows "org_change env ws {} db db'"
proof -
  note parts = org_ok_parts [OF ok] and parts' = org_ok_parts [OF ok']
  have "department_ws db' i = Some w \<longleftrightarrow> department_ws db i = Some w" for i w
    unfolding department_ws_Some [OF parts(1)] department_ws_Some [OF parts'(1)] using D by (auto simp: db'_def ids)
  then have dep: "department_ws db' i = department_ws db i" for i by (metis option.exhaust)
  have tws: "team_ws db' t = team_ws db t" for t by (simp add: team_ws_def dep)
  have "team_home db' i = Some w \<longleftrightarrow> team_home db i = Some w" for i w
    unfolding team_home_Some [OF parts(2)] team_home_Some [OF parts'(2)] using T by (auto simp: db'_def ids tws [unfolded db'_def])
  then have team: "team_home db' i = team_home db i" for i by (metis option.exhaust)
  have ews: "employee_ws db' e = employee_ws db e" for e by (simp add: employee_ws_home team)
  have "employee_home db' i = Some w \<longleftrightarrow> employee_home db i = Some w" for i w
    unfolding employee_home_Some [OF parts(3)] employee_home_Some [OF parts'(3)] using E by (auto simp: db'_def ids ews [unfolded db'_def])
  then have emp: "employee_home db' i = employee_home db i" for i by (metis option.exhaust)
  have "org_view w db' = org_view w db" if "w \<noteq> ws" for w
    unfolding org_view_def prod.inject tws ews
  proof (intro conjI)
    show "filter (\<lambda>d. dpr_workspace_id d = w) (og_departments db') = filter (\<lambda>d. dpr_workspace_id d = w) (og_departments db)"
      using D D_ws that by (simp add: db'_def) (rule filter_map_same, auto)
    show "filter (\<lambda>t. team_ws db t = Some w) (og_teams db') = filter (\<lambda>t. team_ws db t = Some w) (og_teams db)"
      using T T_ws that unfolding db'_def by (simp del: not_None_eq) (rule filter_map_same, simp, metis option.inject)
    show "filter (\<lambda>e. employee_ws db e = Some w) (og_employees db') = filter (\<lambda>e. employee_ws db e = Some w) (og_employees db)"
      using E E_ws that unfolding db'_def by (simp del: not_None_eq) (rule filter_map_same, simp, metis option.inject)
  qed
  then show ?thesis using ok' by (simp add: org_change_def dep team emp)
qed

subsection \<open>What a session sees\<close>

lemma seen_rows:
  "set (og_departments (seen env ws db)) \<subseteq> set (og_departments db)" "set (og_teams (seen env ws db)) \<subseteq> set (og_teams db)"
  "set (og_employees (seen env ws db)) \<subseteq> set (og_employees db)"
  by (auto simp: seen_def)

lemma seen_own:
  "d \<in> set (og_departments db) \<Longrightarrow> dpr_workspace_id d = ws \<Longrightarrow> d \<in> set (og_departments (seen env ws db))"
  "t \<in> set (og_teams db) \<Longrightarrow> team_ws db t = Some ws \<Longrightarrow> t \<in> set (og_teams (seen env ws db))"
  "e \<in> set (og_employees db) \<Longrightarrow> employee_ws db e = Some ws \<Longrightarrow> e \<in> set (og_employees (seen env ws db))"
  by (auto simp: seen_def)

lemma seen_department_ws:
  assumes "org_ok env db" "department_ws (seen env v db) i = Some w"
  shows "department_ws db i = Some w"
proof -
  obtain r where "r \<in> set (og_departments (seen env v db))" "dpr_id r = i" "dpr_workspace_id r = w"
    using assms(2) by (auto simp: department_ws_def find_department_def dest: find_SomeD)
  then show ?thesis using department_ws_Some [OF org_ok_parts(1) [OF assms(1)]] seen_rows(1) by blast
qed

lemma seen_team_ws: "org_ok env db \<Longrightarrow> team_ws (seen env v db) t = Some w \<Longrightarrow> team_ws db t = Some w"
  unfolding team_ws_def by (rule seen_department_ws)

lemma seen_find_team: "find_team (seen env v db) i = Some t \<Longrightarrow> t \<in> set (og_teams db) \<and> tmr_id t = i"
  using seen_rows(2) by (auto simp: find_team_def dest!: find_SomeD)

lemma seen_find_employee: "find_employee (seen env v db) i = Some e \<Longrightarrow> e \<in> set (og_employees db) \<and> epr_id e = i"
  using seen_rows(3) by (auto simp: find_employee_def dest!: find_SomeD)

lemma seen_team_home:
  assumes "org_ok env db" "team_home (seen env v db) i = Some w"
  shows "team_home db i = Some w"
proof -
  obtain t where "find_team (seen env v db) i = Some t" "team_ws (seen env v db) t = Some w"
    using assms(2) by (auto simp: team_home_def split: option.splits)
  then show ?thesis
    using team_home_Some [OF org_ok_parts(2) [OF assms(1)]] seen_find_team seen_team_ws [OF assms(1)] by blast
qed

lemma seen_employee_ws: "org_ok env db \<Longrightarrow> employee_ws (seen env v db) e = Some w \<Longrightarrow> employee_ws db e = Some w"
  unfolding employee_ws_home by (rule seen_team_home)

lemma team_parents_Some:
  "team_parents db i = Some (w, dept) \<Longrightarrow> team_home db i = Some w \<and> (\<exists>t. find_team db i = Some t \<and> tmr_department_id t = dept)"
  by (auto simp: team_parents_def team_home_def split: option.splits)

lemma team_ws_department: "department_ws db (tmr_department_id t) = Some ws \<Longrightarrow> team_ws db t = Some ws"
  by (simp add: team_ws_def)

lemma employee_ws_team: "team_home db (epr_team_id e) = Some ws \<Longrightarrow> employee_ws db e = Some ws"
  by (simp add: employee_ws_home)

lemma put_back [simp]:
  "db\<lparr>og_departments := x, og_teams := og_teams db, og_employees := og_employees db\<rparr> = db\<lparr>og_departments := x\<rparr>"
  "db\<lparr>og_departments := og_departments db, og_teams := y, og_employees := og_employees db\<rparr> = db\<lparr>og_teams := y\<rparr>"
  "db\<lparr>og_departments := og_departments db, og_teams := og_teams db, og_employees := z\<rparr> = db\<lparr>og_employees := z\<rparr>"
  "db\<lparr>og_departments := og_departments db, og_teams := y, og_employees := z\<rparr> = db\<lparr>og_teams := y, og_employees := z\<rparr>"
  by (cases db, simp)+

lemma department_unchanged [simp]:
  "department_ws (db\<lparr>og_teams := y\<rparr>) i = department_ws db i" "department_ws (db\<lparr>og_employees := z\<rparr>) i = department_ws db i"
  "team_ws (db\<lparr>og_teams := y\<rparr>) t = team_ws db t" "team_ws (db\<lparr>og_employees := z\<rparr>) t = team_ws db t"
  "team_home (db\<lparr>og_employees := z\<rparr>) i = team_home db i" "employee_ws (db\<lparr>og_employees := z\<rparr>) e = employee_ws db e"
  by (simp_all add: department_ws_def find_department_def team_ws_def team_home_def find_team_def employee_ws_def split: option.split)

lemma department_ws_in: "department_ws db i = Some w \<Longrightarrow> i \<in> dpr_id ` set (og_departments db)"
  by (auto simp: department_ws_def find_department_def dest!: find_SomeD)

lemma team_home_in: "team_home db i = Some w \<Longrightarrow> i \<in> tmr_id ` set (og_teams db)"
  by (auto simp: team_home_def find_team_def dest!: find_SomeD split: option.splits)

lemma only_row: "distinct (map k rows) \<Longrightarrow> x \<in> set rows \<Longrightarrow> r \<in> set rows \<Longrightarrow> k x = i \<Longrightarrow> k r = i \<Longrightarrow> x = r"
  by (metis distinct_map_keyD)

subsection \<open>Departments\<close>

lemma distinct_map_add: "distinct (map f xs) \<Longrightarrow> (\<And>x. x \<in> set xs \<Longrightarrow> f x \<noteq> f r) \<Longrightarrow> distinct (map f (xs @ [r]))"
  by (fastforce simp: image_iff)

lemma DepartmentStore_Create_change:
  assumes "DepartmentStore_Create env d db = Inr (db', u)" "org_ok env db" "good_name (dep_Name d)"
  shows "org_change env (dep_WorkspaceID d) {dep_ID d} db db'"
proof -
  define r where "r = \<lparr>dpr_id = dep_ID d, dpr_workspace_id = dep_WorkspaceID d, dpr_name = dep_Name d, dpr_created_at = to_micro (dep_CreatedAt d)\<rparr>"
  have db': "db' = db\<lparr>og_departments := og_departments db @ [r]\<rparr>"
    and new: "\<forall>x \<in> set (og_departments db). dpr_id x \<noteq> dpr_id r \<and> \<not> same_department_name env (dep_WorkspaceID d) (dep_Name d) x"
    and ws: "dep_WorkspaceID d \<in> wsr_id ` set (og_workspaces db)"
    using assms(1) by (auto simp: DepartmentStore_Create_def Let_def r_def list_ex_iff split: if_splits)
  have "departments_ok env db'"
    using assms(2,3) new ws by (auto simp: db' org_ok_def departments_ok_def same_department_name_def r_def)
  then have "org_ok env db'"
    using assms(2) by (auto simp: db' org_ok_def teams_ok_def employees_ok_def)
  then show ?thesis
    using grow [where env = env and db = db and nd = "[r]" and nt = "[]" and ne = "[]" and new = "{dep_ID d}" and ws = "dep_WorkspaceID d"] assms(2)
    by (simp add: db' r_def)
qed

lemma distinct_map_update:
  assumes "distinct (map k rows)" "distinct (map f rows)" "r0 \<in> set rows" "k r0 = i"
    and "\<And>x. x \<in> set rows \<Longrightarrow> k x \<noteq> i \<Longrightarrow> f x \<noteq> f (g r0)"
  shows "distinct (map f (map (\<lambda>x. if k x = i then g x else x) rows))"
proof -
  have only: "x = r0" if "x \<in> set rows" "k x = i" for x
    using distinct_map_keyD [OF assms(1) that(1) assms(3)] that(2) assms(4) by simp
  have "inj_on (f \<circ> (\<lambda>x. if k x = i then g x else x)) (set rows)"
  proof (rule inj_onI)
    fix x y assume xy: "x \<in> set rows" "y \<in> set rows" "(f \<circ> (\<lambda>x. if k x = i then g x else x)) x = (f \<circ> (\<lambda>x. if k x = i then g x else x)) y"
    show "x = y"
    proof (cases "k x = i"; cases "k y = i")
      assume "k x = i" "k y = i"
      then show ?thesis using only xy(1,2) by metis
    next
      assume "k x = i" "k y \<noteq> i"
      then show ?thesis using assms(5) [OF xy(2)] only [OF xy(1)] xy(3) by simp
    next
      assume "k x \<noteq> i" "k y = i"
      then show ?thesis using assms(5) [OF xy(1)] only [OF xy(2)] xy(3) by simp
    next
      assume "k x \<noteq> i" "k y \<noteq> i"
      then show ?thesis using distinct_map_keyD [OF assms(2) xy(1,2)] xy(3) by simp
    qed
  qed
  moreover have "distinct rows" using assms(1) by (simp add: distinct_map)
  ultimately show ?thesis unfolding map_map distinct_map by simp
qed

lemma DepartmentStore_Update_change:
  assumes "DepartmentStore_Update env ws d db = Inr (db', u)" "org_ok env db" "good_name (dep_Name d)"
  shows "org_change env ws {} db db'"
proof -
  let ?f = "\<lambda>r. if dpr_id r = dep_ID d then r\<lparr>dpr_name := dep_Name d\<rparr> else r"
  note ok = org_ok_parts(1) [OF assms(2)]
  obtain r0 where f: "find (department_owned ws (dep_ID d)) (og_departments (seen env ws db)) = Some r0"
    and free: "\<forall>r \<in> set (og_departments (seen env ws db)). \<not> (same_department_name env ws (dep_Name d) r \<and> dpr_id r \<noteq> dep_ID d)"
    and upd: "db' = db\<lparr>og_departments := upd_where (department_owned ws (dep_ID d)) (\<lambda>r. r\<lparr>dpr_name := dep_Name d\<rparr>) (og_departments db)\<rparr>"
    using assms(1) by (simp add: DepartmentStore_Update_def Let_def list_ex_iff split: if_splits option.splits)
  have r0: "r0 \<in> set (og_departments db)" "dpr_id r0 = dep_ID d" "dpr_workspace_id r0 = ws"
    using find_SomeD [OF f] seen_rows(1) [of env ws db] by (auto simp: department_owned_def)
  have only: "x = r0" if "x \<in> set (og_departments db)" "dpr_id x = dep_ID d" for x
    using only_row [OF _ that(1) r0(1) that(2) r0(2)] ok by (simp add: departments_ok_def)
  have db': "db' = db\<lparr>og_departments := map ?f (og_departments db)\<rparr>"
  proof -
    have "department_owned ws (dep_ID d) x \<longleftrightarrow> dpr_id x = dep_ID d" if "x \<in> set (og_departments db)" for x
      using only [OF that] r0 by (metis department_owned_def)
    then show ?thesis unfolding upd upd_where_def by simp
  qed
  have "departments_ok env db'"
    unfolding departments_ok_def
  proof (intro conjI)
    show "distinct (map dpr_id (og_departments db'))"
      using ok by (simp add: db' departments_ok_def comp_def if_distrib cong: if_cong)
    show "distinct (map (\<lambda>r. (dpr_workspace_id r, oe_lower env (dpr_name r))) (og_departments db'))"
    proof -
      have "(dpr_workspace_id x, oe_lower env (dpr_name x)) \<noteq> (ws, oe_lower env (dep_Name d))" if "x \<in> set (og_departments db)" "dpr_id x \<noteq> dep_ID d" for x
        using free seen_own(1) [OF that(1)] that by (auto simp: same_department_name_def)
      then show ?thesis
        using distinct_map_update [of dpr_id "og_departments db" "\<lambda>r. (dpr_workspace_id r, oe_lower env (dpr_name r))" r0 "dep_ID d" "\<lambda>r. r\<lparr>dpr_name := dep_Name d\<rparr>"]
          ok r0 by (simp add: db' departments_ok_def)
    qed
    show "\<forall>r \<in> set (og_departments db'). dpr_workspace_id r \<in> wsr_id ` set (og_workspaces db') \<and> good_name (dpr_name r)"
      using ok assms(3) by (auto simp: db' departments_ok_def)
  qed
  moreover have "dpr_id ` set (og_departments db') = dpr_id ` set (og_departments db)"
    unfolding set_map [symmetric] by (simp add: db' comp_def if_distrib cong: if_cong)
  ultimately have ok': "org_ok env db'"
    using assms(2) by (auto simp: db' org_ok_def teams_ok_def employees_ok_def)
  have "org_change env ws {} db
      (db\<lparr>og_departments := map ?f (og_departments db), og_teams := map id (og_teams db), og_employees := map id (og_employees db)\<rparr>)"
  proof (rule rewrite_rows [OF assms(2)])
    show "org_ok env (db\<lparr>og_departments := map ?f (og_departments db), og_teams := map id (og_teams db), og_employees := map id (og_employees db)\<rparr>)"
      using ok' by (simp add: db')
    show "dpr_workspace_id x = ws" if "x \<in> set (og_departments db)" "?f x \<noteq> x" for x
      using only [OF that(1)] that(2) r0(3) by (cases "dpr_id x = dep_ID d") simp_all
  qed simp_all
  then show ?thesis by (simp add: db')
qed

text \<open>The rows a deletion leaves, and that it takes no busy employee.\<close>

lemma delete_teams_Inr:
  assumes "delete_teams P db = Inr db'"
  obtains "db' = db\<lparr>og_teams := filter (\<lambda>t. \<not> P t) (og_teams db),
      og_employees := filter (\<lambda>e. epr_team_id e \<notin> tmr_id ` set (filter P (og_teams db))) (og_employees db)\<rparr>"
    "\<And>e. e \<in> set (og_employees db) \<Longrightarrow> epr_id e \<in> set (og_busy db) \<Longrightarrow> epr_team_id e \<notin> tmr_id ` set (filter P (og_teams db))"
  using assms by (auto simp: delete_teams_def delete_employees_def Let_def list_ex_iff split: if_splits)

lemma delete_departments_Inr:
  assumes "delete_departments P db = Inr db'"
  obtains T :: "team_row \<Rightarrow> bool" and E :: "employee_row \<Rightarrow> bool" where "T = (\<lambda>t. tmr_department_id t \<notin> dpr_id ` set (filter P (og_departments db)))"
    "E = (\<lambda>e. epr_team_id e \<notin> tmr_id ` set (filter (\<lambda>t. \<not> T t) (og_teams db)))"
    "db' = db\<lparr>og_departments := filter (\<lambda>d. \<not> P d) (og_departments db), og_teams := filter T (og_teams db), og_employees := filter E (og_employees db)\<rparr>"
    "\<And>e. e \<in> set (og_employees db) \<Longrightarrow> epr_id e \<in> set (og_busy db) \<Longrightarrow> E e"
proof -
  define T :: "team_row \<Rightarrow> bool" where "T = (\<lambda>t. tmr_department_id t \<notin> dpr_id ` set (filter P (og_departments db)))"
  have "delete_teams (\<lambda>t. \<not> T t) (db\<lparr>og_departments := filter (\<lambda>d. \<not> P d) (og_departments db)\<rparr>) = Inr db'"
    using assms by (simp add: delete_departments_def Let_def T_def)
  then show ?thesis
    by (rule delete_teams_Inr) (intro that [OF T_def refl], auto)
qed

lemma DepartmentStore_Delete_change:
  assumes "DepartmentStore_Delete env ws i db = Inr db'" "org_ok env db"
  shows "org_change env ws {} db db'"
proof -
  have "delete_departments (department_owned ws i) db = Inr db'"
    using assms(1) by (simp add: DepartmentStore_Delete_def split: if_splits)
  then obtain T :: "team_row \<Rightarrow> bool" and E :: "employee_row \<Rightarrow> bool" where T: "T = (\<lambda>t. tmr_department_id t \<notin> dpr_id ` set (filter (department_owned ws i) (og_departments db)))"
    and E: "E = (\<lambda>e. epr_team_id e \<notin> tmr_id ` set (filter (\<lambda>t. \<not> T t) (og_teams db)))"
    and db': "db' = db\<lparr>og_departments := filter (\<lambda>d. \<not> department_owned ws i d) (og_departments db), og_teams := filter T (og_teams db),
      og_employees := filter E (og_employees db)\<rparr>"
    and busy: "\<And>e. e \<in> set (og_employees db) \<Longrightarrow> epr_id e \<in> set (og_busy db) \<Longrightarrow> E e"
    by (rule delete_departments_Inr) blast
  note ok = org_ok_parts [OF assms(2)]
  have T_ws: "team_ws db t = Some ws" if "\<not> T t" for t
  proof -
    have "tmr_department_id t \<in> dpr_id ` set (filter (department_owned ws i) (og_departments db))" using that unfolding T by simp
    then obtain d where "d \<in> set (og_departments db)" "dpr_workspace_id d = ws" "dpr_id d = tmr_department_id t"
      by (auto simp: department_owned_def)
    then show ?thesis unfolding team_ws_def department_ws_Some [OF ok(1)] by blast
  qed
  show ?thesis
    unfolding db'
  proof (rule shrink [OF assms(2)])
    show "\<not> department_owned ws i d" if "t \<in> set (og_teams db)" "T t" "d \<in> set (og_departments db)" "dpr_id d = tmr_department_id t" for t d
      using that unfolding T by force
    show "T t" if "e \<in> set (og_employees db)" "E e" "t \<in> set (og_teams db)" "tmr_id t = epr_team_id e" for e t
      using that by (force simp: E)
    show "dpr_workspace_id d = ws" if "\<not> \<not> department_owned ws i d" for d using that by (simp add: department_owned_def)
    show "team_ws db t = Some ws" if "\<not> T t" for t using that by (rule T_ws)
    show "employee_ws db e = Some ws" if "\<not> E e" for e
    proof -
      have "epr_team_id e \<in> tmr_id ` set (filter (\<lambda>t. \<not> T t) (og_teams db))" using that unfolding E by simp
      then obtain t where "t \<in> set (og_teams db)" "\<not> T t" "tmr_id t = epr_team_id e" by auto
      then show ?thesis using T_ws team_home_Some [OF ok(2)] by (metis employee_ws_home)
    qed
  qed (rule busy)
qed

subsection \<open>Teams\<close>

lemma TeamStore_Create_change:
  assumes "TeamStore_Create env t db = Inr (db', u)" "org_ok env db" "good_name (tm_Name t)"
  shows "org_change env (tm_WorkspaceID t) {tm_ID t} db db'"
proof -
  define r where "r = \<lparr>tmr_id = tm_ID t, tmr_department_id = tm_DepartmentID t, tmr_name = tm_Name t, tmr_created_at = to_micro (tm_CreatedAt t)\<rparr>"
  have db': "db' = db\<lparr>og_teams := og_teams db @ [r]\<rparr>"
    and new: "\<forall>x \<in> set (og_teams db). tmr_id x \<noteq> tmr_id r \<and> \<not> same_team_name env (tm_DepartmentID t) (tm_Name t) x"
    and "department_ws (seen env (tm_WorkspaceID t) db) (tm_DepartmentID t) = Some (tm_WorkspaceID t)"
    using assms(1) by (auto simp: TeamStore_Create_def Let_def r_def list_ex_iff split: if_splits option.splits)
  then have home: "department_ws db (tm_DepartmentID t) = Some (tm_WorkspaceID t)"
    using seen_department_ws [OF assms(2)] by blast
  then have "tm_DepartmentID t \<in> dpr_id ` set (og_departments db)" by (rule department_ws_in)
  then have "teams_ok env db'"
    using assms(2,3) new by (auto simp: db' org_ok_def teams_ok_def same_team_name_def r_def)
  then have "org_ok env db'"
    using assms(2) by (auto simp: db' org_ok_def departments_ok_def employees_ok_def)
  then show ?thesis
    using grow [where env = env and db = db and nd = "[]" and nt = "[r]" and ne = "[]" and new = "{tm_ID t}" and ws = "tm_WorkspaceID t"] assms(2) home
    by (simp add: db' r_def team_ws_def)
qed

text \<open>An update that names a team of another workspace is not refused by its statement; it is by where the team was read.\<close>

lemma TeamStore_Update_change:
  assumes "TeamStore_Update env ws t db = Inr (db', u)" "org_ok env db" "good_name (tm_Name t)"
    and "agree (Some ws) (team_home db (tm_ID t))"
  shows "org_change env ws {} db db'"
proof -
  let ?f = "\<lambda>r. if tmr_id r = tm_ID t then team_put t r else r"
  note ok = org_ok_parts [OF assms(2)]
  obtain r0 where f: "find_team (seen env ws db) (tm_ID t) = Some r0"
    and seen_home: "department_ws (seen env ws db) (tm_DepartmentID t) = Some ws"
    and free: "\<forall>r \<in> set (og_teams (seen env ws db)). \<not> (same_team_name env (tm_DepartmentID t) (tm_Name t) r \<and> tmr_id r \<noteq> tm_ID t)"
    and upd: "db' = db\<lparr>og_teams := upd_where (\<lambda>r. tmr_id r = tm_ID t) (team_put t) (og_teams db)\<rparr>"
    using assms(1) by (simp add: TeamStore_Update_def Let_def list_ex_iff split: if_splits option.splits)
  have r0: "r0 \<in> set (og_teams db)" "tmr_id r0 = tm_ID t" using seen_find_team [OF f] by auto
  have only: "x = r0" if "x \<in> set (og_teams db)" "tmr_id x = tm_ID t" for x
    using only_row [OF _ that(1) r0(1) that(2) r0(2)] ok(2) by (simp add: teams_ok_def)
  have home: "department_ws db (tm_DepartmentID t) = Some ws" using seen_department_ws [OF assms(2) seen_home] .
  have old: "team_ws db r0 = Some ws"
    using team_ws_total [OF assms(2) r0(1)] team_home_row [OF ok(2) r0(1)] r0(2) assms(4) by (auto simp: agree_def)
  have db': "db' = db\<lparr>og_teams := map ?f (og_teams db)\<rparr>" by (simp add: upd upd_where_def)
  have "teams_ok env db'"
    unfolding teams_ok_def
  proof (intro conjI)
    show "distinct (map tmr_id (og_teams db'))"
      using ok(2) by (simp add: db' teams_ok_def comp_def if_distrib team_put_def cong: if_cong)
    show "distinct (map (\<lambda>r. (tmr_department_id r, oe_lower env (tmr_name r))) (og_teams db'))"
    proof -
      have "(tmr_department_id x, oe_lower env (tmr_name x)) \<noteq> (tm_DepartmentID t, oe_lower env (tm_Name t))" if x: "x \<in> set (og_teams db)" "tmr_id x \<noteq> tm_ID t" for x
      proof
        assume eq: "(tmr_department_id x, oe_lower env (tmr_name x)) = (tm_DepartmentID t, oe_lower env (tm_Name t))"
        then have "x \<in> set (og_teams (seen env ws db))" using seen_own(2) [OF x(1)] home by (simp add: team_ws_def)
        then show False using free x(2) eq by (simp add: same_team_name_def)
      qed
      then show ?thesis
        using distinct_map_update [of tmr_id "og_teams db" "\<lambda>r. (tmr_department_id r, oe_lower env (tmr_name r))" r0 "tm_ID t" "team_put t"]
          ok(2) r0 by (simp add: db' teams_ok_def team_put_def)
    qed
    have "tm_DepartmentID t \<in> dpr_id ` set (og_departments db)" using home by (rule department_ws_in)
    then show "\<forall>r \<in> set (og_teams db'). tmr_department_id r \<in> dpr_id ` set (og_departments db') \<and> good_name (tmr_name r)"
      using ok(2) assms(3) by (auto simp: db' teams_ok_def team_put_def)
  qed
  moreover have "tmr_id ` set (og_teams db') = tmr_id ` set (og_teams db)"
    unfolding set_map [symmetric] by (simp add: db' comp_def if_distrib team_put_def cong: if_cong)
  ultimately have "org_ok env db'"
    using assms(2) by (auto simp: db' org_ok_def departments_ok_def employees_ok_def)
  moreover have "team_ws db (?f x) = team_ws db x \<and> (?f x \<noteq> x \<longrightarrow> team_ws db x = Some ws)" if "x \<in> set (og_teams db)" for x
    using only [OF that] old home by (auto simp: team_ws_def team_put_def)
  ultimately show ?thesis
    using rewrite_rows [where env = env and db = db and fd = id and ft = ?f and fe = id and ws = ws] assms(2)
    by (simp add: db' team_put_def del: not_None_eq)
qed

lemma TeamStore_Delete_change:
  assumes "TeamStore_Delete env ws i db = Inr db'" "org_ok env db"
  shows "org_change env ws {} db db'"
proof -
  note ok = org_ok_parts [OF assms(2)]
  obtain r where f: "find (team_owned (seen env ws db) ws i) (og_teams (seen env ws db)) = Some r"
    and del: "delete_teams (\<lambda>t. tmr_id t = i) db = Inr db'"
    using assms(1) by (auto simp: TeamStore_Delete_def Let_def split: if_splits)
  have r: "r \<in> set (og_teams db)" "tmr_id r = i" "team_ws db r = Some ws"
    using find_SomeD [OF f] seen_rows(2) seen_team_ws [OF assms(2)] by (auto simp: team_owned_def)
  have home: "team_home db i = Some ws" using r team_home_Some [OF ok(2)] by blast
  let ?E = "\<lambda>e. epr_team_id e \<notin> tmr_id ` set (filter (\<lambda>t. tmr_id t = i) (og_teams db))"
  have E: "?E e \<longleftrightarrow> epr_team_id e \<noteq> i" for e using r(1,2) by auto
  show ?thesis
    using del
  proof (rule delete_teams_Inr)
    assume db': "db' = db\<lparr>og_teams := filter (\<lambda>t. \<not> tmr_id t = i) (og_teams db), og_employees := filter ?E (og_employees db)\<rparr>"
      and busy: "\<And>e. e \<in> set (og_employees db) \<Longrightarrow> epr_id e \<in> set (og_busy db) \<Longrightarrow> ?E e"
    have "org_change env ws {} db (db\<lparr>og_departments := filter (\<lambda>_. True) (og_departments db), og_teams := filter (\<lambda>t. \<not> tmr_id t = i) (og_teams db),
        og_employees := filter ?E (og_employees db)\<rparr>)"
    proof (rule shrink [OF assms(2)])
      show "team_ws db t = Some ws" if "t \<in> set (og_teams db)" "\<not> \<not> tmr_id t = i" for t
        using that home team_home_row [OF ok(2)] by metis
      show "employee_ws db e = Some ws" if "\<not> ?E e" for e
        using that [unfolded E] home by (simp add: employee_ws_home)
    qed (use busy E in auto)
    then show ?thesis by (simp add: db')
  qed
qed

subsection \<open>Employees\<close>

lemma AIEmployeeStore_Create_change:
  assumes "AIEmployeeStore_Create env e db = Inr (db', u)" "org_ok env db" "good_name (emp_Name e)" "good_name (emp_Role e)"
  shows "org_change env (emp_WorkspaceID e) {emp_ID e} db db'"
proof -
  define r where "r = \<lparr>epr_id = emp_ID e, epr_team_id = emp_TeamID e, epr_name = emp_Name e, epr_role = emp_Role e,
    epr_capabilities = emp_Capabilities e, epr_permissions = Some (jsonValue (emp_Permissions e)), epr_memory_id = None,
    epr_knowledge_access = Some (jsonValue (emp_KnowledgeAccess e)), epr_current_task_id = emp_CurrentTaskID e,
    epr_created_at = to_micro (emp_CreatedAt e), epr_updated_at = to_micro (emp_UpdatedAt e)\<rparr>"
  have r: "epr_id r = emp_ID e" "epr_team_id r = emp_TeamID e" "epr_name r = emp_Name e" "epr_role r = emp_Role e"
    by (simp_all add: r_def)
  obtain dept where db': "db' = db\<lparr>og_employees := og_employees db @ [r]\<rparr>"
    and new: "\<forall>x \<in> set (og_employees db). epr_id x \<noteq> emp_ID e \<and> \<not> same_employee_name env (emp_TeamID e) (emp_Name e) x"
    and "team_parents (seen env (emp_WorkspaceID e) db) (emp_TeamID e) = Some (emp_WorkspaceID e, dept)"
    using assms(1) by (auto simp: AIEmployeeStore_Create_def Let_def list_ex_iff r_def split: if_splits option.splits)
  then have home: "team_home db (emp_TeamID e) = Some (emp_WorkspaceID e)"
    using seen_team_home [OF assms(2)] team_parents_Some by blast
  then have "emp_TeamID e \<in> tmr_id ` set (og_teams db)" by (rule team_home_in)
  then have "employees_ok env db'"
    using assms(2-4) new r by (auto simp: db' org_ok_def employees_ok_def same_employee_name_def)
  then have "org_ok env db'"
    using assms(2) by (auto simp: db' org_ok_def departments_ok_def teams_ok_def)
  then show ?thesis
    using grow [where env = env and db = db and nd = "[]" and nt = "[]" and ne = "[r]" and new = "{emp_ID e}" and ws = "emp_WorkspaceID e"] assms(2) home r
    by (simp add: db' employee_ws_home)
qed

lemma AIEmployeeStore_Update_change:
  assumes "AIEmployeeStore_Update env now ws e db = Inr (db', u)" "org_ok env db" "good_name (emp_Name e)" "good_name (emp_Role e)"
    and "agree (Some ws) (employee_home db (emp_ID e))"
  shows "org_change env ws {} db db'"
proof -
  let ?f = "\<lambda>r. if epr_id r = emp_ID e then employee_put now e r else r"
  note ok = org_ok_parts [OF assms(2)]
  obtain r0 dept where f: "find_employee (seen env ws db) (emp_ID e) = Some r0"
    and seen_home: "team_parents (seen env ws db) (emp_TeamID e) = Some (ws, dept)"
    and free: "\<forall>r \<in> set (og_employees (seen env ws db)). \<not> (same_employee_name env (emp_TeamID e) (emp_Name e) r \<and> epr_id r \<noteq> emp_ID e)"
    and upd: "db' = db\<lparr>og_employees := upd_where (\<lambda>r. epr_id r = emp_ID e) (employee_put now e) (og_employees db)\<rparr>"
    using assms(1) by (auto simp: AIEmployeeStore_Update_def Let_def list_ex_iff split: if_splits option.splits)
  have r0: "r0 \<in> set (og_employees db)" "epr_id r0 = emp_ID e" using seen_find_employee [OF f] by auto
  have only: "x = r0" if "x \<in> set (og_employees db)" "epr_id x = emp_ID e" for x
    using only_row [OF _ that(1) r0(1) that(2) r0(2)] ok(3) by (simp add: employees_ok_def)
  have home: "team_home db (emp_TeamID e) = Some ws" using seen_team_home [OF assms(2)] team_parents_Some [OF seen_home] by blast
  have old: "employee_ws db r0 = Some ws"
    using employee_ws_total [OF assms(2) r0(1)] employee_home_row [OF ok(3) r0(1)] r0(2) assms(5) by (auto simp: agree_def)
  have db': "db' = db\<lparr>og_employees := map ?f (og_employees db)\<rparr>" by (simp add: upd upd_where_def)
  have ids: "map epr_id (og_employees db') = map epr_id (og_employees db)"
    by (simp add: db' comp_def if_distrib employee_put_def cong: if_cong)
  have "employees_ok env db'"
    unfolding employees_ok_def
  proof (intro conjI)
    show "distinct (map epr_id (og_employees db'))" using ok(3) unfolding ids by (simp add: employees_ok_def)
    show "distinct (map (\<lambda>r. (epr_team_id r, oe_lower env (epr_name r))) (og_employees db'))"
    proof -
      have "(epr_team_id x, oe_lower env (epr_name x)) \<noteq> (emp_TeamID e, oe_lower env (emp_Name e))" if x: "x \<in> set (og_employees db)" "epr_id x \<noteq> emp_ID e" for x
      proof
        assume eq: "(epr_team_id x, oe_lower env (epr_name x)) = (emp_TeamID e, oe_lower env (emp_Name e))"
        then have "x \<in> set (og_employees (seen env ws db))" using seen_own(3) [OF x(1)] home by (simp add: employee_ws_home)
        then show False using free x(2) eq by (simp add: same_employee_name_def)
      qed
      then show ?thesis
        using distinct_map_update [of epr_id "og_employees db" "\<lambda>r. (epr_team_id r, oe_lower env (epr_name r))" r0 "emp_ID e" "employee_put now e"]
          ok(3) r0 by (simp add: db' employees_ok_def employee_put_def)
    qed
    have "emp_TeamID e \<in> tmr_id ` set (og_teams db)" using home by (rule team_home_in)
    then show "\<forall>r \<in> set (og_employees db'). epr_team_id r \<in> tmr_id ` set (og_teams db') \<and> good_name (epr_name r) \<and> good_name (epr_role r)"
      using ok(3) assms(3,4) by (auto simp: db' employees_ok_def employee_put_def)
    have "epr_id ` set (og_employees db') = epr_id ` set (og_employees db)" using ids by (metis set_map)
    then show "set (og_busy db') \<subseteq> epr_id ` set (og_employees db')"
      using ok(3) by (simp add: employees_ok_def db')
  qed
  then have ok': "org_ok env db'"
    using assms(2) by (auto simp: db' org_ok_def departments_ok_def teams_ok_def)
  have "org_change env ws {} db
      (db\<lparr>og_departments := map id (og_departments db), og_teams := map id (og_teams db), og_employees := map ?f (og_employees db)\<rparr>)"
  proof (rule rewrite_rows [OF assms(2)])
    show "org_ok env (db\<lparr>og_departments := map id (og_departments db), og_teams := map id (og_teams db), og_employees := map ?f (og_employees db)\<rparr>)"
      using ok' by (simp add: db')
    show "employee_ws db (?f x) = employee_ws db x" if "x \<in> set (og_employees db)" for x
      using only [OF that] old home by (cases "epr_id x = emp_ID e") (simp_all add: employee_ws_home employee_put_def)
    show "employee_ws db x = Some ws" if "x \<in> set (og_employees db)" "?f x \<noteq> x" for x
      using only [OF that(1)] that(2) old by (cases "epr_id x = emp_ID e") simp_all
  qed (simp_all add: employee_put_def)
  then show ?thesis by (simp add: db')
qed

lemma AIEmployeeStore_Delete_change:
  assumes "AIEmployeeStore_Delete env ws i db = Inr db'" "org_ok env db"
  shows "org_change env ws {} db db'"
proof -
  note ok = org_ok_parts [OF assms(2)]
  obtain r where f: "find (employee_owned (seen env ws db) ws i) (og_employees (seen env ws db)) = Some r"
    and db': "db' = db\<lparr>og_employees := filter (\<lambda>e. \<not> epr_id e = i) (og_employees db)\<rparr>"
    and busy: "\<forall>e \<in> set (og_employees db). epr_id e = i \<longrightarrow> epr_id e \<notin> set (og_busy db)"
    using assms(1) by (auto simp: AIEmployeeStore_Delete_def delete_employees_def Let_def list_ex_iff split: if_splits)
  have r: "r \<in> set (og_employees db)" "epr_id r = i" "employee_ws db r = Some ws"
    using find_SomeD [OF f] seen_rows(3) seen_employee_ws [OF assms(2)] by (auto simp: employee_owned_def)
  have home: "employee_home db i = Some ws" using r employee_home_Some [OF ok(3)] by blast
  have "org_change env ws {} db (db\<lparr>og_departments := filter (\<lambda>_. True) (og_departments db), og_teams := filter (\<lambda>_. True) (og_teams db),
      og_employees := filter (\<lambda>e. \<not> epr_id e = i) (og_employees db)\<rparr>)"
  proof (rule shrink [OF assms(2)])
    show "employee_ws db e = Some ws" if "e \<in> set (og_employees db)" "\<not> \<not> epr_id e = i" for e
      using that home employee_home_row [OF ok(3)] by metis
  qed (use busy in auto)
  then show ?thesis by (simp add: db')
qed

subsection \<open>The services\<close>

lemma good_TrimSpace: "TrimSpace s \<noteq> [] \<Longrightarrow> \<not> RuneCount (TrimSpace s) > 100 \<Longrightarrow> good_name (TrimSpace s)"
  by (simp add: good_name_def)

lemma TeamStore_Get_Inr:
  assumes "TeamStore_Get env ws i snap = Inr t" "org_ok env snap"
  shows "tm_ID t = i \<and> good_name (tm_Name t) \<and> team_home snap i = Some ws"
proof -
  note ok = org_ok_parts(2) [OF assms(2)]
  obtain r where f: "find (team_owned (seen env ws snap) ws i) (og_teams (seen env ws snap)) = Some r" and t: "t = scanTeam (seen env ws snap) r"
    using assms(1) by (auto simp: TeamStore_Get_def Let_def split: option.splits)
  have r: "r \<in> set (og_teams snap)" "tmr_id r = i" "team_ws snap r = Some ws"
    using find_SomeD [OF f] seen_rows(2) seen_team_ws [OF assms(2)] by (auto simp: team_owned_def)
  then have "team_home snap i = Some ws" "good_name (tmr_name r)" using team_home_Some [OF ok] ok by (auto simp: teams_ok_def)
  with r t show ?thesis by (simp add: scanTeam_def)
qed

lemma AIEmployeeStore_Get_Inr:
  assumes "AIEmployeeStore_Get env ws i snap = Inr e" "org_ok env snap"
  shows "emp_ID e = i \<and> good_name (emp_Name e) \<and> good_name (emp_Role e) \<and> employee_home snap i = Some ws"
proof -
  note ok = org_ok_parts(3) [OF assms(2)]
  obtain r where f: "find (employee_owned (seen env ws snap) ws i) (og_employees (seen env ws snap)) = Some r"
    and e: "e = scanEmployee env (seen env ws snap) r"
    using assms(1) by (auto simp: AIEmployeeStore_Get_def Let_def split: option.splits)
  have r: "r \<in> set (og_employees snap)" "epr_id r = i" "employee_ws snap r = Some ws"
    using find_SomeD [OF f] seen_rows(3) seen_employee_ws [OF assms(2)] by (auto simp: employee_owned_def)
  then have "employee_home snap i = Some ws" "good_name (epr_name r)" "good_name (epr_role r)"
    using employee_home_Some [OF ok] ok by (auto simp: employees_ok_def)
  with r e show ?thesis by (simp add: scanEmployee_def)
qed

lemma team_patch_Inr:
  assumes "team_patch lookup ws name dept t0 = Inr t" "good_name (tm_Name t0)"
  shows "tm_ID t = tm_ID t0 \<and> good_name (tm_Name t)"
  using assms good_TrimSpace [of name]
  by (auto simp: team_patch_def Let_def NameMaxRunes_def split: if_splits option.splits sum.splits)

lemma bad_text_good: "\<not> bad_text 100 v \<Longrightarrow> good_name old \<Longrightarrow> good_name (case v of None \<Rightarrow> old | Some s \<Rightarrow> TrimSpace s)"
  using good_TrimSpace by (auto simp: bad_text_def split: option.splits)

lemma employee_patch_Inr:
  assumes "employee_patch lookup ws ch e0 = Inr e" "good_name (emp_Name e0)" "good_name (emp_Role e0)"
  shows "emp_ID e = emp_ID e0 \<and> good_name (emp_Name e) \<and> good_name (emp_Role e)"
proof -
  have ok: "\<not> bad_text 100 (ec_name ch)" "\<not> bad_text 100 (ec_role ch)"
    using assms(1) by (auto simp: employee_patch_def NameMaxRunes_def RoleMaxRunes_def split: if_splits)
  have "emp_ID e = emp_ID e0 \<and> emp_Name e = (case ec_name ch of None \<Rightarrow> emp_Name e0 | Some s \<Rightarrow> TrimSpace s)
      \<and> emp_Role e = (case ec_role ch of None \<Rightarrow> emp_Role e0 | Some s \<Rightarrow> TrimSpace s)"
    using assms(1) by (auto simp: employee_patch_def Let_def split: if_splits option.splits sum.splits prod.splits)
  then show ?thesis using bad_text_good [OF ok(1) assms(2)] bad_text_good [OF ok(2) assms(3)] by simp
qed

text \<open>Every call that succeeds is a change of its workspace, whatever the resolver answered.\<close>

lemma org_run_change:
  assumes "org_run env ws c db = Inr db'" "org_ok env db"
    and snap: "\<And>snap. call_snapshot c = Some snap \<Longrightarrow> org_ok env snap \<and> homes_agree snap db"
  shows "org_change env ws (set_option (call_draws c)) db db'"
  using assms(1)
proof (cases c)
  case (CreateDepartment now gen name)
  with assms(1) obtain d u where "department_New now gen ws (TrimSpace name) = Inr d" "DepartmentStore_Create env d db = Inr (db', u)" "\<not> RuneCount (TrimSpace name) > 100"
    by (auto simp: department_Create_def Let_def NameMaxRunes_def map_sum_def split: if_splits sum.splits)
  moreover from this have "dep_ID d = gen" "dep_WorkspaceID d = ws" "dep_Name d = TrimSpace name" "TrimSpace name \<noteq> []"
    by (auto simp: department_New_def split: if_splits)
  ultimately show ?thesis
    using DepartmentStore_Create_change [of env d db db' u] assms(2) good_TrimSpace [of name] CreateDepartment by simp
next
  case (UpdateDepartment snap i name)
  with assms(1) obtain d u where "DepartmentStore_Update env ws d db = Inr (db', u)" "dep_Name d = TrimSpace name" "TrimSpace name \<noteq> []" "\<not> RuneCount (TrimSpace name) > 100"
    by (auto simp: department_Update_def Let_def NameMaxRunes_def map_sum_def split: if_splits sum.splits)
  then show ?thesis
    using DepartmentStore_Update_change [of env ws d db db' u] assms(2) good_TrimSpace [of name] UpdateDepartment by simp
next
  case (DeleteDepartment i)
  with assms show ?thesis using DepartmentStore_Delete_change by (auto simp: department_Delete_def split: if_splits)
next
  case (CreateTeam lookup now gen dept name)
  with assms(1) obtain t u where "team_New now gen dept ws (TrimSpace name) = Inr t" "TeamStore_Create env t db = Inr (db', u)" "\<not> RuneCount (TrimSpace name) > 100"
    by (auto simp: team_Create_def Let_def NameMaxRunes_def map_sum_def split: if_splits sum.splits)
  moreover from this have "tm_ID t = gen" "tm_WorkspaceID t = ws" "tm_Name t = TrimSpace name" "TrimSpace name \<noteq> []"
    by (auto simp: team_New_def split: if_splits)
  ultimately show ?thesis
    using TeamStore_Create_change [of env t db db' u] assms(2) good_TrimSpace [of name] CreateTeam by simp
next
  case (UpdateTeam lookup snap i name dept)
  with assms(1) obtain t0 t u where g: "TeamStore_Get env ws i snap = Inr t0" and p: "team_patch lookup ws name dept t0 = Inr t"
    and u: "TeamStore_Update env ws t db = Inr (db', u)"
    by (auto simp: team_Update_def map_sum_def split: if_splits sum.splits)
  have s: "org_ok env snap" "homes_agree snap db" using snap [of snap] UpdateTeam by simp_all
  have t: "tm_ID t = i" "good_name (tm_Name t)" "team_home snap i = Some ws"
    using TeamStore_Get_Inr [OF g s(1)] team_patch_Inr [OF p] by auto
  then have "agree (Some ws) (team_home db (tm_ID t))" using s(2) by (metis homes_agree_def)
  then show ?thesis using TeamStore_Update_change [OF u assms(2) t(2)] UpdateTeam by simp
next
  case (DeleteTeam i)
  with assms show ?thesis using TeamStore_Delete_change by (auto simp: team_Delete_def split: if_splits)
next
  case (CreateEmployee lookup now gen team name role caps)
  define e' :: "AIEmployee \<Rightarrow> AIEmployee" where "e' = (\<lambda>e. e\<lparr>emp_Capabilities := Some (case caps of None \<Rightarrow> [] | Some c \<Rightarrow> c)\<rparr>)"
  from CreateEmployee assms(1) obtain e u dept where n: "employee_New now gen team ws dept (TrimSpace name) (TrimSpace role) = Inr e"
    and u: "AIEmployeeStore_Create env (e' e) db = Inr (db', u)"
    and len: "\<not> RuneCount (TrimSpace name) > 100" "\<not> RuneCount (TrimSpace role) > 100"
    by (auto simp: employee_Create_def Let_def NameMaxRunes_def RoleMaxRunes_def map_sum_def e'_def split: if_splits sum.splits prod.splits)
  from n have "emp_ID e = gen" "emp_WorkspaceID e = ws" "emp_Name e = TrimSpace name" "emp_Role e = TrimSpace role" "TrimSpace name \<noteq> []" "TrimSpace role \<noteq> []"
    by (auto simp: employee_New_def split: if_splits)
  then show ?thesis
    using AIEmployeeStore_Create_change [OF u assms(2)] len good_TrimSpace [of name] good_TrimSpace [of role] CreateEmployee by (simp add: e'_def)
next
  case (UpdateEmployee lookup now snap i ch)
  with assms(1) obtain e0 e u where g: "AIEmployeeStore_Get env ws i snap = Inr e0" and p: "employee_patch lookup ws ch e0 = Inr e"
    and u: "AIEmployeeStore_Update env now ws e db = Inr (db', u)"
    by (auto simp: employee_Update_def map_sum_def split: if_splits sum.splits prod.splits)
  have s: "org_ok env snap" "homes_agree snap db" using snap [of snap] UpdateEmployee by simp_all
  have e: "emp_ID e = i" "good_name (emp_Name e)" "good_name (emp_Role e)" "employee_home snap i = Some ws"
    using AIEmployeeStore_Get_Inr [OF g s(1)] employee_patch_Inr [OF p] by auto
  then have "agree (Some ws) (employee_home db (emp_ID e))" using s(2) by (metis homes_agree_def)
  then show ?thesis using AIEmployeeStore_Update_change [OF u assms(2) e(2,3)] UpdateEmployee by simp
next
  case (DeleteEmployee i)
  with assms show ?thesis using AIEmployeeStore_Delete_change by (auto simp: employee_Delete_def split: if_splits)
qed

lemma unknown_id:
  assumes "i \<notin> org_ids db"
  shows "department_ws db i = None" "team_home db i = None" "employee_home db i = None"
proof -
  have "find_department db i = None" "find_team db i = None" "find_employee db i = None"
    using assms by (force simp: find_department_def find_team_def find_employee_def org_ids_def find_None_iff)+
  then show "department_ws db i = None" "team_home db i = None" "employee_home db i = None"
    by (simp_all add: department_ws_def team_home_def employee_home_def)
qed

lemma agree_sub: "agree x y \<Longrightarrow> y' \<in> {None, y} \<Longrightarrow> agree x y'"
  by (auto simp: agree_def)

lemma agree_SomeD: "agree x y \<Longrightarrow> x = Some v \<Longrightarrow> y \<in> {None, Some v}"
  by (auto simp: agree_def)

lemma homes_agree_change:
  assumes "org_change env ws new db db'" "homes_agree p db" "\<And>i. i \<in> new \<Longrightarrow> i \<notin> org_ids p"
  shows "homes_agree p db'"
  unfolding homes_agree_def
proof
  fix i
  show "agree (department_ws p i) (department_ws db' i) \<and> agree (team_home p i) (team_home db' i) \<and> agree (employee_home p i) (employee_home db' i)"
  proof (cases "i \<in> new")
    case True
    with assms(3) unknown_id [of i p] show ?thesis by (simp add: agree_def)
  next
    case False
    then show ?thesis
      using assms(1,2) unfolding org_change_def homes_agree_def by (meson agree_sub)
  qed
qed

lemma org_request_inv:
  assumes "org_run env ws c (ow_db w) = Inr db" "call_possible w c" "org_inv env w"
  shows "org_change env ws (set_option (call_draws c)) (ow_db w) db"
proof (rule org_run_change [OF assms(1)])
  show "org_ok env (ow_db w)" using assms(3) by (simp add: org_inv_def org_dbs_def)
  show "org_ok env snap \<and> homes_agree snap (ow_db w)" if "call_snapshot c = Some snap" for snap
    using assms(2,3) that by (simp add: call_possible_def org_inv_def)
qed

interpretation organisation: invariant org_initial "org_step env" "org_inv env" for env
proof
  show "org_inv env w" if "org_initial w" for w
    using that by (simp add: org_initial_def org_inv_def org_dbs_def org_ok_def departments_ok_def teams_ok_def employees_ok_def homes_agree_refl)
  have keep: "org_inv env (org_after w db)" if "org_inv env w" "org_ok env db" "\<And>p. p \<in> org_dbs w \<Longrightarrow> homes_agree p db" for w db
    using that by (auto simp: org_inv_def org_after_def org_dbs_def homes_agree_refl)
  fix w w' assume "org_step env w w'" and inv: "org_inv env w"
  then show "org_inv env w'"
  proof (cases rule: org_step.cases)
    case (org_request ws c db)
    have ch: "org_change env ws (set_option (call_draws c)) (ow_db w) db" using org_request_inv [OF org_request(2,3) inv] .
    show ?thesis
      unfolding org_request(1)
    proof (rule keep [OF inv])
      show "org_ok env db" using ch by (simp add: org_change_def)
      show "homes_agree p db" if p: "p \<in> org_dbs w" for p
      proof (rule homes_agree_change [OF ch])
        show "homes_agree p (ow_db w)" using inv p by (simp add: org_inv_def)
        show "i \<notin> org_ids p" if "i \<in> set_option (call_draws c)" for i
          using org_request(3) p that by (simp add: call_possible_def org_fresh_def)
      qed
    qed
  next
    case (org_workspace now gen name db r)
    have ok: "org_ok env (ow_db w)" using inv by (simp add: org_inv_def org_dbs_def)
    obtain row where db: "db = (ow_db w)\<lparr>og_workspaces := og_workspaces (ow_db w) @ [row]\<rparr>"
      and new: "\<forall>x \<in> set (og_workspaces (ow_db w)). wsr_id x \<noteq> wsr_id row \<and> wsr_name x \<noteq> wsr_name row"
      using org_workspace(2) by (auto simp: WorkspaceStore_Create_def Let_def list_ex_iff split: if_splits)
    have same: "homes_agree p (x\<lparr>og_workspaces := ws\<rparr>) \<longleftrightarrow> homes_agree p x" for p x ws
      by (simp add: homes_agree_def department_ws_def find_department_def team_home_def find_team_def team_ws_def employee_home_def find_employee_def employee_ws_def cong: option.case_cong)
    show ?thesis
      unfolding org_workspace(1)
    proof (rule keep [OF inv])
      show "org_ok env db" using ok new by (auto simp: db org_ok_def departments_ok_def teams_ok_def employees_ok_def)
      show "homes_agree p db" if "p \<in> org_dbs w" for p using inv that by (simp add: db same org_inv_def)
    qed
  next
    case (org_execution e)
    have ok: "org_ok env (ow_db w)" using inv by (simp add: org_inv_def org_dbs_def)
    have same: "homes_agree p (x\<lparr>og_busy := b\<rparr>) \<longleftrightarrow> homes_agree p x" for p x b
      by (simp add: homes_agree_def department_ws_def find_department_def team_home_def find_team_def team_ws_def employee_home_def find_employee_def employee_ws_def cong: option.case_cong)
    show ?thesis
      unfolding org_execution(1)
    proof (rule keep [OF inv])
      show "org_ok env ((ow_db w)\<lparr>og_busy := e # og_busy (ow_db w)\<rparr>)"
        using ok org_execution(2) by (auto simp: org_ok_def departments_ok_def teams_ok_def employees_ok_def)
      show "homes_agree p ((ow_db w)\<lparr>og_busy := e # og_busy (ow_db w)\<rparr>)" if "p \<in> org_dbs w" for p using inv that by (simp add: same org_inv_def)
    qed
  qed
qed

subsection \<open>The hierarchy\<close>

text \<open>
  C38. The hierarchy is whole in every reachable state. Identifiers are unique, every department belongs to a workspace
  that exists, every team to a department and every employee to a team; no execution names an employee that is
  gone. Names and roles are trimmed, not empty and at most 100 runes long, and no two siblings have names that
  differ in case alone. This holds whatever the updates had read before, whatever their resolvers answered, with
  and without row policies.
\<close>

theorem organisation_whole:
  assumes "org_initial w0" "runs (org_step env) w0 w"
  shows "let db = ow_db w in
    distinct (map dpr_id (og_departments db)) \<and> distinct (map tmr_id (og_teams db)) \<and> distinct (map epr_id (og_employees db))
    \<and> dpr_workspace_id ` set (og_departments db) \<subseteq> wsr_id ` set (og_workspaces db)
    \<and> tmr_department_id ` set (og_teams db) \<subseteq> dpr_id ` set (og_departments db)
    \<and> epr_team_id ` set (og_employees db) \<subseteq> tmr_id ` set (og_teams db)
    \<and> set (og_busy db) \<subseteq> epr_id ` set (og_employees db)
    \<and> (\<forall>name \<in> dpr_name ` set (og_departments db) \<union> tmr_name ` set (og_teams db) \<union> epr_name ` set (og_employees db) \<union> epr_role ` set (og_employees db).
         name \<noteq> [] \<and> TrimSpace name = name \<and> RuneCount name \<le> 100)
    \<and> distinct (map (\<lambda>r. (dpr_workspace_id r, oe_lower env (dpr_name r))) (og_departments db))
    \<and> distinct (map (\<lambda>r. (tmr_department_id r, oe_lower env (tmr_name r))) (og_teams db))
    \<and> distinct (map (\<lambda>r. (epr_team_id r, oe_lower env (epr_name r))) (og_employees db))"
proof -
  have "org_ok env (ow_db w)"
    using organisation.inv_reachable [OF assms] by (simp add: org_inv_def org_dbs_def)
  then show ?thesis
    by (auto simp: Let_def org_ok_def departments_ok_def teams_ok_def employees_ok_def good_name_def)
qed

subsection \<open>Tenants\<close>

text \<open>
  C39. No workspace touches another. In every reachable state a call made for a workspace, whatever it succeeds
  in, leaves the departments, teams and employees of every other workspace as they were; and a
  department, team or employee that was ever in a workspace is in that workspace or gone. This does not rest on the row policies, although two
  statements name their row by its identifier alone.
\<close>

theorem organisation_tenants_apart:
  assumes "org_initial w0" "runs (org_step env) w0 w" "call_possible w c" "org_run env ws c (ow_db w) = Inr db"
  shows "(\<forall>v. v \<noteq> ws \<longrightarrow> org_view v db = org_view v (ow_db w))
    \<and> (\<forall>p \<in> org_dbs w. \<forall>i v. (department_ws p i = Some v \<longrightarrow> department_ws db i \<in> {None, Some v})
         \<and> (team_home p i = Some v \<longrightarrow> team_home db i \<in> {None, Some v}) \<and> (employee_home p i = Some v \<longrightarrow> employee_home db i \<in> {None, Some v}))"
proof -
  have inv: "org_inv env w" using organisation.inv_reachable [OF assms(1,2)] .
  have ch: "org_change env ws (set_option (call_draws c)) (ow_db w) db" using org_request_inv [OF assms(4,3) inv] .
  have homes: "homes_agree p db" if p: "p \<in> org_dbs w" for p
  proof (rule homes_agree_change [OF ch])
    show "homes_agree p (ow_db w)" using inv p by (simp add: org_inv_def)
    show "i \<notin> org_ids p" if "i \<in> set_option (call_draws c)" for i
      using assms(3) p that by (simp add: call_possible_def org_fresh_def)
  qed
  show ?thesis
  proof (intro conjI ballI allI impI)
    fix p i v assume p: "p \<in> org_dbs w"
    have agrees: "agree (department_ws p i) (department_ws db i)" "agree (team_home p i) (team_home db i)" "agree (employee_home p i) (employee_home db i)"
      using homes [OF p] by (simp_all add: homes_agree_def)
    show "department_ws db i \<in> {None, Some v}" if "department_ws p i = Some v" using agree_SomeD [OF agrees(1) that] .
    show "team_home db i \<in> {None, Some v}" if "team_home p i = Some v" using agree_SomeD [OF agrees(2) that] .
    show "employee_home db i \<in> {None, Some v}" if "employee_home p i = Some v" using agree_SomeD [OF agrees(3) that] .
  qed (use ch in \<open>simp add: org_change_def\<close>)
qed

subsection \<open>A history\<close>

text \<open>A workspace without row policies, a department and a team of it, and another name for the team.\<close>

definition demo_org :: org_env where
  "demo_org = \<lparr>oe_rls = False, oe_lower = map lower, oe_collate = map of_char, oe_any = Some, oe_uuid_String = (\<lambda>u. Itoa (unat u))\<rparr>"

definition after_call :: "uuid \<Rightarrow> org_call \<Rightarrow> org_db \<Rightarrow> org_db" where
  "after_call ws c db = (case org_run demo_org ws c db of Inl _ \<Rightarrow> db | Inr db' \<Rightarrow> db')"

definition demo_workspaces :: org_db where
  "demo_workspaces = \<lparr>og_workspaces = [\<lparr>wsr_id = 1, wsr_name = ''North'', wsr_created_at = 0, wsr_updated_at = 0\<rparr>], og_departments = [], og_teams = [], og_employees = [], og_busy = []\<rparr>"

definition demo_department :: org_db where
  "demo_department = after_call 1 (CreateDepartment 5000 10 '' Research '') demo_workspaces"

definition demo_team :: org_db where
  "demo_team = after_call 1 (CreateTeam (Some (\<lambda>ws i. DepartmentResolverAdapter_Get demo_org ws i demo_department)) 6000 20 10 ''Models'') demo_department"

definition demo_rename :: org_call where
  "demo_rename = UpdateTeam None demo_team 20 ''Models and data'' None"

definition demo_empty :: org_world where
  "demo_empty = \<lparr>ow_db = \<lparr>og_workspaces = [], og_departments = [], og_teams = [], og_employees = [], og_busy = []\<rparr>, ow_past = {}\<rparr>"

definition org_reached :: org_world where
  "org_reached = org_after (org_after (org_after demo_empty demo_workspaces) demo_department) demo_team"

lemma demo_calls:
  "org_run demo_org 1 (CreateDepartment 5000 10 '' Research '') demo_workspaces = Inr demo_department"
  "org_run demo_org 1 (CreateTeam (Some (\<lambda>ws i. DepartmentResolverAdapter_Get demo_org ws i demo_department)) 6000 20 10 ''Models'') demo_department = Inr demo_team"
  "org_run demo_org 1 demo_rename demo_team = Inr (after_call 1 demo_rename demo_team)"
  by code_simp+

lemma demo_fresh:
  "org_fresh demo_empty 1" "org_fresh (org_after demo_empty demo_workspaces) 10"
  "org_fresh (org_after (org_after demo_empty demo_workspaces) demo_department) 20"
proof -
  have "10 \<notin> org_ids demo_workspaces" "20 \<notin> org_ids demo_workspaces" "20 \<notin> org_ids demo_department" by code_simp+
  then show "org_fresh demo_empty 1" "org_fresh (org_after demo_empty demo_workspaces) 10"
    "org_fresh (org_after (org_after demo_empty demo_workspaces) demo_department) 20"
    by (simp_all add: org_fresh_def org_dbs_def org_after_def demo_empty_def org_ids_def)
qed

lemma demo_reachable: "org_initial demo_empty" "runs (org_step demo_org) demo_empty org_reached"
proof -
  show "org_initial demo_empty" by (simp add: org_initial_def demo_empty_def)
  have "WorkspaceStore_Create 0 1 ''North'' (ow_db demo_empty) = Inr (demo_workspaces, \<lparr>wsp_ID = 1, wsp_Name = ''North'', wsp_CreatedAt = 0, wsp_UpdatedAt = 0\<rparr>)"
    by (simp add: WorkspaceStore_Create_def demo_empty_def demo_workspaces_def scanWorkspace_def to_micro_def)
  then have "org_step demo_org demo_empty (org_after demo_empty demo_workspaces)" using demo_fresh(1) by (rule org_workspace)
  moreover have "org_step demo_org (org_after demo_empty demo_workspaces) (org_after (org_after demo_empty demo_workspaces) demo_department)"
    by (rule org_request [where ws = 1 and c = "CreateDepartment 5000 10 '' Research ''"]) (use demo_calls(1) demo_fresh(2) in \<open>simp_all add: org_after_def call_possible_def\<close>)
  moreover have "org_step demo_org (org_after (org_after demo_empty demo_workspaces) demo_department) org_reached"
    unfolding org_reached_def
    by (rule org_request [where ws = 1 and c = "CreateTeam (Some (\<lambda>ws i. DepartmentResolverAdapter_Get demo_org ws i demo_department)) 6000 20 10 ''Models''"])
      (use demo_calls(2) demo_fresh(3) in \<open>simp_all add: org_after_def call_possible_def\<close>)
  ultimately show "runs (org_step demo_org) demo_empty org_reached" by (meson runs.intros)
qed

theorem organisation_whole_witness:
  "og_teams (ow_db org_reached) \<noteq> [] \<and> tmr_department_id ` set (og_teams (ow_db org_reached)) \<subseteq> dpr_id ` set (og_departments (ow_db org_reached))"
proof -
  have "og_teams demo_team \<noteq> []" by code_simp
  then show ?thesis using organisation_whole [OF demo_reachable] by (simp add: Let_def org_reached_def org_after_def)
qed

theorem organisation_tenants_apart_witness:
  "org_view 2 (after_call 1 demo_rename demo_team) = org_view 2 demo_team \<and> team_home (after_call 1 demo_rename demo_team) 20 \<in> {None, Some 1}"
proof -
  have now: "ow_db org_reached = demo_team" "demo_team \<in> org_dbs org_reached" by (simp_all add: org_reached_def org_after_def org_dbs_def)
  have "team_home demo_team 20 = Some 1" by code_simp
  moreover have "call_possible org_reached demo_rename" by (simp add: call_possible_def demo_rename_def now(2))
  ultimately show ?thesis
    using organisation_tenants_apart [OF demo_reachable _ demo_calls(3) [folded now(1)]] now by auto
qed

end
