(* ===== verification/Org_Api.thy ===== *)
theory Org_Api
  imports Org_Hierarchy Task_Api
begin

text \<open>
  The routes of the organisation (\<^verbatim>\<open>internal/api/department_handlers.go\<close>, \<^verbatim>\<open>team_handlers.go\<close>,
  \<^verbatim>\<open>aiemployee_handlers.go\<close>): every request works in the workspace of the verified claims. Its audit record is
  written as well as may be; a failure to write it is only logged. The three files repeat each other, so what
  they share is written once, with the names that differ as arguments. A body is the value \<^verbatim>\<open>decodeJSON\<close>
  produced, or \<open>None\<close> when it refused it; a query string is \<open>None\<close> when it does not parse.
\<close>

subsection \<open>Requests and answers\<close>

record org_state =
  os_db :: org_db
  os_audit :: "AuditEvent \<times> audit_table"

text \<open>The services with their resolvers, which read the tables \<open>xr_parents\<close>; an update reads its record in \<open>xr_snap\<close>.\<close>

record org_reads =
  xr_parents :: org_db
  xr_snap :: org_db

record departmentResponse =
  dj_ID :: string
  dj_WorkspaceID :: string
  dj_Name :: string
  dj_CreatedAt :: string
  dj_UpdatedAt :: string

record teamResponse =
  tj_ID :: string
  tj_DepartmentID :: string
  tj_WorkspaceID :: string
  tj_Name :: string
  tj_CreatedAt :: string
  tj_UpdatedAt :: string

record aiEmployeeResponse =
  ej_ID :: string
  ej_TeamID :: string
  ej_DepartmentID :: string
  ej_WorkspaceID :: string
  ej_Name :: string
  ej_Role :: string
  ej_Capabilities :: "string list"
  ej_CurrentTaskID :: string
  ej_CreatedAt :: string
  ej_UpdatedAt :: string

record 'a org_page_response =
  pj_Items :: "'a list"
  pj_NextCursor :: string
  pj_Limit :: int

definition toDepartmentResponse :: "api_env \<Rightarrow> Department \<Rightarrow> departmentResponse" where
  "toDepartmentResponse env d =
     \<lparr>dj_ID = al_uuid_String (en_lib env) (dep_ID d), dj_WorkspaceID = al_uuid_String (en_lib env) (dep_WorkspaceID d), dj_Name = dep_Name d,
      dj_CreatedAt = en_time_Format env (dep_CreatedAt d), dj_UpdatedAt = en_time_Format env (dep_UpdatedAt d)\<rparr>"

definition toTeamResponse :: "api_env \<Rightarrow> Team \<Rightarrow> teamResponse" where
  "toTeamResponse env t =
     \<lparr>tj_ID = al_uuid_String (en_lib env) (tm_ID t), tj_DepartmentID = al_uuid_String (en_lib env) (tm_DepartmentID t),
      tj_WorkspaceID = al_uuid_String (en_lib env) (tm_WorkspaceID t), tj_Name = tm_Name t,
      tj_CreatedAt = en_time_Format env (tm_CreatedAt t), tj_UpdatedAt = en_time_Format env (tm_UpdatedAt t)\<rparr>"

definition toAIEmployeeResponse :: "api_env \<Rightarrow> AIEmployee \<Rightarrow> aiEmployeeResponse" where
  "toAIEmployeeResponse env e =
     \<lparr>ej_ID = al_uuid_String (en_lib env) (emp_ID e), ej_TeamID = al_uuid_String (en_lib env) (emp_TeamID e),
      ej_DepartmentID = al_uuid_String (en_lib env) (emp_DepartmentID e), ej_WorkspaceID = al_uuid_String (en_lib env) (emp_WorkspaceID e),
      ej_Name = emp_Name e, ej_Role = emp_Role e, ej_Capabilities = (case emp_Capabilities e of None \<Rightarrow> [] | Some c \<Rightarrow> c),
      ej_CurrentTaskID = (case emp_CurrentTaskID e of None \<Rightarrow> [] | Some t \<Rightarrow> al_uuid_String (en_lib env) t),
      ej_CreatedAt = en_time_Format env (emp_CreatedAt e), ej_UpdatedAt = en_time_Format env (emp_UpdatedAt e)\<rparr>"

definition toDepartmentPage :: "api_env \<Rightarrow> Department org_page \<Rightarrow> departmentResponse org_page_response" where
  "toDepartmentPage env p = \<lparr>pj_Items = map (toDepartmentResponse env) (op_Items p), pj_NextCursor = op_NextCursor p, pj_Limit = op_Limit p\<rparr>"

definition toTeamPage :: "api_env \<Rightarrow> Team org_page \<Rightarrow> teamResponse org_page_response" where
  "toTeamPage env p = \<lparr>pj_Items = map (toTeamResponse env) (op_Items p), pj_NextCursor = op_NextCursor p, pj_Limit = op_Limit p\<rparr>"

definition toAIEmployeePage :: "api_env \<Rightarrow> AIEmployee org_page \<Rightarrow> aiEmployeeResponse org_page_response" where
  "toAIEmployeePage env p = \<lparr>pj_Items = map (toAIEmployeeResponse env) (op_Items p), pj_NextCursor = op_NextCursor p, pj_Limit = op_Limit p\<rparr>"

subsection \<open>Records, scope, errors, parameters\<close>

text \<open>A resource is named by its event prefix, which is also its target type, and by the suffix of its actions.\<close>

datatype org_kind = Departments | Teams | Employees

fun kind_event :: "org_kind \<Rightarrow> string" where
  "kind_event Departments = ''department''"
| "kind_event Teams = ''team''"
| "kind_event Employees = ''ai_employee''"

fun kind_action :: "org_kind \<Rightarrow> string" where
  "kind_action Departments = ''-department''"
| "kind_action Teams = ''-team''"
| "kind_action Employees = ''-ai-employee''"

definition org_audit_record :: "api_env \<Rightarrow> api_call \<Rightarrow> Claims \<Rightarrow> org_kind \<Rightarrow> string \<Rightarrow> uuid \<Rightarrow> uuid \<Rightarrow> string \<Rightarrow> string \<Rightarrow> audit_record" where
  "org_audit_record env cx c k action target ws outcome detail =
     \<lparr>rc_EventType = kind_event k @ ''.'' @ TrimSuffix action (kind_action k), rc_ActorType = ''user'', rc_ActorID = parseActorID env (cl_ID c),
      rc_TargetType = kind_event k, rc_TargetID = target, rc_Outcome = outcome, rc_Principle = ''Security by Design'',
      rc_WorkspaceID = (if ws \<noteq> uuid_Nil then Some ws else None),
      rc_TraceID = (case en_uuid_Parse env (cx_trace cx) of None \<Rightarrow> uuid_Nil | Some i \<Rightarrow> i), rc_SpanID = uuid_Nil,
      rc_Details = (if detail \<noteq> [] then [(''detail'', detail)] else [])\<rparr>"

definition org_record ::
  "api_env \<Rightarrow> api_call \<Rightarrow> Claims \<Rightarrow> org_kind \<Rightarrow> string \<Rightarrow> uuid \<Rightarrow> uuid \<Rightarrow> string \<Rightarrow> string \<Rightarrow> org_state \<Rightarrow> org_state" where
  "org_record env cx c k action target ws outcome detail s =
     (if \<not> en_auditSink env then s
      else s\<lparr>os_audit := fst (auditstore_Append (en_lib env) (cx_now cx) (cx_ids cx) (org_audit_record env cx c k action target ws outcome detail) (os_audit s))\<rparr>)"

definition org_scope :: "api_env \<Rightarrow> api_call \<Rightarrow> org_kind \<Rightarrow> string \<Rightarrow> org_state \<Rightarrow> (nat, Claims \<times> uuid) result \<times> org_state" where
  "org_scope env cx k action s =
     (case cx_claims cx of
        None \<Rightarrow> (Inl 401, s)
      | Some c \<Rightarrow>
          (case WorkspaceFromClaims (Some c) of
             None \<Rightarrow> (Inl 403, org_record env cx c k action uuid_Nil uuid_Nil ''denied'' ''no_workspace_context'' s)
           | Some binding \<Rightarrow>
               (case en_uuid_Parse env binding of
                  None \<Rightarrow> (Inl 403, s)
                | Some ws \<Rightarrow> (Inr (c, ws), s))))"

definition org_fail :: "api_env \<Rightarrow> api_call \<Rightarrow> Claims \<Rightarrow> org_kind \<Rightarrow> string \<Rightarrow> uuid \<Rightarrow> org_error \<Rightarrow> org_state \<Rightarrow> 'b response \<times> org_state" where
  "org_fail env cx c k action i e s =
     (case e of
        org_error.ErrNotFound \<Rightarrow> (HTTP_Error 404, org_record env cx c k action i uuid_Nil ''failed'' ''not_found'' s)
      | org_error.ErrWorkspaceMismatch \<Rightarrow> (HTTP_Error 403, org_record env cx c k action i uuid_Nil ''denied'' ''workspace_mismatch'' s)
      | org_error.ErrNameTaken \<Rightarrow> (HTTP_Error 409, org_record env cx c k action i uuid_Nil ''failed'' ''name_taken'' s)
      | org_error.ErrInvalidInput \<Rightarrow> (HTTP_Error 400, org_record env cx c k action i uuid_Nil ''failed'' ''invalid_input'' s)
      | org_error.ErrDatabase \<Rightarrow> (HTTP_Error 500, s))"

text \<open>The handlers of the three files.\<close>

definition DepartmentHandler_record where "DepartmentHandler_record env cx c = org_record env cx c Departments"
definition TeamHandler_record where "TeamHandler_record env cx c = org_record env cx c Teams"
definition AIEmployeeHandler_record where "AIEmployeeHandler_record env cx c = org_record env cx c Employees"
definition DepartmentHandler_scope where "DepartmentHandler_scope env cx = org_scope env cx Departments"
definition TeamHandler_scope where "TeamHandler_scope env cx = org_scope env cx Teams"
definition AIEmployeeHandler_scope where "AIEmployeeHandler_scope env cx = org_scope env cx Employees"

definition DepartmentHandler_fail :: "api_env \<Rightarrow> api_call \<Rightarrow> Claims \<Rightarrow> string \<Rightarrow> uuid \<Rightarrow> org_error \<Rightarrow> org_state \<Rightarrow> 'b response \<times> org_state" where
  "DepartmentHandler_fail env cx c = org_fail env cx c Departments"

definition TeamHandler_fail :: "api_env \<Rightarrow> api_call \<Rightarrow> Claims \<Rightarrow> string \<Rightarrow> uuid \<Rightarrow> org_error \<Rightarrow> org_state \<Rightarrow> 'b response \<times> org_state" where
  "TeamHandler_fail env cx c = org_fail env cx c Teams"

definition AIEmployeeHandler_fail :: "api_env \<Rightarrow> api_call \<Rightarrow> Claims \<Rightarrow> string \<Rightarrow> uuid \<Rightarrow> org_error \<Rightarrow> org_state \<Rightarrow> 'b response \<times> org_state" where
  "AIEmployeeHandler_fail env cx c = org_fail env cx c Employees"

text \<open>The parameters of a listing, of which one may name a parent.\<close>

definition org_parse_query :: "api_env \<Rightarrow> string list \<Rightarrow> string option \<Rightarrow> url_values option \<Rightarrow> org_query option" where
  "org_parse_query env known parent raw =
     (case raw of
        None \<Rightarrow> None
      | Some vs \<Rightarrow>
          if \<not> list_all (\<lambda>(k, _). k \<in> set known) vs then None
          else (case nonneg_param (values_Get vs ''limit'') of
                  None \<Rightarrow> None
                | Some n \<Rightarrow>
                    (case org_DecodeCursor (en_uuid_Parse env) (values_Get vs ''cursor'') of
                       Inl _ \<Rightarrow> None
                     | Inr cur \<Rightarrow>
                         let v = (case parent of None \<Rightarrow> [] | Some p \<Rightarrow> values_Get vs p) in
                         if v = [] then Some (org_Normalize \<lparr>oq_Limit = n, oq_Parent = None, oq_Cursor = cur\<rparr>)
                         else (case en_uuid_Parse env (TrimSpace v) of
                                 None \<Rightarrow> None
                               | Some i \<Rightarrow> Some (org_Normalize \<lparr>oq_Limit = n, oq_Parent = Some i, oq_Cursor = cur\<rparr>)))))"

definition parseDepartmentQuery where "parseDepartmentQuery env = org_parse_query env [''limit'', ''cursor''] None"
definition parseTeamQuery where "parseTeamQuery env = org_parse_query env [''limit'', ''cursor'', ''department_id''] (Some ''department_id'')"
definition parseAIEmployeeQuery where "parseAIEmployeeQuery env = org_parse_query env [''limit'', ''cursor'', ''team_id''] (Some ''team_id'')"

definition departmentNameMaxRunes :: nat where "departmentNameMaxRunes = 100"
definition teamNameMaxRunes :: nat where "teamNameMaxRunes = 100"
definition employeeNameMaxRunes :: nat where "employeeNameMaxRunes = 100"
definition employeeRoleMaxRunes :: nat where "employeeRoleMaxRunes = 100"

subsection \<open>The department routes\<close>

text \<open>The checks of a name in a body: the detail of the refusal.\<close>

definition refused_text :: "string \<Rightarrow> string \<Rightarrow> nat \<Rightarrow> string \<Rightarrow> string option" where
  "refused_text blank long most s = (if s = [] then Some blank else if RuneCount s > most then Some long else None)"

definition DepartmentHandler_List :: "api_env \<Rightarrow> org_env \<Rightarrow> api_call \<Rightarrow> url_values option \<Rightarrow> org_state \<Rightarrow> departmentResponse org_page_response response \<times> org_state" where
  "DepartmentHandler_List env oe cx raw s0 =
     (case DepartmentHandler_scope env cx ''list-department'' s0 of
        (Inl status, s) \<Rightarrow> (HTTP_Error status, s)
      | (Inr (c, ws), s) \<Rightarrow>
          (case parseDepartmentQuery env raw of
             None \<Rightarrow> (HTTP_Error 400, s)
           | Some q \<Rightarrow>
               (case department_ListPage oe ws q (os_db s) of
                  Inl e \<Rightarrow> DepartmentHandler_fail env cx c ''list-department'' uuid_Nil e s
                | Inr page \<Rightarrow> (HTTP_OK 200 (toDepartmentPage env page), DepartmentHandler_record env cx c ''list-department'' uuid_Nil ws ''success'' [] s))))"

text \<open>A body of a creation is its name.\<close>

definition DepartmentHandler_Create :: "api_env \<Rightarrow> org_env \<Rightarrow> api_call \<Rightarrow> string option \<Rightarrow> org_state \<Rightarrow> departmentResponse response \<times> org_state" where
  "DepartmentHandler_Create env oe cx body s0 =
     (case DepartmentHandler_scope env cx ''create-department'' s0 of
        (Inl status, s) \<Rightarrow> (HTTP_Error status, s)
      | (Inr (c, ws), s) \<Rightarrow>
          (case body of
             None \<Rightarrow> (HTTP_Error 400, DepartmentHandler_record env cx c ''create-department'' uuid_Nil ws ''failed'' ''invalid_body'' s)
           | Some reqName \<Rightarrow>
               let name = TrimSpace reqName in
               (case refused_text ''name_required'' ''name_too_long'' departmentNameMaxRunes name of
                  Some detail \<Rightarrow> (HTTP_Error 400, DepartmentHandler_record env cx c ''create-department'' uuid_Nil ws ''failed'' detail s)
                | None \<Rightarrow>
                    (case department_Create oe (cx_now cx) (fst (cx_gen cx)) ws name (os_db s) of
                       Inl e \<Rightarrow> DepartmentHandler_fail env cx c ''create-department'' uuid_Nil e s
                     | Inr (db, d) \<Rightarrow>
                         (HTTP_OK 201 (toDepartmentResponse env d),
                          DepartmentHandler_record env cx c ''create-department'' (dep_ID d) ws ''success'' [] (s\<lparr>os_db := db\<rparr>))))))"

definition DepartmentHandler_Get :: "api_env \<Rightarrow> org_env \<Rightarrow> api_call \<Rightarrow> string \<Rightarrow> org_state \<Rightarrow> departmentResponse response \<times> org_state" where
  "DepartmentHandler_Get env oe cx path s0 =
     (case DepartmentHandler_scope env cx ''get-department'' s0 of
        (Inl status, s) \<Rightarrow> (HTTP_Error status, s)
      | (Inr (c, ws), s) \<Rightarrow>
          (case en_uuid_Parse env path of
             None \<Rightarrow> (HTTP_Error 400, s)
           | Some i \<Rightarrow>
               (case department_Get oe ws i (os_db s) of
                  Inl e \<Rightarrow> DepartmentHandler_fail env cx c ''get-department'' i e s
                | Inr d \<Rightarrow> (HTTP_OK 200 (toDepartmentResponse env d), DepartmentHandler_record env cx c ''get-department'' (dep_ID d) ws ''success'' [] s))))"

definition DepartmentHandler_Update ::
  "api_env \<Rightarrow> org_env \<Rightarrow> api_call \<Rightarrow> org_db \<Rightarrow> string \<Rightarrow> string option option \<Rightarrow> org_state \<Rightarrow> departmentResponse response \<times> org_state" where
  "DepartmentHandler_Update env oe cx snap path body s0 =
     (case DepartmentHandler_scope env cx ''update-department'' s0 of
        (Inl status, s) \<Rightarrow> (HTTP_Error status, s)
      | (Inr (c, ws), s) \<Rightarrow>
          (case en_uuid_Parse env path of
             None \<Rightarrow> (HTTP_Error 400, s)
           | Some i \<Rightarrow>
               (case body of
                  None \<Rightarrow> (HTTP_Error 400, DepartmentHandler_record env cx c ''update-department'' i ws ''failed'' ''invalid_body'' s)
                | Some None \<Rightarrow> (HTTP_Error 400, DepartmentHandler_record env cx c ''update-department'' i ws ''failed'' ''name_required'' s)
                | Some (Some reqName) \<Rightarrow>
                    let name = TrimSpace reqName in
                    (case refused_text ''name_blank'' ''name_too_long'' departmentNameMaxRunes name of
                       Some detail \<Rightarrow> (HTTP_Error 400, DepartmentHandler_record env cx c ''update-department'' i ws ''failed'' detail s)
                     | None \<Rightarrow>
                         (case department_Update oe snap ws i name (os_db s) of
                            Inl e \<Rightarrow> DepartmentHandler_fail env cx c ''update-department'' i e s
                          | Inr (db, d) \<Rightarrow>
                              (HTTP_OK 200 (toDepartmentResponse env d),
                               DepartmentHandler_record env cx c ''update-department'' (dep_ID d) ws ''success'' [] (s\<lparr>os_db := db\<rparr>)))))))"

definition DepartmentHandler_Delete :: "api_env \<Rightarrow> org_env \<Rightarrow> api_call \<Rightarrow> string \<Rightarrow> org_state \<Rightarrow> unit response \<times> org_state" where
  "DepartmentHandler_Delete env oe cx path s0 =
     (case DepartmentHandler_scope env cx ''delete-department'' s0 of
        (Inl status, s) \<Rightarrow> (HTTP_Error status, s)
      | (Inr (c, ws), s) \<Rightarrow>
          (case en_uuid_Parse env path of
             None \<Rightarrow> (HTTP_Error 400, s)
           | Some i \<Rightarrow>
               (case department_Delete oe ws i (os_db s) of
                  Inl e \<Rightarrow> DepartmentHandler_fail env cx c ''delete-department'' i e s
                | Inr db \<Rightarrow> (HTTP_OK 204 (), DepartmentHandler_record env cx c ''delete-department'' i ws ''success'' [] (s\<lparr>os_db := db\<rparr>)))))"

subsection \<open>The team routes\<close>

record createTeamRequest =
  ct_Name :: string
  ct_DepartmentID :: string

record updateTeamRequest =
  xt_Name :: "string option"
  xt_DepartmentID :: "string option"

definition team_resolver :: "org_env \<Rightarrow> org_reads \<Rightarrow> uuid resolver option" where
  "team_resolver oe rd = Some (\<lambda>ws i. DepartmentResolverAdapter_Get oe ws i (xr_parents rd))"

definition TeamHandler_List :: "api_env \<Rightarrow> org_env \<Rightarrow> api_call \<Rightarrow> url_values option \<Rightarrow> org_state \<Rightarrow> teamResponse org_page_response response \<times> org_state" where
  "TeamHandler_List env oe cx raw s0 =
     (case TeamHandler_scope env cx ''list-team'' s0 of
        (Inl status, s) \<Rightarrow> (HTTP_Error status, s)
      | (Inr (c, ws), s) \<Rightarrow>
          (case parseTeamQuery env raw of
             None \<Rightarrow> (HTTP_Error 400, s)
           | Some q \<Rightarrow>
               (case team_ListPage oe ws q (os_db s) of
                  Inl e \<Rightarrow> TeamHandler_fail env cx c ''list-team'' uuid_Nil e s
                | Inr page \<Rightarrow> (HTTP_OK 200 (toTeamPage env page), TeamHandler_record env cx c ''list-team'' uuid_Nil ws ''success'' [] s))))"

definition TeamHandler_Create ::
  "api_env \<Rightarrow> org_env \<Rightarrow> api_call \<Rightarrow> org_reads \<Rightarrow> createTeamRequest option \<Rightarrow> org_state \<Rightarrow> teamResponse response \<times> org_state" where
  "TeamHandler_Create env oe cx rd body s0 =
     (case TeamHandler_scope env cx ''create-team'' s0 of
        (Inl status, s) \<Rightarrow> (HTTP_Error status, s)
      | (Inr (c, ws), s) \<Rightarrow>
          (case body of
             None \<Rightarrow> (HTTP_Error 400, TeamHandler_record env cx c ''create-team'' uuid_Nil ws ''failed'' ''invalid_body'' s)
           | Some req \<Rightarrow>
               let name = TrimSpace (ct_Name req) in
               (case refused_text ''name_required'' ''name_too_long'' teamNameMaxRunes name of
                  Some detail \<Rightarrow> (HTTP_Error 400, TeamHandler_record env cx c ''create-team'' uuid_Nil ws ''failed'' detail s)
                | None \<Rightarrow>
                    (case en_uuid_Parse env (TrimSpace (ct_DepartmentID req)) of
                       None \<Rightarrow> (HTTP_Error 400, TeamHandler_record env cx c ''create-team'' uuid_Nil ws ''failed'' ''invalid_department_id'' s)
                     | Some dept \<Rightarrow>
                         (case team_Create oe (team_resolver oe rd) (cx_now cx) (fst (cx_gen cx)) ws dept name (os_db s) of
                            Inl e \<Rightarrow> TeamHandler_fail env cx c ''create-team'' uuid_Nil e s
                          | Inr (db, t) \<Rightarrow>
                              (HTTP_OK 201 (toTeamResponse env t), TeamHandler_record env cx c ''create-team'' (tm_ID t) ws ''success'' [] (s\<lparr>os_db := db\<rparr>)))))))"

definition TeamHandler_Get :: "api_env \<Rightarrow> org_env \<Rightarrow> api_call \<Rightarrow> string \<Rightarrow> org_state \<Rightarrow> teamResponse response \<times> org_state" where
  "TeamHandler_Get env oe cx path s0 =
     (case TeamHandler_scope env cx ''get-team'' s0 of
        (Inl status, s) \<Rightarrow> (HTTP_Error status, s)
      | (Inr (c, ws), s) \<Rightarrow>
          (case en_uuid_Parse env path of
             None \<Rightarrow> (HTTP_Error 400, s)
           | Some i \<Rightarrow>
               (case team_Get oe ws i (os_db s) of
                  Inl e \<Rightarrow> TeamHandler_fail env cx c ''get-team'' i e s
                | Inr t \<Rightarrow> (HTTP_OK 200 (toTeamResponse env t), TeamHandler_record env cx c ''get-team'' (tm_ID t) ws ''success'' [] s))))"

text \<open>The checks of the body of an update: the detail of the refusal, or the arguments of the service.\<close>

definition team_changes :: "api_env \<Rightarrow> updateTeamRequest \<Rightarrow> (string, string \<times> uuid option) result" where
  "team_changes env req =
     (if xt_Name req = None \<and> xt_DepartmentID req = None then Inl ''empty_update''
      else case (case xt_Name req of None \<Rightarrow> None | Some n \<Rightarrow> refused_text ''name_blank'' ''name_too_long'' teamNameMaxRunes (TrimSpace n)) of
             Some detail \<Rightarrow> Inl detail
           | None \<Rightarrow>
               let name = (case xt_Name req of None \<Rightarrow> [] | Some n \<Rightarrow> TrimSpace n) in
               (case xt_DepartmentID req of
                  None \<Rightarrow> Inr (name, None)
                | Some d \<Rightarrow>
                    (case en_uuid_Parse env (TrimSpace d) of None \<Rightarrow> Inl ''invalid_department_id'' | Some i \<Rightarrow> Inr (name, Some i))))"

definition TeamHandler_Update ::
  "api_env \<Rightarrow> org_env \<Rightarrow> api_call \<Rightarrow> org_reads \<Rightarrow> string \<Rightarrow> updateTeamRequest option \<Rightarrow> org_state \<Rightarrow> teamResponse response \<times> org_state" where
  "TeamHandler_Update env oe cx rd path body s0 =
     (case TeamHandler_scope env cx ''update-team'' s0 of
        (Inl status, s) \<Rightarrow> (HTTP_Error status, s)
      | (Inr (c, ws), s) \<Rightarrow>
          (case en_uuid_Parse env path of
             None \<Rightarrow> (HTTP_Error 400, s)
           | Some i \<Rightarrow>
               (case body of
                  None \<Rightarrow> (HTTP_Error 400, TeamHandler_record env cx c ''update-team'' i ws ''failed'' ''invalid_body'' s)
                | Some req \<Rightarrow>
                    (case team_changes env req of
                       Inl detail \<Rightarrow> (HTTP_Error 400, TeamHandler_record env cx c ''update-team'' i ws ''failed'' detail s)
                     | Inr (name, dept) \<Rightarrow>
                         (case team_Update oe (team_resolver oe rd) (xr_snap rd) ws i name dept (os_db s) of
                            Inl e \<Rightarrow> TeamHandler_fail env cx c ''update-team'' i e s
                          | Inr (db, t) \<Rightarrow>
                              (HTTP_OK 200 (toTeamResponse env t), TeamHandler_record env cx c ''update-team'' (tm_ID t) ws ''success'' [] (s\<lparr>os_db := db\<rparr>)))))))"

definition TeamHandler_Delete :: "api_env \<Rightarrow> org_env \<Rightarrow> api_call \<Rightarrow> string \<Rightarrow> org_state \<Rightarrow> unit response \<times> org_state" where
  "TeamHandler_Delete env oe cx path s0 =
     (case TeamHandler_scope env cx ''delete-team'' s0 of
        (Inl status, s) \<Rightarrow> (HTTP_Error status, s)
      | (Inr (c, ws), s) \<Rightarrow>
          (case en_uuid_Parse env path of
             None \<Rightarrow> (HTTP_Error 400, s)
           | Some i \<Rightarrow>
               (case team_Delete oe ws i (os_db s) of
                  Inl e \<Rightarrow> TeamHandler_fail env cx c ''delete-team'' i e s
                | Inr db \<Rightarrow> (HTTP_OK 204 (), TeamHandler_record env cx c ''delete-team'' i ws ''success'' [] (s\<lparr>os_db := db\<rparr>)))))"

subsection \<open>The employee routes\<close>

record createAIEmployeeRequest =
  ce_Name :: string
  ce_Role :: string
  ce_TeamID :: string
  ce_Capabilities :: "string list option"

record updateAIEmployeeRequest =
  xe_Name :: "string option"
  xe_Role :: "string option"
  xe_TeamID :: "string option"
  xe_Capabilities :: "string list option"
  xe_CurrentTaskID :: "string option"

definition employee_resolver :: "org_env \<Rightarrow> org_reads \<Rightarrow> (uuid \<times> uuid) resolver option" where
  "employee_resolver oe rd = Some (\<lambda>ws i. TeamResolverAdapter_Get oe ws i (xr_parents rd))"

definition AIEmployeeHandler_List :: "api_env \<Rightarrow> org_env \<Rightarrow> api_call \<Rightarrow> url_values option \<Rightarrow> org_state \<Rightarrow> aiEmployeeResponse org_page_response response \<times> org_state" where
  "AIEmployeeHandler_List env oe cx raw s0 =
     (case AIEmployeeHandler_scope env cx ''list-ai-employee'' s0 of
        (Inl status, s) \<Rightarrow> (HTTP_Error status, s)
      | (Inr (c, ws), s) \<Rightarrow>
          (case parseAIEmployeeQuery env raw of
             None \<Rightarrow> (HTTP_Error 400, s)
           | Some q \<Rightarrow>
               (case employee_ListPage oe ws q (os_db s) of
                  Inl e \<Rightarrow> AIEmployeeHandler_fail env cx c ''list-ai-employee'' uuid_Nil e s
                | Inr page \<Rightarrow> (HTTP_OK 200 (toAIEmployeePage env page), AIEmployeeHandler_record env cx c ''list-ai-employee'' uuid_Nil ws ''success'' [] s))))"

definition employee_refusal :: "createAIEmployeeRequest \<Rightarrow> string option" where
  "employee_refusal req =
     (if TrimSpace (ce_Name req) = [] then Some ''name_required''
      else if TrimSpace (ce_Role req) = [] then Some ''role_required''
      else if RuneCount (TrimSpace (ce_Name req)) > employeeNameMaxRunes then Some ''name_too_long''
      else if RuneCount (TrimSpace (ce_Role req)) > employeeRoleMaxRunes then Some ''role_too_long''
      else None)"

definition AIEmployeeHandler_Create ::
  "api_env \<Rightarrow> org_env \<Rightarrow> api_call \<Rightarrow> org_reads \<Rightarrow> createAIEmployeeRequest option \<Rightarrow> org_state \<Rightarrow> aiEmployeeResponse response \<times> org_state" where
  "AIEmployeeHandler_Create env oe cx rd body s0 =
     (case AIEmployeeHandler_scope env cx ''create-ai-employee'' s0 of
        (Inl status, s) \<Rightarrow> (HTTP_Error status, s)
      | (Inr (c, ws), s) \<Rightarrow>
          (case body of
             None \<Rightarrow> (HTTP_Error 400, AIEmployeeHandler_record env cx c ''create-ai-employee'' uuid_Nil ws ''failed'' ''invalid_body'' s)
           | Some req \<Rightarrow>
               (case employee_refusal req of
                  Some detail \<Rightarrow> (HTTP_Error 400, AIEmployeeHandler_record env cx c ''create-ai-employee'' uuid_Nil ws ''failed'' detail s)
                | None \<Rightarrow>
                    (case en_uuid_Parse env (TrimSpace (ce_TeamID req)) of
                       None \<Rightarrow> (HTTP_Error 400, AIEmployeeHandler_record env cx c ''create-ai-employee'' uuid_Nil ws ''failed'' ''invalid_team_id'' s)
                     | Some team \<Rightarrow>
                         (case employee_Create oe (employee_resolver oe rd) (cx_now cx) (fst (cx_gen cx)) ws team (TrimSpace (ce_Name req))
                                 (TrimSpace (ce_Role req)) (ce_Capabilities req) (os_db s) of
                            Inl e \<Rightarrow> AIEmployeeHandler_fail env cx c ''create-ai-employee'' uuid_Nil e s
                          | Inr (db, e) \<Rightarrow>
                              (HTTP_OK 201 (toAIEmployeeResponse env e),
                               AIEmployeeHandler_record env cx c ''create-ai-employee'' (emp_ID e) ws ''success'' [] (s\<lparr>os_db := db\<rparr>)))))))"

definition AIEmployeeHandler_Get :: "api_env \<Rightarrow> org_env \<Rightarrow> api_call \<Rightarrow> string \<Rightarrow> org_state \<Rightarrow> aiEmployeeResponse response \<times> org_state" where
  "AIEmployeeHandler_Get env oe cx path s0 =
     (case AIEmployeeHandler_scope env cx ''get-ai-employee'' s0 of
        (Inl status, s) \<Rightarrow> (HTTP_Error status, s)
      | (Inr (c, ws), s) \<Rightarrow>
          (case en_uuid_Parse env path of
             None \<Rightarrow> (HTTP_Error 400, s)
           | Some i \<Rightarrow>
               (case employee_Get oe ws i (os_db s) of
                  Inl e \<Rightarrow> AIEmployeeHandler_fail env cx c ''get-ai-employee'' i e s
                | Inr e \<Rightarrow> (HTTP_OK 200 (toAIEmployeeResponse env e), AIEmployeeHandler_record env cx c ''get-ai-employee'' (emp_ID e) ws ''success'' [] s))))"

text \<open>The checks of the body of an update in their order; an empty task id takes the current task away, as the nil one does.\<close>

definition employee_changes_of :: "api_env \<Rightarrow> updateAIEmployeeRequest \<Rightarrow> (string, employee_changes) result" where
  "employee_changes_of env req =
     (if xe_Name req = None \<and> xe_Role req = None \<and> xe_TeamID req = None \<and> xe_Capabilities req = None \<and> xe_CurrentTaskID req = None
      then Inl ''empty_update''
      else case (case xe_Name req of None \<Rightarrow> None | Some n \<Rightarrow> refused_text ''name_blank'' ''name_too_long'' employeeNameMaxRunes (TrimSpace n)) of
        Some detail \<Rightarrow> Inl detail
      | None \<Rightarrow>
          (case (case xe_Role req of None \<Rightarrow> None | Some r \<Rightarrow> refused_text ''role_blank'' ''role_too_long'' employeeRoleMaxRunes (TrimSpace r)) of
             Some detail \<Rightarrow> Inl detail
           | None \<Rightarrow>
               if (case xe_TeamID req of None \<Rightarrow> False | Some t \<Rightarrow> en_uuid_Parse env (TrimSpace t) = None) then Inl ''invalid_team_id''
               else if (case xe_CurrentTaskID req of None \<Rightarrow> False | Some t \<Rightarrow> TrimSpace t \<noteq> [] \<and> en_uuid_Parse env (TrimSpace t) = None)
               then Inl ''invalid_task_id''
               else Inr \<lparr>ec_name = map_option TrimSpace (xe_Name req), ec_role = map_option TrimSpace (xe_Role req),
                         ec_capabilities = xe_Capabilities req,
                         ec_team = Option.bind (xe_TeamID req) (\<lambda>t. en_uuid_Parse env (TrimSpace t)),
                         ec_task = Option.bind (xe_CurrentTaskID req) (\<lambda>t. if TrimSpace t = [] then Some uuid_Nil else en_uuid_Parse env (TrimSpace t))\<rparr>))"

definition AIEmployeeHandler_Update ::
  "api_env \<Rightarrow> org_env \<Rightarrow> api_call \<Rightarrow> org_reads \<Rightarrow> string \<Rightarrow> updateAIEmployeeRequest option \<Rightarrow> org_state \<Rightarrow> aiEmployeeResponse response \<times> org_state" where
  "AIEmployeeHandler_Update env oe cx rd path body s0 =
     (case AIEmployeeHandler_scope env cx ''update-ai-employee'' s0 of
        (Inl status, s) \<Rightarrow> (HTTP_Error status, s)
      | (Inr (c, ws), s) \<Rightarrow>
          (case en_uuid_Parse env path of
             None \<Rightarrow> (HTTP_Error 400, s)
           | Some i \<Rightarrow>
               (case body of
                  None \<Rightarrow> (HTTP_Error 400, AIEmployeeHandler_record env cx c ''update-ai-employee'' i ws ''failed'' ''invalid_body'' s)
                | Some req \<Rightarrow>
                    (case employee_changes_of env req of
                       Inl detail \<Rightarrow> (HTTP_Error 400, AIEmployeeHandler_record env cx c ''update-ai-employee'' i ws ''failed'' detail s)
                     | Inr ch \<Rightarrow>
                         (case employee_Update oe (employee_resolver oe rd) (cx_now cx) (xr_snap rd) ws i ch (os_db s) of
                            Inl e \<Rightarrow> AIEmployeeHandler_fail env cx c ''update-ai-employee'' i e s
                          | Inr (db, e) \<Rightarrow>
                              let e = (if (case xe_CurrentTaskID req of None \<Rightarrow> False | Some t \<Rightarrow> TrimSpace t = []) then e\<lparr>emp_CurrentTaskID := None\<rparr> else e) in
                              (HTTP_OK 200 (toAIEmployeeResponse env e),
                               AIEmployeeHandler_record env cx c ''update-ai-employee'' (emp_ID e) ws ''success'' [] (s\<lparr>os_db := db\<rparr>)))))))"

definition AIEmployeeHandler_Delete :: "api_env \<Rightarrow> org_env \<Rightarrow> api_call \<Rightarrow> string \<Rightarrow> org_state \<Rightarrow> unit response \<times> org_state" where
  "AIEmployeeHandler_Delete env oe cx path s0 =
     (case AIEmployeeHandler_scope env cx ''delete-ai-employee'' s0 of
        (Inl status, s) \<Rightarrow> (HTTP_Error status, s)
      | (Inr (c, ws), s) \<Rightarrow>
          (case en_uuid_Parse env path of
             None \<Rightarrow> (HTTP_Error 400, s)
           | Some i \<Rightarrow>
               (case employee_Delete oe ws i (os_db s) of
                  Inl e \<Rightarrow> AIEmployeeHandler_fail env cx c ''delete-ai-employee'' i e s
                | Inr db \<Rightarrow> (HTTP_OK 204 (), AIEmployeeHandler_record env cx c ''delete-ai-employee'' i ws ''success'' [] (s\<lparr>os_db := db\<rparr>)))))"

subsection \<open>Tenants\<close>

datatype org_request =
    ListDepartments "url_values option" | PostDepartment "string option" | GetDepartment string
  | PatchDepartment string "string option option" | RemoveDepartment string
  | ListTeams "url_values option" | PostTeam "createTeamRequest option" | GetTeam string
  | PatchTeam string "updateTeamRequest option" | RemoveTeam string
  | ListEmployees "url_values option" | PostEmployee "createAIEmployeeRequest option" | GetEmployee string
  | PatchEmployee string "updateAIEmployeeRequest option" | RemoveEmployee string

text \<open>The routes, with the workspaces of the records an answer shows.\<close>

fun org_serve :: "api_env \<Rightarrow> org_env \<Rightarrow> api_call \<Rightarrow> org_reads \<Rightarrow> org_request \<Rightarrow> org_state \<Rightarrow> string list response \<times> org_state" where
  "org_serve env oe cx rd (ListDepartments raw) s = apfst (map_response (\<lambda>p. map dj_WorkspaceID (pj_Items p))) (DepartmentHandler_List env oe cx raw s)"
| "org_serve env oe cx rd (PostDepartment body) s = apfst (map_response (\<lambda>d. [dj_WorkspaceID d])) (DepartmentHandler_Create env oe cx body s)"
| "org_serve env oe cx rd (GetDepartment path) s = apfst (map_response (\<lambda>d. [dj_WorkspaceID d])) (DepartmentHandler_Get env oe cx path s)"
| "org_serve env oe cx rd (PatchDepartment path body) s = apfst (map_response (\<lambda>d. [dj_WorkspaceID d])) (DepartmentHandler_Update env oe cx (xr_snap rd) path body s)"
| "org_serve env oe cx rd (RemoveDepartment path) s = apfst (map_response (\<lambda>_. [])) (DepartmentHandler_Delete env oe cx path s)"
| "org_serve env oe cx rd (ListTeams raw) s = apfst (map_response (\<lambda>p. map tj_WorkspaceID (pj_Items p))) (TeamHandler_List env oe cx raw s)"
| "org_serve env oe cx rd (PostTeam body) s = apfst (map_response (\<lambda>t. [tj_WorkspaceID t])) (TeamHandler_Create env oe cx rd body s)"
| "org_serve env oe cx rd (GetTeam path) s = apfst (map_response (\<lambda>t. [tj_WorkspaceID t])) (TeamHandler_Get env oe cx path s)"
| "org_serve env oe cx rd (PatchTeam path body) s = apfst (map_response (\<lambda>t. [tj_WorkspaceID t])) (TeamHandler_Update env oe cx rd path body s)"
| "org_serve env oe cx rd (RemoveTeam path) s = apfst (map_response (\<lambda>_. [])) (TeamHandler_Delete env oe cx path s)"
| "org_serve env oe cx rd (ListEmployees raw) s = apfst (map_response (\<lambda>p. map ej_WorkspaceID (pj_Items p))) (AIEmployeeHandler_List env oe cx raw s)"
| "org_serve env oe cx rd (PostEmployee body) s = apfst (map_response (\<lambda>e. [ej_WorkspaceID e])) (AIEmployeeHandler_Create env oe cx rd body s)"
| "org_serve env oe cx rd (GetEmployee path) s = apfst (map_response (\<lambda>e. [ej_WorkspaceID e])) (AIEmployeeHandler_Get env oe cx path s)"
| "org_serve env oe cx rd (PatchEmployee path body) s = apfst (map_response (\<lambda>e. [ej_WorkspaceID e])) (AIEmployeeHandler_Update env oe cx rd path body s)"
| "org_serve env oe cx rd (RemoveEmployee path) s = apfst (map_response (\<lambda>_. [])) (AIEmployeeHandler_Delete env oe cx path s)"

definition org_caller :: "api_env \<Rightarrow> api_call \<Rightarrow> (Claims \<times> uuid) option" where
  "org_caller env cx =
     (case cx_claims cx of
        None \<Rightarrow> None
      | Some c \<Rightarrow> (case WorkspaceFromClaims (Some c) of None \<Rightarrow> None | Some b \<Rightarrow> map_option (Pair c) (en_uuid_Parse env b)))"

lemma org_record_db [simp]: "os_db (org_record env cx c k action i ws outcome detail s) = os_db s"
  by (simp add: org_record_def)

lemma org_fail_cases [simp]:
  "fst (org_fail env cx c k action i e s) \<noteq> HTTP_OK st b" "os_db (snd (org_fail env cx c k action i e s)) = os_db s"
  "\<exists>st. fst (org_fail env cx c k action i e s) = HTTP_Error st"
  by (cases e; simp add: org_fail_def)+

lemma scope_refused: "org_caller env cx = None \<Longrightarrow> \<exists>st s'. org_scope env cx k action s = (Inl st, s') \<and> os_db s' = os_db s"
  by (auto simp: org_caller_def org_scope_def split: option.splits)

lemma scope_granted: "org_caller env cx = Some (c, ws) \<Longrightarrow> org_scope env cx k action s = (Inr (c, ws), s)"
  by (auto simp: org_caller_def org_scope_def split: option.splits)

lemmas org_names = DepartmentHandler_record_def TeamHandler_record_def AIEmployeeHandler_record_def DepartmentHandler_scope_def
  TeamHandler_scope_def AIEmployeeHandler_scope_def DepartmentHandler_fail_def TeamHandler_fail_def AIEmployeeHandler_fail_def

lemmas org_handlers = DepartmentHandler_List_def DepartmentHandler_Create_def DepartmentHandler_Get_def DepartmentHandler_Update_def DepartmentHandler_Delete_def
  TeamHandler_List_def TeamHandler_Create_def TeamHandler_Get_def TeamHandler_Update_def TeamHandler_Delete_def
  AIEmployeeHandler_List_def AIEmployeeHandler_Create_def AIEmployeeHandler_Get_def AIEmployeeHandler_Update_def AIEmployeeHandler_Delete_def

lemma org_serve_refused:
  assumes "org_caller env cx = None" "org_serve env oe cx rd req s = (res, s')"
  shows "os_db s' = os_db s \<and> (\<exists>st. res = HTTP_Error st)"
proof -
  have sc: "\<exists>st s1. org_scope env cx k action s = (Inl st, s1) \<and> os_db s1 = os_db s" for k action
    using scope_refused [OF assms(1)] .
  show ?thesis
  proof (cases req)
    case (ListDepartments raw)
    with assms(2) sc [of Departments "''list-department''"] show ?thesis by (auto simp: org_handlers(1) org_names)
  next
    case (PostDepartment body)
    with assms(2) sc [of Departments "''create-department''"] show ?thesis by (auto simp: org_handlers(2) org_names)
  next
    case (GetDepartment path)
    with assms(2) sc [of Departments "''get-department''"] show ?thesis by (auto simp: org_handlers(3) org_names)
  next
    case (PatchDepartment path body)
    with assms(2) sc [of Departments "''update-department''"] show ?thesis by (auto simp: org_handlers(4) org_names)
  next
    case (RemoveDepartment path)
    with assms(2) sc [of Departments "''delete-department''"] show ?thesis by (auto simp: org_handlers(5) org_names)
  next
    case (ListTeams raw)
    with assms(2) sc [of Teams "''list-team''"] show ?thesis by (auto simp: org_handlers(6) org_names)
  next
    case (PostTeam body)
    with assms(2) sc [of Teams "''create-team''"] show ?thesis by (auto simp: org_handlers(7) org_names)
  next
    case (GetTeam path)
    with assms(2) sc [of Teams "''get-team''"] show ?thesis by (auto simp: org_handlers(8) org_names)
  next
    case (PatchTeam path body)
    with assms(2) sc [of Teams "''update-team''"] show ?thesis by (auto simp: org_handlers(9) org_names)
  next
    case (RemoveTeam path)
    with assms(2) sc [of Teams "''delete-team''"] show ?thesis by (auto simp: org_handlers(10) org_names)
  next
    case (ListEmployees raw)
    with assms(2) sc [of Employees "''list-ai-employee''"] show ?thesis by (auto simp: org_handlers(11) org_names)
  next
    case (PostEmployee body)
    with assms(2) sc [of Employees "''create-ai-employee''"] show ?thesis by (auto simp: org_handlers(12) org_names)
  next
    case (GetEmployee path)
    with assms(2) sc [of Employees "''get-ai-employee''"] show ?thesis by (auto simp: org_handlers(13) org_names)
  next
    case (PatchEmployee path body)
    with assms(2) sc [of Employees "''update-ai-employee''"] show ?thesis by (auto simp: org_handlers(14) org_names)
  next
    case (RemoveEmployee path)
    with assms(2) sc [of Employees "''delete-ai-employee''"] show ?thesis by (auto simp: org_handlers(15) org_names)
  qed
qed

text \<open>What the services answer with belongs to the workspace they were called for, and a page has at most 200 records.\<close>

lemma cut_page_rows: "cut_page key limit rows = (page, next) \<Longrightarrow> set page \<subseteq> set rows \<and> (0 \<le> limit \<longrightarrow> int (length page) \<le> limit)"
  by (auto simp: cut_page_def Let_def split: if_splits dest!: in_set_takeD)

lemma org_Normalize_limit: "0 < oq_Limit (org_Normalize q) \<and> oq_Limit (org_Normalize q) \<le> 200"
  by (simp add: org_Normalize_def Let_def)

lemma department_ListPage_ws:
  assumes "department_ListPage oe ws q db = Inr page"
  shows "(\<forall>d \<in> set (op_Items page). dep_WorkspaceID d = ws) \<and> length (op_Items page) \<le> 200"
proof -
  let ?q = "org_Normalize (org_Normalize q)"
  obtain k rows "next" where cut: "cut_page dpr_id (oq_Limit ?q)
      (newest_first department_key (filter (\<lambda>r. dpr_workspace_id r = ws \<and> below department_key k r) (og_departments (seen oe ws db)))) = (rows, next)"
    and page: "op_Items page = map scanDepartment rows"
    using assms by (auto simp: department_ListPage_def DepartmentStore_ListPage_def Let_def split: if_splits option.splits prod.splits)
  show ?thesis
    using cut_page_rows [OF cut] org_Normalize_limit [of "org_Normalize q"] by (auto simp: page scanDepartment_def)
qed

lemma team_ListPage_ws:
  assumes "team_ListPage oe ws q db = Inr page"
  shows "(\<forall>t \<in> set (op_Items page). tm_WorkspaceID t = ws) \<and> length (op_Items page) \<le> 200"
proof -
  let ?q = "org_Normalize (org_Normalize q)" and ?v = "seen oe ws db"
  obtain k rows "next" where cut: "cut_page tmr_id (oq_Limit ?q)
      (newest_first team_key (filter (\<lambda>r. team_wanted ?v ws (oq_Parent ?q) r \<and> below team_key k r) (og_teams ?v))) = (rows, next)"
    and page: "op_Items page = map (scanTeam ?v) rows"
    using assms by (auto simp: team_ListPage_def TeamStore_ListPage_def Let_def split: if_splits option.splits prod.splits)
  show ?thesis
    using cut_page_rows [OF cut] org_Normalize_limit [of "org_Normalize q"] by (auto simp: page scanTeam_def team_wanted_def)
qed

lemma employee_ListPage_ws:
  assumes "employee_ListPage oe ws q db = Inr page"
  shows "(\<forall>e \<in> set (op_Items page). emp_WorkspaceID e = ws) \<and> length (op_Items page) \<le> 200"
proof -
  let ?q = "org_Normalize (org_Normalize q)" and ?v = "seen oe ws db"
  obtain k rows "next" where cut: "cut_page epr_id (oq_Limit ?q)
      (newest_first employee_key (filter (\<lambda>r. employee_wanted ?v ws (oq_Parent ?q) r \<and> below employee_key k r) (og_employees ?v))) = (rows, next)"
    and page: "op_Items page = map (scanEmployee oe ?v) rows"
    using assms by (auto simp: employee_ListPage_def AIEmployeeStore_ListPage_def Let_def split: if_splits option.splits prod.splits)
  show ?thesis
    using cut_page_rows [OF cut] org_Normalize_limit [of "org_Normalize q"] by (auto simp: page scanEmployee_def employee_wanted_def)
qed

lemma department_answers:
  "department_Create oe now gen ws name db = Inr (db', d) \<Longrightarrow> dep_WorkspaceID d = ws"
  "department_Get oe ws i db = Inr d \<Longrightarrow> dep_WorkspaceID d = ws"
  "department_Update oe snap ws i name db = Inr (db', d) \<Longrightarrow> dep_WorkspaceID d = ws"
proof -
  show "dep_WorkspaceID d = ws" if c: "department_Create oe now gen ws name db = Inr (db', d)"
  proof -
    obtain d0 where "department_New now gen ws (TrimSpace name) = Inr d0" "DepartmentStore_Create oe d0 db = Inr (db', d)"
      using c by (auto simp: department_Create_def Let_def split: if_splits sum.splits)
    then show ?thesis by (auto simp: department_New_def DepartmentStore_Create_def Let_def split: if_splits)
  qed
  show "dep_WorkspaceID d = ws" if "department_Get oe ws i db = Inr d"
    using that by (auto simp: department_Get_def DepartmentStore_Get_def scanDepartment_def department_owned_def split: if_splits option.splits dest!: find_SomeD)
  show "dep_WorkspaceID d = ws" if u: "department_Update oe snap ws i name db = Inr (db', d)"
  proof -
    obtain d0 where "DepartmentStore_Update oe ws d0 db = Inr (db', d)"
      using u by (auto simp: department_Update_def Let_def split: if_splits sum.splits)
    then show ?thesis
      by (auto simp: DepartmentStore_Update_def scanDepartment_def department_owned_def Let_def split: if_splits option.splits dest!: find_SomeD)
  qed
qed

lemma team_answers:
  "team_Create oe lookup now gen ws dept name db = Inr (db', t) \<Longrightarrow> tm_WorkspaceID t = ws"
  "team_Get oe ws i db = Inr t \<Longrightarrow> tm_WorkspaceID t = ws"
  "team_Update oe lookup snap ws i name d db = Inr (db', t) \<Longrightarrow> tm_WorkspaceID t = ws"
proof -
  show "tm_WorkspaceID t = ws" if c: "team_Create oe lookup now gen ws dept name db = Inr (db', t)"
  proof -
    obtain t0 where "team_New now gen dept ws (TrimSpace name) = Inr t0" "TeamStore_Create oe t0 db = Inr (db', t)"
      using c by (auto simp: team_Create_def Let_def split: if_splits sum.splits)
    then show ?thesis by (auto simp: team_New_def TeamStore_Create_def Let_def split: if_splits option.splits)
  qed
  show "tm_WorkspaceID t = ws" if "team_Get oe ws i db = Inr t"
    using that by (auto simp: team_Get_def TeamStore_Get_def scanTeam_def team_owned_def Let_def split: if_splits option.splits dest!: find_SomeD)
  show "tm_WorkspaceID t = ws" if u: "team_Update oe lookup snap ws i name d db = Inr (db', t)"
  proof -
    obtain t0 where "TeamStore_Update oe ws t0 db = Inr (db', t)"
      using u by (auto simp: team_Update_def split: if_splits sum.splits)
    then show ?thesis by (auto simp: TeamStore_Update_def Let_def split: if_splits option.splits)
  qed
qed

lemma employee_answers:
  "employee_Create oe lookup now gen ws team name role caps db = Inr (db', e) \<Longrightarrow> emp_WorkspaceID e = ws"
  "employee_Get oe ws i db = Inr e \<Longrightarrow> emp_WorkspaceID e = ws"
  "employee_Update oe lk now snap ws i ch db = Inr (db', e) \<Longrightarrow> emp_WorkspaceID e = ws"
proof -
  show "emp_WorkspaceID e = ws" if c: "employee_Create oe lookup now gen ws team name role caps db = Inr (db', e)"
  proof -
    obtain dept e0 c where "employee_New now gen team ws dept (TrimSpace name) (TrimSpace role) = Inr e0"
      "AIEmployeeStore_Create oe (e0\<lparr>emp_Capabilities := c\<rparr>) db = Inr (db', e)"
      using c by (auto simp: employee_Create_def Let_def split: if_splits sum.splits prod.splits)
    then show ?thesis by (auto simp: employee_New_def AIEmployeeStore_Create_def Let_def split: if_splits option.splits prod.splits)
  qed
  show "emp_WorkspaceID e = ws" if "employee_Get oe ws i db = Inr e"
    using that by (auto simp: employee_Get_def AIEmployeeStore_Get_def scanEmployee_def employee_owned_def Let_def split: if_splits option.splits dest!: find_SomeD)
  show "emp_WorkspaceID e = ws" if u: "employee_Update oe lk now snap ws i ch db = Inr (db', e)"
  proof -
    obtain e0 u where "AIEmployeeStore_Update oe now ws e0 db = Inr (db', u)" "emp_WorkspaceID e = emp_WorkspaceID u"
      using u by (auto simp: employee_Update_def map_sum_def split: if_splits sum.splits prod.splits)
    then show ?thesis by (auto simp: AIEmployeeStore_Update_def Let_def split: if_splits option.splits prod.splits)
  qed
qed

text \<open>A request is refused without effect, or answered with records of the workspace after at most one call of a service.\<close>

definition org_effect :: "org_env \<Rightarrow> uuid \<Rightarrow> api_call \<Rightarrow> org_reads \<Rightarrow> org_state \<Rightarrow> org_state \<Rightarrow> bool" where
  "org_effect oe ws cx rd s s' \<longleftrightarrow> (\<exists>call. org_run oe ws call (os_db s) = Inr (os_db s')
     \<and> pred_option (\<lambda>snap. snap = xr_snap rd) (call_snapshot call) \<and> pred_option (\<lambda>gen. gen = fst (cx_gen cx)) (call_draws call))"

definition org_outcome :: "api_env \<Rightarrow> org_env \<Rightarrow> uuid \<Rightarrow> api_call \<Rightarrow> org_reads \<Rightarrow> org_state \<Rightarrow> string list response \<times> org_state \<Rightarrow> bool" where
  "org_outcome env oe ws cx rd s out \<longleftrightarrow>
     (case fst out of
        HTTP_Error _ \<Rightarrow> os_db (snd out) = os_db s
      | HTTP_OK _ shown \<Rightarrow> (\<forall>w \<in> set shown. w = al_uuid_String (en_lib env) ws) \<and> length shown \<le> 200
          \<and> (os_db (snd out) = os_db s \<or> org_effect oe ws cx rd s (snd out)))"

lemma org_outcome_Error: "os_db s' = os_db s \<Longrightarrow> org_outcome env oe ws cx rd s (HTTP_Error st, s')"
  by (simp add: org_outcome_def)

lemma org_outcome_fail: "org_outcome env oe ws cx rd s (apfst (map_response f) (org_fail env cx c k action i e s))"
  by (cases e) (simp_all add: org_fail_def org_outcome_def)

lemma org_outcome_read:
  "\<forall>w \<in> set shown. w = al_uuid_String (en_lib env) ws \<Longrightarrow> length shown \<le> 200 \<Longrightarrow> os_db s' = os_db s \<Longrightarrow> org_outcome env oe ws cx rd s (HTTP_OK st shown, s')"
  by (simp add: org_outcome_def)

lemma org_outcome_call:
  "\<forall>w \<in> set shown. w = al_uuid_String (en_lib env) ws \<Longrightarrow> length shown \<le> 200 \<Longrightarrow> org_run oe ws call (os_db s) = Inr (os_db s') \<Longrightarrow>
   pred_option (\<lambda>snap. snap = xr_snap rd) (call_snapshot call) \<Longrightarrow> pred_option (\<lambda>gen. gen = fst (cx_gen cx)) (call_draws call) \<Longrightarrow>
   org_outcome env oe ws cx rd s (HTTP_OK st shown, s')"
  by (auto simp: org_outcome_def org_effect_def)

lemmas org_outcomes = org_outcome_Error org_outcome_fail

lemma department_routes:
  assumes "org_caller env cx = Some (c, ws)"
  shows "org_outcome env oe ws cx rd s (org_serve env oe cx rd (ListDepartments raw) s)"
    and "org_outcome env oe ws cx rd s (org_serve env oe cx rd (PostDepartment body) s)"
    and "org_outcome env oe ws cx rd s (org_serve env oe cx rd (GetDepartment path) s)"
    and "org_outcome env oe ws cx rd s (org_serve env oe cx rd (PatchDepartment path body') s)"
    and "org_outcome env oe ws cx rd s (org_serve env oe cx rd (RemoveDepartment path) s)"
proof -
  note sc = scope_granted [OF assms]
  show "org_outcome env oe ws cx rd s (org_serve env oe cx rd (ListDepartments raw) s)"
    by (auto simp: DepartmentHandler_List_def org_names sc toDepartmentPage_def toDepartmentResponse_def split: option.split sum.split
        intro!: org_outcomes org_outcome_read dest: department_ListPage_ws)
  show "org_outcome env oe ws cx rd s (org_serve env oe cx rd (PostDepartment body) s)"
    by (auto simp: DepartmentHandler_Create_def org_names sc toDepartmentResponse_def Let_def split: option.split sum.split
        intro!: org_outcomes org_outcome_call [where call = "CreateDepartment (cx_now cx) (fst (cx_gen cx)) (TrimSpace (the body))"] dest: department_answers)
  show "org_outcome env oe ws cx rd s (org_serve env oe cx rd (GetDepartment path) s)"
    by (auto simp: DepartmentHandler_Get_def org_names sc toDepartmentResponse_def split: option.split sum.split
        intro!: org_outcomes org_outcome_read dest: department_answers)
  show "org_outcome env oe ws cx rd s (org_serve env oe cx rd (PatchDepartment path body') s)"
    by (auto simp: DepartmentHandler_Update_def org_names sc toDepartmentResponse_def Let_def split: option.split sum.split
        intro!: org_outcomes org_outcome_call [where call = "UpdateDepartment (xr_snap rd) (the (en_uuid_Parse env path)) (TrimSpace (the (the body')))"]
        dest: department_answers)
  show "org_outcome env oe ws cx rd s (org_serve env oe cx rd (RemoveDepartment path) s)"
    by (auto simp: DepartmentHandler_Delete_def org_names sc split: option.split sum.split
        intro!: org_outcomes org_outcome_call [where call = "DeleteDepartment (the (en_uuid_Parse env path))"])
qed

lemma team_routes:
  assumes "org_caller env cx = Some (c, ws)"
  shows "org_outcome env oe ws cx rd s (org_serve env oe cx rd (ListTeams raw) s)"
    and "org_outcome env oe ws cx rd s (org_serve env oe cx rd (PostTeam body) s)"
    and "org_outcome env oe ws cx rd s (org_serve env oe cx rd (GetTeam path) s)"
    and "org_outcome env oe ws cx rd s (org_serve env oe cx rd (PatchTeam path body') s)"
    and "org_outcome env oe ws cx rd s (org_serve env oe cx rd (RemoveTeam path) s)"
proof -
  note sc = scope_granted [OF assms]
  show "org_outcome env oe ws cx rd s (org_serve env oe cx rd (ListTeams raw) s)"
    by (auto simp: TeamHandler_List_def org_names sc toTeamPage_def toTeamResponse_def split: option.split sum.split
        intro!: org_outcomes org_outcome_read dest: team_ListPage_ws)
  show "org_outcome env oe ws cx rd s (org_serve env oe cx rd (PostTeam body) s)"
    by (auto simp: TeamHandler_Create_def org_names sc toTeamResponse_def Let_def split: option.split sum.split
        intro!: org_outcomes org_outcome_call [where call = "CreateTeam (team_resolver oe rd) (cx_now cx) (fst (cx_gen cx))
          (the (en_uuid_Parse env (TrimSpace (ct_DepartmentID (the body))))) (TrimSpace (ct_Name (the body)))"] dest: team_answers)
  show "org_outcome env oe ws cx rd s (org_serve env oe cx rd (GetTeam path) s)"
    by (auto simp: TeamHandler_Get_def org_names sc toTeamResponse_def split: option.split sum.split
        intro!: org_outcomes org_outcome_read dest: team_answers)
  show "org_outcome env oe ws cx rd s (org_serve env oe cx rd (PatchTeam path body') s)"
    by (auto simp: TeamHandler_Update_def org_names sc toTeamResponse_def split: option.split sum.split
        intro!: org_outcomes org_outcome_call [where call = "UpdateTeam (team_resolver oe rd) (xr_snap rd) (the (en_uuid_Parse env path))
          (fst (projr (team_changes env (the body')))) (snd (projr (team_changes env (the body'))))"] dest: team_answers)
  show "org_outcome env oe ws cx rd s (org_serve env oe cx rd (RemoveTeam path) s)"
    by (auto simp: TeamHandler_Delete_def org_names sc split: option.split sum.split
        intro!: org_outcomes org_outcome_call [where call = "DeleteTeam (the (en_uuid_Parse env path))"])
qed

lemma employee_routes:
  assumes "org_caller env cx = Some (c, ws)"
  shows "org_outcome env oe ws cx rd s (org_serve env oe cx rd (ListEmployees raw) s)"
    and "org_outcome env oe ws cx rd s (org_serve env oe cx rd (PostEmployee body) s)"
    and "org_outcome env oe ws cx rd s (org_serve env oe cx rd (GetEmployee path) s)"
    and "org_outcome env oe ws cx rd s (org_serve env oe cx rd (PatchEmployee path body') s)"
    and "org_outcome env oe ws cx rd s (org_serve env oe cx rd (RemoveEmployee path) s)"
proof -
  note sc = scope_granted [OF assms]
  show "org_outcome env oe ws cx rd s (org_serve env oe cx rd (ListEmployees raw) s)"
    by (auto simp: AIEmployeeHandler_List_def org_names sc toAIEmployeePage_def toAIEmployeeResponse_def split: option.split sum.split
        intro!: org_outcomes org_outcome_read dest: employee_ListPage_ws)
  show "org_outcome env oe ws cx rd s (org_serve env oe cx rd (PostEmployee body) s)"
    by (auto simp: AIEmployeeHandler_Create_def org_names sc toAIEmployeeResponse_def split: option.split sum.split
        intro!: org_outcomes org_outcome_call [where call = "CreateEmployee (employee_resolver oe rd) (cx_now cx) (fst (cx_gen cx))
          (the (en_uuid_Parse env (TrimSpace (ce_TeamID (the body))))) (TrimSpace (ce_Name (the body))) (TrimSpace (ce_Role (the body))) (ce_Capabilities (the body))"]
        dest: employee_answers)
  show "org_outcome env oe ws cx rd s (org_serve env oe cx rd (GetEmployee path) s)"
    by (auto simp: AIEmployeeHandler_Get_def org_names sc toAIEmployeeResponse_def split: option.split sum.split
        intro!: org_outcomes org_outcome_read dest: employee_answers)
  show "org_outcome env oe ws cx rd s (org_serve env oe cx rd (PatchEmployee path body') s)"
    by (auto simp: AIEmployeeHandler_Update_def org_names sc toAIEmployeeResponse_def Let_def split: option.split sum.split
        intro!: org_outcomes org_outcome_call [where call = "UpdateEmployee (employee_resolver oe rd) (cx_now cx) (xr_snap rd) (the (en_uuid_Parse env path))
          (projr (employee_changes_of env (the body')))"] dest: employee_answers)
  show "org_outcome env oe ws cx rd s (org_serve env oe cx rd (RemoveEmployee path) s)"
    by (auto simp: AIEmployeeHandler_Delete_def org_names sc split: option.split sum.split
        intro!: org_outcomes org_outcome_call [where call = "DeleteEmployee (the (en_uuid_Parse env path))"])
qed

lemma org_serve_granted:
  "org_caller env cx = Some (c, ws) \<Longrightarrow> org_outcome env oe ws cx rd s (org_serve env oe cx rd req s)"
  by (cases req) (simp_all only: department_routes team_routes employee_routes)

text \<open>
  C40. The routes of the organisation are confined to the caller. In every reachable state of the organisation, a request
  without a workspace in its verified claims changes nothing and is answered with an error; any other leaves the departments, teams and
  employees of all other workspaces as they were, shows at most 200 records, all of the caller's
  workspace, and changes nothing when it is answered with an error.
\<close>

theorem org_requests_confined:
  assumes "org_initial w0" "runs (org_step oe) w0 w" "os_db s = ow_db w" "xr_snap rd \<in> org_dbs w" "org_fresh w (fst (cx_gen cx))"
    and "org_serve env oe cx rd req s = (res, s')"
  shows "case org_caller env cx of
      None \<Rightarrow> os_db s' = os_db s \<and> (\<exists>status. res = HTTP_Error status)
    | Some (c, ws) \<Rightarrow> (\<forall>v. v \<noteq> ws \<longrightarrow> org_view v (os_db s') = org_view v (os_db s))
        \<and> (case res of
             HTTP_Error _ \<Rightarrow> os_db s' = os_db s
           | HTTP_OK _ shown \<Rightarrow> set shown \<subseteq> {al_uuid_String (en_lib env) ws} \<and> length shown \<le> 200)"
proof (cases "org_caller env cx")
  case None
  then show ?thesis using org_serve_refused [OF None assms(6)] by simp
next
  case (Some cw)
  obtain c ws where cw: "cw = (c, ws)" by (cases cw)
  have out: "org_outcome env oe ws cx rd s (res, s')"
    using org_serve_granted [OF Some [unfolded cw], of oe rd s req] assms(6) by simp
  have "org_view v (os_db s') = org_view v (os_db s)" if v: "v \<noteq> ws" and eff: "org_effect oe ws cx rd s s'" for v
  proof -
    obtain call where call: "org_run oe ws call (ow_db w) = Inr (os_db s')" and
      possible: "pred_option (\<lambda>snap. snap = xr_snap rd) (call_snapshot call)" "pred_option (\<lambda>gen. gen = fst (cx_gen cx)) (call_draws call)"
      using eff assms(3) by (auto simp: org_effect_def)
    have possible_call: "call_possible w call"
      unfolding call_possible_def
      by (cases "call_snapshot call"; cases "call_draws call") (use possible assms(4,5) in simp_all)
    show ?thesis
      using org_request_inv [OF call possible_call organisation.inv_reachable [OF assms(1,2)]] v assms(3) by (simp add: org_change_def)
  qed
  then show ?thesis
    using out by (auto simp: Some cw org_outcome_def split: response.splits)
qed

text \<open>A member of workspace 1 renames the team of the history.\<close>

definition org_api :: api_env where
  "org_api = \<lparr>en_lib = plain_lib, en_uuid_Parse = (\<lambda>s. map_option (\<lambda>n. word_of_int n) (ParseInt s)), en_time_Parse = (\<lambda>_. None),
     en_time_Format = (\<lambda>_. []), en_auditSink = True\<rparr>"

definition rename_call :: api_call where
  "rename_call = \<lparr>cx_claims = Some member_claims, cx_now = 7, cx_gen = (40, 41), cx_ids = (42, 43), cx_trace = []\<rparr>"

definition rename_state :: org_state where
  "rename_state = \<lparr>os_db = demo_team, os_audit = (sample_genesis, sample_booted)\<rparr>"

definition rename_team :: org_request where
  "rename_team = PatchTeam ''20'' (Some \<lparr>xt_Name = Some ''Models and data'', xt_DepartmentID = None\<rparr>)"

definition rename_reads :: org_reads where
  "rename_reads = \<lparr>xr_parents = demo_team, xr_snap = demo_team\<rparr>"

lemma rename_granted:
  "map_option snd (org_caller org_api rename_call) = Some 1"
  "case fst (org_serve org_api demo_org rename_call rename_reads rename_team rename_state) of HTTP_OK st shown \<Rightarrow> st = 200 \<and> length shown = 1 | _ \<Rightarrow> False"
  by code_simp+

theorem org_requests_confined_witness:
  "\<exists>shown. fst (org_serve org_api demo_org rename_call rename_reads rename_team rename_state) = HTTP_OK 200 shown
     \<and> set shown \<subseteq> {al_uuid_String (en_lib org_api) 1}
     \<and> org_view 2 (os_db (snd (org_serve org_api demo_org rename_call rename_reads rename_team rename_state))) = org_view 2 demo_team"
proof -
  obtain res s' where run: "org_serve org_api demo_org rename_call rename_reads rename_team rename_state = (res, s')" by fastforce
  obtain c where caller: "org_caller org_api rename_call = Some (c, 1)" using rename_granted(1) by auto
  obtain shown where res: "res = HTTP_OK 200 shown" using rename_granted(2) run by (auto split: response.splits)
  have now: "os_db rename_state = ow_db org_reached" "xr_snap rename_reads \<in> org_dbs org_reached"
    by (simp_all add: rename_state_def rename_reads_def org_reached_def org_after_def org_dbs_def)
  have "40 \<notin> org_ids demo_workspaces" "40 \<notin> org_ids demo_department" "40 \<notin> org_ids demo_team" by code_simp+
  then have fresh: "org_fresh org_reached (fst (cx_gen rename_call))"
    by (simp add: org_fresh_def org_dbs_def org_reached_def org_after_def rename_call_def demo_empty_def org_ids_def)
  show ?thesis
    unfolding run res
    using org_requests_confined [OF demo_reachable now fresh run] caller by (auto simp: res rename_state_def)
qed

end
