(* ===== verification/Spec2Isabelle.thy ===== *)
theory Spec2Isabelle
  imports Pipeline_Publication Auth_Tokens Pipeline_Messages Knowledge_Api Memory_Api Org_Api
begin

text \<open>
  Austro OS is the backend of a company whose work is done by AI employees under human
  oversight: a Go program of an API server and queue workers over PostgreSQL, RabbitMQ and Redis. This
  development models its core as HOL functions over explicit states and proves what makes it correct.

  The parts and how they interact. A request is authenticated by a token
  (\<^verbatim>\<open>internal/auth\<close>), admitted by a route limiter (\<^verbatim>\<open>internal/api/ratelimit.go\<close>) and by the rules of
  its role (\<^verbatim>\<open>internal/authz\<close>, \<^verbatim>\<open>internal/rbac\<close>), and served by a handler (\<^verbatim>\<open>internal/api\<close>) on top of a
  service with a PostgreSQL store; mutations are recorded in a hash-chained audit log
  (\<^verbatim>\<open>internal/audit\<close>, \<^verbatim>\<open>infrastructure/auditstore\<close>). Work of an AI employee is an execution
  (\<^verbatim>\<open>internal/execution\<close>): admitted against the capacity of the employee, dispatched through a queue, run
  by a worker that holds a fenced lease, retried or given up. Content goes through a pipeline
  research, script, review, publish (\<^verbatim>\<open>internal/orchestration\<close>), whose last stage hands it to the publishing
  service (\<^verbatim>\<open>internal/publish\<close>) through an adapter (\<^verbatim>\<open>internal/composition/pipeline_publication.go\<close>). The
  stages are driven by messages that sinks publish (\<^verbatim>\<open>infrastructure/rabbitmq\<close>) and a worker consumes
  (\<^verbatim>\<open>internal/worker\<close>, \<^verbatim>\<open>cmd/worker/handler.go\<close>).

  The theories, in the order they build on each other:

  \<^item> \<open>Go_Prelude\<close>, \<open>Go_Text\<close>, \<open>Go_Json\<close>, \<open>Keyset_Pages\<close>, \<open>Api_Base\<close> hold what the components share: identifiers, instants,
    64-bit durations that wrap around, \<^verbatim>\<open>strings.TrimSpace\<close>, decimal texts and UTF-8, \<^verbatim>\<open>encoding/json\<close> above the text, the
    SQL idioms of the stores on lists of rows, runs of a step relation, and the contract of a paged listing.
  \<^item> \<open>Retry_Policy\<close>, \<open>Execution_Domain\<close>, \<open>Execution_Store\<close>, \<open>Execution_Service\<close>, \<open>Execution_Processes\<close> model
    \<^verbatim>\<open>internal/execution\<close> and \<^verbatim>\<open>infrastructure/postgres/executions.go\<close>: each SQL transaction of the store is one function on the
    tables, the dispatcher and the worker are functions over a world that answers their calls. \<open>Execution_Safety\<close>
    makes the transactions the steps of a relation, in any order and at any clock, with the invariant of
    its reachable states; \<open>Execution_Guarantees\<close> derives what the runtime promises.
  \<^item> \<open>Rate_Limits\<close> models \<^verbatim>\<open>internal/security/throttle.go\<close>, \<^verbatim>\<open>guard.go\<close> and \<^verbatim>\<open>internal/api/ratelimit.go\<close>.
  \<^item> \<open>Publication\<close>, \<open>Pipeline\<close> and \<open>Pipeline_Publication\<close> model \<^verbatim>\<open>internal/publish\<close>, \<^verbatim>\<open>internal/orchestration\<close>, their
    PostgreSQL stores and the adapter between them; each operation of a service is cut into its transactions, so that
    histories interleave them.
  \<^item> \<open>Access_Control\<close> models \<^verbatim>\<open>internal/rbac/rbac.go\<close> and \<^verbatim>\<open>internal/authz/authz.go\<close>; \<open>Auth_Tokens\<close> the users, the
    refresh-token store and the token service of \<^verbatim>\<open>internal/auth\<close>.
  \<^item> \<open>Audit_Chain\<close> models \<^verbatim>\<open>internal/audit/audit.go\<close>, \<^verbatim>\<open>store.go\<close> and \<^verbatim>\<open>infrastructure/auditstore/store.go\<close>; \<open>Audit_Read\<close> the
    reader and the audit routes.
  \<^item> \<open>Tasks\<close> and \<open>Task_Api\<close>, \<open>Knowledge\<close> and \<open>Knowledge_Api\<close> model a domain, its service, its
    store and its routes each (\<^verbatim>\<open>internal/task\<close>, \<^verbatim>\<open>internal/knowledge\<close>, their files in \<^verbatim>\<open>infrastructure/postgres\<close> and
    \<^verbatim>\<open>internal/api\<close>); \<open>Memory_Bank\<close> and \<open>Memory_Api\<close> the memory facade over Redis (\<^verbatim>\<open>internal/memory\<close>,
    \<^verbatim>\<open>infrastructure/redis/memory.go\<close>) and its routes.
  \<^item> \<open>Organization\<close> models workspaces, departments, teams and employees (\<^verbatim>\<open>internal/department\<close>, \<^verbatim>\<open>internal/team\<close>,
    \<^verbatim>\<open>internal/aiemployee\<close> and their stores, with the cascades of the foreign keys and row policies that may be on or off),
    \<open>Org_Hierarchy\<close> their histories, \<open>Org_Api\<close> the fifteen routes.
  \<^item> \<open>Message_Worker\<close> models the envelope, the sinks, the settlement of a delivery and both queue
    handlers; \<open>Pipeline_Messages\<close> closes the loop with the pipeline.

  How state and operations correspond to the code. A table is the list of its rows, a row a record with
  the columns; a function of a store is the effect of its SQL statements, with the constraints, the row policies and the
  unique indexes of \<^verbatim>\<open>infrastructure/database\<close> that bear on them. Definitions keep the names of the code, with a prefix
  (\<open>pub_\<close>, \<open>pl_\<close>, \<open>kn_\<close>, the receiver) where several components use one. Errors are the constructors of one
  datatype per component, in the left part of a sum. Clock readings, fresh identifiers and failures of the environment are arguments.

  What the lemmas show. The locale \<open>invariant\<close> of the prelude takes a start, a step relation and an invariant to
  all reachable states, \<open>guarantee\<close> adds a relation along runs; both are interpreted on the step relation of every component with a
  history (\<open>exec\<close>, \<open>capacity\<close>, \<open>pub\<close>, \<open>pipeline\<close>, \<open>composed\<close>, \<open>events\<close>, \<open>sessions\<close>, \<open>identities\<close>, \<open>audit_log\<close>, \<open>audit_chain\<close>, \<open>tasks\<close>,
  \<open>knowledge\<close>, \<open>bank\<close>, \<open>organisation\<close>). \<open>fenced_write\<close> states once what a write under a lease may do, for the five writes of the execution
  store; \<open>keyset_listing\<close> that following cursors reads every row once, for the audit pages;
  \<open>window_limiter\<close> and \<open>throttle_config\<close> what a fixed window grants. The properties are, by group: at most
  one holder of a lease, no write under a superseded fence, capacity and idempotence of admission, no execution stuck, the retry
  delay, truthful outcomes of the worker and the refinement of the runtime by the dispatcher; bounds of the limiters; human
  approval before publication, in the publishing service, the pipeline and their composition; serialised updates and
  typed rows of pipelines; isolation of tenants, in the rules and in every modelled group of routes; single use of refresh tokens and the
  round trip of a login; evidence of tampering, integrity and complete reading of the audit log, and an audit
  event for each mutation; life cycles of tasks; the round trip of a dispatch through the queue and what an
  acknowledgement means; vectors that belong to their document; memory as a map of cells that holds
  no secrets; an organisation without orphans whose tenants stay apart. Each property that has hypotheses is followed by a witness at a concrete input.

  Bounds and fuel. The loop of \<^verbatim>\<open>recoverStale\<close> has no bound in the code and takes fuel here; more fuel than
  running rows is enough (\<open>recovery_pass_completes\<close>). The ticks of the dispatcher and of a heartbeat and the failures of a
  connection are numbers that the environment chooses, with no bound. All other loops are structural or proved to end.

  Hypotheses stand for code outside the program. SHA-256, HMAC, JWT, UUID and time formats are parameters, with what
  their documentation states (parsing gives back what was formatted; a digest is collision free only
  where a property says so). PostgreSQL runs each transaction at once, and its order of
  texts and vectors is a parameter; RabbitMQ delivers what was published; Redis is a map whose entries expire;
  the AI provider and the publishing platforms answer whatever they like.

  Not modelled, and why. Configuration, the composition of the processes, signals, goroutine supervision, dialling and
  reconnecting (only the back-off of the consumer is), migrations, roles and their verification at start-up, TLS,
  the transport of the AI gateway and of the generic publishing platform are glue to external systems without state of their own.
  Log lines, metrics, health and heartbeats only report. Of HTTP the status, the body as a value and the order of checks are modelled; the texts of
  error bodies, headers and the decoding of a JSON body by \<^verbatim>\<open>decodeJSON\<close> are not, a body is given as the decoded value.
  Timestamps are instants; where a cursor depends on it (tasks, knowledge, organisation) they are rounded to the microseconds of
  a column. The remaining handlers and the routing table decode requests for services that are modelled.
\<close>

end
